(* ===== verification/Prelude.thy ===== *)
theory Prelude
  imports Main "HOL-Library.Word" "HOL-Library.Char_ord" "HOL-Library.List_Lexorder" "HOL-Library.Sublist"
begin

text \<open>
  Shared vocabulary of the development: the byte and string types of the Go code, the
  errors of package \<open>io\<close>, the collections of simplification and preservation rules the
  component theories fill, and generic facts about lists, words and maps.

  A Go \<open>string\<close> is a HOL \<open>string\<close> (a list of 8-bit characters, as Go strings are lists
  of bytes); a Go \<open>[]byte\<close> is a list of 8-bit words; \<open>string(b)\<close> and \<open>[]byte(s)\<close>
  are \<open>str_of_bytes\<close> and \<open>bytes_of_str\<close>, which are inverse to each other.
\<close>

section \<open>Types\<close>

type_synonym byte = "8 word"
type_synonym bytes = "byte list"
type_synonym u16 = "16 word"
type_synonym u32 = "32 word"
type_synonym u64 = "64 word"

text \<open>The errors of package \<open>io\<close>, \<open>bufio\<close> and of a connection that the code tells apart.\<close>

datatype io_err = EOF | UnexpectedEOF | BufferFull | IoTimeout | ConnErr

section \<open>Collections of rules\<close>

named_theorems stream_simps \<open>what each read operation leaves of its input\<close>
named_theorems inv_pres \<open>operations that keep a component's invariant\<close>
named_theorems adjust_simps \<open>unfolding the configuration normalisers\<close>
named_theorems frame_simps \<open>fields an operation does not write\<close>

section \<open>Bytes and strings\<close>

definition byte_of_char :: "char \<Rightarrow> byte" where
  "byte_of_char c = of_char c"

definition char_of_byte :: "byte \<Rightarrow> char" where
  "char_of_byte b = char_of (unat b)"

definition bytes_of_str :: "string \<Rightarrow> bytes" where
  "bytes_of_str s = map byte_of_char s"

definition str_of_bytes :: "bytes \<Rightarrow> string" where
  "str_of_bytes b = map char_of_byte b"

lemma unat_byte_of_char [simp]: "unat (byte_of_char c) = of_char c"
proof -
  have lt: "(of_char c :: nat) < 256" by (metis nat_of_char_less_256)
  have "byte_of_char c = word_of_nat (of_char c)"
    unfolding byte_of_char_def by (cases c) (simp add: of_char_def)
  with lt show ?thesis by (simp add: unat_of_nat)
qed

lemma char_of_byte_of_char [simp]: "char_of_byte (byte_of_char c) = c"
  by (simp add: char_of_byte_def)

lemma byte_of_char_of_byte [simp]: "byte_of_char (char_of_byte b) = b"
proof (rule word_unat_eq_iff [THEN iffD2])
  have "unat b < 256" using unsigned_less [of b] by simp
  then show "unat (byte_of_char (char_of_byte b)) = unat b"
    by (simp add: char_of_byte_def)
qed

lemma str_of_bytes_of_str [simp]: "str_of_bytes (bytes_of_str s) = s"
  by (simp add: str_of_bytes_def bytes_of_str_def comp_def)

lemma bytes_of_str_of_bytes [simp]: "bytes_of_str (str_of_bytes b) = b"
  by (simp add: str_of_bytes_def bytes_of_str_def comp_def)

lemma length_bytes_of_str [simp]: "length (bytes_of_str s) = length s"
  by (simp add: bytes_of_str_def)

lemma length_str_of_bytes [simp]: "length (str_of_bytes b) = length b"
  by (simp add: str_of_bytes_def)

lemma bytes_of_str_append [simp]: "bytes_of_str (s @ t) = bytes_of_str s @ bytes_of_str t"
  by (simp add: bytes_of_str_def)

lemma str_of_bytes_append [simp]: "str_of_bytes (a @ b) = str_of_bytes a @ str_of_bytes b"
  by (simp add: str_of_bytes_def)

lemma bytes_of_str_Nil [simp]: "bytes_of_str [] = []"
  by (simp add: bytes_of_str_def)

lemma str_of_bytes_Nil [simp]: "str_of_bytes [] = []"
  by (simp add: str_of_bytes_def)

lemma bytes_of_str_eq_Nil [simp]: "bytes_of_str s = [] \<longleftrightarrow> s = []"
  by (simp add: bytes_of_str_def)

lemma bytes_of_str_inj [simp]: "bytes_of_str s = bytes_of_str t \<longleftrightarrow> s = t"
  by (metis str_of_bytes_of_str)

section \<open>Big- and little-endian words\<close>

text \<open>\<open>binary.BigEndian\<close> and \<open>binary.LittleEndian\<close> on 16- and 32-bit values, and the
  expression \<open>int(b[0])<<8 | int(b[1])\<close> of the hand-written parsers.\<close>

definition be16 :: "byte \<Rightarrow> byte \<Rightarrow> nat" where
  "be16 a b = unat a * 256 + unat b"

definition be16_bytes :: "nat \<Rightarrow> bytes" where
  "be16_bytes n = [of_nat (n div 256), of_nat n]"

definition be32 :: "byte \<Rightarrow> byte \<Rightarrow> byte \<Rightarrow> byte \<Rightarrow> nat" where
  "be32 a b c d = ((unat a * 256 + unat b) * 256 + unat c) * 256 + unat d"

definition be32_bytes :: "nat \<Rightarrow> bytes" where
  "be32_bytes n = [of_nat (n div 16777216), of_nat (n div 65536), of_nat (n div 256), of_nat n]"

lemma byte_lt_256 [simp]: "unat (b :: byte) < 256"
  using unsigned_less [of b] by simp

lemma byte_le_255 [simp]: "unat (b :: byte) \<le> 255"
  using byte_lt_256 [of b] by linarith

lemma unat_of_nat_byte [simp]: "unat (of_nat n :: byte) = n mod 256"
  by (simp add: unat_of_nat)

lemma of_nat_unat_byte [simp]: "of_nat (unat (b :: byte)) = b"
  by simp

lemma be16_bound [simp]: "be16 a b < 65536"
  using byte_lt_256 [of a] byte_lt_256 [of b] unfolding be16_def by linarith

lemma be16_bytes_inv [simp]:
  "n < 65536 \<Longrightarrow> be16 (of_nat (n div 256)) (of_nat n) = n"
  unfolding be16_def by simp

lemma be32_bytes_inv [simp]:
  "n < 4294967296 \<Longrightarrow>
   be32 (of_nat (n div 16777216)) (of_nat (n div 65536)) (of_nat (n div 256)) (of_nat n) = n"
proof -
  assume n: "n < 4294967296"
  have a: "n div 16777216 mod 256 = n div 16777216" using n by simp
  have b: "n div 16777216 * 256 + n div 65536 mod 256 = n div 65536"
    using div_mult_mod_eq [of "n div 65536" 256] by (simp add: div_mult2_eq [symmetric])
  have c: "n div 65536 * 256 + n div 256 mod 256 = n div 256"
    using div_mult_mod_eq [of "n div 256" 256] by (simp add: div_mult2_eq [symmetric])
  show ?thesis unfolding be32_def unat_of_nat_byte a b c by simp
qed

lemma length_be16_bytes [simp]: "length (be16_bytes n) = 2"
  by (simp add: be16_bytes_def)

lemma length_be32_bytes [simp]: "length (be32_bytes n) = 4"
  by (simp add: be32_bytes_def)

section \<open>Lists\<close>

lemma take_length_append [simp]: "take (length xs) (xs @ ys) = xs"
  by simp

lemma list_of_length_2: "length xs = 2 \<Longrightarrow> \<exists>a b. xs = [a, b]"
  by (cases xs; cases "tl xs") auto

lemma list_of_length_4: "length xs = 4 \<Longrightarrow> \<exists>a b c d. xs = [a, b, c, d]"
  by (cases xs; cases "tl xs"; cases "tl (tl xs)"; cases "tl (tl (tl xs))") auto

lemma takeWhile_append_stop:
  "\<lbrakk>\<forall>x \<in> set xs. P x; \<not> P y\<rbrakk> \<Longrightarrow> takeWhile P (xs @ y # ys) = xs"
  by (induction xs) auto

lemma dropWhile_append_stop:
  "\<lbrakk>\<forall>x \<in> set xs. P x; \<not> P y\<rbrakk> \<Longrightarrow> dropWhile P (xs @ y # ys) = y # ys"
  by (induction xs) auto

text \<open>The first element that satisfies a test, as a \<open>for range\<close> loop with a
  \<open>return\<close> or \<open>break\<close> finds it.\<close>

lemma find_append: "find P (xs @ ys) = (case find P xs of None \<Rightarrow> find P ys | Some x \<Rightarrow> Some x)"
  by (induction xs) auto

section \<open>Maps\<close>

text \<open>\<open>delete(m, k)\<close> on a Go map, and the size of a finite one.\<close>

definition map_delete :: "('k \<rightharpoonup> 'v) \<Rightarrow> 'k \<Rightarrow> ('k \<rightharpoonup> 'v)" where
  "map_delete m k = m(k := None)"

lemma map_delete_lookup [simp]: "map_delete m k k' = (if k' = k then None else m k')"
  by (simp add: map_delete_def)

lemma dom_map_delete [simp]: "dom (map_delete m k) = dom m - {k}"
  by (auto simp: map_delete_def)

lemma finite_dom_upd [simp]: "finite (dom (m(k \<mapsto> v))) = finite (dom m)"
  by simp

lemma card_dom_upd:
  "finite (dom m) \<Longrightarrow> card (dom (m(k \<mapsto> v))) = (if m k = None then Suc (card (dom m)) else card (dom m))"
  by (auto simp: domIff insert_absorb)

lemma card_dom_delete:
  "finite (dom m) \<Longrightarrow> card (dom (map_delete m k)) = (if m k = None then card (dom m) else card (dom m) - 1)"
  by (auto simp: domIff)

end
