(* ===== verification/SocksArgs.thy ===== *)
theory SocksArgs
  imports GoStrings
begin

text \<open>
  \<open>common/socks/args.go\<close>: the parameters a SOCKS client passes in its user name and
  password, and the options of pluggable transports. An \<open>Args\<close> map is the list of its
  entries, one per key, in order of insertion (the code reads it by key, or sorted).
\<close>

section \<open>The map of arguments\<close>

type_synonym args = "(string \<times> string list) list"

datatype args_err = FinalEscape | NoEquals | EmptyKey | NoColon | EmptyMethod

definition Get :: "args \<Rightarrow> string \<Rightarrow> string \<times> bool" where
  "Get a k = (case map_of a k of None \<Rightarrow> ([], False)
              | Some [] \<Rightarrow> ([], False) | Some (v # vs) \<Rightarrow> (v, True))"

fun Add :: "args \<Rightarrow> string \<Rightarrow> string \<Rightarrow> args" where
  "Add [] k v = [(k, [v])]"
| "Add ((k', vs) # a) k v = (if k' = k then (k', vs @ [v]) # a else (k', vs) # Add a k v)"

lemma map_of_Add:
  "map_of (Add a k v) k' =
     (if k' = k then Some (case map_of a k of None \<Rightarrow> [v] | Some vs \<Rightarrow> vs @ [v]) else map_of a k')"
  by (induction a k v rule: Add.induct) auto

lemma keys_Add: "fst ` set (Add a k v) = insert k (fst ` set a)"
  by (induction a k v rule: Add.induct) auto

lemma distinct_Add: "distinct (map fst a) \<Longrightarrow> distinct (map fst (Add a k v))"
proof (induction a k v rule: Add.induct)
  case (2 k' vs a k v)
  then show ?case using keys_Add [of a k v] by auto
qed simp

lemma Get_Add: "Get (Add a k v) k = (if \<exists>x xs. map_of a k = Some (x # xs) then Get a k else (v, True))"
  by (auto simp: Get_def map_of_Add split: option.splits list.splits)

section \<open>Escapes\<close>

text \<open>\<open>indexUnescaped\<close>: how far the first terminator is, and the unescaped text before it.\<close>

fun indexUnescaped :: "string \<Rightarrow> char list \<Rightarrow> args_err + (nat \<times> string)" where
  "indexUnescaped [] tm = Inr (0, [])"
| "indexUnescaped (b # s) tm =
     (if b \<in> set tm then Inr (0, [])
      else if b = CHR 0x5C then
        (case s of [] \<Rightarrow> Inl FinalEscape
         | c # s' \<Rightarrow> (case indexUnescaped s' tm of Inl e \<Rightarrow> Inl e
                     | Inr (i, u) \<Rightarrow> Inr (i + 2, c # u)))
      else (case indexUnescaped s tm of Inl e \<Rightarrow> Inl e
            | Inr (i, u) \<Rightarrow> Inr (i + 1, b # u)))"

fun backslashEscape :: "string \<Rightarrow> char list \<Rightarrow> string" where
  "backslashEscape [] cs = []"
| "backslashEscape (b # s) cs =
     (if b = CHR 0x5C \<or> b \<in> set cs then CHR 0x5C # b # backslashEscape s cs
      else b # backslashEscape s cs)"

text \<open>Escaping protects every terminator it was given: reading back stops exactly at the
  end of the escaped text and returns the original.\<close>

lemma indexUnescaped_escape:
  assumes "set tm \<subseteq> set cs" "CHR 0x5C \<notin> set tm" "rest = [] \<or> hd rest \<in> set tm"
  shows "indexUnescaped (backslashEscape s cs @ rest) tm = Inr (length (backslashEscape s cs), s)"
proof (induction s)
  case Nil
  with assms(3) show ?case by (cases rest) auto
next
  case (Cons b s)
  with assms(1,2) show ?case by auto
qed

lemma indexUnescaped_bound: "indexUnescaped s tm = Inr (i, u) \<Longrightarrow> i \<le> length s"
  by (induction s tm arbitrary: i u rule: indexUnescaped.induct)
     (auto split: if_splits sum.splits list.splits)

text \<open>What is left after the index is empty or starts with a terminator.\<close>

lemma indexUnescaped_stop:
  "indexUnescaped s tm = Inr (i, u) \<Longrightarrow> drop i s = [] \<or> hd (drop i s) \<in> set tm"
proof (induction s tm arbitrary: i u rule: indexUnescaped.induct)
  case (2 b s tm)
  show ?case
  proof (cases "b \<in> set tm")
    case True
    with 2(3) show ?thesis by auto
  next
    case nt: False
    show ?thesis
    proof (cases "b = CHR 0x5C")
      case True
      with nt 2(3) obtain c s' i' u' where "s = c # s'" "indexUnescaped s' tm = Inr (i', u')" "i = i' + 2"
        by (auto split: list.splits sum.splits)
      with 2(1) nt True show ?thesis by auto
    next
      case False
      with nt 2(3) obtain i' u' where "indexUnescaped s tm = Inr (i', u')" "i = i' + 1"
        by (auto split: sum.splits)
      with 2(2) nt False show ?thesis by auto
    qed
  qed
qed auto

lemma length_backslashEscape: "length s \<le> length (backslashEscape s cs)"
  by (induction s) auto

section \<open>Client parameters\<close>

text \<open>The loop of \<open>parseClientParameters\<close>, over the text from index \<open>i\<close> on.\<close>

function client_loop :: "string \<Rightarrow> args \<Rightarrow> args_err + args" where
  "client_loop r a =
     (case indexUnescaped r [CHR ''='', CHR '';''] of Inl e \<Rightarrow> Inl e
      | Inr (off, key) \<Rightarrow>
          let r1 = drop off r in
          if r1 = [] \<or> hd r1 \<noteq> CHR ''='' then Inl NoEquals
          else let r2 = tl r1 in
            (case indexUnescaped r2 [CHR '';''] of Inl e \<Rightarrow> Inl e
             | Inr (off2, value) \<Rightarrow>
                 let r3 = drop off2 r2 in
                 if key = [] then Inl EmptyKey
                 else if r3 = [] then Inr (Add a key value)
                 else client_loop (tl r3) (Add a key value)))"
  by pat_completeness auto
termination
  by (relation "measure (\<lambda>(r, a). length r)") auto

declare client_loop.simps [simp del]

definition parseClientParameters :: "string \<Rightarrow> args_err + args" where
  "parseClientParameters s = (if s = [] then Inr [] else client_loop s [])"

section \<open>Server transport options\<close>

type_synonym opts = "(string \<times> args) list"

fun opts_add :: "opts \<Rightarrow> string \<Rightarrow> string \<Rightarrow> string \<Rightarrow> opts" where
  "opts_add [] m k v = [(m, Add [] k v)]"
| "opts_add ((m', a) # os) m k v = (if m' = m then (m', Add a k v) # os else (m', a) # opts_add os m k v)"

function server_loop :: "string \<Rightarrow> opts \<Rightarrow> args_err + opts" where
  "server_loop r os =
     (case indexUnescaped r [CHR '':'', CHR ''='', CHR '';''] of Inl e \<Rightarrow> Inl e
      | Inr (off0, methodName) \<Rightarrow>
          let r0 = drop off0 r in
          if r0 = [] \<or> hd r0 \<noteq> CHR '':'' then Inl NoColon
          else let r' = tl r0 in
            (case indexUnescaped r' [CHR ''='', CHR '';''] of Inl e \<Rightarrow> Inl e
             | Inr (off, key) \<Rightarrow>
                 let r1 = drop off r' in
                 if r1 = [] \<or> hd r1 \<noteq> CHR ''='' then Inl NoEquals
                 else let r2 = tl r1 in
                   (case indexUnescaped r2 [CHR '';''] of Inl e \<Rightarrow> Inl e
                    | Inr (off2, value) \<Rightarrow>
                        let r3 = drop off2 r2 in
                        if methodName = [] then Inl EmptyMethod
                        else if key = [] then Inl EmptyKey
                        else if r3 = [] then Inr (opts_add os methodName key value)
                        else server_loop (tl r3) (opts_add os methodName key value))))"
  by pat_completeness auto
termination
  by (relation "measure (\<lambda>(r, a). length r)") auto

declare server_loop.simps [simp del]

definition parseServerTransportOptions :: "string \<Rightarrow> args_err + opts" where
  "parseServerTransportOptions s = (if s = [] then Inr [] else server_loop s [])"

section \<open>Encoding\<close>

definition encodeSmethodArgs :: "args \<Rightarrow> string" where
  "encodeSmethodArgs a =
     (let keys = sort (map fst a);
          esc = (\<lambda>s. backslashEscape s [CHR ''='', CHR '','']);
          pairs = concat (map (\<lambda>k. map (\<lambda>v. esc k @ ''='' @ esc v)
                                       (case map_of a k of None \<Rightarrow> [] | Some vs \<Rightarrow> vs)) keys)
      in Join pairs '','')"

section \<open>Round trips\<close>

text \<open>The text a client sends for a list of pairs, in the form the parser documents: the
  pairs separated by semicolons, the separators escaped by \<open>backslashEscape\<close>.\<close>

definition client_pair :: "string \<times> string \<Rightarrow> string" where
  "client_pair kv = (let esc = (\<lambda>s. backslashEscape s [CHR ''='', CHR '';''])
                     in esc (fst kv) @ ''='' @ esc (snd kv))"

definition client_text :: "(string \<times> string) list \<Rightarrow> string" where
  "client_text kvs = Join (map client_pair kvs) '';''"

definition add_all :: "args \<Rightarrow> (string \<times> string) list \<Rightarrow> args" where
  "add_all a kvs = foldl (\<lambda>a (k, v). Add a k v) a kvs"

lemma client_loop_pair:
  assumes "k \<noteq> []" "rest = [] \<or> hd rest = CHR '';''"
  shows "client_loop (client_pair (k, v) @ rest) a =
         (if rest = [] then Inr (Add a k v) else client_loop (tl rest) (Add a k v))"
proof -
  let ?ek = "backslashEscape k [CHR ''='', CHR '';'']" and ?ev = "backslashEscape v [CHR ''='', CHR '';'']"
  have 1: "indexUnescaped (?ek @ CHR ''='' # ?ev @ rest) [CHR ''='', CHR '';''] = Inr (length ?ek, k)"
    by (rule indexUnescaped_escape) auto
  have 2: "indexUnescaped (?ev @ rest) [CHR '';''] = Inr (length ?ev, v)"
    by (rule indexUnescaped_escape) (use assms(2) in auto)
  show ?thesis
    using assms by (simp add: client_pair_def client_loop.simps [of "_ @ _"] 1 2 Let_def)
qed

lemma client_loop_text:
  "kvs \<noteq> [] \<Longrightarrow> \<forall>kv \<in> set kvs. fst kv \<noteq> [] \<Longrightarrow> client_loop (client_text kvs) a = Inr (add_all a kvs)"
proof (induction kvs arbitrary: a)
  case Nil
  then show ?case by simp
next
  case (Cons kv kvs)
  obtain k v where kv: "kv = (k, v)" by fastforce
  with Cons.prems have k: "k \<noteq> []" by simp
  show ?case
  proof (cases kvs)
    case Nil
    then show ?thesis
      using client_loop_pair [OF k, of "[]" v a] by (simp add: client_text_def kv add_all_def)
  next
    case (Cons kv' kvs')
    then show ?thesis
      using client_loop_pair [OF k, of "'';'' @ client_text kvs" v a] Cons.IH [of "Add a k v"] Cons.prems
      by (simp add: client_text_def kv add_all_def)
  qed
qed

lemma client_pair_not_Nil [simp]: "client_pair kv \<noteq> []"
  by (simp add: client_pair_def Let_def)

lemma client_text_not_Nil: "kvs \<noteq> [] \<Longrightarrow> client_text kvs \<noteq> []"
  by (cases kvs; cases "tl kvs") (auto simp: client_text_def)

text \<open>The values stored for a key are exactly those that were sent for it, in order.\<close>

lemma map_of_add_all:
  "map_of (add_all a kvs) k =
     (let vs = map snd (filter (\<lambda>kv. fst kv = k) kvs)
      in case map_of a k of None \<Rightarrow> if vs = [] then None else Some vs | Some ws \<Rightarrow> Some (ws @ vs))"
proof (induction kvs arbitrary: a)
  case (Cons kv kvs)
  obtain k' v where kv: "kv = (k', v)" by fastforce
  have "add_all a (kv # kvs) = add_all (Add a k' v) kvs" by (simp add: add_all_def kv)
  with Cons.IH [of "Add a k' v"] show ?case
    by (cases "map_of a k"; cases "map_of a k'"; cases "k' = k") (simp_all add: map_of_Add kv)
qed (simp add: add_all_def split: option.splits)

lemma distinct_add_all: "distinct (map fst a) \<Longrightarrow> distinct (map fst (add_all a kvs))"
  by (induction kvs arbitrary: a) (auto simp: add_all_def distinct_Add)

text \<open>C25: the parameters a client encodes, separators and backslashes escaped, come back from
  the parser: for every key exactly the values sent for it, in order.\<close>

theorem client_parameters_roundtrip:
  assumes "\<forall>kv \<in> set kvs. fst kv \<noteq> []"
  shows "\<exists>a. parseClientParameters (client_text kvs) = Inr a \<and>
    (\<forall>k. map_of a k = (let vs = map snd (filter (\<lambda>kv. fst kv = k) kvs) in if vs = [] then None else Some vs))"
proof (cases "kvs = []")
  case True
  then show ?thesis by (simp add: client_text_def parseClientParameters_def)
next
  case False
  with assms have "parseClientParameters (client_text kvs) = Inr (add_all [] kvs)"
    by (simp add: parseClientParameters_def client_text_not_Nil client_loop_text)
  then show ?thesis by (auto simp: map_of_add_all)
qed

lemma client_parameters_roundtrip_witness:
  "\<exists>a. parseClientParameters (client_text [(''k;'', ''v=''), (''k;'', [])]) = Inr a \<and>
    (\<forall>k. map_of a k = (let vs = map snd (filter (\<lambda>kv. fst kv = k) [(''k;'', ''v=''), (''k;'', [])])
          in if vs = [] then None else Some vs))"
  by (rule client_parameters_roundtrip) simp

end
