(* ===== verification/GoNet.thy ===== *)
theory GoNet
  imports GoStrings
begin

text \<open>
  What the code uses of package \<open>net\<close> (\<open>SplitHostPort\<close>, \<open>JoinHostPort\<close>, \<open>ParseIP\<close>,
  \<open>IP.To4\<close>, \<open>IP.String\<close>) and \<open>filepath.Match\<close>, as in Go 1.10, on ASCII text. An
  \<open>IP\<close> is its byte slice; \<open>ParseIP\<close> always returns the 16-byte form.
\<close>

section \<open>Host and port\<close>

definition last_colon :: "string \<Rightarrow> nat option" where
  "last_colon s =
     (let r = takeWhile (\<lambda>c. c \<noteq> CHR '':'') (rev s)
      in if length r = length s then None else Some (length s - length r - 1))"

text \<open>\<open>net.SplitHostPort\<close>; None is the error return, with empty host and port.\<close>

definition SplitHostPort :: "string \<Rightarrow> (string \<times> string) option" where
  "SplitHostPort hp =
     (case last_colon hp of None \<Rightarrow> None
      | Some i \<Rightarrow>
          (if hp \<noteq> [] \<and> hd hp = CHR ''['' then
             (let end = length (takeWhile (\<lambda>c. c \<noteq> CHR '']'') hp)
              in if end = length hp \<or> end + 1 \<noteq> i then None
                 else let host = drop 1 (take end hp)
                      in if CHR ''['' \<in> set (drop 1 hp) \<or> CHR '']'' \<in> set (drop (end + 1) hp) then None
                         else Some (host, drop (i + 1) hp))
           else
             (let host = take i hp
              in if CHR '':'' \<in> set host \<or> CHR ''['' \<in> set hp \<or> CHR '']'' \<in> set hp then None
                 else Some (host, drop (i + 1) hp))))"

definition JoinHostPort :: "string \<Rightarrow> string \<Rightarrow> string" where
  "JoinHostPort h p =
     (if CHR '':'' \<in> set h then ''['' @ h @ '']:'' @ p else h @ '':'' @ p)"

lemma last_colon_append:
  "CHR '':'' \<notin> set p \<Longrightarrow> last_colon (h @ CHR '':'' # p) = Some (length h)"
proof -
  assume p: "CHR '':'' \<notin> set p"
  have "takeWhile (\<lambda>c. c \<noteq> CHR '':'') (rev p @ CHR '':'' # rev h) = rev p"
    by (rule takeWhile_append_stop) (use p in auto)
  then show ?thesis by (simp add: last_colon_def)
qed

definition plain_host :: "string \<Rightarrow> bool" where
  "plain_host h \<longleftrightarrow> CHR '':'' \<notin> set h \<and> CHR ''['' \<notin> set h \<and> CHR '']'' \<notin> set h"

lemma SplitHostPort_plain:
  assumes "plain_host h" "plain_host p"
  shows "SplitHostPort (h @ CHR '':'' # p) = Some (h, p)"
proof -
  have "h @ CHR '':'' # p \<noteq> [] \<and> hd (h @ CHR '':'' # p) \<noteq> CHR ''[''"
    using assms(1) by (cases h) (auto simp: plain_host_def)
  moreover have "last_colon (h @ CHR '':'' # p) = Some (length h)"
    using assms(2) by (simp add: last_colon_append plain_host_def)
  ultimately show ?thesis
    using assms by (auto simp: SplitHostPort_def Let_def plain_host_def)
qed

lemma plain_host_itoa [simp]: "plain_host (itoa n)"
  by (simp add: plain_host_def)

lemma Split_Join_HostPort:
  "\<lbrakk>plain_host h; plain_host p\<rbrakk> \<Longrightarrow> SplitHostPort (JoinHostPort h p) = Some (h, p)"
  using SplitHostPort_plain [of h p] by (simp add: JoinHostPort_def plain_host_def)

lemma Split_Join_HostPort_bracket:
  assumes h: "CHR '':'' \<in> set h" "CHR ''['' \<notin> set h" "CHR '']'' \<notin> set h" and p: "plain_host p"
  shows "SplitHostPort (JoinHostPort h p) = Some (h, p)"
proof -
  let ?s = "CHR ''['' # h @ CHR '']'' # CHR '':'' # p"
  have lc: "last_colon ?s = Some (length h + 2)"
    using last_colon_append [of p "CHR ''['' # h @ [CHR '']'']"] p by (simp add: plain_host_def)
  have tw: "takeWhile (\<lambda>c. c \<noteq> CHR '']'') (h @ CHR '']'' # CHR '':'' # p) = h"
    by (rule takeWhile_append_stop) (use h in auto)
  show ?thesis
    using h p by (simp add: JoinHostPort_def SplitHostPort_def lc tw Let_def plain_host_def)
qed

section \<open>IP addresses\<close>

definition v4_prefix :: bytes where
  "v4_prefix = [0, 0, 0, 0, 0, 0, 0, 0, 0, 0, 255, 255]"

text \<open>\<open>net.IPv4(a, b, c, d)\<close>.\<close>

definition IPv4 :: "byte \<Rightarrow> byte \<Rightarrow> byte \<Rightarrow> byte \<Rightarrow> bytes" where
  "IPv4 a b c d = v4_prefix @ [a, b, c, d]"

definition To4 :: "bytes \<Rightarrow> bytes option" where
  "To4 ip = (if length ip = 4 then Some ip
             else if length ip = 16 \<and> take 12 ip = v4_prefix then Some (drop 12 ip) else None)"

definition octet :: "string \<Rightarrow> byte option" where
  "octet s = (if s \<noteq> [] \<and> list_all is_digit s \<and> digits_val s \<le> 255 then Some (of_nat (digits_val s)) else None)"

definition parseIPv4 :: "string \<Rightarrow> bytes option" where
  "parseIPv4 s =
     (case map octet (Split s CHR ''.'') of
        [Some a, Some b, Some c, Some d] \<Rightarrow> Some [a, b, c, d]
      | _ \<Rightarrow> None)"

definition hex_val :: "char \<Rightarrow> nat option" where
  "hex_val c = (let n = of_char c :: nat in
     if 48 \<le> n \<and> n \<le> 57 then Some (n - 48)
     else if 97 \<le> n \<and> n \<le> 102 then Some (n - 87)
     else if 65 \<le> n \<and> n \<le> 70 then Some (n - 55) else None)"

text \<open>The leading hexadecimal number and what follows it; None when there is none or it
  passes 16 bits.\<close>

definition xtoi :: "string \<Rightarrow> (nat \<times> string) option" where
  "xtoi s =
     (let ds = takeWhile (\<lambda>c. hex_val c \<noteq> None) s;
          n = foldl (\<lambda>acc c. acc * 16 + the (hex_val c)) 0 ds
      in if ds = [] \<or> n > 65535 then None else Some (n, dropWhile (\<lambda>c. hex_val c \<noteq> None) s))"

text \<open>The loop of \<open>parseIPv6\<close>: at most eight groups, the bytes read so far, and where
  the ellipsis stands. The result also carries the unread rest.\<close>

fun v6_groups :: "nat \<Rightarrow> string \<Rightarrow> bytes \<Rightarrow> nat option \<Rightarrow> (bytes \<times> nat option \<times> string) option" where
  "v6_groups 0 s acc e = Some (acc, e, s)"
| "v6_groups (Suc k) s acc e =
     (case xtoi s of None \<Rightarrow> None
      | Some (n, r) \<Rightarrow>
          if r \<noteq> [] \<and> hd r = CHR ''.'' then
            (if e = None \<and> length acc \<noteq> 12 \<or> length acc + 4 > 16 then None
             else map_option (\<lambda>q. (acc @ q, e, [])) (parseIPv4 s))
          else (let acc' = acc @ be16_bytes n in
            if r = [] then Some (acc', e, [])
            else if hd r \<noteq> CHR '':'' \<or> length r = 1 then None
            else (let s' = tl r in
              if hd s' = CHR '':'' then
                (if e \<noteq> None then None
                 else if tl s' = [] then Some (acc', Some (length acc'), [])
                 else v6_groups k (tl s') acc' (Some (length acc')))
              else v6_groups k s' acc' e)))"

definition parseIPv6 :: "string \<Rightarrow> bytes option" where
  "parseIPv6 s =
     (let lead = HasPrefix s ''::''; s1 = (if lead then drop 2 s else s);
          e0 = (if lead then Some 0 else None)
      in if lead \<and> s1 = [] then Some (replicate 16 0)
         else case v6_groups 8 s1 [] e0 of None \<Rightarrow> None
           | Some (acc, e, rest) \<Rightarrow>
               if rest \<noteq> [] then None
               else if length acc < 16 then
                 (case e of None \<Rightarrow> None
                  | Some p \<Rightarrow> Some (take p acc @ replicate (16 - length acc) 0 @ drop p acc))
               else if e \<noteq> None then None else Some acc)"

definition ParseIP :: "string \<Rightarrow> bytes option" where
  "ParseIP s =
     (case find (\<lambda>c. c = CHR ''.'' \<or> c = CHR '':'') s of
        None \<Rightarrow> None
      | Some c \<Rightarrow> if c = CHR ''.'' then map_option (\<lambda>q. v4_prefix @ q) (parseIPv4 s) else parseIPv6 s)"

definition hex_char :: "nat \<Rightarrow> char" where
  "hex_char d = (if d < 10 then char_of (48 + d) else char_of (87 + d))"

fun hex :: "nat \<Rightarrow> string" where
  "hex n = (if n < 16 then [hex_char n] else hex (n div 16) @ [hex_char (n mod 16)])"

declare hex.simps [simp del]

fun groups16 :: "bytes \<Rightarrow> nat list" where
  "groups16 (a # b # r) = be16 a b # groups16 r"
| "groups16 _ = []"

text \<open>The leftmost longest run of zero groups, as (start, length).\<close>

definition zero_run :: "nat list \<Rightarrow> nat \<times> nat" where
  "zero_run gs = foldl (\<lambda>(e, l) i. let r = length (takeWhile (\<lambda>g. g = 0) (drop i gs))
                                   in if r > l then (i, r) else (e, l)) (0, 0) [0..<length gs]"

definition dotted :: "bytes \<Rightarrow> string" where
  "dotted ip = Join (map (\<lambda>b. itoa (unat b)) ip) ''.''"

definition IPString :: "bytes \<Rightarrow> string" where
  "IPString ip =
     (if ip = [] then ''<nil>''
      else case To4 ip of Some q \<Rightarrow> dotted q
      | None \<Rightarrow>
          if length ip \<noteq> 16 then CHR ''?'' # concat (map (\<lambda>b. [hex_char (unat b div 16), hex_char (unat b mod 16)]) ip)
          else (let gs = groups16 ip; (e, l) = zero_run gs
                in if l \<le> 1 then Join (map hex gs) '':''
                   else Join (map hex (take e gs)) '':'' @ ''::'' @ Join (map hex (drop (e + l) gs)) '':''))"

lemma To4_IPv4 [simp]: "To4 (IPv4 a b c d) = Some [a, b, c, d]"
  by (simp add: To4_def IPv4_def v4_prefix_def)

lemma length_IPv4 [simp]: "length (IPv4 a b c d) = 16"
  by (simp add: IPv4_def v4_prefix_def)

lemma IPString_IPv4: "IPString (IPv4 a b c d) = dotted [a, b, c, d]"
  by (simp add: IPString_def) (simp add: IPv4_def v4_prefix_def)

lemma octet_itoa [simp]: "octet (itoa (unat (b :: byte))) = Some b"
  using byte_le_255 [of b] by (simp add: octet_def itoa_digits)

lemma dotted_Split: "Split (dotted [a, b, c, d]) CHR ''.'' = map (\<lambda>x. itoa (unat x)) [a, b, c, d]"
  unfolding dotted_def by (subst Split_Join) auto

lemma parseIPv4_dotted: "parseIPv4 (dotted [a, b, c, d]) = Some [a, b, c, d]"
  by (simp add: parseIPv4_def dotted_Split)

lemma dotted_first_sep: "find (\<lambda>c. c = CHR ''.'' \<or> c = CHR '':'') (dotted [a, b, c, d]) = Some CHR ''.''"
proof -
  have "find (\<lambda>c. c = CHR ''.'' \<or> c = CHR '':'') (itoa n) = None" for n
    by (auto simp: find_None_iff)
  then show ?thesis by (simp add: dotted_def find_append)
qed

lemma ParseIP_dotted: "ParseIP (dotted [a, b, c, d]) = Some (IPv4 a b c d)"
  by (simp add: ParseIP_def dotted_first_sep parseIPv4_dotted IPv4_def)

lemma plain_host_dotted [simp]: "plain_host (dotted [a, b, c, d])"
  by (simp add: plain_host_def dotted_def)

section \<open>URLs\<close>

text \<open>The result of \<open>url.Parse\<close>: the fields the code reads. A user may have a password.\<close>

record URL =
  Scheme :: string
  uHost :: string
  uUser :: "(string \<times> string option) option"
  uPath :: string
  uRawQuery :: string

definition User_Username :: "URL \<Rightarrow> string" where
  "User_Username u = (case uUser u of None \<Rightarrow> [] | Some (n, p) \<Rightarrow> n)"

definition User_Password :: "URL \<Rightarrow> string" where
  "User_Password u = (case uUser u of Some (n, Some p) \<Rightarrow> p | _ \<Rightarrow> [])"

end
