(* ===== verification/GoBufio.thy ===== *)
theory GoBufio
  imports Prelude
begin

text \<open>
  \<open>bufio.Reader\<close> and \<open>bufio.Writer\<close> over a connection, as the protocol parsers use them.
  A connection hands its bytes over in the segments in which they arrive, one per \<open>Read\<close>;
  after the last segment every \<open>Read\<close> fails with \<open>berr\<close>. The reader keeps at most
  \<open>bufsize\<close> unread bytes. The segmentation is part of the state because the code asks how
  many bytes are buffered.
\<close>

definition bufsize :: nat where
  "bufsize = 4096"

record bufr =
  bbuf :: bytes         \<comment> \<open>read from the connection, not yet consumed\<close>
  bsrc :: "bytes list"  \<comment> \<open>the segments the next reads of the connection return\<close>
  berr :: io_err        \<comment> \<open>the error after the last segment\<close>

text \<open>All bytes still to be consumed, whatever their segmentation.\<close>

definition rest_of :: "bufr \<Rightarrow> bytes" where
  "rest_of r = bbuf r @ concat (bsrc r)"

definition new_reader :: "bytes list \<Rightarrow> io_err \<Rightarrow> bufr" where
  "new_reader segs e = \<lparr>bbuf = [], bsrc = segs, berr = e\<rparr>"

definition Buffered :: "bufr \<Rightarrow> nat" where
  "Buffered r = length (bbuf r)"

text \<open>One \<open>Read\<close> of the connection into the free part of the buffer.\<close>

definition fill :: "bufr \<Rightarrow> io_err + bufr" where
  "fill r = (case dropWhile (\<lambda>c. c = []) (bsrc r) of
       [] \<Rightarrow> Inl (berr r)
     | c # cs \<Rightarrow> (let n = bufsize - length (bbuf r)
                  in Inr (r\<lparr>bbuf := bbuf r @ take n c,
                            bsrc := (if drop n c = [] then cs else drop n c # cs)\<rparr>)))"

lemma concat_dropWhile_Nil: "concat (dropWhile (\<lambda>c. c = []) cs) = concat cs"
  by (induction cs) auto

lemma fill_Inl: "fill r = Inl e \<Longrightarrow> concat (bsrc r) = [] \<and> e = berr r"
  using concat_dropWhile_Nil [of "bsrc r"] by (auto simp: fill_def Let_def split: list.splits)

lemma fill_Inr:
  assumes "fill r = Inr r'"
  shows "rest_of r' = rest_of r \<and> berr r' = berr r"
proof -
  obtain c cs where c: "dropWhile (\<lambda>c. c = []) (bsrc r) = c # cs"
    using assms by (auto simp: fill_def split: list.splits)
  then have "concat (bsrc r) = c @ concat cs"
    using concat_dropWhile_Nil [of "bsrc r"] by simp
  with assms c show ?thesis
    by (auto simp: fill_def Let_def rest_of_def split: if_splits)
qed

lemma fill_progress:
  assumes "fill r = Inr r'" "length (bbuf r) < bufsize"
  shows "length (concat (bsrc r')) < length (concat (bsrc r)) \<and> bbuf r' \<noteq> []"
proof -
  obtain c cs where c: "dropWhile (\<lambda>c. c = []) (bsrc r) = c # cs"
    using assms by (auto simp: fill_def split: list.splits)
  then have ne: "c \<noteq> []" using hd_dropWhile [of "\<lambda>c. c = []" "bsrc r"] by auto
  have cc: "length (concat (bsrc r)) = length c + length (concat cs)"
    using c concat_dropWhile_Nil [of "bsrc r"] by (metis concat.simps(2) length_append)
  show ?thesis
    using assms c ne cc by (auto simp: fill_def Let_def split: if_splits)
qed

text \<open>Reading until \<open>k\<close> bytes are buffered, the buffer is full or the connection fails.\<close>

function fillto :: "nat \<Rightarrow> bufr \<Rightarrow> io_err option \<times> bufr" where
  "fillto k r =
     (if k \<le> length (bbuf r) \<or> bufsize \<le> length (bbuf r) then (None, r)
      else case fill r of Inl e \<Rightarrow> (Some e, r) | Inr r' \<Rightarrow> fillto k r')"
  by pat_completeness auto
termination
  by (relation "measure (\<lambda>(k, r). length (concat (bsrc r)))") (auto dest: fill_progress)

declare fillto.simps [simp del]

lemma fillto_rest [stream_simps]: "rest_of (snd (fillto k r)) = rest_of r \<and> berr (snd (fillto k r)) = berr r"
proof (induction k r rule: fillto.induct)
  case (1 k r)
  then show ?case
    by (auto simp: fillto.simps [of k r] split: sum.splits dest: fill_Inr)
qed

lemma fillto_buffered: "k \<le> length (bbuf r) \<Longrightarrow> fillto k r = (None, r)"
  by (simp add: fillto.simps [of k r])

lemma fillto_enough:
  "k \<le> length (rest_of r) \<Longrightarrow> k \<le> bufsize \<Longrightarrow> fst (fillto k r) = None \<and> k \<le> length (bbuf (snd (fillto k r)))"
proof (induction k r rule: fillto.induct)
  case (1 k r)
  show ?case
  proof (cases "k \<le> length (bbuf r) \<or> bufsize \<le> length (bbuf r)")
    case True
    with "1.prems" show ?thesis by (auto simp: fillto.simps [of k r])
  next
    case False
    show ?thesis
    proof (cases "fill r")
      case (Inl e)
      with "1.prems" False show ?thesis using fill_Inl [OF Inl] by (simp add: rest_of_def)
    next
      case (Inr r')
      with "1.prems" "1.IH" [OF False Inr] fill_Inr [OF Inr] False show ?thesis
        by (simp add: fillto.simps [of k r])
    qed
  qed
qed

lemma fillto_short:
  "length (rest_of r) < k \<Longrightarrow> k \<le> bufsize \<Longrightarrow> fst (fillto k r) = Some (berr r) \<and> bbuf (snd (fillto k r)) = rest_of r"
proof (induction k r rule: fillto.induct)
  case (1 k r)
  have False: "\<not> (k \<le> length (bbuf r) \<or> bufsize \<le> length (bbuf r))"
    using "1.prems" by (auto simp: rest_of_def)
  show ?case
  proof (cases "fill r")
    case (Inl e)
    with False show ?thesis using fill_Inl [OF Inl] by (simp add: fillto.simps [of k r] rest_of_def)
  next
    case (Inr r')
    with "1.prems" "1.IH" [OF False Inr] fill_Inr [OF Inr] False show ?thesis
      by (simp add: fillto.simps [of k r])
  qed
qed

section \<open>Operations of the reader\<close>

text \<open>\<open>Peek(n)\<close>: the bytes, the error if fewer than \<open>n\<close>, and the reader.\<close>

definition Peek :: "nat \<Rightarrow> bufr \<Rightarrow> bytes \<times> io_err option \<times> bufr" where
  "Peek n r = (case fillto n r of (e, r') \<Rightarrow>
     if bufsize < n then (bbuf r', Some BufferFull, r')
     else if length (bbuf r') < n then (bbuf r', e, r')
     else (take n (bbuf r'), None, r'))"

definition ReadByte :: "bufr \<Rightarrow> io_err + (byte \<times> bufr)" where
  "ReadByte r = (case fillto 1 r of (e, r') \<Rightarrow>
     (case bbuf r' of [] \<Rightarrow> Inl (case e of Some x \<Rightarrow> x | None \<Rightarrow> BufferFull)
      | b # bs \<Rightarrow> Inr (b, r'\<lparr>bbuf := bs\<rparr>)))"

text \<open>\<open>io.ReadFull(r, buf)\<close> with a buffer of \<open>need\<close> bytes, below the size at which
  \<open>bufio\<close> reads past its own buffer.\<close>

function read_full :: "nat \<Rightarrow> bytes \<Rightarrow> bufr \<Rightarrow> io_err + (bytes \<times> bufr)" where
  "read_full need acc r =
     (if need = 0 then Inr (acc, r)
      else if bbuf r = [] then
        (case fill r of
           Inl e \<Rightarrow> Inl (if acc \<noteq> [] \<and> e = EOF then UnexpectedEOF else e)
         | Inr r' \<Rightarrow> read_full need acc r')
      else (let k = min need (length (bbuf r))
            in read_full (need - k) (acc @ take k (bbuf r)) (r\<lparr>bbuf := drop k (bbuf r)\<rparr>)))"
  by pat_completeness auto
termination
proof (relation "measure (\<lambda>(n, a, r). n + length (concat (bsrc r)))", goal_cases)
  case 1
  show ?case by simp
next
  case (2 need acc r r')
  then show ?case using fill_progress [of r r'] by (simp add: bufsize_def)
next
  case (3 need acc r k)
  then show ?case by (cases "bbuf r") auto
qed

declare read_full.simps [simp del]

definition ReadFull :: "nat \<Rightarrow> bufr \<Rightarrow> io_err + (bytes \<times> bufr)" where
  "ReadFull n r = read_full n [] r"

text \<open>\<open>ReadBytes(delim)\<close>: up to and including the delimiter.\<close>

function read_until :: "byte \<Rightarrow> bytes \<Rightarrow> bufr \<Rightarrow> io_err + (bytes \<times> bufr)" where
  "read_until d acc r =
     (if d \<in> set (bbuf r) then
        (let l = takeWhile (\<lambda>b. b \<noteq> d) (bbuf r)
         in Inr (acc @ l @ [d], r\<lparr>bbuf := drop (length l + 1) (bbuf r)\<rparr>))
      else if bufsize \<le> length (bbuf r) then read_until d (acc @ bbuf r) (r\<lparr>bbuf := []\<rparr>)
      else case fill r of Inl e \<Rightarrow> Inl e | Inr r' \<Rightarrow> read_until d acc r')"
  by pat_completeness auto
termination
  by (relation "measure (\<lambda>(d, a, r). 2 * length (concat (bsrc r)) + (if bufsize \<le> length (bbuf r) then 1 else 0))")
     (auto simp: bufsize_def dest!: fill_progress)

declare read_until.simps [simp del]

definition ReadBytes :: "byte \<Rightarrow> bufr \<Rightarrow> io_err + (bytes \<times> bufr)" where
  "ReadBytes d r = read_until d [] r"

section \<open>What the operations return\<close>

lemma ReadByte_spec:
  "rest_of r = b # bs \<Longrightarrow> \<exists>r'. ReadByte r = Inr (b, r') \<and> rest_of r' = bs \<and> berr r' = berr r"
proof -
  assume r: "rest_of r = b # bs"
  obtain e r' where f: "fillto 1 r = (e, r')" by fastforce
  have rest: "rest_of r' = b # bs" "berr r' = berr r" and ne: "1 \<le> length (bbuf r')"
    using fillto_rest [of 1 r] fillto_enough [of 1 r] r f by (auto simp: bufsize_def)
  then obtain bs' where "bbuf r' = b # bs'" by (cases "bbuf r'") (auto simp: rest_of_def)
  with f rest show ?thesis by (simp add: ReadByte_def rest_of_def)
qed

lemma ReadByte_empty: "rest_of r = [] \<Longrightarrow> ReadByte r = Inl (berr r)"
  using fillto_short [of r 1] by (cases "fillto 1 r") (simp add: ReadByte_def bufsize_def)

lemma ReadByte_cases:
  "ReadByte r = (case rest_of r of [] \<Rightarrow> Inl (berr r) | b # bs \<Rightarrow> ReadByte r)"
  by (auto split: list.splits intro: ReadByte_empty)

lemma read_full_spec:
  "need \<le> length (rest_of r) \<Longrightarrow>
   \<exists>r'. read_full need acc r = Inr (acc @ take need (rest_of r), r') \<and>
        rest_of r' = drop need (rest_of r) \<and> berr r' = berr r"
proof (induction need acc r rule: read_full.induct)
  case (1 need acc r)
  show ?case
  proof (cases "need = 0")
    case True
    then show ?thesis by (simp add: read_full.simps [of 0])
  next
    case need: False
    show ?thesis
    proof (cases "bbuf r = []")
      case True
      show ?thesis
      proof (cases "fill r")
        case (Inl e)
        then show ?thesis using "1.prems" need True fill_Inl [OF Inl] by (simp add: rest_of_def)
      next
        case (Inr r')
        then show ?thesis
          using "1.IH"(1) [OF need True Inr] "1.prems" need True fill_Inr [OF Inr]
          by (simp add: read_full.simps [of need acc r])
      qed
    next
      case False
      let ?k = "min need (length (bbuf r))"
      have rest: "rest_of (r\<lparr>bbuf := drop ?k (bbuf r)\<rparr>) = drop ?k (rest_of r)"
        by (simp add: rest_of_def)
      have tk: "take ?k (bbuf r) @ take (need - ?k) (drop ?k (rest_of r)) = take need (rest_of r)"
        by (auto simp: rest_of_def min_def)
      show ?thesis
        using "1.IH"(2) [OF need False refl] "1.prems" need False
        by (auto simp: read_full.simps [of need acc r] Let_def rest tk [symmetric] add.commute)
    qed
  qed
qed

lemma ReadFull_spec:
  "n \<le> length (rest_of r) \<Longrightarrow>
   \<exists>r'. ReadFull n r = Inr (take n (rest_of r), r') \<and> rest_of r' = drop n (rest_of r) \<and> berr r' = berr r"
  using read_full_spec [of n r "[]"] by (simp add: ReadFull_def)

lemma read_full_short:
  "length (rest_of r) < need \<Longrightarrow>
   read_full need acc r = Inl (if (acc \<noteq> [] \<or> rest_of r \<noteq> []) \<and> berr r = EOF then UnexpectedEOF else berr r)"
proof (induction need acc r rule: read_full.induct)
  case (1 need acc r)
  then have need: "need \<noteq> 0" by simp
  show ?case
  proof (cases "bbuf r = []")
    case True
    show ?thesis
    proof (cases "fill r")
      case (Inl e)
      then show ?thesis using need True fill_Inl [OF Inl] by (simp add: read_full.simps [of need acc r] rest_of_def)
    next
      case (Inr r')
      then show ?thesis
        using "1.IH"(1) [OF need True Inr] "1.prems" need True fill_Inr [OF Inr]
        by (simp add: read_full.simps [of need acc r])
    qed
  next
    case False
    let ?k = "min need (length (bbuf r))"
    have k: "?k = length (bbuf r)" using "1.prems" by (simp add: rest_of_def)
    have "rest_of (r\<lparr>bbuf := drop ?k (bbuf r)\<rparr>) = concat (bsrc r)" by (simp add: rest_of_def k)
    then show ?thesis
      using "1.IH"(2) [OF need False refl] "1.prems" need False
      by (auto simp: read_full.simps [of need acc r] Let_def k rest_of_def)
  qed
qed

lemma ReadFull_short:
  "length (rest_of r) < n \<Longrightarrow>
   ReadFull n r = Inl (if rest_of r \<noteq> [] \<and> berr r = EOF then UnexpectedEOF else berr r)"
  using read_full_short [of r n "[]"] by (simp add: ReadFull_def)

lemma first_split_eq:
  "d \<notin> set us \<Longrightarrow> d \<notin> set xs \<Longrightarrow> us @ d # vs = xs @ d # ys \<longleftrightarrow> us = xs \<and> vs = ys"
proof (induction us arbitrary: xs)
  case Nil
  then show ?case by (cases xs) auto
next
  case (Cons u us)
  then show ?case by (cases xs) auto
qed

lemma read_until_spec:
  "rest_of r = xs @ d # ys \<Longrightarrow> d \<notin> set xs \<Longrightarrow>
   \<exists>r'. read_until d acc r = Inr (acc @ xs @ [d], r') \<and> rest_of r' = ys \<and> berr r' = berr r"
proof (induction d acc r arbitrary: xs rule: read_until.induct)
  case (1 d acc r)
  show ?case
  proof (cases "d \<in> set (bbuf r)")
    case True
    then obtain us vs where uv: "bbuf r = us @ d # vs" "d \<notin> set us" by (metis split_list_first)
    have xs: "xs = us \<and> ys = vs @ concat (bsrc r)"
      using "1.prems" uv first_split_eq [of d us xs "vs @ concat (bsrc r)" ys] by (simp add: rest_of_def)
    have "takeWhile (\<lambda>b. b \<noteq> d) (us @ d # vs) = us" by (rule takeWhile_append_stop) (use uv in auto)
    with True uv xs show ?thesis by (simp add: read_until.simps [of d acc r] Let_def rest_of_def)
  next
    case nd: False
    show ?thesis
    proof (cases "bufsize \<le> length (bbuf r)")
      case full: True
      have "length (bbuf r) \<le> length xs"
      proof (rule ccontr)
        assume "\<not> ?thesis"
        then have "(xs @ d # ys) ! length xs \<in> set (bbuf r)"
          using "1.prems"(1) by (metis linorder_not_le nth_append nth_mem rest_of_def)
        with nd show False by simp
      qed
      with "1.prems"(1) have xs: "xs = bbuf r @ drop (length (bbuf r)) xs"
        by (metis append_eq_append_conv_if append_take_drop_id rest_of_def)
      have rest: "rest_of (r\<lparr>bbuf := []\<rparr>) = drop (length (bbuf r)) xs @ d # ys"
        using "1.prems"(1) xs by (metis append.assoc append_Nil rest_of_def same_append_eq bufr.select_convs(1,2) bufr.update_convs(1) bufr.surjective)
      show ?thesis
        using "1.IH"(1) [OF nd full rest] "1.prems"(2) nd full xs
        by (simp add: read_until.simps [of d acc r]) (metis in_set_dropD append.assoc)
    next
      case False
      show ?thesis
      proof (cases "fill r")
        case (Inl e)
        then show ?thesis using "1.prems" nd fill_Inl [OF Inl] by (auto simp: rest_of_def)
      next
        case (Inr r')
        then show ?thesis
          using "1.IH"(2) [OF nd False Inr] "1.prems" nd False fill_Inr [OF Inr]
          by (simp add: read_until.simps [of d acc r])
      qed
    qed
  qed
qed

lemma ReadBytes_spec:
  "rest_of r = xs @ d # ys \<Longrightarrow> d \<notin> set xs \<Longrightarrow>
   \<exists>r'. ReadBytes d r = Inr (xs @ [d], r') \<and> rest_of r' = ys \<and> berr r' = berr r"
  using read_until_spec [of r xs d ys "[]"] by (simp add: ReadBytes_def)

text \<open>When the bytes are already buffered, only the buffer moves; when the buffer is empty,
  the next segment is loaded first.\<close>

lemma ReadByte_buf [stream_simps]: "bbuf r = b # bs \<Longrightarrow> ReadByte r = Inr (b, r\<lparr>bbuf := bs\<rparr>)"
  by (simp add: ReadByte_def fillto_buffered)

lemma ReadFull_buf [stream_simps]:
  "n \<le> length (bbuf r) \<Longrightarrow> ReadFull n r = Inr (take n (bbuf r), r\<lparr>bbuf := drop n (bbuf r)\<rparr>)"
  by (cases "n = 0"; cases "bbuf r")
     (auto simp: ReadFull_def read_full.simps [of n] read_full.simps [of 0] Let_def min_def)

lemma fill_load:
  "bbuf r = [] \<Longrightarrow> bsrc r = c # cs \<Longrightarrow> c \<noteq> [] \<Longrightarrow> length c \<le> bufsize \<Longrightarrow>
   fill r = Inr (r\<lparr>bbuf := c, bsrc := cs\<rparr>)"
  by (simp add: fill_def)

lemma fillto_load:
  "bbuf r = [] \<Longrightarrow> bsrc r = (b # bs) # cs \<Longrightarrow> length (b # bs) \<le> bufsize \<Longrightarrow>
   fillto (Suc 0) r = (None, r\<lparr>bbuf := b # bs, bsrc := cs\<rparr>)"
  by (subst fillto.simps) (simp add: fill_load bufsize_def fillto_buffered)

lemma ReadByte_load [stream_simps]:
  "bbuf r = [] \<Longrightarrow> bsrc r = (b # bs) # cs \<Longrightarrow> length (b # bs) \<le> bufsize \<Longrightarrow>
   ReadByte r = Inr (b, r\<lparr>bbuf := bs, bsrc := cs\<rparr>)"
  by (simp add: ReadByte_def fillto_load)

lemma ReadBytes_buf [stream_simps]:
  assumes "bbuf r = xs @ d # ys" "d \<notin> set xs"
  shows "ReadBytes d r = Inr (xs @ [d], r\<lparr>bbuf := ys\<rparr>)"
proof -
  have "takeWhile (\<lambda>b. b \<noteq> d) (xs @ d # ys) = xs" by (rule takeWhile_append_stop) (use assms in auto)
  with assms show ?thesis by (simp add: ReadBytes_def read_until.simps [of d "[]" r] Let_def)
qed

lemma Peek_load [stream_simps]:
  "bbuf r = [] \<Longrightarrow> bsrc r = (b # bs) # cs \<Longrightarrow> length (b # bs) \<le> bufsize \<Longrightarrow>
   Peek 1 r = ([b], None, r\<lparr>bbuf := b # bs, bsrc := cs\<rparr>)"
  by (simp add: Peek_def fillto_load bufsize_def)

lemma Peek_spec:
  "n \<le> length (rest_of r) \<Longrightarrow> n \<le> bufsize \<Longrightarrow>
   \<exists>r'. Peek n r = (take n (rest_of r), None, r') \<and> rest_of r' = rest_of r \<and> berr r' = berr r
        \<and> n \<le> Buffered r'"
  using fillto_enough [of n r] fillto_rest [of n r]
  by (cases "fillto n r") (auto simp: Peek_def rest_of_def Buffered_def dest: arg_cong [of _ _ "take n"])

lemma Peek_short:
  "length (rest_of r) < n \<Longrightarrow> n \<le> bufsize \<Longrightarrow>
   \<exists>r'. Peek n r = (rest_of r, Some (berr r), r')"
  using fillto_short [of r n] by (cases "fillto n r") (auto simp: Peek_def rest_of_def)

lemma Peek_too_long: "bufsize < n \<Longrightarrow> \<exists>bs r'. Peek n r = (bs, Some BufferFull, r')"
  by (cases "fillto n r") (auto simp: Peek_def)

section \<open>Messages and segments\<close>

text \<open>\<open>win r bs t\<close>: the bytes \<open>bs\<close> come next, and a segment boundary separates them from the
  later segments \<open>t\<close>. This is how a peer that waits for an answer after each message is seen:
  however a message is cut into segments, nothing of the next one is buffered at its end.\<close>

definition win :: "bufr \<Rightarrow> bytes \<Rightarrow> bytes list \<Rightarrow> bool" where
  "win r bs t \<longleftrightarrow> (\<exists>segs. bsrc r = segs @ t \<and> bbuf r @ concat segs = bs)"

lemma win_rest: "win r bs t \<Longrightarrow> rest_of r = bs @ concat t"
  by (auto simp: win_def rest_of_def)

lemma win_end: "win r [] t \<Longrightarrow> bbuf r = []"
  by (auto simp: win_def)

lemma win_next: "win r [] (segs @ t) \<Longrightarrow> win r (concat segs) t"
  unfolding win_def by (metis append.assoc append_Nil append_is_Nil_conv concat_append)

lemma win_start: "win (new_reader (segs @ t) e) (concat segs) t"
  by (auto simp: win_def new_reader_def)

lemma win_drop: "win r bs t \<Longrightarrow> n \<le> length (bbuf r) \<Longrightarrow> win (r\<lparr>bbuf := drop n (bbuf r)\<rparr>) (drop n bs) t"
  by (auto simp: win_def)

lemma win_fill:
  assumes w: "win r bs t" and more: "length (bbuf r) < length bs"
  shows "\<exists>r'. fill r = Inr r' \<and> win r' bs t"
proof -
  obtain segs where segs: "bsrc r = segs @ t" "bbuf r @ concat segs = bs" using w by (auto simp: win_def)
  with more have "concat segs \<noteq> []" by auto
  then obtain c cs where c: "dropWhile (\<lambda>c. c = []) segs = c # cs"
    by (cases "dropWhile (\<lambda>c. c = []) segs") auto
  then have "dropWhile (\<lambda>c. c = []) (segs @ t) = c # cs @ t"
    by (metis append_Cons dropWhile_append dropWhile_eq_Nil_conv list.distinct(1))
  moreover have "concat segs = c @ concat cs" using c concat_dropWhile_Nil [of segs] by simp
  ultimately show ?thesis
    using segs by (auto simp: fill_def Let_def win_def intro: exI [of _ cs] exI [of _ "drop _ c # cs"])
qed

lemma win_fillto:
  "win r bs t \<Longrightarrow> k \<le> length bs \<Longrightarrow> win (snd (fillto k r)) bs t"
proof (induction k r rule: fillto.induct)
  case (1 k r)
  show ?case
  proof (cases "k \<le> length (bbuf r) \<or> bufsize \<le> length (bbuf r)")
    case True
    with 1(2) show ?thesis by (auto simp: fillto.simps [of k r])
  next
    case False
    with 1(2,3) obtain r' where "fill r = Inr r'" "win r' bs t" using win_fill [of r bs t] by auto
    with 1 False show ?thesis by (simp add: fillto.simps [of k r])
  qed
qed

lemma ReadByte_win:
  assumes "win r (b # bs) t"
  shows "\<exists>r'. ReadByte r = Inr (b, r') \<and> win r' bs t"
proof -
  obtain e r' where f: "fillto 1 r = (e, r')" by fastforce
  have w: "win r' (b # bs) t" using win_fillto [OF assms, of 1] f by simp
  have "1 \<le> length (bbuf r')" using fillto_enough [of 1 r] win_rest [OF assms] f by (simp add: bufsize_def)
  with w obtain bs' where b: "bbuf r' = b # bs'" by (cases "bbuf r'") (auto simp: win_def)
  with win_drop [OF w, of 1] f show ?thesis by (simp add: ReadByte_def)
qed

lemma read_full_win:
  "win r bs t \<Longrightarrow> need \<le> length bs \<Longrightarrow>
   \<exists>r'. read_full need acc r = Inr (acc @ take need bs, r') \<and> win r' (drop need bs) t"
proof (induction need acc r arbitrary: bs rule: read_full.induct)
  case (1 need acc r)
  show ?case
  proof (cases "need = 0")
    case True
    with 1(3) show ?thesis by (simp add: read_full.simps [of 0])
  next
    case need: False
    show ?thesis
    proof (cases "bbuf r = []")
      case True
      have "length (bbuf r) < length bs" using 1(4) need True by (cases bs) auto
      with win_fill [OF 1(3)] obtain r' where "fill r = Inr r'" "win r' bs t" by blast
      with 1(1) [OF need True] 1(4) need True show ?thesis by (simp add: read_full.simps [of need acc r])
    next
      case False
      let ?k = "min need (length (bbuf r))"
      have tk: "take ?k (bbuf r) = take ?k bs" using 1(3) by (auto simp: win_def)
      have "take ?k bs @ take (need - ?k) (drop ?k bs) = take need bs"
        by (metis le_add_diff_inverse min.cobounded1 take_add)
      with 1(2) [OF need False refl win_drop [OF 1(3)]] 1(4) need False show ?thesis
        by (simp add: read_full.simps [of need acc r] Let_def tk)
    qed
  qed
qed

lemma ReadFull_win:
  "win r bs t \<Longrightarrow> n \<le> length bs \<Longrightarrow> \<exists>r'. ReadFull n r = Inr (take n bs, r') \<and> win r' (drop n bs) t"
  using read_full_win [of r bs t n "[]"] by (simp add: ReadFull_def)

lemma read_until_win:
  "win r (xs @ d # ys) t \<Longrightarrow> d \<notin> set xs \<Longrightarrow>
   \<exists>r'. read_until d acc r = Inr (acc @ xs @ [d], r') \<and> win r' ys t"
proof (induction d acc r arbitrary: xs rule: read_until.induct)
  case (1 d acc r)
  obtain segs where segs: "bsrc r = segs @ t" "bbuf r @ concat segs = xs @ d # ys"
    using 1(3) by (auto simp: win_def)
  show ?case
  proof (cases "d \<in> set (bbuf r)")
    case True
    then obtain us vs where uv: "bbuf r = us @ d # vs" "d \<notin> set us" by (metis split_list_first)
    then have xs: "xs = us \<and> ys = vs @ concat segs"
      using segs 1(4) first_split_eq [of d us xs "vs @ concat segs" ys] by simp
    have "takeWhile (\<lambda>b. b \<noteq> d) (us @ d # vs) = us" by (rule takeWhile_append_stop) (use uv in auto)
    with True uv xs segs show ?thesis by (auto simp: read_until.simps [of d acc r] Let_def win_def)
  next
    case nd: False
    then have xs: "\<exists>xs'. xs = bbuf r @ xs'"
      using segs(2) by (auto simp: append_eq_append_conv2) (metis append_Cons append_Nil hd_in_set list.sel(1) neq_Nil_conv)
    then obtain xs' where xs': "xs = bbuf r @ xs'" by blast
    show ?thesis
    proof (cases "bufsize \<le> length (bbuf r)")
      case full: True
      have "win (r\<lparr>bbuf := []\<rparr>) (xs' @ d # ys) t" using segs xs' by (auto simp: win_def)
      from 1(1) [OF nd full this] 1(4) nd full xs' show ?thesis
        by (auto simp: read_until.simps [of d acc r])
    next
      case False
      obtain r' where "fill r = Inr r'" "win r' (xs @ d # ys) t"
        using win_fill [OF 1(3)] xs' by auto
      with 1(2) [OF nd False] 1(4) nd False show ?thesis by (simp add: read_until.simps [of d acc r])
    qed
  qed
qed

lemma ReadBytes_win:
  "win r (xs @ d # ys) t \<Longrightarrow> d \<notin> set xs \<Longrightarrow> \<exists>r'. ReadBytes d r = Inr (xs @ [d], r') \<and> win r' ys t"
  using read_until_win [of r xs d ys t "[]"] by (simp add: ReadBytes_def)

lemma Peek_win:
  assumes "win r bs t" "n \<le> length bs" "n \<le> bufsize"
  shows "\<exists>r'. Peek n r = (take n bs, None, r') \<and> win r' bs t"
proof -
  obtain e r' where f: "fillto n r = (e, r')" by fastforce
  have w: "win r' bs t" using win_fillto [OF assms(1,2)] f by simp
  have n: "n \<le> length (bbuf r')" using fillto_enough [of n r] win_rest [OF assms(1)] f assms by simp
  then have "take n (bbuf r') = take n bs" using w by (auto simp: win_def)
  with f n w assms(3) show ?thesis by (simp add: Peek_def)
qed

end
