(* ===== verification/Socks.thy ===== *)
theory Socks
  imports SocksArgs GoNet GoBufio
begin

text \<open>
  \<open>common/socks/socks.go\<close>: the SOCKS4a and SOCKS5 handshake of a server. The connection is
  a state: the buffered reader, the buffered writer and what has been written to the peer. An
  operation returns its error or its value together with the new state, because the code
  answers the peer before it returns most of its errors.
\<close>

section \<open>Constants and data\<close>

definition socks4Version :: byte where "socks4Version = 0x04"
definition socks5Version :: byte where "socks5Version = 0x05"
definition socksAuthNoneRequired :: byte where "socksAuthNoneRequired = 0x00"
definition socksAuthUsernamePassword :: byte where "socksAuthUsernamePassword = 0x02"
definition socksAuthNoAcceptableMethods :: byte where "socksAuthNoAcceptableMethods = 0xff"
definition socksCmdConnect :: byte where "socksCmdConnect = 0x01"
definition socksReserved :: byte where "socksReserved = 0x00"
definition socksAtypeV4 :: byte where "socksAtypeV4 = 0x01"
definition socksAtypeDomainName :: byte where "socksAtypeDomainName = 0x03"
definition socksAtypeV6 :: byte where "socksAtypeV6 = 0x04"
definition socksAuthRFC1929Ver :: byte where "socksAuthRFC1929Ver = 0x01"
definition socksAuthRFC1929Success :: byte where "socksAuthRFC1929Success = 0x00"
definition socksAuthRFC1929Fail :: byte where "socksAuthRFC1929Fail = 0x01"
definition socksRepSucceeded :: byte where "socksRepSucceeded = 0x00"
definition SocksRepGeneralFailure :: byte where "SocksRepGeneralFailure = 0x01"
definition SocksRepCommandNotSupported :: byte where "SocksRepCommandNotSupported = 0x07"
definition SocksRepAddressNotSupported :: byte where "SocksRepAddressNotSupported = 0x08"
definition socks4ResponseVersion :: byte where "socks4ResponseVersion = 0x00"
definition socks4RequestGranted :: byte where "socks4RequestGranted = 0x5a"
definition socks4RequestRejected :: byte where "socks4RequestRejected = 0x5b"

lemmas socks_consts =
  socks4Version_def socks5Version_def socksAuthNoneRequired_def socksAuthUsernamePassword_def
  socksAuthNoAcceptableMethods_def socksCmdConnect_def socksReserved_def socksAtypeV4_def
  socksAtypeDomainName_def socksAtypeV6_def socksAuthRFC1929Ver_def socksAuthRFC1929Success_def
  socksAuthRFC1929Fail_def socksRepSucceeded_def SocksRepGeneralFailure_def
  SocksRepCommandNotSupported_def SocksRepAddressNotSupported_def socks4ResponseVersion_def
  socks4RequestGranted_def socks4RequestRejected_def

record SocksRequest =
  Target :: string
  Username :: string
  Password :: string
  ReqArgs :: args

definition empty_req :: SocksRequest where
  "empty_req = \<lparr>Target = [], Username = [], Password = [], ReqArgs = []\<rparr>"

text \<open>The errors, each a \<open>temporaryNetError\<close> of the code with its cause.\<close>

datatype socks_err =
    ErrIO io_err | ErrField byte byte | ErrLeft nat | ErrWrite
  | ErrNoMethod | ErrBadMethod byte | ErrEmptyUser | ErrEmptyPassword | ErrArgs args_err
  | ErrCommand byte | ErrAddrType byte | ErrEmptyDomain | ErrVersion byte

text \<open>The read-writer of a connection; \<open>wok\<close> tells whether writes to the peer succeed.\<close>

record rw =
  rd :: bufr
  wpend :: bytes
  werr :: bool
  sent :: "bytes list"
  wok :: bool

definition new_rw :: "bytes list \<Rightarrow> io_err \<Rightarrow> bool \<Rightarrow> rw" where
  "new_rw segs e ok = \<lparr>rd = new_reader segs e, wpend = [], werr = False, sent = [], wok = ok\<rparr>"

type_synonym 'a sop = "rw \<Rightarrow> (socks_err + 'a) \<times> rw"

definition sret :: "'a \<Rightarrow> 'a sop" where "sret x s = (Inr x, s)"

definition sfail :: "socks_err \<Rightarrow> 'a sop" where "sfail e s = (Inl e, s)"

definition sbind :: "'a sop \<Rightarrow> ('a \<Rightarrow> 'b sop) \<Rightarrow> 'b sop" where
  "sbind m f s = (case m s of (Inl e, s') \<Rightarrow> (Inl e, s') | (Inr x, s') \<Rightarrow> f x s')"

text \<open>\<open>m\<close>, and \<open>h\<close> with its outcome swallowed before an error of \<open>m\<close> is returned.\<close>

definition on_err :: "'a sop \<Rightarrow> unit sop \<Rightarrow> 'a sop" where
  "on_err m h s = (case m s of (Inl e, s') \<Rightarrow> (Inl e, snd (h s')) | r \<Rightarrow> r)"

section \<open>Common helpers\<close>

definition rw_Write :: "bytes \<Rightarrow> unit sop" where
  "rw_Write b s = (if werr s then (Inl ErrWrite, s) else (Inr (), s\<lparr>wpend := wpend s @ b\<rparr>))"

definition rw_Flush :: "unit sop" where
  "rw_Flush s =
     (if werr s then (Inl ErrWrite, s)
      else if wpend s = [] then (Inr (), s)
      else if wok s then (Inr (), s\<lparr>sent := sent s @ [wpend s], wpend := []\<rparr>)
      else (Inl ErrWrite, s\<lparr>werr := True\<rparr>))"

definition socksFlushReadBuffer :: "unit sop" where
  "socksFlushReadBuffer s =
     (if Buffered (rd s) > 0 then (Inl (ErrLeft (Buffered (rd s))), s) else (Inr (), s))"

definition socksFlushBuffers :: "unit sop" where
  "socksFlushBuffers = sbind rw_Flush (\<lambda>_. socksFlushReadBuffer)"

definition socksReadByte :: "byte sop" where
  "socksReadByte s =
     (case ReadByte (rd s) of Inl e \<Rightarrow> (Inl (ErrIO e), s) | Inr (b, r) \<Rightarrow> (Inr b, s\<lparr>rd := r\<rparr>))"

definition socksReadBytes :: "nat \<Rightarrow> bytes sop" where
  "socksReadBytes n s =
     (case ReadFull n (rd s) of Inl e \<Rightarrow> (Inl (ErrIO e), s) | Inr (bs, r) \<Rightarrow> (Inr bs, s\<lparr>rd := r\<rparr>))"

definition socksReadByteVerify :: "byte \<Rightarrow> unit sop" where
  "socksReadByteVerify expected =
     sbind socksReadByte (\<lambda>val. if val \<noteq> expected then sfail (ErrField val expected) else sret ())"

definition socksReadBytesUntil :: "byte \<Rightarrow> bytes sop" where
  "socksReadBytesUntil d s =
     (case ReadBytes d (rd s) of Inl e \<Rightarrow> (Inl (ErrIO e), s) | Inr (bs, r) \<Rightarrow> (Inr bs, s\<lparr>rd := r\<rparr>))"

definition socksPeekByte :: "byte sop" where
  "socksPeekByte s =
     (case Peek 1 (rd s) of (bs, Some e, r) \<Rightarrow> (Inl (ErrIO e), s\<lparr>rd := r\<rparr>)
      | (bs, None, r) \<Rightarrow> (Inr (hd bs), s\<lparr>rd := r\<rparr>))"

section \<open>SOCKS5\<close>

text \<open>The choice among the methods a client offers.\<close>

fun pick_method :: "byte \<Rightarrow> bytes \<Rightarrow> byte" where
  "pick_method method [] = method"
| "pick_method method (m # ms) =
     (if m = socksAuthNoneRequired then
        pick_method (if method = socksAuthNoAcceptableMethods then m else method) ms
      else if m = socksAuthUsernamePassword then pick_method m ms
      else pick_method method ms)"

definition socks5NegotiateAuth :: "byte sop" where
  "socks5NegotiateAuth =
     sbind (socksReadByteVerify socks5Version) (\<lambda>_.
     sbind socksReadByte (\<lambda>nmethods.
     sbind (socksReadBytes (unat nmethods)) (\<lambda>methods.
     let method = pick_method socksAuthNoAcceptableMethods methods in
     sbind (rw_Write [socks5Version, method]) (\<lambda>_.
     sbind socksFlushBuffers (\<lambda>_. sret method)))))"

definition auth_err_resp :: "unit sop" where
  "auth_err_resp = sbind (rw_Write [socksAuthRFC1929Ver, socksAuthRFC1929Fail]) (\<lambda>_. socksFlushBuffers)"

definition sargs :: "args_err + args \<Rightarrow> args sop" where
  "sargs r = (case r of Inl e \<Rightarrow> sfail (ErrArgs e) | Inr a \<Rightarrow> sret a)"

definition socks5AuthRFC1929 :: "SocksRequest \<Rightarrow> SocksRequest sop" where
  "socks5AuthRFC1929 req =
     sbind (on_err (socksReadByteVerify socksAuthRFC1929Ver) auth_err_resp) (\<lambda>_.
     sbind socksReadByte (\<lambda>ulen.
     sbind (if ulen < 1 then on_err (sfail ErrEmptyUser) auth_err_resp else sret ()) (\<lambda>_.
     sbind (socksReadBytes (unat ulen)) (\<lambda>uname.
     sbind socksReadByte (\<lambda>plen.
     sbind (if plen < 1 then on_err (sfail ErrEmptyPassword) auth_err_resp else sret ()) (\<lambda>_.
     sbind (socksReadBytes (unat plen)) (\<lambda>passwd.
     let user = str_of_bytes uname;
         pass = (if \<not> (plen = 1 \<and> passwd ! 0 = 0) then str_of_bytes passwd else Password req) in
     sbind (on_err (sargs (parseClientParameters (user @ pass))) auth_err_resp) (\<lambda>a.
     sbind (rw_Write [socksAuthRFC1929Ver, socksAuthRFC1929Success]) (\<lambda>_.
     sret (req\<lparr>Username := user, Password := pass, ReqArgs := a\<rparr>))))))))))"

definition socks5Authenticate :: "byte \<Rightarrow> SocksRequest \<Rightarrow> SocksRequest sop" where
  "socks5Authenticate method req =
     (if method = socksAuthNoneRequired then sbind socksFlushBuffers (\<lambda>_. sret req)
      else if method = socksAuthUsernamePassword then
        sbind (socks5AuthRFC1929 req) (\<lambda>req'. sbind socksFlushBuffers (\<lambda>_. sret req'))
      else if method = socksAuthNoAcceptableMethods then sfail ErrNoMethod
      else sfail (ErrBadMethod method))"

definition socks5_resp :: "byte \<Rightarrow> bytes" where
  "socks5_resp code = [socks5Version, code, socksReserved, socksAtypeV4, 0, 0, 0, 0, 0, 0]"

definition cmd_err_resp :: "byte \<Rightarrow> unit sop" where
  "cmd_err_resp reason = sbind (rw_Write (socks5_resp reason)) (\<lambda>_. socksFlushBuffers)"

text \<open>The address of a request: IPv4, domain name or IPv6 by its type.\<close>

definition read_host :: "byte \<Rightarrow> string sop" where
  "read_host atype =
     (if atype = socksAtypeV4 then
        sbind (socksReadBytes 4) (\<lambda>addr. sret (IPString (IPv4 (addr ! 0) (addr ! 1) (addr ! 2) (addr ! 3))))
      else if atype = socksAtypeDomainName then
        sbind socksReadByte (\<lambda>alen.
          if alen = 0 then sfail ErrEmptyDomain
          else sbind (socksReadBytes (unat alen)) (\<lambda>addr. sret (str_of_bytes addr)))
      else if atype = socksAtypeV6 then
        sbind (socksReadBytes 16) (\<lambda>raw. sret (''['' @ IPString raw @ '']''))
      else on_err (sfail (ErrAddrType atype)) (cmd_err_resp SocksRepAddressNotSupported))"

definition socks5ReadCommand :: "SocksRequest \<Rightarrow> SocksRequest sop" where
  "socks5ReadCommand req =
     sbind (on_err (socksReadByteVerify socks5Version) (cmd_err_resp SocksRepGeneralFailure)) (\<lambda>_.
     sbind (on_err (socksReadByteVerify socksCmdConnect) (cmd_err_resp SocksRepCommandNotSupported)) (\<lambda>_.
     sbind (on_err (socksReadByteVerify socksReserved) (cmd_err_resp SocksRepGeneralFailure)) (\<lambda>_.
     sbind socksReadByte (\<lambda>atype.
     sbind (read_host atype) (\<lambda>host.
     sbind (socksReadBytes 2) (\<lambda>rawPort.
     let port = be16 (rawPort ! 0) (rawPort ! 1) in
     sbind socksFlushBuffers (\<lambda>_.
     sret (req\<lparr>Target := host @ '':'' @ itoa port\<rparr>))))))))"

definition socks5Handshake :: "SocksRequest sop" where
  "socks5Handshake =
     sbind socks5NegotiateAuth (\<lambda>method.
     sbind (socks5Authenticate method empty_req) socks5ReadCommand)"

section \<open>SOCKS4a\<close>

definition readSocks4aConnect :: "SocksRequest sop" where
  "readSocks4aConnect =
     sbind (socksReadByteVerify socks4Version) (\<lambda>_.
     sbind socksReadByte (\<lambda>cmdConnect.
     sbind (if cmdConnect \<noteq> socksCmdConnect then sfail (ErrCommand cmdConnect) else sret ()) (\<lambda>_.
     sbind (socksReadBytes 2) (\<lambda>rawPort.
     let port = be16 (rawPort ! 0) (rawPort ! 1) in
     sbind (socksReadBytes 4) (\<lambda>ip.
     sbind (socksReadBytesUntil 0) (\<lambda>usernameBytes.
     let user = str_of_bytes (butlast usernameBytes) in
     sbind (sargs (parseClientParameters user)) (\<lambda>a.
     sbind (if ip ! 0 = 0 \<and> ip ! 1 = 0 \<and> ip ! 2 = 0 \<and> ip ! 3 \<noteq> 0
            then sbind (socksReadBytesUntil 0) (\<lambda>hostBytes. sret (str_of_bytes (butlast hostBytes)))
            else sret (IPString (IPv4 (ip ! 0) (ip ! 1) (ip ! 2) (ip ! 3)))) (\<lambda>host.
     sbind socksFlushReadBuffer (\<lambda>_.
     sret \<lparr>Target = host @ '':'' @ itoa port, Username = user, Password = [], ReqArgs = a\<rparr>)))))))))"

section \<open>Connections\<close>

record SocksConn =
  Req :: SocksRequest
  socksVersion :: byte

text \<open>\<open>NewSocksConn\<close>: the request, or the error and whether the reader is handed back
  (it is, unread, when the first byte names no SOCKS version: the local server then looks for
  another protocol on the same connection).\<close>

definition NewSocksConn :: "rw \<Rightarrow> ((socks_err \<times> bool) + SocksConn) \<times> rw" where
  "NewSocksConn s =
     (case socksPeekByte s of
        (Inl e, s') \<Rightarrow> (Inl (e, True), s')
      | (Inr version, s') \<Rightarrow>
          if version = socks4Version then
            (case readSocks4aConnect s' of (Inl e, s'') \<Rightarrow> (Inl (e, False), s'')
             | (Inr req, s'') \<Rightarrow> (Inr \<lparr>Req = req, socksVersion = socks4Version\<rparr>, s''))
          else if version = socks5Version then
            (case socks5Handshake s' of (Inl e, s'') \<Rightarrow> (Inl (e, False), s'')
             | (Inr req, s'') \<Rightarrow> (Inr \<lparr>Req = req, socksVersion = socks5Version\<rparr>, s''))
          else (Inl (ErrVersion version, True), s'))"

text \<open>A response written to the connection itself.\<close>

definition conn_Write :: "bytes \<Rightarrow> unit sop" where
  "conn_Write b s = (if wok s then (Inr (), s\<lparr>sent := sent s @ [b]\<rparr>) else (Inl ErrWrite, s))"

definition sendSocks5Response :: "byte \<Rightarrow> unit sop" where
  "sendSocks5Response code = conn_Write (socks5_resp code)"

definition sendSocks4aResponse :: "byte \<Rightarrow> bytes \<Rightarrow> nat \<Rightarrow> unit sop" where
  "sendSocks4aResponse code ip port =
     conn_Write ([socks4ResponseVersion, code] @ be16_bytes port @
                 (case To4 ip of Some b \<Rightarrow> b | None \<Rightarrow> [0, 0, 0, 0]))"

text \<open>The two answers of each version.\<close>

definition sendSocks5ResponseGranted :: "unit sop" where
  "sendSocks5ResponseGranted = sendSocks5Response socksRepSucceeded"

definition sendSocks5ResponseRejected :: "byte \<Rightarrow> unit sop" where
  "sendSocks5ResponseRejected reason = sendSocks5Response reason"

definition sendSocks4aResponseGranted :: "bytes \<Rightarrow> nat \<Rightarrow> unit sop" where
  "sendSocks4aResponseGranted ip port = sendSocks4aResponse socks4RequestGranted ip port"

definition sendSocks4aResponseRejected :: "unit sop" where
  "sendSocks4aResponseRejected = sendSocks4aResponse socks4RequestRejected (IPv4 0 0 0 0) 0"

lemmas socks_response_defs [simp] = sendSocks5ResponseGranted_def sendSocks5ResponseRejected_def
  sendSocks4aResponseGranted_def sendSocks4aResponseRejected_def

definition Grant :: "SocksConn \<Rightarrow> bytes \<Rightarrow> nat \<Rightarrow> unit sop" where
  "Grant c ip port =
     (if socksVersion c = socks4Version then sendSocks4aResponseGranted ip port else sendSocks5ResponseGranted)"

definition Reject :: "SocksConn \<Rightarrow> unit sop" where
  "Reject c = (if socksVersion c = socks4Version then sendSocks4aResponseRejected else sendSocks5ResponseRejected SocksRepGeneralFailure)"

definition RejectReason :: "SocksConn \<Rightarrow> byte \<Rightarrow> unit sop" where
  "RejectReason c reason =
     (if socksVersion c = socks4Version then sendSocks4aResponseRejected else sendSocks5ResponseRejected reason)"

definition socks_Version :: "SocksConn \<Rightarrow> string" where
  "socks_Version c = (if socksVersion c = socks4Version then ''socks4''
                      else if socksVersion c = socks5Version then ''socks5'' else ''unknown'')"

text \<open>\<open>AcceptSocks\<close> of a listener: the same negotiation, and the connection is closed on
  every error. \<open>dl1\<close> and \<open>dl2\<close> tell whether the two deadlines could be set.\<close>

datatype accept_err = DeadlineFailed | Negotiation socks_err

definition AcceptSocks :: "bool \<Rightarrow> bool \<Rightarrow> rw \<Rightarrow> ((accept_err + SocksConn) \<times> bool) \<times> rw" where
  "AcceptSocks dl1 dl2 s =
     (if \<not> dl1 then ((Inl DeadlineFailed, True), s)
      else case NewSocksConn s of
        (Inl (e, _), s') \<Rightarrow> ((Inl (Negotiation e), True), s')
      | (Inr c, s') \<Rightarrow> if dl2 then ((Inr c, False), s') else ((Inl DeadlineFailed, True), s'))"

text \<open>\<open>Accept\<close> of a listener returns the pointer of \<open>AcceptSocks\<close> as a \<open>net.Conn\<close>: a nil pointer becomes an interface that is
  not nil.\<close>

datatype 'a iface = NilIface | Iface "'a option"

definition Accept :: "bool \<Rightarrow> bool \<Rightarrow> rw \<Rightarrow> (SocksConn iface \<times> accept_err option) \<times> rw" where
  "Accept dl1 dl2 s =
     (case AcceptSocks dl1 dl2 s of
        ((Inl e, _), s') \<Rightarrow> ((Iface None, Some e), s')
      | ((Inr c, _), s') \<Rightarrow> ((Iface (Some c), None), s'))"

definition ListenSocks :: "'l option \<Rightarrow> 'l option" where
  "ListenSocks listener = (case listener of None \<Rightarrow> None | Some l \<Rightarrow> Some l)"

text \<open>The errors of a negotiation say of themselves that they are temporary and no timeouts.\<close>

definition tne_Timeout :: "socks_err \<Rightarrow> bool" where "tne_Timeout e = False"

definition tne_Temporary :: "socks_err \<Rightarrow> bool" where "tne_Temporary e = True"

section \<open>Reasoning about a connection\<close>

text \<open>\<open>sat m s Q\<close>: from \<open>s\<close> the operation succeeds and its value and state satisfy \<open>Q\<close>;
  \<open>fails m s Q\<close>: it returns an error, and the error and the state satisfy \<open>Q\<close>.\<close>

definition sat :: "'a sop \<Rightarrow> rw \<Rightarrow> ('a \<Rightarrow> rw \<Rightarrow> bool) \<Rightarrow> bool" where
  "sat m s Q = (case m s of (Inl e, s') \<Rightarrow> False | (Inr x, s') \<Rightarrow> Q x s')"

definition fails :: "'a sop \<Rightarrow> rw \<Rightarrow> (socks_err \<Rightarrow> rw \<Rightarrow> bool) \<Rightarrow> bool" where
  "fails m s Q = (case m s of (Inl e, s') \<Rightarrow> Q e s' | (Inr x, s') \<Rightarrow> False)"

text \<open>\<open>live s bs t w\<close>: the writes work and none is pending, \<open>w\<close> has been sent, the message
  \<open>bs\<close> is arriving and the segments \<open>t\<close> come after it.\<close>

definition live :: "rw \<Rightarrow> bytes \<Rightarrow> bytes list \<Rightarrow> bytes list \<Rightarrow> bool" where
  "live s bs t w \<longleftrightarrow> win (rd s) bs t \<and> wok s \<and> \<not> werr s \<and> wpend s = [] \<and> sent s = w"

lemma live_new: "live (new_rw (segs @ t) e True) (concat segs) t []"
  by (simp add: live_def new_rw_def win_start)

lemma live_next: "live s [] (segs @ t) w \<Longrightarrow> live s (concat segs) t w"
  by (simp add: live_def win_next)

lemma sat_bind: "sat m s (\<lambda>x s'. sat (f x) s' Q) \<Longrightarrow> sat (sbind m f) s Q"
  by (auto simp: sat_def sbind_def split: prod.splits sum.splits)

lemma sat_ret: "Q x s \<Longrightarrow> sat (sret x) s Q"
  by (simp add: sat_def sret_def)

lemma sat_sret [simp]: "sat (sret x) s Q = Q x s"
  by (simp add: sat_def sret_def)

lemma sat_on_err: "sat m s Q \<Longrightarrow> sat (on_err m h) s Q"
  by (auto simp: sat_def on_err_def split: prod.splits sum.splits)

lemma sat_mono: "sat m s P \<Longrightarrow> (\<And>x s'. P x s' \<Longrightarrow> Q x s') \<Longrightarrow> sat m s Q"
  by (auto simp: sat_def split: prod.splits sum.splits)

lemma sat_byte:
  "live s (b # bs) t w \<Longrightarrow> (\<And>s'. live s' bs t w \<Longrightarrow> Q b s') \<Longrightarrow> sat socksReadByte s Q"
  using ReadByte_win [of "rd s" b bs t] by (auto simp: live_def sat_def socksReadByte_def)

lemma sat_verify:
  "live s (b # bs) t w \<Longrightarrow> (\<And>s'. live s' bs t w \<Longrightarrow> Q () s') \<Longrightarrow> sat (socksReadByteVerify b) s Q"
  unfolding socksReadByteVerify_def by (rule sat_bind, erule sat_byte) (auto intro: sat_ret)

lemma sat_bytes:
  "live s (xs @ bs) t w \<Longrightarrow> n = length xs \<Longrightarrow> (\<And>s'. live s' bs t w \<Longrightarrow> Q xs s') \<Longrightarrow>
   sat (socksReadBytes n) s Q"
  using ReadFull_win [of "rd s" "xs @ bs" t n] by (auto simp: live_def sat_def socksReadBytes_def)

lemma sat_until:
  "live s (xs @ d # bs) t w \<Longrightarrow> d \<notin> set xs \<Longrightarrow> (\<And>s'. live s' bs t w \<Longrightarrow> Q (xs @ [d]) s') \<Longrightarrow>
   sat (socksReadBytesUntil d) s Q"
  using ReadBytes_win [of "rd s" xs d bs t] by (auto simp: live_def sat_def socksReadBytesUntil_def)

lemma sat_flush: "live s [] t w \<Longrightarrow> (\<And>s'. live s' [] t w \<Longrightarrow> Q () s') \<Longrightarrow> sat socksFlushBuffers s Q"
  by (auto simp: live_def sat_def socksFlushBuffers_def sbind_def rw_Flush_def
      socksFlushReadBuffer_def Buffered_def dest: win_end)

lemma sat_flush_read:
  "live s [] t w \<Longrightarrow> (\<And>s'. live s' [] t w \<Longrightarrow> Q () s') \<Longrightarrow> sat socksFlushReadBuffer s Q"
  by (auto simp: live_def sat_def socksFlushReadBuffer_def Buffered_def dest: win_end)

lemma sat_write_flush:
  "live s [] t w \<Longrightarrow> b \<noteq> [] \<Longrightarrow> (\<And>s'. live s' [] t (w @ [b]) \<Longrightarrow> sat (f ()) s' Q) \<Longrightarrow>
   sat (sbind (rw_Write b) (\<lambda>_. sbind socksFlushBuffers f)) s Q"
  by (auto simp: live_def sat_def socksFlushBuffers_def sbind_def rw_Flush_def rw_Write_def
      socksFlushReadBuffer_def Buffered_def dest: win_end)

lemma sat_write_then_flush:
  "live s [] t w \<Longrightarrow> b \<noteq> [] \<Longrightarrow> (\<And>s'. live s' [] t (w @ [b]) \<Longrightarrow> Q x s') \<Longrightarrow>
   sat (rw_Write b) s (\<lambda>_ s'. sat socksFlushBuffers s' (\<lambda>_ s''. Q x s''))"
  by (auto simp: live_def sat_def socksFlushBuffers_def sbind_def rw_Flush_def rw_Write_def
      socksFlushReadBuffer_def Buffered_def dest: win_end)

lemma sat_peek:
  assumes "live s (b # bs) t w"
  shows "\<exists>s'. socksPeekByte s = (Inr b, s') \<and> live s' (b # bs) t w"
  using assms Peek_win [of "rd s" "b # bs" t 1]
  by (auto simp: live_def socksPeekByte_def bufsize_def)

section \<open>The messages of a client\<close>

definition greeting :: "bytes \<Rightarrow> bytes" where
  "greeting methods = [socks5Version, of_nat (length methods)] @ methods"

definition auth_msg :: "bytes \<Rightarrow> bytes \<Rightarrow> bytes" where
  "auth_msg user pass = [socksAuthRFC1929Ver, of_nat (length user)] @ user @ [of_nat (length pass)] @ pass"

datatype dest = DomainDest string | V4Dest byte byte byte byte | V6Dest bytes

fun dest_bytes :: "dest \<Rightarrow> bytes" where
  "dest_bytes (V4Dest a b c d) = [socksAtypeV4, a, b, c, d]"
| "dest_bytes (DomainDest h) = [socksAtypeDomainName, of_nat (length h)] @ bytes_of_str h"
| "dest_bytes (V6Dest ip) = socksAtypeV6 # ip"

fun dest_host :: "dest \<Rightarrow> string" where
  "dest_host (V4Dest a b c d) = dotted [a, b, c, d]"
| "dest_host (DomainDest h) = h"
| "dest_host (V6Dest ip) = ''['' @ IPString ip @ '']''"

fun dest_ok :: "dest \<Rightarrow> bool" where
  "dest_ok (V4Dest a b c d) = True"
| "dest_ok (DomainDest h) = (h \<noteq> [] \<and> length h < 256)"
| "dest_ok (V6Dest ip) = (length ip = 16)"

definition connect_msg :: "dest \<Rightarrow> nat \<Rightarrow> bytes" where
  "connect_msg d port = [socks5Version, socksCmdConnect, socksReserved] @ dest_bytes d @ be16_bytes port"

lemma be16_bytes_nth: "n < 65536 \<Longrightarrow> be16 (be16_bytes n ! 0) (be16_bytes n ! Suc 0) = n"
  using be16_bytes_inv [of n] by (simp add: be16_bytes_def)

lemma of_nat_byte_less_1: "n < 256 \<Longrightarrow> n \<noteq> 0 \<Longrightarrow> \<not> (of_nat n :: byte) < 1"
  by (simp add: word_less_nat_alt)

lemma of_nat_byte_eq: "n < 256 \<Longrightarrow> m < 256 \<Longrightarrow> (of_nat n :: byte) = of_nat m \<longleftrightarrow> n = m"
  by (metis mod_less unat_of_nat_byte)

lemma of_nat_byte_0: "n < 256 \<Longrightarrow> (of_nat n :: byte) = 0 \<longleftrightarrow> n = 0"
  using of_nat_byte_eq [of n 0] by simp

lemma of_nat_byte_1: "n < 256 \<Longrightarrow> (of_nat n :: byte) = 1 \<longleftrightarrow> n = 1"
  using of_nat_byte_eq [of n 1] by simp

section \<open>The parts of the handshake\<close>

text \<open>The best method among those offered: user name and password if it is there.\<close>

lemma pick_method_user: "pick_method socksAuthUsernamePassword ms = socksAuthUsernamePassword"
  by (induction ms) (simp_all add: socks_consts)

lemma pick_method_none:
  "pick_method socksAuthNoneRequired ms =
     (if socksAuthUsernamePassword \<in> set ms then socksAuthUsernamePassword else socksAuthNoneRequired)"
  by (induction ms) (auto simp: socks_consts pick_method_user [unfolded socks_consts])

lemma pick_method_offered:
  "pick_method socksAuthNoAcceptableMethods ms =
     (if socksAuthUsernamePassword \<in> set ms then socksAuthUsernamePassword
      else if socksAuthNoneRequired \<in> set ms then socksAuthNoneRequired
      else socksAuthNoAcceptableMethods)"
  by (induction ms) (auto simp: pick_method_user pick_method_none socks_consts
      pick_method_user [unfolded socks_consts] pick_method_none [unfolded socks_consts])

lemma sat_negotiate:
  assumes "live s (greeting methods) t w" "length methods < 256"
    and "\<And>s'. live s' [] t (w @ [[socks5Version, pick_method socksAuthNoAcceptableMethods methods]]) \<Longrightarrow>
         Q (pick_method socksAuthNoAcceptableMethods methods) s'"
  shows "sat socks5NegotiateAuth s Q"
  unfolding socks5NegotiateAuth_def Let_def
  apply (rule sat_bind, rule sat_verify)
   apply (use assms(1) in \<open>simp add: greeting_def\<close>)
  apply (rule sat_bind, erule sat_byte)
  apply (rule sat_bind, rule sat_bytes [where bs = "[]" and xs = methods])
    apply simp
   apply (use assms(2) in simp)
  apply (erule sat_write_flush, simp)
  apply (rule sat_ret, erule assms(3))
  done

definition pass_of :: "bytes \<Rightarrow> string" where
  "pass_of pass = (if pass = [0] then [] else str_of_bytes pass)"

lemma sat_auth:
  assumes "live s (auth_msg user pass) t w" "user \<noteq> []" "length user < 256" "pass \<noteq> []" "length pass < 256"
    and a: "parseClientParameters (str_of_bytes user @ pass_of pass) = Inr a"
    and Q: "\<And>s'. live s' [] t (w @ [[socksAuthRFC1929Ver, socksAuthRFC1929Success]]) \<Longrightarrow>
         Q (empty_req\<lparr>Username := str_of_bytes user, Password := pass_of pass, ReqArgs := a\<rparr>) s'"
  shows "sat (socks5Authenticate socksAuthUsernamePassword empty_req) s Q"
proof -
  have p: "(if \<not> (of_nat (length pass) = (1 :: byte) \<and> pass ! 0 = 0) then str_of_bytes pass else Password empty_req) = pass_of pass"
    using assms(5) by (cases "length pass = 1")
      (auto simp: pass_of_def of_nat_byte_1 empty_req_def length_Suc_conv)
  have m: "socksAuthUsernamePassword \<noteq> socksAuthNoneRequired" by (simp add: socks_consts)
  show ?thesis
    unfolding socks5Authenticate_def socks5AuthRFC1929_def Let_def if_not_P [OF m] if_P [OF refl]
    apply (rule sat_bind, rule sat_bind, rule sat_on_err, rule sat_verify)
     apply (use assms(1) in \<open>simp add: auth_msg_def\<close>)
    apply (rule sat_bind, erule sat_byte)
    apply (rule sat_bind)
    apply (subst if_not_P, rule of_nat_byte_less_1, rule assms(3), use assms(2) in simp)
    apply (rule sat_ret, rule sat_bind, erule sat_bytes)
     apply (use assms(3) in simp)
    apply (rule sat_bind, erule sat_byte)
    apply (rule sat_bind)
    apply (subst if_not_P, rule of_nat_byte_less_1, rule assms(5), use assms(4) in simp)
    apply (rule sat_ret, rule sat_bind, rule sat_bytes [where bs = "[]" and xs = pass], simp)
     apply (use assms(5) in simp)
    apply (rule sat_bind, rule sat_on_err)
    apply (unfold p a sargs_def, simp)
    apply (rule sat_bind)
    apply (rule sat_mono, erule sat_write_then_flush [where Q = "\<lambda>x. Q (empty_req\<lparr>Username := str_of_bytes user, Password := pass_of pass, ReqArgs := a\<rparr>)"])
      apply simp
     apply (erule Q)
    apply (rule sat_ret, rule sat_bind, erule sat_mono)
    apply (erule sat_ret)
    done
qed

lemma sat_no_auth:
  "live s [] t w \<Longrightarrow> (\<And>s'. live s' [] t w \<Longrightarrow> Q empty_req s') \<Longrightarrow>
   sat (socks5Authenticate socksAuthNoneRequired empty_req) s Q"
  unfolding socks5Authenticate_def if_P [OF refl]
  by (rule sat_bind, erule sat_flush) (auto intro: sat_ret)

lemma sat_host:
  assumes "live s (tl (dest_bytes d) @ bs) t w" "dest_ok d"
    and "\<And>s'. live s' bs t w \<Longrightarrow> Q (dest_host d) s'"
  shows "sat (read_host (hd (dest_bytes d))) s Q"
proof (cases d)
  case (V4Dest a b c d')
  with assms show ?thesis
    by (auto simp: read_host_def IPString_IPv4 intro!: sat_bind sat_ret sat_bytes [where xs = "[a, b, c, d']" and bs = bs])
next
  case (DomainDest h)
  with assms(2) have h: "h \<noteq> []" "length h < 256" by auto
  have "sat (socksReadBytes (unat (of_nat (length h) :: byte))) s' (\<lambda>addr s'. Q (str_of_bytes addr) s')"
    if "live s' (bytes_of_str h @ bs) t w" for s'
    by (rule sat_bytes [OF that]) (use h assms(3) DomainDest in auto)
  then show ?thesis
    using assms(1) DomainDest h
    by (auto simp: read_host_def socks_consts of_nat_byte_0 intro!: sat_bind sat_byte intro: sat_ret)
next
  case (V6Dest ip)
  with assms show ?thesis
    by (auto simp: read_host_def socks_consts intro!: sat_bind sat_ret sat_bytes [where xs = ip and bs = bs])
qed

lemma sat_command:
  assumes "live s (connect_msg d port) t w" "dest_ok d" "port < 65536"
    and "\<And>s'. live s' [] t w \<Longrightarrow> Q (req\<lparr>Target := dest_host d @ '':'' @ itoa port\<rparr>) s'"
  shows "sat (socks5ReadCommand req) s Q"
proof -
  have d: "dest_bytes d = hd (dest_bytes d) # tl (dest_bytes d)" by (cases d) auto
  show ?thesis
    unfolding socks5ReadCommand_def Let_def
    apply (rule sat_bind, rule sat_on_err, rule sat_verify)
     apply (use assms(1) in \<open>simp add: connect_msg_def\<close>)
    apply (rule sat_bind, rule sat_on_err, erule sat_verify)
    apply (rule sat_bind, rule sat_on_err, erule sat_verify)
    apply (rule sat_bind, rule sat_byte, subst (asm) d, simp)
    apply (rule sat_bind, erule sat_host, rule assms(2))
    apply (rule sat_bind, rule sat_bytes [where bs = "[]" and xs = "be16_bytes port"], simp, simp)
    apply (rule sat_bind, erule sat_flush, rule sat_ret)
    apply (use be16_bytes_nth [OF assms(3)] assms(4) in simp)
    done
qed

section \<open>The handshake as a whole\<close>

lemma sat_handshake_user:
  assumes "live s (greeting methods) (sa @ sc @ t) w" "length methods < 256" "socksAuthUsernamePassword \<in> set methods"
    and "concat sa = auth_msg user pass" "user \<noteq> []" "length user < 256" "pass \<noteq> []" "length pass < 256"
    and "parseClientParameters (str_of_bytes user @ pass_of pass) = Inr a"
    and "concat sc = connect_msg d port" "dest_ok d" "port < 65536"
  shows "sat socks5Handshake s (\<lambda>req s'.
     req = \<lparr>Target = dest_host d @ '':'' @ itoa port, Username = str_of_bytes user,
            Password = pass_of pass, ReqArgs = a\<rparr> \<and>
     live s' [] t (w @ [[socks5Version, socksAuthUsernamePassword],
                        [socksAuthRFC1929Ver, socksAuthRFC1929Success]]))"
proof -
  have m: "pick_method socksAuthNoAcceptableMethods methods = socksAuthUsernamePassword"
    using assms(3) by (simp add: pick_method_offered)
  show ?thesis
    unfolding socks5Handshake_def
    apply (rule sat_bind, rule sat_negotiate [OF assms(1,2)], unfold m, rule sat_bind)
    apply (drule live_next, unfold assms(4), erule sat_auth; (rule assms)?)
    apply (drule live_next, unfold assms(10), erule sat_command; (rule assms)?)
    apply (simp add: empty_req_def)
    done
qed

lemma sat_handshake_none:
  assumes "live s (greeting methods) (sc @ t) w" "length methods < 256"
    and "socksAuthUsernamePassword \<notin> set methods" "socksAuthNoneRequired \<in> set methods"
    and "concat sc = connect_msg d port" "dest_ok d" "port < 65536"
  shows "sat socks5Handshake s (\<lambda>req s'.
     req = \<lparr>Target = dest_host d @ '':'' @ itoa port, Username = [], Password = [], ReqArgs = []\<rparr> \<and>
     live s' [] t (w @ [[socks5Version, socksAuthNoneRequired]]))"
proof -
  have m: "pick_method socksAuthNoAcceptableMethods methods = socksAuthNoneRequired"
    using assms(3,4) by (simp add: pick_method_offered)
  show ?thesis
    unfolding socks5Handshake_def
    apply (rule sat_bind, rule sat_negotiate [OF assms(1,2)], unfold m, rule sat_bind)
    apply (erule sat_no_auth)
    apply (drule live_next, unfold assms(5), erule sat_command; (rule assms)?)
    apply (simp add: empty_req_def)
    done
qed

lemma sat_socks4a:
  assumes "live s ([socks4Version, socksCmdConnect] @ be16_bytes port @ ip @ user @ [0] @ hb) t w"
    and "length ip = 4" "port < 65536" "0 \<notin> set user"
    and "parseClientParameters (str_of_bytes user) = Inr a"
    and "hb = (if take 3 ip = [0, 0, 0] \<and> ip ! 3 \<noteq> 0 then bytes_of_str h @ [0] else [])" "0 \<notin> set (bytes_of_str h)"
  shows "sat readSocks4aConnect s (\<lambda>req s'.
     req = \<lparr>Target = (if take 3 ip = [0, 0, 0] \<and> ip ! 3 \<noteq> 0 then h else dotted ip) @ '':'' @ itoa port,
            Username = str_of_bytes user, Password = [], ReqArgs = a\<rparr> \<and> live s' [] t w)"
proof -
  obtain i0 i1 i2 i3 where ip: "ip = [i0, i1, i2, i3]" using list_of_length_4 [OF assms(2)] by blast
  have c: "(ip ! 0 = 0 \<and> ip ! 1 = 0 \<and> ip ! 2 = 0 \<and> ip ! 3 \<noteq> 0) = (take 3 ip = [0, 0, 0] \<and> ip ! 3 \<noteq> 0)"
    by (simp add: ip)
  show ?thesis
    unfolding readSocks4aConnect_def Let_def
    apply (rule sat_bind, rule sat_verify)
     apply (use assms(1) in simp)
    apply (rule sat_bind, erule sat_byte)
    apply (rule sat_bind, simp only: simp_thms if_False sat_sret, rule sat_bind)
    apply (rule sat_bytes [where xs = "be16_bytes port" and bs = "ip @ user @ 0 # hb"], simp, simp)
    apply (rule sat_bind, erule sat_bytes, simp add: assms(2))
    apply (rule sat_bind, erule sat_until, rule assms(4))
    apply (rule sat_bind, simp only: butlast_snoc assms(5) sargs_def sum.case sat_sret c, rule sat_bind)
    apply (cases "take 3 ip = [0, 0, 0] \<and> ip ! 3 \<noteq> 0")
     apply (simp only: assms(6) simp_thms if_True, rule sat_bind, rule sat_until [where xs = "bytes_of_str h" and d = 0 and bs = "[]"])
       apply simp
      apply (use assms(7) in simp)
     apply (simp only: sat_sret butlast_snoc, rule sat_bind, erule sat_flush_read)
     apply (use be16_bytes_nth [OF assms(3)] in simp)
    apply (simp only: if_False assms(6) sat_sret)
    apply (rule sat_bind, erule sat_flush_read)
    apply (use be16_bytes_nth [OF assms(3)] IPString_IPv4 [of i0 i1 i2 i3] in \<open>simp add: ip\<close>)
    done
qed

text \<open>The negotiation starts by peeking at the version, which leaves the message as it is.\<close>

lemma NewSocksConn_5:
  assumes "live s (socks5Version # bs) t w" "\<And>s'. live s' (socks5Version # bs) t w \<Longrightarrow> sat socks5Handshake s' Q"
  shows "\<exists>req s'. NewSocksConn s = (Inr \<lparr>Req = req, socksVersion = socks5Version\<rparr>, s') \<and> Q req s'"
proof -
  obtain s1 where "socksPeekByte s = (Inr socks5Version, s1)" "live s1 (socks5Version # bs) t w"
    using sat_peek [OF assms(1)] by blast
  with assms(2) [of s1] show ?thesis
    by (auto simp: NewSocksConn_def sat_def socks4Version_def socks5Version_def split: prod.splits sum.splits)
qed

lemma NewSocksConn_4:
  assumes "live s (socks4Version # bs) t w" "\<And>s'. live s' (socks4Version # bs) t w \<Longrightarrow> sat readSocks4aConnect s' Q"
  shows "\<exists>req s'. NewSocksConn s = (Inr \<lparr>Req = req, socksVersion = socks4Version\<rparr>, s') \<and> Q req s'"
proof -
  obtain s1 where "socksPeekByte s = (Inr socks4Version, s1)" "live s1 (socks4Version # bs) t w"
    using sat_peek [OF assms(1)] by blast
  with assms(2) [of s1] show ?thesis
    by (auto simp: NewSocksConn_def sat_def split: prod.splits sum.splits)
qed

lemma negotiate_pipelined:
  assumes "bbuf (rd s) = greeting methods @ x" "x \<noteq> []" "length methods < 256"
    and "wok s" "\<not> werr s" "wpend s = []"
  shows "socks5NegotiateAuth s =
    (Inl (ErrLeft (length x)),
     s\<lparr>rd := (rd s)\<lparr>bbuf := x\<rparr>,
       sent := sent s @ [[socks5Version, pick_method socksAuthNoAcceptableMethods methods]]\<rparr>)"
  using assms
  by (simp add: socks5NegotiateAuth_def sbind_def socksReadByteVerify_def socksReadByte_def greeting_def
      stream_simps sret_def socksReadBytes_def rw_Write_def socksFlushBuffers_def rw_Flush_def
      socksFlushReadBuffer_def Buffered_def Let_def)

lemma reply_after_field_error:
  assumes "live s (b # bs) t w" "b \<noteq> v"
  shows "fails (on_err (socksReadByteVerify v) (cmd_err_resp code)) s
     (\<lambda>e s'. e = ErrField b v \<and> sent s' = w @ [socks5_resp code])"
  using ReadByte_win [of "rd s" b bs t] assms
  by (auto simp: live_def fails_def on_err_def socksReadByteVerify_def sbind_def socksReadByte_def sfail_def
      cmd_err_resp_def rw_Write_def socksFlushBuffers_def rw_Flush_def socks5_resp_def socksFlushReadBuffer_def)

lemma fails_bind: "fails m s Q \<Longrightarrow> fails (sbind m f) s Q"
  by (auto simp: fails_def sbind_def split: prod.splits sum.splits)

lemma fails_after: "sat m s (\<lambda>x s'. fails (f x) s' Q) \<Longrightarrow> fails (sbind m f) s Q"
  by (auto simp: fails_def sat_def sbind_def split: prod.splits sum.splits)

lemma NewSocksConn_5_fails:
  assumes "live s (socks5Version # bs) t w" "\<And>s'. live s' (socks5Version # bs) t w \<Longrightarrow> fails socks5Handshake s' Q"
  shows "\<exists>e s'. NewSocksConn s = (Inl (e, False), s') \<and> Q e s'"
proof -
  obtain s1 where "socksPeekByte s = (Inr socks5Version, s1)" "live s1 (socks5Version # bs) t w"
    using sat_peek [OF assms(1)] by blast
  with assms(2) [of s1] show ?thesis
    by (auto simp: NewSocksConn_def fails_def socks4Version_def socks5Version_def split: prod.splits sum.splits)
qed

section \<open>Properties\<close>



text \<open>Without authentication the server needs one reply, the method, before it has the
  address the client asked for.\<close>

theorem socks5_open_handshake:
  assumes "concat sg = greeting methods" "length methods < 256"
    and "socksAuthUsernamePassword \<notin> set methods" "socksAuthNoneRequired \<in> set methods"
    and "concat sc = connect_msg d port" "dest_ok d" "port < 65536"
  shows "\<exists>s'. NewSocksConn (new_rw (sg @ sc @ t) e True) =
      (Inr \<lparr>Req = \<lparr>Target = dest_host d @ '':'' @ itoa port, Username = [], Password = [], ReqArgs = []\<rparr>,
            socksVersion = socks5Version\<rparr>, s') \<and>
    sent s' = [[socks5Version, socksAuthNoneRequired]] \<and> rest_of (rd s') = concat t"
proof -
  have l: "live (new_rw (sg @ sc @ t) e True) (socks5Version # of_nat (length methods) # methods) (sc @ t) []"
    using live_new [of sg "sc @ t" e] assms(1) by (simp add: greeting_def)
  show ?thesis
    using NewSocksConn_5 [OF l sat_handshake_none [where methods = methods]] assms
    by (fastforce simp: greeting_def live_def dest: win_rest)
qed

lemma socks5_open_handshake_witness:
  "\<exists>s'. NewSocksConn (new_rw ([[5, 1, 0]] @ [[5, 1, 0, 3, 1, 97, 1, 187]] @ [[22, 3]]) EOF True) =
      (Inr \<lparr>Req = \<lparr>Target = dest_host (DomainDest ''a'') @ '':'' @ itoa 443, Username = [], Password = [], ReqArgs = []\<rparr>,
            socksVersion = socks5Version\<rparr>, s') \<and>
    sent s' = [[socks5Version, socksAuthNoneRequired]] \<and> rest_of (rd s') = concat [[22, 3]]"
  by (rule socks5_open_handshake [where methods = "[0]"])
     (simp_all add: greeting_def connect_msg_def socks_consts be16_bytes_def bytes_of_str_def byte_of_char_def)

text \<open>a client that sends anything together with its greeting, without waiting for the
  answer, is refused: the method is answered, then the bytes already buffered make the
  handshake fail.\<close>

theorem socks5_pipelined_refused:
  assumes "length methods < 256" "x \<noteq> []" "length (greeting methods @ x) \<le> bufsize"
  shows "\<exists>s'. NewSocksConn (new_rw ((greeting methods @ x) # t) e True) =
      (Inl (ErrLeft (length x), False), s') \<and>
    sent s' = [[socks5Version, pick_method socksAuthNoAcceptableMethods methods]]"
proof -
  let ?s = "new_rw ((greeting methods @ x) # t) e True"
  let ?s1 = "?s\<lparr>rd := (rd ?s)\<lparr>bbuf := greeting methods @ x, bsrc := t\<rparr>\<rparr>"
  have "Peek 1 (rd ?s) = ([socks5Version], None, (rd ?s)\<lparr>bbuf := greeting methods @ x, bsrc := t\<rparr>)"
    using Peek_load [of "rd ?s" socks5Version "of_nat (length methods) # methods @ x" t] assms(3)
    by (simp add: new_rw_def new_reader_def greeting_def)
  then have "socksPeekByte ?s = (Inr socks5Version, ?s1)" by (simp add: socksPeekByte_def)
  then show ?thesis
    using negotiate_pipelined [of ?s1 methods x] assms(1,2)
    by (simp add: NewSocksConn_def socks5Handshake_def sbind_def new_rw_def socks4Version_def socks5Version_def)
qed

lemma socks5_pipelined_refused_witness:
  "\<exists>s'. NewSocksConn (new_rw ((greeting [0] @ [5, 1]) # []) EOF True) = (Inl (ErrLeft (length [5 :: byte, 1]), False), s') \<and>
    sent s' = [[socks5Version, pick_method socksAuthNoAcceptableMethods [0]]]"
  by (rule socks5_pipelined_refused) (simp_all add: greeting_def bufsize_def)

text \<open>a SOCKS4a request names its target by address, or, for an address \<open>0.0.0.x\<close>, by the
  domain name after the user id; nothing is answered before the caller grants it.\<close>

theorem socks4a_request:
  assumes "concat sg = [socks4Version, socksCmdConnect] @ be16_bytes port @ ip @ user @ [0] @
             (if take 3 ip = [0, 0, 0] \<and> ip ! 3 \<noteq> 0 then bytes_of_str h @ [0] else [])"
    and "length ip = 4" "port < 65536" "0 \<notin> set user" "0 \<notin> set (bytes_of_str h)"
    and "parseClientParameters (str_of_bytes user) = Inr a"
  shows "\<exists>s'. NewSocksConn (new_rw (sg @ t) e True) =
      (Inr \<lparr>Req = \<lparr>Target = (if take 3 ip = [0, 0, 0] \<and> ip ! 3 \<noteq> 0 then h else dotted ip) @ '':'' @ itoa port,
                    Username = str_of_bytes user, Password = [], ReqArgs = a\<rparr>, socksVersion = socks4Version\<rparr>, s') \<and>
    sent s' = [] \<and> rest_of (rd s') = concat t"
proof -
  have l: "live (new_rw (sg @ t) e True) (socks4Version # socksCmdConnect # be16_bytes port @ ip @ user @ [0] @
             (if take 3 ip = [0, 0, 0] \<and> ip ! 3 \<noteq> 0 then bytes_of_str h @ [0] else [])) t []"
    using live_new [of sg t e] assms(1) by simp
  show ?thesis
    using NewSocksConn_4 [OF l sat_socks4a [where port = port and ip = ip and user = user and h = h, OF _ assms(2,3,4,6) refl assms(5)]]
    by (fastforce simp: live_def dest: win_rest)
qed

lemma socks4a_request_witness:
  "\<exists>s'. NewSocksConn (new_rw ([[4, 1, 0, 80, 0, 0, 0, 1], [0, 97, 0]] @ []) EOF True) =
      (Inr \<lparr>Req = \<lparr>Target = (if take 3 [0, 0, 0, 1 :: byte] = [0, 0, 0] \<and> [0, 0, 0, 1 :: byte] ! 3 \<noteq> 0 then ''a'' else dotted [0, 0, 0, 1]) @ '':'' @ itoa 80,
                    Username = str_of_bytes [], Password = [], ReqArgs = []\<rparr>, socksVersion = socks4Version\<rparr>, s') \<and>
    sent s' = [] \<and> rest_of (rd s') = concat []"
  by (rule socks4a_request)
     (simp_all add: socks_consts be16_bytes_def bytes_of_str_def byte_of_char_def parseClientParameters_def)

text \<open>a connection whose first byte names no SOCKS version is handed back with all its
  bytes and no answer written, so that the caller can try another protocol.\<close>

theorem not_socks_handed_back:
  assumes "rest_of (rd s) = b # bs" "b \<noteq> socks4Version" "b \<noteq> socks5Version"
  shows "\<exists>s'. NewSocksConn s = (Inl (ErrVersion b, True), s') \<and> rest_of (rd s') = rest_of (rd s) \<and> sent s' = sent s"
  using Peek_spec [of 1 "rd s"] assms by (auto simp: NewSocksConn_def socksPeekByte_def bufsize_def)

lemma not_socks_handed_back_witness:
  "\<exists>s'. NewSocksConn (new_rw [[71, 69]] EOF True) = (Inl (ErrVersion 71, True), s') \<and>
     rest_of (rd s') = rest_of (rd (new_rw [[71, 69]] EOF True)) \<and> sent s' = sent (new_rw [[71, 69]] EOF True)"
  by (rule not_socks_handed_back [where bs = "[69]"])
     (simp_all add: new_rw_def new_reader_def rest_of_def socks4Version_def socks5Version_def)

text \<open>a client that asks for anything but CONNECT is told so: after the method, the one
  reply has the code for an unsupported command, and the handshake fails.\<close>

theorem socks5_other_command_answered:
  assumes "concat sg = greeting methods" "length methods < 256"
    and "socksAuthUsernamePassword \<notin> set methods" "socksAuthNoneRequired \<in> set methods"
    and "concat sc = socks5Version # cmd # rest" "cmd \<noteq> socksCmdConnect"
  shows "\<exists>s'. NewSocksConn (new_rw (sg @ sc @ t) e True) = (Inl (ErrField cmd socksCmdConnect, False), s') \<and>
    sent s' = [[socks5Version, socksAuthNoneRequired], socks5_resp SocksRepCommandNotSupported]"
proof -
  have m: "pick_method socksAuthNoAcceptableMethods methods = socksAuthNoneRequired"
    using assms(3,4) by (simp add: pick_method_offered)
  have l: "live (new_rw (sg @ sc @ t) e True) (socks5Version # of_nat (length methods) # methods) (sc @ t) []"
    using live_new [of sg "sc @ t" e] assms(1) by (simp add: greeting_def)
  have "fails socks5Handshake s (\<lambda>er s'. er = ErrField cmd socksCmdConnect \<and>
      sent s' = [[socks5Version, socksAuthNoneRequired], socks5_resp SocksRepCommandNotSupported])"
    if "live s (socks5Version # of_nat (length methods) # methods) (sc @ t) []" for s
    unfolding socks5Handshake_def
    apply (rule fails_after, rule sat_negotiate [OF _ assms(2)])
     apply (use that in \<open>simp add: greeting_def\<close>)
    apply (unfold m append_Nil, rule fails_after, erule sat_no_auth, drule live_next, unfold assms(5))
    apply (unfold socks5ReadCommand_def, rule fails_after, rule sat_on_err, erule sat_verify)
    apply (rule fails_bind)
    apply (drule reply_after_field_error [OF _ assms(6), of _ _ _ _ SocksRepCommandNotSupported])
    apply simp
    done
  then show ?thesis using NewSocksConn_5_fails [OF l] by blast
qed

lemma socks5_other_command_answered_witness:
  "\<exists>s'. NewSocksConn (new_rw ([[5, 1, 0]] @ [[5, 3, 0, 1]] @ []) EOF True) = (Inl (ErrField 3 socksCmdConnect, False), s') \<and>
    sent s' = [[socks5Version, socksAuthNoneRequired], socks5_resp SocksRepCommandNotSupported]"
  by (rule socks5_other_command_answered [where methods = "[0]" and rest = "[0, 1]"])
     (simp_all add: greeting_def socks_consts)

text \<open>the generic \<open>Accept\<close> never returns a nil connection: with an error it returns an interface around a nil pointer.\<close>

lemma accept_error_not_nil:
  assumes "Accept dl1 dl2 s = ((c, er), s')"
  shows "c \<noteq> NilIface \<and> (er \<noteq> None \<longleftrightarrow> c = Iface None)"
  using assms by (auto simp: Accept_def split: prod.splits sum.splits)

end
