(* ===== verification/Socks5Client.thy ===== *)
theory Socks5Client
  imports Socks
begin

text \<open>
  \<open>common/helper/net.go\<close>: connecting through an upstream proxy. The SOCKS5 client writes and
  reads the connection without a buffer; \<open>ProxyDial\<close> chooses the protocol by the scheme of the
  proxy's URL. The last section puts the client in front of the server of \<open>Socks\<close>.
\<close>

unbundle bit_operations_syntax

section \<open>A connection without a buffer\<close>

record cconn =
  cin :: bytes           \<comment> \<open>what the peer sends\<close>
  cend :: io_err         \<comment> \<open>the error after it\<close>
  cout :: "bytes list"   \<comment> \<open>the writes so far\<close>
  cok :: "nat \<Rightarrow> bool"    \<comment> \<open>whether the \<open>n\<close>-th write succeeds\<close>
  closed :: bool

definition dialled :: "bytes \<Rightarrow> io_err \<Rightarrow> (nat \<Rightarrow> bool) \<Rightarrow> cconn" where
  "dialled i e ok = \<lparr>cin = i, cend = e, cout = [], cok = ok, closed = False\<rparr>"

datatype s5c_err =
    BadAddr | BadPort | PortRange | CWrite | CRead io_err | BadVersion byte | AuthRequired
  | AuthRejected | HostTooLong | ConnectFailed string | BadAtype byte

type_synonym 'a cop = "cconn \<Rightarrow> (s5c_err + 'a) \<times> cconn"

definition cret :: "'a \<Rightarrow> 'a cop" where "cret x c = (Inr x, c)"
definition cfail :: "s5c_err \<Rightarrow> 'a cop" where "cfail e c = (Inl e, c)"
definition cbind :: "'a cop \<Rightarrow> ('a \<Rightarrow> 'b cop) \<Rightarrow> 'b cop" where
  "cbind m f c = (case m c of (Inl e, c') \<Rightarrow> (Inl e, c') | (Inr x, c') \<Rightarrow> f x c')"

definition cWrite :: "bytes \<Rightarrow> unit cop" where
  "cWrite b c = (if cok c (length (cout c)) then (Inr (), c\<lparr>cout := cout c @ [b]\<rparr>) else (Inl CWrite, c))"

text \<open>\<open>io.ReadFull\<close> on the connection.\<close>

definition cRead :: "nat \<Rightarrow> bytes cop" where
  "cRead n c =
     (if n \<le> length (cin c) then (Inr (take n (cin c)), c\<lparr>cin := drop n (cin c)\<rparr>)
      else (Inl (CRead (if cin c \<noteq> [] \<and> cend c = EOF then UnexpectedEOF else cend c)), c\<lparr>cin := []\<rparr>))"

lemmas cop_defs = cret_def cfail_def cbind_def cWrite_def cRead_def

section \<open>The SOCKS5 client\<close>

definition socks5Errors :: "string list" where
  "socks5Errors = [[], ''general failure'', ''connection forbidden'', ''network unreachable'',
     ''host unreachable'', ''connection refused'', ''TTL expired'', ''command not supported'',
     ''address type not supported'']"

definition client_greeting :: "URL \<Rightarrow> bytes" where
  "client_greeting u =
     (if uUser u \<noteq> None \<and> length (User_Username u) > 0 \<and> length (User_Username u) < 256
      then [5, 2, 0, 2] else [5, 1, 0])"

definition client_auth :: "URL \<Rightarrow> bytes" where
  "client_auth u = [1, of_nat (length (User_Username u))] @ bytes_of_str (User_Username u) @
     [of_nat (length (User_Password u))] @ bytes_of_str (User_Password u)"

text \<open>The destination: an IP address in its shortest form, else a domain name.\<close>

definition client_dest :: "string \<Rightarrow> s5c_err + bytes" where
  "client_dest host =
     (case ParseIP host of
        Some ip \<Rightarrow> Inr (case To4 ip of Some ip4 \<Rightarrow> 1 # ip4 | None \<Rightarrow> 4 # ip)
      | None \<Rightarrow> if length host > 255 then Inl HostTooLong
                else Inr ([3, of_nat (length host)] @ bytes_of_str host))"

definition client_greet :: "URL \<Rightarrow> byte cop" where
  "client_greet u =
     cbind (cWrite (client_greeting u)) (\<lambda>_.
     cbind (cRead 2) (\<lambda>b.
     if b ! 0 \<noteq> 5 then cfail (BadVersion (b ! 0))
     else if b ! 1 = 0xff then cfail AuthRequired
     else cret (b ! 1)))"

definition client_authenticate :: "URL \<Rightarrow> byte \<Rightarrow> unit cop" where
  "client_authenticate u method =
     (if method = 2 then
        cbind (cWrite (client_auth u)) (\<lambda>_.
        cbind (cRead 2) (\<lambda>b. if b ! 1 \<noteq> 0 then cfail AuthRejected else cret ()))
      else cret ())"

definition client_reply :: "unit cop" where
  "client_reply =
     cbind (cRead 4) (\<lambda>b.
     let failure = (if unat (b ! 1) < length socks5Errors then socks5Errors ! unat (b ! 1) else ''unknown error'') in
     if failure \<noteq> [] then cfail (ConnectFailed failure)
     else cbind (if b ! 3 = 1 then cret 4
                 else if b ! 3 = 4 then cret 16
                 else if b ! 3 = 3 then cbind (cRead 1) (\<lambda>l. cret (unat (l ! 0)))
                 else cfail (BadAtype (b ! 3))) (\<lambda>n.
          cbind (cRead n) (\<lambda>_. cbind (cRead 2) (\<lambda>_. cret ()))))"

definition Socks5ProxyConnect :: "URL \<Rightarrow> string \<Rightarrow> unit cop" where
  "Socks5ProxyConnect u addr =
     (case SplitHostPort addr of None \<Rightarrow> cfail BadAddr
      | Some (host, portStr) \<Rightarrow>
        (case Atoi portStr of None \<Rightarrow> cfail BadPort
         | Some port \<Rightarrow>
             if port < 1 \<or> port > 0xffff then cfail PortRange
             else cbind (client_greet u) (\<lambda>method.
                  cbind (client_authenticate u method) (\<lambda>_.
                  case client_dest host of Inl e \<Rightarrow> cfail e
                  | Inr d \<Rightarrow>
                      cbind (cWrite ([5, 1, 0] @ d @ be16_bytes (nat port))) (\<lambda>_.
                      client_reply)))))"

section \<open>Dialling through a proxy\<close>

text \<open>\<open>HTTPProxyConnect\<close>: \<open>newreq\<close> is whether the request could be built, \<open>req\<close> its text and
  \<open>readResponse\<close> the parser of \<open>net/http\<close>, which gives the status code and what follows.\<close>

datatype dial_err = UrlError | DialError | Socks5Error s5c_err | ReqError | HttpWrite | BadResponse
  | StatusCode nat | InvalidSchema string

definition HTTPProxyConnect ::
    "bool \<Rightarrow> bytes \<Rightarrow> (bytes \<Rightarrow> (nat \<times> bytes) option) \<Rightarrow> cconn \<Rightarrow> (dial_err + unit) \<times> cconn" where
  "HTTPProxyConnect newreq req readResponse c =
     (if \<not> newreq then (Inl ReqError, c)
      else case cWrite req c of (Inl e, c') \<Rightarrow> (Inl HttpWrite, c')
      | (Inr _, c') \<Rightarrow>
          (case readResponse (cin c') of None \<Rightarrow> (Inl BadResponse, c')
           | Some (status, after) \<Rightarrow>
               if status \<ge> 300 then (Inl (StatusCode status), c'\<lparr>cin := after\<rparr>)
               else (Inr (), c'\<lparr>cin := after\<rparr>)))"

text \<open>\<open>ProxyDial\<close>: \<open>url\<close> is the parsed URL, \<open>dial\<close> what dialling its host gives. The scheme
  \<open>socks\<close> is a case of its own with an empty body. An unknown scheme returns without closing
  the connection.\<close>

definition ProxyDial ::
    "URL option \<Rightarrow> cconn option \<Rightarrow> (cconn \<Rightarrow> (dial_err + unit) \<times> cconn) \<Rightarrow> string \<Rightarrow>
     (dial_err + unit) \<times> cconn option" where
  "ProxyDial url dial http raddr =
     (case url of None \<Rightarrow> (Inl UrlError, None)
      | Some u \<Rightarrow>
         (case dial of None \<Rightarrow> (Inl DialError, None)
          | Some c \<Rightarrow>
             if Scheme u = ''http'' \<or> Scheme u = ''https'' then
               (case http c of (Inl e, c') \<Rightarrow> (Inl e, Some (c'\<lparr>closed := True\<rparr>))
                | (Inr _, c') \<Rightarrow> (Inr (), Some c'))
             else if Scheme u = ''socks'' then (Inr (), Some c)
             else if Scheme u = ''socks5'' then
               (case Socks5ProxyConnect u raddr c of (Inl e, c') \<Rightarrow> (Inl (Socks5Error e), Some (c'\<lparr>closed := True\<rparr>))
                | (Inr _, c') \<Rightarrow> (Inr (), Some c'))
             else (Inl (InvalidSchema (Scheme u)), Some c)))"

definition Socks5ProxyDial :: "URL option \<Rightarrow> cconn option \<Rightarrow> string \<Rightarrow> (dial_err + unit) \<times> cconn option" where
  "Socks5ProxyDial url dial addr =
     (case url of None \<Rightarrow> (Inl UrlError, None)
      | Some u \<Rightarrow>
         (case dial of None \<Rightarrow> (Inl DialError, None)
          | Some c \<Rightarrow>
             (case Socks5ProxyConnect u addr c of (Inl e, c') \<Rightarrow> (Inl (Socks5Error e), Some (c'\<lparr>closed := True\<rparr>))
              | (Inr _, c') \<Rightarrow> (Inr (), Some c'))))"

section \<open>Addresses\<close>

definition Long2IPv4 :: "u64 \<Rightarrow> string" where
  "Long2IPv4 i = itoa (unat (drop_bit 24 i AND 0xFF)) @ ''.'' @ itoa (unat (drop_bit 16 i AND 0xFF)) @ ''.'' @
     itoa (unat (drop_bit 8 i AND 0xFF)) @ ''.'' @ itoa (unat (i AND 0xFF))"

text \<open>\<open>IPv42Int\<close>: the \<open>k\<close>-th part counts \<open>256 ^ (3 - k)\<close>, and nothing from the fifth part on
  (a negative power of 256 truncates to 0). Go's \<open>%\<close> keeps the sign of the dividend.\<close>

fun ipv4_sum :: "nat \<Rightarrow> string list \<Rightarrow> int \<Rightarrow> int option" where
  "ipv4_sum k [] num = Some num"
| "ipv4_sum k (p # ps) num =
     (case Atoi p of None \<Rightarrow> None
      | Some v \<Rightarrow> ipv4_sum (k + 1) ps
                   (num + (sgn v * (\<bar>v\<bar> mod 256)) * (if k \<le> 3 then 256 ^ (3 - k) else 0)))"

definition IPv42Int :: "string \<Rightarrow> int option" where
  "IPv42Int ip = ipv4_sum 0 (Split ip CHR ''.'') 0"

text \<open>\<open>bytes.Compare\<close> on slices of one length.\<close>

fun bytes_le :: "bytes \<Rightarrow> bytes \<Rightarrow> bool" where
  "bytes_le [] ys = True"
| "bytes_le (x # xs) [] = False"
| "bytes_le (x # xs) (y # ys) = (x < y \<or> x = y \<and> bytes_le xs ys)"

definition privateIPRanges :: "(bytes \<times> bytes) list" where
  "privateIPRanges = [(IPv4 192 168 0 0, IPv4 192 168 255 255), (IPv4 172 16 0 0, IPv4 172 31 255 255),
                      (IPv4 10 0 0 0, IPv4 10 255 255 255)]"

definition IsPrivateIP :: "string \<Rightarrow> bool" where
  "IsPrivateIP ip =
     (if EqualFold ip ''localhost'' then True
      else case ParseIP ip of None \<Rightarrow> False
      | Some trial \<Rightarrow>
          if To4 trial = None then False
          else if HasPrefix ip ''127.0'' then True
          else list_ex (\<lambda>r. bytes_le (fst r) trial \<and> bytes_le trial (snd r)) privateIPRanges)"

section \<open>The client's messages\<close>

definition addr_dest :: "string \<Rightarrow> dest" where
  "addr_dest host = (case ParseIP host of
      Some ip \<Rightarrow> (case To4 ip of Some q \<Rightarrow> V4Dest (q ! 0) (q ! 1) (q ! 2) (q ! 3) | None \<Rightarrow> V6Dest ip)
    | None \<Rightarrow> DomainDest host)"

lemma To4_length: "length ip = 16 \<Longrightarrow> To4 ip = Some q \<Longrightarrow> length q = 4"
  by (auto simp: To4_def split: if_splits)

lemma client_dest_addr:
  assumes "ParseIP host = None \<Longrightarrow> host \<noteq> [] \<and> length host < 256" "\<And>ip. ParseIP host = Some ip \<Longrightarrow> length ip = 16"
  shows "client_dest host = Inr (dest_bytes (addr_dest host)) \<and> dest_ok (addr_dest host)"
proof (cases "ParseIP host")
  case None
  with assms(1) show ?thesis by (simp add: client_dest_def addr_dest_def socks_consts)
next
  case (Some ip)
  show ?thesis
  proof (cases "To4 ip")
    case None
    with Some assms(2) show ?thesis by (simp add: client_dest_def addr_dest_def socks_consts)
  next
    case (Some q)
    with \<open>ParseIP host = Some ip\<close> show ?thesis
      using list_of_length_4 [OF To4_length [OF assms(2) Some]]
      by (auto simp: client_dest_def addr_dest_def socks_consts)
  qed
qed

lemma client_reply_granted:
  "cin c = socks5_resp 0 @ r \<Longrightarrow> client_reply c = (Inr (), c\<lparr>cin := r\<rparr>)"
  by (simp add: client_reply_def cop_defs socks5_resp_def socks_consts socks5Errors_def)

lemma Socks5ProxyConnect_run:
  assumes "SplitHostPort addr = Some (host, p)" "Atoi p = Some port" "1 \<le> port" "port \<le> 0xffff"
    and "client_dest host = Inr d" "cin c = [5, m] @ (if m = 2 then [1, 0] else []) @ socks5_resp 0 @ r"
    and "m = 0 \<or> m = 2" "\<And>n. cok c n"
  shows "Socks5ProxyConnect u addr c = (Inr (), c\<lparr>cin := r, cout := cout c @ [client_greeting u] @
      (if m = 2 then [client_auth u] else []) @ [[5, 1, 0] @ d @ be16_bytes (nat port)]\<rparr>)"
  using assms
  by (auto simp: Socks5ProxyConnect_def client_greet_def client_authenticate_def client_reply_granted
      cbind_def cWrite_def cRead_def cret_def cfail_def)

section \<open>Client and server together\<close>


definition example_url :: URL where
  "example_url = \<lparr>Scheme = ''socks5'', uHost = ''h:1080'', uUser = Some (''k=v'', Some ''p''), uPath = [], uRawQuery = []\<rparr>"


text \<open>a proxy URL with the scheme \<open>socks\<close> is dialled and handed to the caller as if it were
  connected, but no handshake takes place: nothing is written, and the destination is ignored.\<close>

theorem socks_scheme_no_handshake:
  assumes "Scheme u = ''socks''"
  shows "ProxyDial (Some u) (Some c) http raddr = (Inr (), Some c)"
  using assms by (simp add: ProxyDial_def)

lemma socks_scheme_no_handshake_witness:
  "ProxyDial (Some (example_url\<lparr>Scheme := ''socks''\<rparr>)) (Some (dialled [] EOF (\<lambda>_. True))) (\<lambda>c. (Inr (), c)) ''a:80''
     = (Inr (), Some (dialled [] EOF (\<lambda>_. True)))"
  by (rule socks_scheme_no_handshake) simp

text \<open>when dialling through a proxy fails after the connection is made, the connection is
  closed, except for a scheme that is not supported, which leaves it open.\<close>

theorem ProxyDial_failure_closes:
  assumes "ProxyDial (Some u) (Some c) http raddr = (Inl e, Some c')"
  shows "closed c' = (if Scheme u \<in> {''http'', ''https'', ''socks5''} then True else closed c)"
  using assms by (auto simp: ProxyDial_def split: if_splits prod.splits sum.splits)

lemma ProxyDial_failure_closes_witness:
  "closed (dialled [] EOF (\<lambda>_. True)) =
     (if Scheme (example_url\<lparr>Scheme := ''ftp''\<rparr>) \<in> {''http'', ''https'', ''socks5''} then True
      else closed (dialled [] EOF (\<lambda>_. True)))"
  by (rule ProxyDial_failure_closes [where http = "\<lambda>c. (Inr (), c)" and raddr = "''a:80''" and e = "InvalidSchema ''ftp''"])
     (simp add: ProxyDial_def)

lemma Split_dots4:
  assumes "CHR ''.'' \<notin> set a" "CHR ''.'' \<notin> set b" "CHR ''.'' \<notin> set c" "CHR ''.'' \<notin> set d"
  shows "Split (a @ CHR ''.'' # b @ CHR ''.'' # c @ CHR ''.'' # d) CHR ''.'' = [a, b, c, d]"
  using Split_Join [of "[a, b, c, d]" "CHR ''.''"] assms by simp

lemma octets_value:
  "(n :: nat) < 2 ^ 32 \<Longrightarrow>
   n div 2 ^ 24 mod 256 * 256 ^ 3 + n div 2 ^ 16 mod 256 * 256 ^ 2 + n div 2 ^ 8 mod 256 * 256 + n mod 256 = n"
proof -
  assume n: "n < 2 ^ 32"
  define q where "q k = n div 256 ^ k" for k
  have "q (Suc k) = q k div 256" for k by (simp add: q_def div_mult2_eq power_Suc2 del: power_Suc)
  then have step: "q k = 256 * q (Suc k) + q k mod 256" for k by simp
  have "q 3 < 256" using n by (simp add: q_def div_less_iff_less_mult)
  then have "q 3 mod 256 = q 3" by simp
  moreover have "q 0 = 256 * q 1 + q 0 mod 256" "q 1 = 256 * q 2 + q 1 mod 256" "q 2 = 256 * q 3 + q 2 mod 256"
    using step [of 0] step [of 1] step [of 2] by (simp_all only: One_nat_def Suc_1 eval_nat_numeral BitM.simps)
  ultimately have "q 3 mod 256 * 16777216 + q 2 mod 256 * 65536 + q 1 mod 256 * 256 + q 0 mod 256 = q 0"
    by linarith
  then have "n div 256 ^ 3 mod 256 * 16777216 + n div 256 ^ 2 mod 256 * 65536 + n div 256 ^ 1 mod 256 * 256 + n div 256 ^ 0 mod 256 = n div 256 ^ 0"
    unfolding q_def .
  then show ?thesis by (simp only: power_numeral Num.pow.simps Num.sqr.simps arith_simps div_by_1 power_0 power_one_right)
qed

text \<open>the dotted form of a 32-bit address reads back as the same number.\<close>

theorem IPv4_number_roundtrip: "IPv42Int (Long2IPv4 i) = Some (uint (take_bit 32 i))"
proof -
  define b where "b k = unat (drop_bit k i AND 0xFF)" for k
  define n where "n = unat (take_bit 32 i)"
  have n: "n < 2 ^ 32" by (simp only: n_def unsigned_take_bit_eq take_bit_nat_less_exp)
  have v: "b k = n div 2 ^ k mod 256" if "k \<le> 24" for k
  proof -
    have ff: "(0xFF :: u64) = mask 8" by (simp add: mask_eq_exp_minus_1)
    have "drop_bit k i AND 0xFF = take_bit 8 (drop_bit k i)" by (simp only: ff take_bit_eq_mask [symmetric])
    also have "\<dots> = take_bit 8 (drop_bit k (take_bit 32 i))"
      using that by (intro bit_word_eqI) (auto simp: bit_simps)
    finally have "drop_bit k i AND 0xFF = take_bit 8 (drop_bit k (take_bit 32 i))" .
    then have "b k = take_bit 8 (drop_bit k n)"
      by (simp only: b_def n_def unsigned_take_bit_eq unat_drop_bit_eq)
    then show ?thesis by (simp add: take_bit_eq_mod drop_bit_eq_div)
  qed
  have lt: "b k < 256" if "k \<le> 24" for k using v [OF that] by simp
  then have at: "Atoi (itoa (b k)) = Some (int (b k))" if "k \<le> 24" for k
    using lt [OF that] by (intro Atoi_itoa) simp
  have s: "Split (Long2IPv4 i) CHR ''.'' = map (\<lambda>k. itoa (b k)) [24, 16, 8, 0]"
    using Split_dots4 [of "itoa (b 24)" "itoa (b 16)" "itoa (b 8)" "itoa (b 0)"]
    by (simp add: Long2IPv4_def b_def)
  have sg: "sgn (int m) * (\<bar>int m\<bar> mod 256) = int m" if "m < 256" for m
    using that by (cases m) auto
  have "IPv42Int (Long2IPv4 i) = Some (int (b 24) * 256 ^ 3 + int (b 16) * 256 ^ 2 + int (b 8) * 256 + int (b 0))"
    using lt sg by (simp add: IPv42Int_def s at)
  also have "\<dots> = Some (int (b 24 * 256 ^ 3 + b 16 * 256 ^ 2 + b 8 * 256 + b 0))" by simp
  also have "b 24 * 256 ^ 3 + b 16 * 256 ^ 2 + b 8 * 256 + b 0 = n"
  proof -
    have "b 24 = n div 2 ^ 24 mod 256" "b 16 = n div 2 ^ 16 mod 256" "b 8 = n div 2 ^ 8 mod 256" "b 0 = n mod 256"
      using v [of 24] v [of 16] v [of 8] v [of 0] by simp_all
    with octets_value [OF n] show ?thesis by (simp only:)
  qed
  also have "int n = uint (take_bit 32 i)" by (simp add: n_def)
  finally show ?thesis .
qed

lemma not_localhost: "CHR ''.'' \<in> set s \<Longrightarrow> \<not> EqualFold s ''localhost''"
proof
  assume "CHR ''.'' \<in> set s" "EqualFold s ''localhost''"
  then have "lower CHR ''.'' \<in> set (ToLower ''localhost'')"
    unfolding EqualFold_def by (metis ToLower_def image_eqI list.set_map)
  moreover have "lower CHR ''.'' \<notin> set (ToLower ''localhost'')" by code_simp
  ultimately show False by simp
qed

lemma HasPrefix_127_0:
  "HasPrefix (dotted [a, b, c, d]) ''127.0'' \<longleftrightarrow> a = 127 \<and> b = 0"
proof -
  let ?z = "CHR ''.'' # itoa (unat c) @ ''.'' @ itoa (unat d)"
  have "itoa (unat (127 :: byte)) = ''127''" by code_simp
  then have a: "itoa (unat a) = ''127'' \<longleftrightarrow> a = 127" by (metis itoa_inj word_unat_eq_iff)
  obtain x xs where x: "itoa (unat b) = x # xs" by (cases "itoa (unat b)") auto
  then have b: "x = CHR ''0'' \<longleftrightarrow> b = 0" using hd_itoa_0 [of "unat b"] by (simp add: unat_eq_zero)
  have "HasPrefix (dotted [a, b, c, d]) ''127.0'' \<longleftrightarrow>
        HasPrefix (itoa (unat a) @ CHR ''.'' # itoa (unat b) @ ?z) (''127'' @ CHR ''.'' # ''0'')"
    by (simp add: dotted_def)
  also have "\<dots> \<longleftrightarrow> itoa (unat a) = ''127'' \<and> HasPrefix (itoa (unat b) @ ?z) ''0''"
    by (rule HasPrefix_sep) auto
  also have "HasPrefix (itoa (unat b) @ ?z) ''0'' \<longleftrightarrow> x = CHR ''0''"
    by (simp add: x)
  finally show ?thesis by (simp only: a b)
qed

lemma dotted_dot: "CHR ''.'' \<in> set (dotted [a, b, c, d])"
  by (simp add: dotted_def)

text \<open>which dotted addresses the rule \<open>IsPrivateIP\<close> accepts: the three private ranges,
  and of the loopback network only the part \<open>127.0.0.0/16\<close>.\<close>

theorem IsPrivateIP_dotted:
  "IsPrivateIP (dotted [a, b, c, d]) \<longleftrightarrow>
     a = 10 \<or> a = 172 \<and> 16 \<le> b \<and> b \<le> 31 \<or> a = 192 \<and> b = 168 \<or> a = 127 \<and> b = 0"
proof -
  have max: "x \<le> (255 :: byte)" for x by (simp add: word_le_nat_alt)
  then have lt: "x < 255 \<longleftrightarrow> x \<noteq> (255 :: byte)" "0 < x \<longleftrightarrow> x \<noteq> (0 :: byte)" for x
    by (auto simp: less_le word_gt_0)
  have "bytes_le (IPv4 l1 l2 0 0) (IPv4 a b c d) \<and> bytes_le (IPv4 a b c d) (IPv4 l1 h2 255 255) \<longleftrightarrow>
      a = l1 \<and> l2 \<le> b \<and> b \<le> h2" if "l1 \<noteq> 0" for l1 l2 h2
    by (auto simp: IPv4_def v4_prefix_def lt)
  then have r: "list_ex (\<lambda>r. bytes_le (fst r) (IPv4 a b c d) \<and> bytes_le (IPv4 a b c d) (snd r)) privateIPRanges \<longleftrightarrow>
      a = 192 \<and> b = 168 \<or> a = 172 \<and> 16 \<le> b \<and> b \<le> 31 \<or> a = 10"
    by (auto simp: privateIPRanges_def max)
  show ?thesis
    by (auto simp: IsPrivateIP_def not_localhost [OF dotted_dot] ParseIP_dotted HasPrefix_127_0 r)
qed

end
