(* ===== verification/GoGlob.thy ===== *)
theory GoGlob
  imports GoStrings
begin

text \<open>
  \<open>filepath.Match\<close> (Unix separator), written after the library's own loops: a pattern is
  cut at its stars into chunks, each matched at the leftmost place its star allows. The
  result of a chunk is no match, a malformed pattern, or the rest of the name. Every
  caller in the code treats a malformed pattern as no match, so \<open>Match\<close> is a boolean.
\<close>

datatype chunk_result = NoMatch | BadPattern | Matched string

text \<open>\<open>getEsc\<close>: one possibly escaped character of a class, never the last of the chunk.\<close>

definition get_esc :: "string \<Rightarrow> (char \<times> string) option" where
  "get_esc c =
     (if c = [] \<or> hd c = CHR ''-'' \<or> hd c = CHR '']'' then None
      else let c' = (if hd c = CHR 0x5C then tl c else c)
           in if c' = [] \<or> tl c' = [] then None else Some (hd c', tl c'))"

lemma get_esc_shorter:
  assumes "get_esc c = Some (x, r)"
  shows "length r < length c \<and> r \<noteq> []"
proof (cases c)
  case Nil
  with assms show ?thesis by (simp add: get_esc_def)
next
  case (Cons a c')
  with assms show ?thesis
    by (cases c') (auto simp: get_esc_def Let_def split: if_splits)
qed

text \<open>The range loop of a character class: the rest of the chunk after the closing
  bracket and whether a range held the character.\<close>

function class_loop :: "char \<Rightarrow> string \<Rightarrow> bool \<Rightarrow> bool \<Rightarrow> (string \<times> bool) option" where
  "class_loop r chunk seen m =
     (if chunk \<noteq> [] \<and> hd chunk = CHR '']'' \<and> seen then Some (tl chunk, m)
      else case get_esc chunk of None \<Rightarrow> None
        | Some (lo, c1) \<Rightarrow>
            (case (if hd c1 = CHR ''-'' then get_esc (tl c1) else Some (lo, c1)) of None \<Rightarrow> None
             | Some (hi, c2) \<Rightarrow> class_loop r c2 True (m \<or> lo \<le> r \<and> r \<le> hi)))"
  by pat_completeness auto
termination
  by (relation "measure (\<lambda>(r, c, s, m). length c)")
     (auto dest!: get_esc_shorter split: if_splits)

declare class_loop.simps [simp del]

lemma class_loop_shorter: "class_loop r c s m = Some (c', m') \<Longrightarrow> length c' \<le> length c"
proof (induction r c s m rule: class_loop.induct)
  case (1 r chunk seen m)
  show ?case
  proof (cases "chunk \<noteq> [] \<and> hd chunk = CHR '']'' \<and> seen")
    case True
    with "1.prems" show ?thesis by (auto simp: class_loop.simps [of r chunk])
  next
    case False
    with "1.prems" obtain lo c1 where e1: "get_esc chunk = Some (lo, c1)"
      by (auto simp: class_loop.simps [of r chunk] split: option.splits)
    from "1.prems" False e1 obtain hi c2 where
      e2: "(if hd c1 = CHR ''-'' then get_esc (tl c1) else Some (lo, c1)) = Some (hi, c2)"
      and rec: "class_loop r c2 True (m \<or> lo \<le> r \<and> r \<le> hi) = Some (c', m')"
      by (auto simp: class_loop.simps [of r chunk] split: option.splits simp del: if_split)
    have "length c' \<le> length c2" by (rule "1.IH" [OF False e1 _ e2 _ rec]) auto
    moreover have "length c2 \<le> length c1"
      using e2 by (auto split: if_splits dest!: get_esc_shorter)
    moreover have "length c1 < length chunk"
      using get_esc_shorter [OF e1] by simp
    ultimately show ?thesis by simp
  qed
qed

text \<open>\<open>matchChunk\<close>.\<close>

function match_chunk :: "string \<Rightarrow> string \<Rightarrow> chunk_result" where
  "match_chunk [] s = Matched s"
| "match_chunk (c # ch) [] = NoMatch"
| "match_chunk (c # ch) (x # s) =
     (if c = CHR ''['' then
        (if ch = [] then BadPattern
         else let neg = (hd ch = CHR ''^''); ch1 = (if neg then tl ch else ch)
              in case class_loop x ch1 False False of None \<Rightarrow> BadPattern
                 | Some (ch2, m) \<Rightarrow> if m = neg then NoMatch else match_chunk ch2 s)
      else if c = CHR ''?'' then (if x = CHR ''/'' then NoMatch else match_chunk ch s)
      else if c = CHR 0x5C then
        (if ch = [] then BadPattern else if hd ch \<noteq> x then NoMatch else match_chunk (tl ch) s)
      else if c \<noteq> x then NoMatch else match_chunk ch s)"
  by pat_completeness auto
termination
  by (relation "measure (\<lambda>(c, s). length c)")
     (auto simp: Let_def dest!: class_loop_shorter split: if_splits)

text \<open>\<open>scanChunk\<close>: the chunk up to the next star outside a class, and the rest.\<close>

fun scan_body :: "bool \<Rightarrow> string \<Rightarrow> string \<times> string" where
  "scan_body inr [] = ([], [])"
| "scan_body inr (c # p) =
     (if c = CHR 0x5C then
        (case p of [] \<Rightarrow> ([c], [])
         | d # q \<Rightarrow> (case scan_body inr q of (a, b) \<Rightarrow> (c # d # a, b)))
      else if c = CHR ''*'' \<and> \<not> inr then ([], c # p)
      else (case scan_body (if c = CHR ''['' then True else if c = CHR '']'' then False else inr) p of
              (a, b) \<Rightarrow> (c # a, b)))"

definition scan_chunk :: "string \<Rightarrow> bool \<times> string \<times> string" where
  "scan_chunk p = (let q = dropWhile (\<lambda>c. c = CHR ''*'') p in (q \<noteq> p, scan_body False q))"

text \<open>The loop after a star: the leftmost place where the chunk matches; the last chunk
  must reach the end of the name. The index of the loop is the number of characters the
  star has taken.\<close>

fun star_loop :: "string \<Rightarrow> bool \<Rightarrow> string \<Rightarrow> chunk_result" where
  "star_loop chunk fin [] = NoMatch"
| "star_loop chunk fin (x # s) =
     (if x = CHR ''/'' then NoMatch
      else case match_chunk chunk s of
             Matched t \<Rightarrow> if fin \<and> t \<noteq> [] then star_loop chunk fin s else Matched t
           | BadPattern \<Rightarrow> BadPattern
           | NoMatch \<Rightarrow> star_loop chunk fin s)"

lemma scan_body_length: "length (fst (scan_body inr p)) + length (snd (scan_body inr p)) = length p"
  by (induction inr p rule: scan_body.induct) (simp_all add: case_prod_unfold split: list.splits)

lemma scan_body_progress:
  "p \<noteq> [] \<Longrightarrow> hd p \<noteq> CHR ''*'' \<Longrightarrow> fst (scan_body False p) \<noteq> []"
  by (cases p) (auto split: prod.splits list.splits)

lemma scan_chunk_shorter:
  assumes "p \<noteq> []" "scan_chunk p = (st, ch, rest)"
  shows "length rest < length p"
proof -
  let ?q = "dropWhile (\<lambda>c. c = CHR ''*'') p"
  have r: "length ch + length rest = length ?q" and st: "st = (?q \<noteq> p)"
    and ch: "ch = fst (scan_body False ?q)"
    using assms(2) scan_body_length [of False ?q] by (auto simp: scan_chunk_def Let_def split: prod.splits)
  have le: "length ?q \<le> length p" by (rule length_dropWhile_le)
  show ?thesis
  proof (cases "?q = p")
    case True
    have "hd p \<noteq> CHR ''*''"
    proof
      assume "hd p = CHR ''*''"
      with assms(1) True obtain r where "p = CHR ''*'' # r" "dropWhile (\<lambda>c. c = CHR ''*'') r = CHR ''*'' # r"
        by (cases p) auto
      then show False
        using length_dropWhile_le [of "\<lambda>c. c = CHR ''*''" r] by simp
    qed
    with True assms(1) ch have "ch \<noteq> []" using scan_body_progress [of p] by simp
    with r le show ?thesis by (cases ch) auto
  next
    case False
    then have "length ?q \<noteq> length p"
      by (metis append_self_conv2 length_append takeWhile_dropWhile_id add_cancel_right_left length_0_conv)
    with r le show ?thesis by linarith
  qed
qed

function Match :: "string \<Rightarrow> string \<Rightarrow> bool" where
  "Match p name =
     (if p = [] then name = []
      else (case scan_chunk p of (star, chunk, rest) \<Rightarrow>
        if star \<and> chunk = [] then CHR ''/'' \<notin> set name
        else let tried = (if star then star_loop chunk (rest = []) name else NoMatch)
             in case match_chunk chunk name of
                  Matched t \<Rightarrow>
                    if t = [] \<or> rest \<noteq> [] then Match rest t
                    else (case tried of Matched u \<Rightarrow> Match rest u | _ \<Rightarrow> False)
                | BadPattern \<Rightarrow> False
                | NoMatch \<Rightarrow> (case tried of Matched u \<Rightarrow> Match rest u | _ \<Rightarrow> False)))"
  by pat_completeness auto
termination
  by (relation "measure (\<lambda>(p, n). length p)") (auto dest!: scan_chunk_shorter [OF _ sym])

declare Match.simps [simp del]

lemma Match_Nil: "Match [] name \<longleftrightarrow> name = []"
  by (subst Match.simps) simp

text \<open>A pattern without special characters matches itself only; a lone star matches every
  name without a separator.\<close>

definition plain_pattern :: "string \<Rightarrow> bool" where
  "plain_pattern p \<longleftrightarrow> list_all (\<lambda>c. c \<notin> {CHR ''*'', CHR ''?'', CHR ''['', CHR '']'', CHR 0x5C}) p"

lemma scan_body_plain: "plain_pattern p \<Longrightarrow> scan_body False p = (p, [])"
  by (induction p) (auto simp: plain_pattern_def)

lemma match_chunk_plain:
  "plain_pattern p \<Longrightarrow> match_chunk p s = (if prefix p s then Matched (drop (length p) s) else NoMatch)"
proof (induction p arbitrary: s)
  case Nil
  then show ?case by simp
next
  case (Cons c p)
  then show ?case by (cases s) (auto simp: plain_pattern_def)
qed

lemma Match_plain: "plain_pattern p \<Longrightarrow> Match p name \<longleftrightarrow> name = p"
proof (cases "p = []")
  case True
  then show ?thesis by (subst Match.simps) simp
next
  case False
  assume p: "plain_pattern p"
  from p False have "dropWhile (\<lambda>c. c = CHR ''*'') p = p"
    by (cases p) (auto simp: plain_pattern_def)
  with p have sc: "scan_chunk p = (False, p, [])"
    by (simp add: scan_chunk_def scan_body_plain)
  show ?thesis
    using False p by (subst Match.simps) (auto simp: sc match_chunk_plain Match_Nil prefix_def)
qed

lemma Match_star: "Match ''*'' name \<longleftrightarrow> CHR ''/'' \<notin> set name"
  by (subst Match.simps) (simp add: scan_chunk_def)

end
