(* ===== verification/Interfaces.thy ===== *)
theory Interfaces
  imports Prelude
begin

text \<open>
  The contracts several components share, as locales: a self-delimiting codec, a
  configuration normaliser, a state machine with an invariant (as a relation and as a
  step function), and a keyed table. The facts proved here once are used by every
  component through an interpretation on its own definitions.
\<close>

section \<open>Self-delimiting codecs\<close>

text \<open>Decoding \<open>n\<close> messages one after the other from one byte stream.\<close>

fun dec_many :: "('b list \<Rightarrow> 'e + ('a \<times> 'b list)) \<Rightarrow> nat \<Rightarrow> 'b list \<Rightarrow> 'e + ('a list \<times> 'b list)" where
  "dec_many dec 0 bs = Inr ([], bs)"
| "dec_many dec (Suc n) bs =
     (case dec bs of Inl e \<Rightarrow> Inl e
      | Inr (x, bs') \<Rightarrow> (case dec_many dec n bs' of Inl e \<Rightarrow> Inl e
                        | Inr (xs, r) \<Rightarrow> Inr (x # xs, r)))"

locale prefix_codec =
  fixes valid :: "'a \<Rightarrow> bool"
    and enc :: "'a \<Rightarrow> 'b list"
    and dec :: "'b list \<Rightarrow> 'e + ('a \<times> 'b list)"
  assumes dec_enc: "valid x \<Longrightarrow> dec (enc x @ rest) = Inr (x, rest)"
begin

lemma dec_enc_exact: "valid x \<Longrightarrow> dec (enc x) = Inr (x, [])"
  using dec_enc [of x "[]"] by simp

lemma prefix_free:
  assumes "valid x" "valid y" "enc x @ r = enc y @ s"
  shows "x = y \<and> r = s"
proof -
  have "Inr (x, r) = (Inr (y, s) :: 'e + 'a \<times> 'b list)"
    using dec_enc [OF assms(1), of r] dec_enc [OF assms(2), of s] unfolding assms(3) by (rule trans [OF sym])
  then show ?thesis by simp
qed

lemma dec_concat:
  "list_all valid xs \<Longrightarrow> dec_many dec (length xs) (concat (map enc xs) @ rest) = Inr (xs, rest)"
  by (induction xs) (auto simp: dec_enc)

lemma concat_enc_inj:
  assumes "list_all valid xs" "list_all valid ys" "length xs = length ys"
    and "concat (map enc xs) = concat (map enc ys)"
  shows "xs = ys"
proof -
  have "Inr (xs, []) = (Inr (ys, []) :: 'e + 'a list \<times> 'b list)"
    using dec_concat [OF assms(1), of "[]"] dec_concat [OF assms(2), of "[]"] unfolding assms(3,4)
    by (rule trans [OF sym])
  then show ?thesis by simp
qed

end

section \<open>Configuration normalisers\<close>

locale normaliser =
  fixes norm :: "'c \<Rightarrow> 'c" and ok :: "'c \<Rightarrow> bool"
  assumes norm_ok: "ok (norm c)"
    and norm_fix: "ok c \<Longrightarrow> norm c = c"
begin

lemma norm_idem: "norm (norm c) = norm c"
  by (rule norm_fix [OF norm_ok])

lemma ok_iff_fixpoint: "ok c \<longleftrightarrow> norm c = c"
  using norm_ok [of c] norm_fix [of c] by auto

lemma range_norm: "range norm = {c. ok c}"
  using norm_ok norm_fix by (auto simp: image_iff) metis

end

section \<open>State machines\<close>

text \<open>A machine whose steps are chosen by its environment: the invariant holds in every
  state a run from an initial state reaches.\<close>

locale invariant_machine =
  fixes init :: "'s \<Rightarrow> bool" and step :: "'s \<Rightarrow> 's \<Rightarrow> bool" and inv :: "'s \<Rightarrow> bool"
  assumes inv_init: "init s \<Longrightarrow> inv s"
    and inv_step: "\<lbrakk>inv s; step s t\<rbrakk> \<Longrightarrow> inv t"
begin

lemma inv_steps: "\<lbrakk>step\<^sup>*\<^sup>* s t; inv s\<rbrakk> \<Longrightarrow> inv t"
  by (induction rule: rtranclp_induct) (auto intro: inv_step)

lemma inv_reachable: "\<lbrakk>init s; step\<^sup>*\<^sup>* s t\<rbrakk> \<Longrightarrow> inv t"
  by (blast intro: inv_init inv_steps)

end

text \<open>A machine driven by a list of events.\<close>

locale event_machine =
  fixes step :: "'s \<Rightarrow> 'e \<Rightarrow> 's" and inv :: "'s \<Rightarrow> bool"
  assumes step_inv: "inv s \<Longrightarrow> inv (step s e)"
begin

lemma run_inv: "inv s \<Longrightarrow> inv (foldl step s es)"
  by (induction es arbitrary: s) (auto intro: step_inv)

end

sublocale event_machine \<subseteq> im: invariant_machine inv "\<lambda>s t. \<exists>e. t = step s e" inv
  by unfold_locales (auto intro: step_inv)

section \<open>Keyed tables\<close>

text \<open>The tables of live objects (\<open>sync.Map\<close> or a mutex-protected \<open>map\<close>): what a
  lookup returns after each operation, and the load-or-create idiom over them.\<close>

locale keyed_store =
  fixes lookup :: "'m \<Rightarrow> 'k \<Rightarrow> 'v option"
    and store :: "'m \<Rightarrow> 'k \<Rightarrow> 'v \<Rightarrow> 'm"
    and remove :: "'m \<Rightarrow> 'k \<Rightarrow> 'm"
  assumes lookup_store: "lookup (store m k v) k' = (if k' = k then Some v else lookup m k')"
    and lookup_remove: "lookup (remove m k) k' = (if k' = k then None else lookup m k')"
begin

definition load_or_create :: "'m \<Rightarrow> 'k \<Rightarrow> 'v \<Rightarrow> 'm \<times> 'v" where
  "load_or_create m k v = (case lookup m k of Some w \<Rightarrow> (m, w) | None \<Rightarrow> (store m k v, v))"

lemma load_or_create_present:
  "load_or_create m k v = (m', w) \<Longrightarrow> lookup m' k = Some w"
  by (auto simp: load_or_create_def lookup_store split: option.splits)

lemma load_or_create_frame:
  "load_or_create m k v = (m', w) \<Longrightarrow> k' \<noteq> k \<Longrightarrow> lookup m' k' = lookup m k'"
  by (auto simp: load_or_create_def lookup_store split: option.splits)

lemma load_or_create_twice:
  "load_or_create m k v = (m', w) \<Longrightarrow> load_or_create m' k v' = (m', w)"
  by (auto simp: load_or_create_def lookup_store split: option.splits)

lemma create_after_remove: "load_or_create (remove m k) k v = (store (remove m k) k v, v)"
  by (simp add: load_or_create_def lookup_remove)

end

interpretation go_map: keyed_store "\<lambda>m k. m k" "\<lambda>m k v. m(k \<mapsto> v)" map_delete
  by unfold_locales auto

end
