(* ===== verification/MuxMessage.thy ===== *)
theory MuxMessage
  imports Interfaces
begin

text \<open>
  \<open>common/mux/mux.go\<close>, \<open>common/mux/io.go\<close>: the messages two ends of a multiplexed stream
  exchange before they relay data, and the stream's copy loops. A message is the
  \<open>msgpack\<close> encoding of a struct after its length in four bytes. \<open>msgpack\<close> is not part of
  the repository: its encoder and its decoder (which fills a struct given to it) are
  parameters.
\<close>

section \<open>Requests and responses\<close>

record ConnectRequest =
  crNetwork :: string
  crAddr :: string
  crDialTimeout :: int
  crReadTimeout :: int
  crHops :: "string list"

record AuthRequest =
  arRand :: string
  arUser :: string
  arCipherCounter :: u64
  arCipherMethod :: string
  arCompressMethod :: string
  arP2PToken :: string
  arP2PConnID :: string
  arP2PPriAddr :: string
  arP2PPubAddr :: string

record AuthResponse =
  Code :: int
  PeerPriAddr :: string
  PeerPubAddr :: string
  PubAddr :: string

definition AuthOK :: int where "AuthOK = 1"

definition auth_error :: "AuthResponse \<Rightarrow> bool" where
  "auth_error res = (if AuthOK = Code res then False else True)"

record StreamOptions =
  soDialTimeout :: int
  soReadTimeout :: int
  soHops :: "string list"

section \<open>A stream\<close>

text \<open>What arrives on the stream before its end, the error at its end, the writes so far and
  whether the next writes succeed. \<open>lastIO\<close> is \<open>latestIOTime\<close>; \<open>now\<close> is the clock.\<close>

record stream =
  s_in :: bytes
  s_end :: io_err
  s_out :: "bytes list"
  s_ok :: bool
  lastIO :: nat
  now :: nat

datatype mux_err = TooLarge | MuxIO io_err | Unencodable | Undecodable | MuxWrite

text \<open>\<open>io.ReadAtLeast\<close> of exactly \<open>n\<close> bytes. A read of no bytes does not touch the stream.\<close>

definition stream_read :: "nat \<Rightarrow> stream \<Rightarrow> (io_err + bytes) \<times> stream" where
  "stream_read n s =
     (let s = (if n = 0 then s else s\<lparr>lastIO := now s\<rparr>) in
      if n \<le> length (s_in s) then (Inr (take n (s_in s)), s\<lparr>s_in := drop n (s_in s)\<rparr>)
      else (Inl (if s_in s \<noteq> [] \<and> s_end s = EOF then UnexpectedEOF else s_end s), s\<lparr>s_in := []\<rparr>))"

definition stream_write :: "bytes \<Rightarrow> stream \<Rightarrow> bool \<times> stream" where
  "stream_write b s =
     (let s = s\<lparr>lastIO := now s\<rparr> in if s_ok s then (True, s\<lparr>s_out := s_out s @ [b]\<rparr>) else (False, s))"

section \<open>Frames\<close>

definition max_message :: nat where "max_message = 1000000"

text \<open>\<open>binary.BigEndian.PutUint32(buf.Bytes(), uint32(buf.Len()-4))\<close>: the length modulo
  \<open>2 ^ 32\<close> in front of the encoding.\<close>

definition frame :: "bytes \<Rightarrow> bytes" where
  "frame payload = be32_bytes (length payload mod 2 ^ 32) @ payload"

definition WriteMessage :: "('a \<Rightarrow> bytes option) \<Rightarrow> 'a \<Rightarrow> stream \<Rightarrow> mux_err option \<times> stream" where
  "WriteMessage enc req s =
     (case enc req of None \<Rightarrow> (Some Unencodable, s)
      | Some payload \<Rightarrow>
          (case stream_write (frame payload) s of
             (True, s') \<Rightarrow> (None, s') | (False, s') \<Rightarrow> (Some MuxWrite, s')))"

definition ReadFrame :: "stream \<Rightarrow> (mux_err + bytes) \<times> stream" where
  "ReadFrame s =
     (case stream_read 4 s of (Inl e, s') \<Rightarrow> (Inl (MuxIO e), s')
      | (Inr lenbuf, s') \<Rightarrow>
          (let len = be32 (lenbuf ! 0) (lenbuf ! 1) (lenbuf ! 2) (lenbuf ! 3) in
           if len > max_message then (Inl TooLarge, s')
           else case stream_read len s' of (Inl e, s'') \<Rightarrow> (Inl (MuxIO e), s'')
                | (Inr buf, s'') \<Rightarrow> (Inr buf, s'')))"

text \<open>\<open>ReadMessage\<close>: the error and the struct, filled as far as the decoder got.\<close>

definition ReadMessage ::
    "(bytes \<Rightarrow> 'a \<Rightarrow> bool \<times> 'a) \<Rightarrow> 'a \<Rightarrow> stream \<Rightarrow> (mux_err option \<times> 'a) \<times> stream" where
  "ReadMessage dec res s =
     (case ReadFrame s of (Inl e, s') \<Rightarrow> ((Some e, res), s')
      | (Inr buf, s') \<Rightarrow> (case dec buf res of (True, x) \<Rightarrow> ((None, x), s')
                         | (False, x) \<Rightarrow> ((Some Undecodable, x), s')))"

definition empty_connect :: ConnectRequest where
  "empty_connect = \<lparr>crNetwork = [], crAddr = [], crDialTimeout = 0, crReadTimeout = 0, crHops = []\<rparr>"

definition empty_auth :: AuthRequest where
  "empty_auth = \<lparr>arRand = [], arUser = [], arCipherCounter = 0, arCipherMethod = [], arCompressMethod = [],
     arP2PToken = [], arP2PConnID = [], arP2PPriAddr = [], arP2PPubAddr = []\<rparr>"

definition ReadConnectRequest ::
    "(bytes \<Rightarrow> ConnectRequest \<Rightarrow> bool \<times> ConnectRequest) \<Rightarrow> stream \<Rightarrow> (mux_err option \<times> ConnectRequest) \<times> stream" where
  "ReadConnectRequest dec = ReadMessage dec empty_connect"

definition ReadAuthRequest ::
    "(bytes \<Rightarrow> AuthRequest \<Rightarrow> bool \<times> AuthRequest) \<Rightarrow> stream \<Rightarrow> (mux_err option \<times> AuthRequest) \<times> stream" where
  "ReadAuthRequest dec = ReadMessage dec empty_auth"

section \<open>Connecting and authenticating\<close>

definition Connect ::
    "(ConnectRequest \<Rightarrow> bytes option) \<Rightarrow> string \<Rightarrow> string \<Rightarrow> StreamOptions \<Rightarrow> stream \<Rightarrow> mux_err option \<times> stream" where
  "Connect enc network addr opt =
     WriteMessage enc \<lparr>crNetwork = network, crAddr = addr, crDialTimeout = soDialTimeout opt,
                       crReadTimeout = soReadTimeout opt, crHops = soHops opt\<rparr>"

text \<open>\<open>ioutil.ReadAll\<close>: everything up to the end, whatever the error.\<close>

definition stream_drain :: "stream \<Rightarrow> stream" where
  "stream_drain s = s\<lparr>s_in := [], lastIO := now s\<rparr>"

text \<open>\<open>Auth\<close>: \<open>rand\<close> is the padding of random letters. The response starts with code -1; after
  a complete response the stream is read until the remote end closes it.\<close>

definition Auth ::
    "(AuthRequest \<Rightarrow> bytes option) \<Rightarrow> (bytes \<Rightarrow> AuthResponse \<Rightarrow> bool \<times> AuthResponse) \<Rightarrow> string \<Rightarrow>
     AuthRequest \<Rightarrow> stream \<Rightarrow> AuthResponse \<times> stream" where
  "Auth enc dec rand req s =
     (let req = req\<lparr>arRand := rand\<rparr>;
          res = \<lparr>Code = -1, PeerPriAddr = [], PeerPubAddr = [], PubAddr = []\<rparr>
      in case WriteMessage enc req s of
           (Some e, s') \<Rightarrow> (res, s')
         | (None, s') \<Rightarrow>
             (case ReadMessage dec res s' of
                ((Some e, res'), s'') \<Rightarrow> (res', s'')
              | ((None, res'), s'') \<Rightarrow> (res', stream_drain s'')))"

section \<open>Copy loops\<close>

text \<open>The loop of \<open>ReadFrom\<close> and of \<open>WriteTo\<close>: the results of the reads (the bytes and the
  error that came with them), and for each write whether it succeeds. It returns the count,
  the error that ended it and what was written; None when the reads go on for ever (the list
  of results ends without an error).\<close>

datatype copy_end = ReadErr io_err | WriteErr

fun copy_loop :: "(bytes \<times> io_err option) list \<Rightarrow> bool list \<Rightarrow> nat \<Rightarrow> bytes list \<Rightarrow>
    ((nat \<times> copy_end) \<times> bytes list) option" where
  "copy_loop [] ws n acc = None"
| "copy_loop ((b, e) # rs) ws n acc =
     (if b \<noteq> [] then
        (case ws of
           False # _ \<Rightarrow> Some ((n + length b, WriteErr), acc)
         | _ \<Rightarrow> (case e of Some x \<Rightarrow> Some ((n + length b, ReadErr x), acc @ [b])
                | None \<Rightarrow> copy_loop rs (tl ws) (n + length b) (acc @ [b])))
      else (case e of Some x \<Rightarrow> Some ((n, ReadErr x), acc) | None \<Rightarrow> copy_loop rs ws n acc))"

definition ReadFrom :: "(bytes \<times> io_err option) list \<Rightarrow> bool list \<Rightarrow> ((nat \<times> copy_end) \<times> bytes list) option" where
  "ReadFrom rs ws = copy_loop rs ws 0 []"

definition WriteTo :: "(bytes \<times> io_err option) list \<Rightarrow> bool list \<Rightarrow> ((nat \<times> copy_end) \<times> bytes list) option" where
  "WriteTo rs ws = copy_loop rs ws 0 []"

section \<open>Stream identifiers\<close>

text \<open>\<open>StreamID\<close>: the identifier of the underlying stream when the library gives one, else one
  drawn from a global counter the first time it is asked for, as a \<open>uint32\<close>.\<close>

datatype inner = PmuxStream u32 | QuicStream u64 | OtherStream

definition StreamID :: "inner \<Rightarrow> 64 word \<Rightarrow> 64 word \<Rightarrow> u32 \<times> 64 word \<times> 64 word" where
  "StreamID i sessionID seed =
     (case i of PmuxStream k \<Rightarrow> (k, sessionID, seed)
      | QuicStream k \<Rightarrow> (ucast k, sessionID, seed)
      | OtherStream \<Rightarrow>
          (let (sid, seed') = (if sessionID = 0 then (seed + 1, seed + 1) else (sessionID, seed))
           in (ucast sid, sid, seed')))"

section \<open>Compression\<close>

definition SnappyCompressor :: string where "SnappyCompressor = ''snappy''"
definition NoneCompressor :: string where "NoneCompressor = ''none''"

definition IsValidCompressor :: "string \<Rightarrow> bool" where
  "IsValidCompressor m =
     (if m = SnappyCompressor then True else if m = NoneCompressor then True else False)"

definition GetCompressStreamReaderWriter :: "('s \<Rightarrow> 'r) \<Rightarrow> ('s \<Rightarrow> 'r) \<Rightarrow> 's \<Rightarrow> string \<Rightarrow> 'r" where
  "GetCompressStreamReaderWriter snappy plain s m =
     (if m = SnappyCompressor then snappy s else plain s)"

section \<open>Frames read back\<close>

lemma be32_bytes_read [simp]:
  "n < 4294967296 \<Longrightarrow> be32 (be32_bytes n ! 0) (be32_bytes n ! Suc 0) (be32_bytes n ! 2) (be32_bytes n ! 3) = n"
  using be32_bytes_inv [of n] by (simp add: be32_bytes_def)

lemma stream_read_append:
  "s_in s = xs @ ys \<Longrightarrow> n = length xs \<Longrightarrow> n \<noteq> 0 \<Longrightarrow>
   stream_read n s = (Inr xs, s\<lparr>s_in := ys, lastIO := now s\<rparr>)"
  by (simp add: stream_read_def Let_def)

lemma ReadFrame_frame [frame_simps]:
  assumes "s_in s = frame p @ r" "length p \<le> max_message"
  shows "ReadFrame s = (Inr p, s\<lparr>s_in := r, lastIO := now s\<rparr>)"
proof -
  have l: "length p mod 4294967296 = length p" using assms(2) by (simp add: max_message_def)
  have 1: "stream_read 4 s = (Inr (be32_bytes (length p)), s\<lparr>s_in := p @ r, lastIO := now s\<rparr>)"
    using assms(1) by (intro stream_read_append) (simp_all add: frame_def l)
  have 2: "stream_read (length p) (s\<lparr>s_in := p @ r, lastIO := now s\<rparr>) = (Inr p, s\<lparr>s_in := r, lastIO := now s\<rparr>)"
    by (simp add: stream_read_def Let_def)
  have "be32 (be32_bytes (length p) ! 0) (be32_bytes (length p) ! 1) (be32_bytes (length p) ! 2) (be32_bytes (length p) ! 3) = length p"
    using be32_bytes_read [of "length p"] assms(2) by (simp add: max_message_def)
  with assms(2) show ?thesis by (simp add: ReadFrame_def 1 2 Let_def)
qed

lemma ReadFrame_too_large [frame_simps]:
  assumes "s_in s = be32_bytes n @ r" "max_message < n" "n < 2 ^ 32"
  shows "ReadFrame s = (Inl TooLarge, s\<lparr>s_in := r, lastIO := now s\<rparr>)"
proof -
  have "stream_read 4 s = (Inr (be32_bytes n), s\<lparr>s_in := r, lastIO := now s\<rparr>)"
    using assms(1) by (intro stream_read_append) simp_all
  with assms(2,3) show ?thesis by (simp add: ReadFrame_def Let_def)
qed

text \<open>The frames as a codec on the bytes of a stream: the locale's facts give the decoding of
  any sequence of frames.\<close>

definition read_frame_bytes :: "bytes \<Rightarrow> mux_err + (bytes \<times> bytes)" where
  "read_frame_bytes bs =
     (case ReadFrame \<lparr>s_in = bs, s_end = EOF, s_out = [], s_ok = True, lastIO = 0, now = 0\<rparr> of
        (Inl e, _) \<Rightarrow> Inl e | (Inr p, s) \<Rightarrow> Inr (p, s_in s))"

interpretation frames: prefix_codec "\<lambda>p. length p \<le> max_message" frame read_frame_bytes
  by unfold_locales (simp add: read_frame_bytes_def frame_simps)

text \<open>A copy whose writes succeed hands over every byte read, in order, and counts them.\<close>

lemma copy_loop_all:
  "\<lbrakk>list_all (\<lambda>(b, e). e = None) rs; list_all (\<lambda>w. w) ws\<rbrakk> \<Longrightarrow>
   copy_loop (rs @ (b, Some e) # rest) ws n acc =
     Some ((n + length (concat (map fst rs)) + length b, ReadErr e),
           acc @ filter (\<lambda>x. x \<noteq> []) (map fst rs @ [b]))"
proof (induction rs arbitrary: ws n acc)
  case Nil
  then show ?case by (cases ws) (auto split: bool.splits)
next
  case (Cons r rs)
  obtain x where r: "r = (x, None)" using Cons.prems by (cases r) auto
  have "list_all (\<lambda>w. w) (tl ws)" using Cons.prems(2) by (cases ws) auto
  then show ?case
    using Cons.prems Cons.IH [of "tl ws" "n + length x" "acc @ [x]"] Cons.IH [of ws n acc]
    by (cases ws) (auto simp: r split: bool.splits)
qed

lemma concat_filter_Nil: "concat (filter (\<lambda>x. x \<noteq> []) xs) = concat xs"
  by (induction xs) auto

lemma WriteMessage_frame:
  "enc req = Some p \<Longrightarrow> s_ok s \<Longrightarrow>
   WriteMessage enc req s = (None, s\<lparr>s_out := s_out s @ [frame p], lastIO := now s\<rparr>)"
  by (simp add: WriteMessage_def stream_write_def Let_def)

lemma ReadMessage_frame:
  "s_in s = frame p @ r \<Longrightarrow> length p \<le> max_message \<Longrightarrow> dec p x0 = (True, x) \<Longrightarrow>
   ReadMessage dec x0 s = ((None, x), s\<lparr>s_in := r, lastIO := now s\<rparr>)"
  by (simp add: ReadMessage_def ReadFrame_frame)

section \<open>Properties\<close>

text \<open>C27: the authentication exchange. For a client and a server that use one encoder and
  decoder, the single message the client writes is read by the server as the client's request,
  and the response the server writes is what the client returns; the client then waits for the
  end of the stream.\<close>

theorem auth_exchange:
  assumes "encq (req\<lparr>arRand := rand\<rparr>) = Some pq" "length pq \<le> max_message"
    and "decq pq empty_auth = (True, req\<lparr>arRand := rand\<rparr>)"
    and "encr res = Some pr" "length pr \<le> max_message"
    and "decr pr \<lparr>Code = -1, PeerPriAddr = [], PeerPubAddr = [], PubAddr = []\<rparr> = (True, res)"
    and "s_ok c" "s_ok s" "s_in s = x"
  shows "\<exists>m w c' s' s''. s_out c' = s_out c @ [m] \<and>
     ReadAuthRequest decq (s\<lparr>s_in := m @ x\<rparr>) = ((None, req\<lparr>arRand := rand\<rparr>), s') \<and> s_in s' = x \<and>
     WriteMessage encr res s' = (None, s'') \<and> s_out s'' = s_out s @ [w] \<and>
     Auth encq decr rand req (c\<lparr>s_in := w @ junk\<rparr>) = (res, c') \<and> s_in c' = []"
proof -
  let ?s' = "s\<lparr>s_in := x, lastIO := now s\<rparr>"
  have 1: "ReadAuthRequest decq (s\<lparr>s_in := frame pq @ x\<rparr>) = ((None, req\<lparr>arRand := rand\<rparr>), ?s')"
    using ReadMessage_frame [of "s\<lparr>s_in := frame pq @ x\<rparr>" pq x decq empty_auth] assms(2,3)
    by (simp add: ReadAuthRequest_def)
  have 2: "WriteMessage encr res ?s' = (None, ?s'\<lparr>s_out := s_out s @ [frame pr]\<rparr>)"
    using WriteMessage_frame [of encr res pr ?s'] assms(4,8) by simp
  have 3: "Auth encq decr rand req (c\<lparr>s_in := frame pr @ junk\<rparr>) =
      (res, c\<lparr>s_in := [], s_out := s_out c @ [frame pq], lastIO := now c\<rparr>)"
    using ReadMessage_frame [of "c\<lparr>s_in := frame pr @ junk, s_out := s_out c @ [frame pq], lastIO := now c\<rparr>" pr junk decr] assms
    by (simp add: Auth_def Let_def WriteMessage_frame stream_drain_def)
  show ?thesis
    by (rule exI [of _ "frame pq"], rule exI [of _ "frame pr"]) (use 1 2 3 in force)
qed

definition no_stream :: stream where
  "no_stream = \<lparr>s_in = [], s_end = EOF, s_out = [], s_ok = True, lastIO = 0, now = 1\<rparr>"

lemma auth_exchange_witness:
  "\<exists>m w c' s' s''. s_out c' = s_out no_stream @ [m] \<and>
     ReadAuthRequest (\<lambda>b q. (True, q\<lparr>arRand := str_of_bytes b\<rparr>)) (no_stream\<lparr>s_in := m @ []\<rparr>) = ((None, empty_auth\<lparr>arRand := ''r''\<rparr>), s') \<and>
     s_in s' = [] \<and> WriteMessage (\<lambda>r. Some [of_int (Code r)]) \<lparr>Code = 1, PeerPriAddr = [], PeerPubAddr = [], PubAddr = []\<rparr> s' = (None, s'') \<and>
     s_out s'' = s_out no_stream @ [w] \<and>
     Auth (\<lambda>q. Some (bytes_of_str (arRand q))) (\<lambda>b r. (True, r\<lparr>Code := uint (hd b)\<rparr>)) ''r'' empty_auth (no_stream\<lparr>s_in := w @ [7]\<rparr>) =
       (\<lparr>Code = 1, PeerPriAddr = [], PeerPubAddr = [], PubAddr = []\<rparr>, c') \<and> s_in c' = []"
  by (rule auth_exchange [where pr = "[1]" and pq = "bytes_of_str ''r''"])
     (simp_all add: max_message_def no_stream_def empty_auth_def)

text \<open>the writer does not know the reader's limit. A message whose encoding is longer than
  one million bytes is written without an error, and the other end refuses it after its first
  four bytes, leaving the rest on the stream.\<close>

theorem oversized_message:
  assumes "enc req = Some p" "max_message < length p" "length p < 2 ^ 32" "s_ok s"
  shows "\<exists>m s'. WriteMessage enc req s = (None, s') \<and> s_out s' = s_out s @ [m] \<and>
     (\<forall>dec x0 t. \<exists>t'. ReadMessage dec x0 (t\<lparr>s_in := m\<rparr>) = ((Some TooLarge, x0), t') \<and> s_in t' = p)"
proof -
  have r: "\<exists>t'. ReadMessage dec x0 (t\<lparr>s_in := frame p\<rparr>) = ((Some TooLarge, x0), t') \<and> s_in t' = p" for dec x0 t
    using ReadFrame_too_large [of "t\<lparr>s_in := frame p\<rparr>" "length p" p] assms(2,3)
    by (simp add: ReadMessage_def frame_def)
  have w: "WriteMessage enc req s = (None, s\<lparr>s_out := s_out s @ [frame p], lastIO := now s\<rparr>)"
    using assms(1,4) by (rule WriteMessage_frame)
  show ?thesis unfolding w using r by auto
qed

lemma oversized_message_witness:
  "\<exists>m s'. WriteMessage Some (replicate 1000001 0) no_stream = (None, s') \<and> s_out s' = s_out no_stream @ [m] \<and>
     (\<forall>dec x0 t. \<exists>t'. ReadMessage dec (x0 :: bytes) (t\<lparr>s_in := m\<rparr>) = ((Some TooLarge, x0), t') \<and> s_in t' = replicate 1000001 0)"
  by (rule oversized_message) (simp_all add: max_message_def no_stream_def)

text \<open>authentication fails closed. Unless a whole response was read and decoded, the code
  the client returns is whatever the decoder left of the initial -1; with no response at all
  (the write fails, or the stream ends inside the frame) it is an error.\<close>

theorem auth_fails_closed:
  assumes "Auth enc dec rand req s = (res, s')" "\<not> auth_error res"
  shows "\<exists>p buf s1. enc (req\<lparr>arRand := rand\<rparr>) = Some p \<and> s_ok s \<and>
     ReadFrame (s\<lparr>s_out := s_out s @ [frame p], lastIO := now s\<rparr>) = (Inr buf, s1) \<and>
     snd (dec buf \<lparr>Code = -1, PeerPriAddr = [], PeerPubAddr = [], PubAddr = []\<rparr>) = res"
proof -
  let ?r = "\<lparr>Code = -1, PeerPriAddr = [], PeerPubAddr = [], PubAddr = []\<rparr>"
  have ok: "Code res = 1" using assms(2) by (simp add: auth_error_def AuthOK_def split: if_splits)
  obtain p where p: "enc (req\<lparr>arRand := rand\<rparr>) = Some p" "s_ok s"
    using assms(1) ok by (cases "enc (req\<lparr>arRand := rand\<rparr>)"; cases "s_ok s")
      (auto simp: Auth_def WriteMessage_def stream_write_def Let_def)
  let ?s = "s\<lparr>s_out := s_out s @ [frame p], lastIO := now s\<rparr>"
  have a: "(case ReadMessage dec ?r ?s of ((Some e, res'), s'') \<Rightarrow> (res', s'')
              | ((None, res'), s'') \<Rightarrow> (res', stream_drain s'')) = (res, s')"
    using assms(1) p by (simp add: Auth_def WriteMessage_frame)
  show ?thesis
  proof (cases "ReadFrame ?s")
    case (Pair r s1)
    with a ok obtain buf where "r = Inr buf" by (cases r) (auto simp: ReadMessage_def)
    moreover have "snd (dec buf ?r) = res"
      using a Pair \<open>r = Inr buf\<close> by (cases "dec buf ?r") (auto simp: ReadMessage_def split: bool.splits)
    ultimately show ?thesis using p Pair by blast
  qed
qed

lemma auth_fails_closed_witness:
  "\<exists>p buf s1. Some [1] = Some p \<and> s_ok (no_stream\<lparr>s_in := [0, 0, 0, 1, 1]\<rparr>) \<and>
     ReadFrame (no_stream\<lparr>s_in := [0, 0, 0, 1, 1]\<rparr>\<lparr>s_out := [] @ [frame p], lastIO := 1\<rparr>) = (Inr buf, s1) \<and>
     snd (True, \<lparr>Code = 1, PeerPriAddr = [], PeerPubAddr = [], PubAddr = []\<rparr>) = \<lparr>Code = 1, PeerPriAddr = [], PeerPubAddr = [], PubAddr = []\<rparr>"
proof -
  have "Auth (\<lambda>q. Some [1]) (\<lambda>b r. (True, r\<lparr>Code := 1\<rparr>)) [] empty_auth (no_stream\<lparr>s_in := [0, 0, 0, 1, 1]\<rparr>) =
     (\<lparr>Code = 1, PeerPriAddr = [], PeerPubAddr = [], PubAddr = []\<rparr>,
      no_stream\<lparr>s_in := [], s_out := [[0, 0, 0, 1, 1]], lastIO := 1\<rparr>)"
  proof -
    have f: "frame [1] = [0, 0, 0, 1, 1]" by (simp add: frame_def be32_bytes_def)
    show ?thesis
      using ReadMessage_frame [of "no_stream\<lparr>s_in := [0, 0, 0, 1, 1], s_out := [[0, 0, 0, 1, 1]], lastIO := 1\<rparr>" "[1]" "[]"
          "\<lambda>b r. (True, r\<lparr>Code := 1\<rparr>)" "\<lparr>Code = -1, PeerPriAddr = [], PeerPubAddr = [], PubAddr = []\<rparr>"]
      by (simp add: Auth_def WriteMessage_frame f no_stream_def max_message_def stream_drain_def)
  qed
  from auth_fails_closed [OF this] show ?thesis by (auto simp: auth_error_def AuthOK_def no_stream_def)
qed

text \<open>a copy between a stream and a connection whose writes succeed passes on exactly the
  bytes read, in order, and returns their number with the error that ended the reading.\<close>

theorem copy_complete:
  assumes "list_all (\<lambda>(b, e). e = None) rs" "list_all (\<lambda>w. w) ws"
  shows "\<exists>out. ReadFrom (rs @ (b, Some e) # rest) ws = Some ((length (concat out), ReadErr e), out) \<and>
     WriteTo (rs @ (b, Some e) # rest) ws = ReadFrom (rs @ (b, Some e) # rest) ws \<and>
     concat out = concat (map fst rs) @ b \<and> [] \<notin> set out"
  using copy_loop_all [OF assms, of b e rest 0 "[]"]
  by (simp add: ReadFrom_def WriteTo_def concat_filter_Nil)

lemma copy_complete_witness:
  "\<exists>out. ReadFrom ([([1], None), ([], None)] @ ([2, 3], Some EOF) # []) [True] = Some ((length (concat out), ReadErr EOF), out) \<and>
     WriteTo ([([1], None), ([], None)] @ ([2, 3], Some EOF) # []) [True] = ReadFrom ([([1], None), ([], None)] @ ([2, 3], Some EOF) # []) [True] \<and>
     concat out = concat (map fst [([1], None), ([], None :: io_err option)]) @ [2, 3] \<and> [] \<notin> set out"
  by (rule copy_complete) simp_all

end
