(* ===== verification/MuxSessions.thy ===== *)
theory MuxSessions
  imports Interfaces
begin

text \<open>
  \<open>common/mux/http2.go\<close>, \<open>common/mux/quic.go\<close>, \<open>common/mux/ws.go\<close>: the sessions built on
  HTTP/2 and QUIC, which count their streams, the HTTP/2 client stream, whose reader waits
  until the response has arrived, and the byte stream over WebSocket messages. The transports
  themselves are not part of the repository.
\<close>

section \<open>HTTP/2 sessions\<close>

text \<open>Streams are named by the order in which they are made; \<open>h2conn\<close> is whether the
  connection is still there, \<open>h2accept\<close> the channel of offered streams (None for the client's
  session, which has no channel).\<close>

record h2sess =
  streamCounter :: int
  h2streams :: "nat set"
  h2next :: nat
  h2conn :: bool
  h2accept :: "nat list option"
  h2closeSignals :: nat

datatype sess_err = SessionShutdown | CannotAccept | TransportErr

definition NewHTTP2ClientMuxSession :: "bool \<Rightarrow> h2sess option" where
  "NewHTTP2ClientMuxSession transportOk =
     (if transportOk then Some \<lparr>streamCounter = 0, h2streams = {}, h2next = 0, h2conn = True, h2accept = None, h2closeSignals = 0\<rparr>
      else None)"

definition NewHTTP2ServerMuxSession :: h2sess where
  "NewHTTP2ServerMuxSession =
     \<lparr>streamCounter = 0, h2streams = {}, h2next = 0, h2conn = True, h2accept = Some [], h2closeSignals = 0\<rparr>"

definition h2_CloseStream :: "nat \<Rightarrow> h2sess \<Rightarrow> h2sess" where
  "h2_CloseStream i q = q\<lparr>h2streams := h2streams q - {i}, streamCounter := streamCounter q - 1\<rparr>"

definition h2_OpenStream :: "h2sess \<Rightarrow> (sess_err + nat) \<times> h2sess" where
  "h2_OpenStream q =
     (if \<not> h2conn q then (Inl SessionShutdown, q)
      else (Inr (h2next q), q\<lparr>h2next := h2next q + 1, streamCounter := streamCounter q + 1,
                               h2streams := insert (h2next q) (h2streams q)\<rparr>))"

text \<open>\<open>OfferStream\<close>: the channel holds 64 streams. A stream that does not fit is closed.\<close>

definition h2_OfferStream :: "h2sess \<Rightarrow> (sess_err + nat) \<times> h2sess" where
  "h2_OfferStream q =
     (let i = h2next q; q' = q\<lparr>h2next := i + 1\<rparr> in
      case h2accept q of
        Some ch \<Rightarrow> if length ch < 64 then (Inr i, q'\<lparr>h2accept := Some (ch @ [i])\<rparr>) else (Inl CannotAccept, q')
      | None \<Rightarrow> (Inl CannotAccept, q'))"

text \<open>\<open>AcceptStream\<close>: None while it waits for a stream or for the session to close. With both
  ready the choice is the runtime's; \<open>pickClose\<close> is that choice.\<close>

definition h2_AcceptStream :: "bool \<Rightarrow> h2sess \<Rightarrow> ((sess_err + nat) \<times> h2sess) option" where
  "h2_AcceptStream pickClose q =
     (case h2accept q of
        Some (i # ch) \<Rightarrow>
          if pickClose \<and> h2closeSignals q > 0 then Some (Inl SessionShutdown, q\<lparr>h2closeSignals := h2closeSignals q - 1\<rparr>)
          else Some (Inr i, q\<lparr>h2accept := Some ch, h2streams := insert i (h2streams q)\<rparr>)
      | _ \<Rightarrow> if h2closeSignals q > 0 then Some (Inl SessionShutdown, q\<lparr>h2closeSignals := h2closeSignals q - 1\<rparr>) else None)"

definition h2_NumStreams :: "h2sess \<Rightarrow> int" where
  "h2_NumStreams q = streamCounter q"

text \<open>\<open>Close\<close>: the waiting acceptor, if there is one (\<open>waiting\<close>), is notified; then every stream
  of the table is closed, in some order.\<close>

definition h2_Close :: "bool \<Rightarrow> nat list \<Rightarrow> h2sess \<Rightarrow> h2sess" where
  "h2_Close waiting order q =
     foldl (\<lambda>q i. h2_CloseStream i q)
       (q\<lparr>h2conn := False, h2closeSignals := h2closeSignals q + (if waiting then 1 else 0)\<rparr>) order"

text \<open>The goroutine \<open>OpenStream\<close> starts: with a response it sets the reader of the stream (see below), with an error it closes the stream and
  the session. A server's session, which has a channel of offered streams, has no HTTP/2 client connection: None is the
  dereference of it.\<close>

definition h2_round_trip :: "bool \<Rightarrow> bool \<Rightarrow> nat list \<Rightarrow> h2sess \<Rightarrow> h2sess option" where
  "h2_round_trip ok waiting order q =
     (if h2accept q \<noteq> None then None else Some (if ok then q else h2_Close waiting order q))"

datatype h2_event = EvOpen | EvOffer | EvAccept bool | EvCloseStream nat | EvClose bool "nat list"

definition h2_step :: "h2sess \<Rightarrow> h2_event \<Rightarrow> h2sess" where
  "h2_step q e = (case e of
       EvOpen \<Rightarrow> snd (h2_OpenStream q)
     | EvOffer \<Rightarrow> snd (h2_OfferStream q)
     | EvAccept pick \<Rightarrow> (case h2_AcceptStream pick q of None \<Rightarrow> q | Some (_, q') \<Rightarrow> q')
     | EvCloseStream i \<Rightarrow> h2_CloseStream i q
     | EvClose w order \<Rightarrow> h2_Close w order q)"

definition h2_inv :: "h2sess \<Rightarrow> bool" where
  "h2_inv q \<longleftrightarrow> finite (h2streams q) \<and> streamCounter q \<le> int (card (h2streams q)) \<and>
     (\<forall>i \<in> h2streams q. i < h2next q)"

lemma h2_CloseStream_inv [inv_pres]: "h2_inv q \<Longrightarrow> h2_inv (h2_CloseStream i q)"
proof -
  assume q: "h2_inv q"
  have "card (h2streams q) \<le> card (h2streams q - {i}) + 1"
    using q card_Suc_Diff1 [of "h2streams q" i] by (cases "i \<in> h2streams q") (auto simp: h2_inv_def)
  with q show ?thesis by (auto simp: h2_inv_def h2_CloseStream_def)
qed

lemma h2_Close_inv [inv_pres]: "h2_inv q \<Longrightarrow> h2_inv (h2_Close w order q)"
proof -
  assume q: "h2_inv q"
  have "h2_inv (foldl (\<lambda>q i. h2_CloseStream i q) q' order)" if "h2_inv q'" for q'
    using that by (induction order arbitrary: q') (auto intro: h2_CloseStream_inv)
  moreover have "h2_inv (q\<lparr>h2conn := False, h2closeSignals := n\<rparr>)" for n using q by (simp add: h2_inv_def)
  ultimately show ?thesis by (simp add: h2_Close_def)
qed

lemma h2_OpenStream_inv [inv_pres]: "h2_inv q \<Longrightarrow> h2_inv (snd (h2_OpenStream q))"
  by (auto simp: h2_inv_def h2_OpenStream_def card_insert_if less_Suc_eq)

lemma h2_inv_frame: "h2_inv q \<Longrightarrow> h2_inv (q\<lparr>h2closeSignals := n\<rparr>)"
  by (simp add: h2_inv_def)

text \<open>The streams of a server come from the accept channel, whose entries are numbers already
  given out.\<close>

definition h2_offered :: "h2sess \<Rightarrow> bool" where
  "h2_offered q \<longleftrightarrow> (\<forall>ch. h2accept q = Some ch \<longrightarrow> (\<forall>i \<in> set ch. i < h2next q))"

lemma h2_foldl_CloseStream:
  "h2accept (foldl (\<lambda>q i. h2_CloseStream i q) q order) = h2accept q \<and>
   h2next (foldl (\<lambda>q i. h2_CloseStream i q) q order) = h2next q \<and>
   h2conn (foldl (\<lambda>q i. h2_CloseStream i q) q order) = h2conn q"
  by (induction order arbitrary: q) (auto simp: h2_CloseStream_def)

lemma h2_step_inv: "h2_inv q \<and> h2_offered q \<Longrightarrow> h2_inv (h2_step q e) \<and> h2_offered (h2_step q e)"
proof (cases e)
  case EvOpen
  assume "h2_inv q \<and> h2_offered q"
  with EvOpen h2_OpenStream_inv [of q] show ?thesis
    by (auto simp: h2_step_def h2_offered_def h2_OpenStream_def less_Suc_eq)
next
  case EvOffer
  assume "h2_inv q \<and> h2_offered q"
  with EvOffer show ?thesis
    by (auto simp: h2_step_def h2_offered_def h2_inv_def h2_OfferStream_def Let_def less_Suc_eq split: option.splits)
next
  case (EvAccept p)
  assume q: "h2_inv q \<and> h2_offered q"
  show ?thesis
  proof (cases "h2_AcceptStream p q")
    case None
    with q EvAccept show ?thesis by (simp add: h2_step_def)
  next
    case (Some r)
    have "h2_inv (snd r) \<and> h2_offered (snd r)"
      using q Some
      by (auto simp: h2_AcceptStream_def h2_inv_def h2_offered_def card_insert_if split: option.splits list.splits if_splits)
    with EvAccept Some show ?thesis by (cases r) (simp add: h2_step_def)
  qed
next
  case (EvCloseStream i)
  assume "h2_inv q \<and> h2_offered q"
  with EvCloseStream h2_CloseStream_inv [of q i] show ?thesis
    by (auto simp: h2_step_def h2_offered_def h2_CloseStream_def)
next
  case (EvClose w order)
  assume "h2_inv q \<and> h2_offered q"
  with EvClose h2_Close_inv [of q w order] show ?thesis
    by (auto simp: h2_step_def h2_offered_def h2_Close_def h2_foldl_CloseStream)
qed

interpretation h2: event_machine h2_step "\<lambda>q. h2_inv q \<and> h2_offered q"
  by unfold_locales (rule h2_step_inv)

text \<open>The count is exact for a client that closes each of its streams at most once.\<close>

fun closed_once :: "h2sess \<Rightarrow> h2_event list \<Rightarrow> bool" where
  "closed_once q [] = True"
| "closed_once q (e # es) =
     ((case e of EvCloseStream i \<Rightarrow> i \<in> h2streams q
       | EvClose w order \<Rightarrow> distinct order \<and> set order \<subseteq> h2streams q
       | _ \<Rightarrow> True) \<and> closed_once (h2_step q e) es)"

lemma h2_CloseStream_exact:
  assumes "finite (h2streams q)" "i \<in> h2streams q" "streamCounter q = int (card (h2streams q))"
  shows "streamCounter (h2_CloseStream i q) = int (card (h2streams (h2_CloseStream i q)))"
  using assms(3) card_Suc_Diff1 [OF assms(1,2)] by (simp add: h2_CloseStream_def)

lemma h2_foldl_exact:
  "\<lbrakk>finite (h2streams q); distinct order; set order \<subseteq> h2streams q; streamCounter q = int (card (h2streams q))\<rbrakk> \<Longrightarrow>
   streamCounter (foldl (\<lambda>q i. h2_CloseStream i q) q order) =
     int (card (h2streams (foldl (\<lambda>q i. h2_CloseStream i q) q order)))"
proof (induction order arbitrary: q)
  case (Cons i order)
  have "streamCounter (h2_CloseStream i q) = int (card (h2streams (h2_CloseStream i q)))"
    by (rule h2_CloseStream_exact) (use Cons.prems in auto)
  moreover have "finite (h2streams (h2_CloseStream i q))" "set order \<subseteq> h2streams (h2_CloseStream i q)"
    using Cons.prems by (auto simp: h2_CloseStream_def)
  ultimately show ?case using Cons.IH [of "h2_CloseStream i q"] Cons.prems(2) by simp
qed simp

lemma h2_exact_step:
  assumes "h2_inv q" "h2accept q = None" "streamCounter q = int (card (h2streams q))"
    and "closed_once q (e # es)"
  shows "h2accept (h2_step q e) = None \<and> streamCounter (h2_step q e) = int (card (h2streams (h2_step q e)))"
proof (cases e)
  case (EvCloseStream i)
  have "finite (h2streams q)" "i \<in> h2streams q" using assms(1,4) EvCloseStream by (auto simp: h2_inv_def)
  from h2_CloseStream_exact [OF this assms(3)] show ?thesis
    using assms(2) EvCloseStream by (simp add: h2_step_def) (simp add: h2_CloseStream_def)
next
  case (EvClose w order)
  let ?q = "q\<lparr>h2conn := False, h2closeSignals := h2closeSignals q + (if w then 1 else 0)\<rparr>"
  have "streamCounter (foldl (\<lambda>q i. h2_CloseStream i q) ?q order) =
     int (card (h2streams (foldl (\<lambda>q i. h2_CloseStream i q) ?q order)))"
    by (rule h2_foldl_exact) (use assms EvClose in \<open>auto simp: h2_inv_def\<close>)
  with EvClose assms(2) show ?thesis by (simp add: h2_step_def h2_Close_def h2_foldl_CloseStream)
next
  case EvOpen
  then show ?thesis using assms by (auto simp: h2_step_def h2_OpenStream_def h2_inv_def card_insert_if)
next
  case EvOffer
  then show ?thesis using assms by (auto simp: h2_step_def h2_OfferStream_def Let_def)
next
  case (EvAccept p)
  then show ?thesis using assms by (auto simp: h2_step_def h2_AcceptStream_def)
qed

lemma h2_exact_run:
  "\<lbrakk>h2_inv q \<and> h2_offered q; h2accept q = None; streamCounter q = int (card (h2streams q)); closed_once q es\<rbrakk> \<Longrightarrow>
   streamCounter (foldl h2_step q es) = int (card (h2streams (foldl h2_step q es)))"
proof (induction es arbitrary: q)
  case (Cons e es)
  from h2_exact_step [of q e es] Cons.prems have
    "h2accept (h2_step q e) = None" "streamCounter (h2_step q e) = int (card (h2streams (h2_step q e)))" by auto
  with Cons.IH [of "h2_step q e"] h2_step_inv [of q e] Cons.prems show ?case by simp
qed simp

section \<open>QUIC sessions\<close>

record quic_sess =
  qCounter :: int
  qclosed :: bool

definition quic_OpenStream :: "bool \<Rightarrow> quic_sess \<Rightarrow> (sess_err + unit) \<times> quic_sess" where
  "quic_OpenStream ok q = (if \<not> ok then (Inl TransportErr, q) else (Inr (), q\<lparr>qCounter := qCounter q + 1\<rparr>))"

definition quic_CloseStream :: "quic_sess \<Rightarrow> quic_sess" where
  "quic_CloseStream q = q\<lparr>qCounter := qCounter q - 1\<rparr>"

definition quic_AcceptStream :: "bool \<Rightarrow> quic_sess \<Rightarrow> (sess_err + unit) \<times> quic_sess" where
  "quic_AcceptStream ok q = (if \<not> ok then (Inl TransportErr, q) else (Inr (), q))"

definition quic_NumStreams :: "quic_sess \<Rightarrow> int" where
  "quic_NumStreams q = qCounter q"

definition quic_Close :: "quic_sess \<Rightarrow> quic_sess" where
  "quic_Close q = q\<lparr>qCounter := 0, qclosed := True\<rparr>"

section \<open>The reader of an HTTP/2 client stream\<close>

text \<open>The goroutine that reads (its position in \<open>Read\<close>: at the loop's test, between the test and
  the \<open>select\<close>, waiting in it, or returned) and the goroutine that runs \<open>setReader\<close>, which
  stores the response and then notifies without blocking: the notification reaches a reader
  only if it waits.\<close>

datatype rpc = AtTest | BeforeSelect | Waiting | ReadsData | ReturnsEOF | ReturnsTimeout
datatype wpc = NotSet | Stored | Notified

record h2stream =
  hr :: bool        \<comment> \<open>\<open>s.r != nil\<close>\<close>
  hclosed :: bool
  rp :: rpc
  wp :: wpc

definition h2_init :: h2stream where
  "h2_init = \<lparr>hr = False, hclosed = False, rp = AtTest, wp = NotSet\<rparr>"

inductive h2s_step :: "h2stream \<Rightarrow> h2stream \<Rightarrow> bool" where
  test_wait: "\<lbrakk>rp s = AtTest; \<not> hr s; \<not> hclosed s\<rbrakk> \<Longrightarrow> h2s_step s (s\<lparr>rp := BeforeSelect\<rparr>)"
| test_eof: "\<lbrakk>rp s = AtTest; hclosed s\<rbrakk> \<Longrightarrow> h2s_step s (s\<lparr>rp := ReturnsEOF\<rparr>)"
| test_read: "\<lbrakk>rp s = AtTest; hr s; \<not> hclosed s\<rbrakk> \<Longrightarrow> h2s_step s (s\<lparr>rp := ReadsData\<rparr>)"
| block: "rp s = BeforeSelect \<Longrightarrow> h2s_step s (s\<lparr>rp := Waiting\<rparr>)"
| timeout: "rp s = Waiting \<Longrightarrow> h2s_step s (s\<lparr>rp := ReturnsTimeout\<rparr>)"
| store_reader: "wp s = NotSet \<Longrightarrow> h2s_step s (s\<lparr>hr := True, wp := Stored\<rparr>)"
| notify: "wp s = Stored \<Longrightarrow> h2s_step s (s\<lparr>wp := Notified, rp := (if rp s = Waiting then AtTest else rp s)\<rparr>)"
| close: "h2s_step s (s\<lparr>hclosed := True, rp := (if rp s = Waiting then AtTest else rp s)\<rparr>)"

inductive_cases h2s_stepE: "h2s_step s t"

text \<open>Data is read only from a response that has arrived.\<close>

definition h2s_inv :: "h2stream \<Rightarrow> bool" where
  "h2s_inv s \<longleftrightarrow> (rp s = ReadsData \<longrightarrow> hr s) \<and> (hr s \<longleftrightarrow> wp s \<noteq> NotSet)"

interpretation h2s: invariant_machine "\<lambda>s. s = h2_init" h2s_step h2s_inv
proof
  show "h2s_inv s" if "s = h2_init" for s using that by (simp add: h2s_inv_def h2_init_def)
  show "h2s_inv t" if "h2s_inv s" "h2s_step s t" for s t
    using that(2,1) by cases (auto simp: h2s_inv_def)
qed

section \<open>A byte stream over WebSocket messages\<close>

text \<open>The message reader and the connection are parameters: \<open>mread r n\<close> is a read of up to \<open>n\<close>
  bytes (the bytes, whether an error came with them, the reader after it), \<open>nextr c\<close> waits for
  the next message and tells whether it is binary.\<close>

record ('c, 'r) wsconn =
  wsConn :: "'c option"
  wsReader :: "'r option"

definition ws_readData :: "('r \<Rightarrow> nat \<Rightarrow> bytes \<times> bool \<times> 'r) \<Rightarrow> nat \<Rightarrow> ('c, 'r) wsconn \<Rightarrow>
    (bytes \<times> io_err option) \<times> ('c, 'r) wsconn" where
  "ws_readData mread n ws =
     (case wsReader ws of None \<Rightarrow> (([], Some EOF), ws)
      | Some r \<Rightarrow> (case mread r n of (b, err, r') \<Rightarrow>
           ((b, None), ws\<lparr>wsReader := (if err then None else Some r')\<rparr>)))"

definition ws_Read :: "('r \<Rightarrow> nat \<Rightarrow> bytes \<times> bool \<times> 'r) \<Rightarrow> ('c \<Rightarrow> (io_err + (bool \<times> 'r)) \<times> 'c) \<Rightarrow> nat \<Rightarrow>
    ('c, 'r) wsconn \<Rightarrow> (bytes \<times> io_err option) \<times> ('c, 'r) wsconn" where
  "ws_Read mread nextr n ws =
     (if wsReader ws \<noteq> None then ws_readData mread n ws
      else case wsConn ws of None \<Rightarrow> (([], Some EOF), ws)
      | Some c \<Rightarrow>
          (case nextr c of (Inl e, c') \<Rightarrow> (([], Some e), ws\<lparr>wsConn := Some c'\<rparr>)
           | (Inr (binary, r), c') \<Rightarrow>
               if binary then ws_readData mread n (ws\<lparr>wsConn := Some c', wsReader := Some r\<rparr>)
               else (([], Some EOF), ws\<lparr>wsConn := Some c'\<rparr>)))"

definition ws_Write :: "('c \<Rightarrow> bytes \<Rightarrow> io_err option \<times> 'c) \<Rightarrow> bytes \<Rightarrow> ('c, 'r) wsconn \<Rightarrow>
    (nat \<times> io_err option) \<times> ('c, 'r) wsconn" where
  "ws_Write wr p ws =
     (case wsConn ws of None \<Rightarrow> ((0, Some EOF), ws)
      | Some c \<Rightarrow> (case wr c p of (Some e, c') \<Rightarrow> ((0, Some e), ws\<lparr>wsConn := Some c'\<rparr>)
                  | (None, c') \<Rightarrow> ((length p, None), ws\<lparr>wsConn := Some c'\<rparr>)))"

text \<open>\<open>writeBuffers\<close>: one message with the pieces up to the first that cannot be written, and its end; \<open>next\<close> is whether there is a writer,
  \<open>ok\<close> whether a piece can be written. The message is what the connection gets.\<close>

fun ws_pieces :: "(bytes \<Rightarrow> bool) \<Rightarrow> bytes list \<Rightarrow> nat \<times> bool \<times> bytes" where
  "ws_pieces ok [] = (0, True, [])"
| "ws_pieces ok (b # bs) =
     (if ok b then (case ws_pieces ok bs of (n, r, m) \<Rightarrow> (length b + n, r, b @ m)) else (0, False, []))"

definition ws_writeBuffers :: "bool \<Rightarrow> (bytes \<Rightarrow> bool) \<Rightarrow> bytes list \<Rightarrow> (nat \<times> io_err option) \<times> bytes option" where
  "ws_writeBuffers next ok bufs =
     (if \<not> next then ((0, Some ConnErr), None)
      else case ws_pieces ok bufs of (n, r, m) \<Rightarrow> ((n, if r then None else Some ConnErr), Some m))"

lemma ws_pieces_counts: "ws_pieces ok bs = (n, r, m) \<Longrightarrow> n = length m \<and> prefix m (concat bs) \<and> (r \<longrightarrow> m = concat bs)"
  by (induction bs arbitrary: n r m) (auto split: if_splits prod.splits)

text \<open>What is still to come of a connection, given what is left of a message and which messages
  the connection will deliver.\<close>

definition ws_rest :: "('r \<Rightarrow> bytes) \<Rightarrow> ('c \<Rightarrow> bytes list) \<Rightarrow> ('c, 'r) wsconn \<Rightarrow> bytes" where
  "ws_rest left msgs ws = (case wsReader ws of None \<Rightarrow> [] | Some r \<Rightarrow> left r) @
     (case wsConn ws of None \<Rightarrow> [] | Some c \<Rightarrow> concat (msgs c))"

section \<open>Properties\<close>

text \<open>an HTTP/2 client session that closes each stream at most once counts its streams
  exactly: after any sequence of events \<open>NumStreams\<close> is the number of streams opened and not
  yet closed.\<close>

theorem h2_count_exact:
  assumes "NewHTTP2ClientMuxSession True = Some q" "closed_once q es"
  shows "h2_NumStreams (foldl h2_step q es) = int (card (h2streams (foldl h2_step q es)))"
  using assms h2_exact_run [of q es]
  by (auto simp: h2_NumStreams_def NewHTTP2ClientMuxSession_def h2_inv_def h2_offered_def)

lemma h2_count_exact_witness:
  "h2_NumStreams (foldl h2_step (the (NewHTTP2ClientMuxSession True)) [EvOpen, EvOpen, EvCloseStream 0]) =
   int (card (h2streams (foldl h2_step (the (NewHTTP2ClientMuxSession True)) [EvOpen, EvOpen, EvCloseStream 0])))"
  by (rule h2_count_exact) (simp_all add: NewHTTP2ClientMuxSession_def h2_step_def h2_OpenStream_def)

text \<open>the streams a server session accepts are not counted but are uncounted when they are
  closed: after accepting and closing \<open>n\<close> streams, one after the other, the number of streams
  is \<open>-n\<close>.\<close>

definition serve_one :: "nat \<Rightarrow> h2_event list" where
  "serve_one i = [EvOffer, EvAccept False, EvCloseStream i]"

theorem h2_server_count:
  "h2_NumStreams (foldl h2_step NewHTTP2ServerMuxSession (concat (map serve_one [0..<n]))) = - int n"
proof -
  have "foldl h2_step NewHTTP2ServerMuxSession (concat (map serve_one [0..<n])) =
    NewHTTP2ServerMuxSession\<lparr>streamCounter := - int n, h2next := n\<rparr>"
    by (induction n)
       (simp_all add: serve_one_def h2_step_def NewHTTP2ServerMuxSession_def h2_OfferStream_def Let_def
         h2_AcceptStream_def h2_CloseStream_def)
  then show ?thesis by (simp add: h2_NumStreams_def)
qed

text \<open>a stream that is opened from the server, as for the peer of a room, crashes the server: \<open>OpenStream\<close> succeeds, and its goroutine
  has no connection to send the request on.\<close>

lemma server_open_crashes:
  assumes "h2accept q = Some ch" "h2conn q"
  shows "\<exists>i q'. h2_OpenStream q = (Inr i, q') \<and> h2_round_trip ok w order q' = None"
  using assms by (simp add: h2_OpenStream_def h2_round_trip_def)

text \<open>a request that fails ends the client's session.\<close>

lemma failed_round_trip_closes:
  "h2accept q = None \<Longrightarrow> \<exists>q'. h2_round_trip False w order q = Some q' \<and> h2_OpenStream q' = (Inl SessionShutdown, q')"
  by (simp add: h2_round_trip_def h2_OpenStream_def h2_Close_def h2_foldl_CloseStream)

text \<open>the count of an HTTP/2 session, client or server, never exceeds the number of live
  streams, whatever is closed how often; so a session with a positive count has a live
  stream.\<close>

theorem h2_count_bound:
  assumes "q \<in> {NewHTTP2ServerMuxSession, the (NewHTTP2ClientMuxSession True)}"
  shows "finite (h2streams (foldl h2_step q es)) \<and>
     h2_NumStreams (foldl h2_step q es) \<le> int (card (h2streams (foldl h2_step q es)))"
proof -
  have "h2_inv q \<and> h2_offered q"
    using assms by (auto simp: NewHTTP2ServerMuxSession_def NewHTTP2ClientMuxSession_def h2_inv_def h2_offered_def)
  from h2.run_inv [OF this, of es] show ?thesis by (simp add: h2_inv_def h2_NumStreams_def)
qed

lemma h2_count_bound_witness:
  "finite (h2streams (foldl h2_step NewHTTP2ServerMuxSession [EvOpen, EvCloseStream 0, EvCloseStream 0])) \<and>
   h2_NumStreams (foldl h2_step NewHTTP2ServerMuxSession [EvOpen, EvCloseStream 0, EvCloseStream 0])
     \<le> int (card (h2streams (foldl h2_step NewHTTP2ServerMuxSession [EvOpen, EvCloseStream 0, EvCloseStream 0])))"
  by (rule h2_count_bound) simp

text \<open>the notification of an HTTP/2 client stream can be lost. There is an interleaving in
  which the response has been stored and its notification already sent while the reader, which
  tested before, waits for it; from there, unless the stream is closed, the reader's only step
  is the timeout.\<close>

theorem h2_reader_lost_wakeup:
  "\<exists>s. h2s_step\<^sup>*\<^sup>* h2_init s \<and> hr s \<and> \<not> hclosed s \<and> rp s = Waiting \<and> wp s = Notified \<and>
     (\<forall>t. h2s_step s t \<and> \<not> hclosed t \<longrightarrow> rp t = ReturnsTimeout)"
proof -
  let ?s = "\<lparr>hr = True, hclosed = False, rp = Waiting, wp = Notified\<rparr>"
  have "h2s_step h2_init (h2_init\<lparr>rp := BeforeSelect\<rparr>)" by (rule test_wait) (simp_all add: h2_init_def)
  moreover have "h2s_step (h2_init\<lparr>rp := BeforeSelect\<rparr>) \<lparr>hr = True, hclosed = False, rp = BeforeSelect, wp = Stored\<rparr>"
    using store_reader [of "h2_init\<lparr>rp := BeforeSelect\<rparr>"] by (simp add: h2_init_def)
  moreover have "h2s_step \<lparr>hr = True, hclosed = False, rp = BeforeSelect, wp = Stored\<rparr>
      \<lparr>hr = True, hclosed = False, rp = BeforeSelect, wp = Notified\<rparr>"
    using notify [of "\<lparr>hr = True, hclosed = False, rp = BeforeSelect, wp = Stored\<rparr>"] by simp
  moreover have "h2s_step \<lparr>hr = True, hclosed = False, rp = BeforeSelect, wp = Notified\<rparr> ?s"
    using block [of "\<lparr>hr = True, hclosed = False, rp = BeforeSelect, wp = Notified\<rparr>"] by simp
  ultimately have "h2s_step\<^sup>*\<^sup>* h2_init ?s" by (meson converse_rtranclp_into_rtranclp rtranclp.rtrancl_refl)
  moreover have "rp t = ReturnsTimeout" if "h2s_step ?s t" "\<not> hclosed t" for t
    using that by cases auto
  ultimately show ?thesis by (intro exI [of _ ?s]) auto
qed

text \<open>C34: the stream over WebSocket neither loses nor reorders bytes: what a read returns comes
  before what is left, across the messages, and a read that returns no error hands over a
  prefix of what is to come.\<close>

theorem ws_read_refines:
  assumes reader: "\<And>r n b e r'. mread r n = (b, e, r') \<Longrightarrow> left r = b @ left r' \<and> (e \<longrightarrow> left r' = [])"
    and nextr: "\<And>c r c'. nextr c = (Inr (True, r), c') \<Longrightarrow> concat (msgs c) = left r @ concat (msgs c')"
    and "ws_Read mread nextr n ws = ((b, None), ws')"
  shows "ws_rest left msgs ws = b @ ws_rest left msgs ws'"
  using assms(3)
  by (auto simp: ws_Read_def ws_readData_def ws_rest_def dest!: reader nextr
      split: option.splits prod.splits sum.splits if_splits)

lemma ws_read_refines_witness:
  "ws_rest (\<lambda>r :: bytes. r) (\<lambda>c. c) \<lparr>wsConn = Some [[1, 2], [3]], wsReader = None\<rparr> =
   [1] @ ws_rest (\<lambda>r. r) (\<lambda>c. c) \<lparr>wsConn = Some [[3]], wsReader = Some [2]\<rparr>"
  by (rule ws_read_refines [where mread = "\<lambda>r n. (take n r, r = [], drop n r)"
      and nextr = "\<lambda>c. case c of [] \<Rightarrow> (Inl EOF, []) | m # ms \<Rightarrow> (Inr (True, m), ms)" and n = 1])
     (auto simp: ws_Read_def ws_readData_def split: list.splits)

end
