(* ===== verification/TlsSni.thy ===== *)
theory TlsSni
  imports GoBufio
begin

text \<open>
  \<open>common/helper/sni.go\<close>: peeking at a TLS ClientHello for the server name. The parser indexes
  and slices the record itself, so an index past the end of a slice, on which Go panics, is
  the result \<open>Panic\<close>.
\<close>

datatype sni_err = PeekFailed io_err | NotClientHello | NoSNI | Panic

section \<open>The parser\<close>

text \<open>The names of a server name extension: at most \<open>k\<close> rounds, None when no host name is found
  in them.\<close>

fun sni_names :: "nat \<Rightarrow> bytes \<Rightarrow> sni_err + string option" where
  "sni_names 0 d = Inr None"
| "sni_names (Suc k) d =
     (case d of
        nameType # l1 # l0 # d' \<Rightarrow>
          (let nameLen = be16 l1 l0 in
           if length d' < nameLen then Inl NotClientHello
           else if nameType = 0 then Inr (Some (str_of_bytes (take nameLen d')))
           else sni_names k (drop nameLen d'))
      | _ \<Rightarrow> Inl NotClientHello)"

text \<open>The loop over the extensions. \<open>numNames\<close> is read from the extension's first two bytes, and
  the names from there to the end of all extensions.\<close>

function sni_exts :: "bytes \<Rightarrow> sni_err + string" where
  "sni_exts [] = Inl NotClientHello"
| "sni_exts [a] = Inl NotClientHello"
| "sni_exts [a, b] = Inl NotClientHello"
| "sni_exts [a, b, c] = Inl NotClientHello"
| "sni_exts (e1 # e0 # l1 # l0 # r) =
     (let len = be16 l1 l0 in
      if length r < len then Inl NotClientHello
      else if be16 e1 e0 = 0 then
        (if len < 2 then Inl NotClientHello
         else case sni_names (be16 (r ! 0) (r ! 1)) (drop 2 r) of
             Inl e \<Rightarrow> Inl e
           | Inr (Some name) \<Rightarrow> Inr name
           | Inr None \<Rightarrow> sni_exts (drop len r))
      else sni_exts (drop len r))"
  by pat_completeness auto
termination
  by (relation "measure length") auto

text \<open>From the compression methods on, from the cipher suites on, and from the session id on.\<close>

definition sni_tail :: "bytes \<Rightarrow> sni_err + string" where
  "sni_tail r =
     (if length r < 2 then Inl NoSNI
      else if be16 (r ! 0) (r ! 1) \<noteq> length (drop 2 r) then Inl NotClientHello
      else sni_exts (drop 2 r))"

definition sni_compression :: "bytes \<Rightarrow> sni_err + string" where
  "sni_compression r =
     (if r = [] then Inl Panic
      else let n = unat (hd r) in
        if length r < 1 + n then Inl NotClientHello else sni_tail (drop (1 + n) r))"

definition sni_ciphers :: "bytes \<Rightarrow> sni_err + string" where
  "sni_ciphers r =
     (if length r < 2 then Inl NotClientHello
      else let n = be16 (r ! 0) (r ! 1) in
        if n mod 2 = 1 \<or> length r < 2 + n then Inl NotClientHello
        else sni_compression (drop (2 + n) r))"

definition sni_body :: "bytes \<Rightarrow> sni_err + string" where
  "sni_body r =
     (if r = [] then Inl Panic
      else if hd r \<noteq> 0x01 then Inl NotClientHello
      else if length r < 42 then Inl NoSNI
      else let r = drop 38 r; sid = unat (hd r) in
        if length r < 1 + sid then Inl Panic
        else sni_ciphers (drop (1 + sid) r))"

definition PeekTLSServerName :: "bufr \<Rightarrow> (sni_err + string) \<times> bufr" where
  "PeekTLSServerName rdr =
     (case Peek 5 rdr of (_, Some e, r1) \<Rightarrow> (Inl (PeekFailed e), r1)
      | (hbuf, None, r1) \<Rightarrow>
          if hbuf ! 0 \<noteq> 0x16 then (Inl NotClientHello, r1)
          else if hbuf ! 1 < 3 then (Inl NoSNI, r1)
          else (let restLen = be16 (hbuf ! 3) (hbuf ! 4) in
            case Peek (5 + restLen) r1 of (_, Some e, r2) \<Rightarrow> (Inl (PeekFailed e), r2)
            | (buf, None, r2) \<Rightarrow> (sni_body (drop 5 buf), r2)))"

section \<open>Well-formed ClientHellos\<close>

text \<open>An extension is its type and its data; the server name extension holds a list with one
  host name.\<close>

definition ext :: "nat \<Rightarrow> bytes \<Rightarrow> bytes" where
  "ext t d = be16_bytes t @ be16_bytes (length d) @ d"

definition sni_ext :: "string \<Rightarrow> bytes" where
  "sni_ext h = ext 0 (be16_bytes (length h + 3) @ [0] @ be16_bytes (length h) @ bytes_of_str h)"

record hello =
  hVersion :: "byte \<times> byte"
  hRandom :: bytes
  hSession :: bytes
  hCiphers :: bytes
  hCompression :: bytes
  hBefore :: "(nat \<times> bytes) list"
  hName :: string
  hAfter :: "(nat \<times> bytes) list"

definition hello_exts :: "hello \<Rightarrow> bytes" where
  "hello_exts h = concat (map (\<lambda>(t, d). ext t d) (hBefore h)) @ sni_ext (hName h) @
     concat (map (\<lambda>(t, d). ext t d) (hAfter h))"

definition hello_tail :: "hello \<Rightarrow> bytes" where
  "hello_tail h = [of_nat (length (hSession h))] @ hSession h @
     be16_bytes (length (hCiphers h)) @ hCiphers h @
     [of_nat (length (hCompression h))] @ hCompression h @
     be16_bytes (length (hello_exts h)) @ hello_exts h"

definition hello_body :: "hello \<Rightarrow> bytes" where
  "hello_body h = [0x01, of_nat ((34 + length (hello_tail h)) div 65536),
       of_nat ((34 + length (hello_tail h)) div 256), of_nat (34 + length (hello_tail h)),
       fst (hVersion h), snd (hVersion h)] @ hRandom h @ hello_tail h"

definition hello_record :: "byte \<Rightarrow> hello \<Rightarrow> bytes" where
  "hello_record minor h = [0x16, 3, minor] @ be16_bytes (length (hello_body h)) @ hello_body h"

definition hello_ok :: "hello \<Rightarrow> bool" where
  "hello_ok h \<longleftrightarrow> length (hRandom h) = 32 \<and> length (hSession h) < 256 \<and>
     length (hCiphers h) < 65536 \<and> even (length (hCiphers h)) \<and> length (hCompression h) < 256 \<and>
     list_all (\<lambda>(t, d). 0 < t \<and> t < 65536 \<and> length d < 65536) (hBefore h) \<and>
     length (hName h) < 65000 \<and> length (hello_body h) + 5 \<le> bufsize"

section \<open>Parsing what was built\<close>

lemma be16_bytes_Cons: "be16_bytes n = [of_nat (n div 256), of_nat n]"
  by (simp add: be16_bytes_def)

lemma sni_exts_skip:
  "0 < t \<Longrightarrow> t < 65536 \<Longrightarrow> length d < 65536 \<Longrightarrow> sni_exts (ext t d @ r) = sni_exts r"
  by (simp add: ext_def be16_bytes_Cons)

lemma sni_exts_before:
  "list_all (\<lambda>(t, d). 0 < t \<and> t < 65536 \<and> length d < 65536) xs \<Longrightarrow>
   sni_exts (concat (map (\<lambda>(t, d). ext t d) xs) @ r) = sni_exts r"
  by (induction xs) (auto simp: sni_exts_skip)

lemma sni_exts_server_name:
  assumes "length d < 65536" "2 \<le> length d" "sni_names (be16 (d ! 0) (d ! 1)) (drop 2 d @ r) = Inr (Some h)"
  shows "sni_exts (ext 0 d @ r) = Inr h"
proof -
  have "(d @ r) ! 0 = d ! 0" "(d @ r) ! 1 = d ! 1" "drop 2 (d @ r) = drop 2 d @ r"
    using assms(2) by (auto simp: nth_append)
  moreover have "be16 0 0 = 0" by (simp add: be16_def)
  ultimately show ?thesis using assms by (simp add: ext_def be16_bytes_Cons Let_def)
qed

lemma sni_exts_name:
  assumes "length h < 65000"
  shows "sni_exts (sni_ext h @ r) = Inr h"
proof -
  let ?d = "be16_bytes (length h + 3) @ [0] @ be16_bytes (length h) @ bytes_of_str h"
  have "be16 (of_nat ((length h + 3) div 256)) (of_nat (length h + 3)) = length h + 3"
    by (rule be16_bytes_inv) (use assms in simp)
  then have n: "be16 (?d ! 0) (?d ! 1) = Suc (length h + 2)" by (simp add: be16_bytes_Cons del: of_nat_add)
  have "sni_names (Suc (length h + 2)) (drop 2 ?d @ r) = Inr (Some h)"
    using assms by (simp add: be16_bytes_Cons)
  then show ?thesis
    unfolding sni_ext_def using assms n by (intro sni_exts_server_name) simp_all
qed

lemma sni_exts_hello: "hello_ok h \<Longrightarrow> sni_exts (hello_exts h) = Inr (hName h)"
  by (simp add: hello_exts_def sni_exts_before sni_exts_name hello_ok_def)

lemma sni_tail_hello:
  assumes "hello_ok h"
  shows "sni_tail (be16_bytes (length (hello_exts h)) @ hello_exts h) = Inr (hName h)"
proof -
  have "length (hello_exts h) < 65536"
    using assms by (simp add: hello_ok_def hello_body_def hello_tail_def bufsize_def)
  then show ?thesis by (simp add: sni_tail_def be16_bytes_Cons sni_exts_hello [OF assms])
qed

lemma sni_ciphers_hello:
  assumes "hello_ok h"
  shows "sni_ciphers (drop (1 + length (hSession h)) (hello_tail h)) = Inr (hName h)"
proof -
  let ?e = "be16_bytes (length (hello_exts h)) @ hello_exts h"
  have c: "length (hCiphers h) < 65536" "even (length (hCiphers h))" "length (hCompression h) < 256"
    using assms by (auto simp: hello_ok_def)
  have comp: "sni_compression (of_nat (length (hCompression h)) # hCompression h @ ?e) = Inr (hName h)"
    using c(3) sni_tail_hello [OF assms] by (simp add: sni_compression_def)
  show ?thesis
    using c comp by (simp add: hello_tail_def sni_ciphers_def be16_bytes_Cons Let_def even_iff_mod_2_eq_zero)
qed

lemma sni_body_hello:
  assumes "hello_ok h"
  shows "sni_body (hello_body h) = Inr (hName h)"
proof -
  have l: "length (hRandom h) = 32" "length (hSession h) < 256" using assms by (auto simp: hello_ok_def)
  have d: "drop 38 (hello_body h) = hello_tail h" by (simp add: hello_body_def l)
  have "4 \<le> length (hello_tail h)" by (simp add: hello_tail_def)
  then have "\<not> length (hello_body h) < 42" by (simp add: hello_body_def l)
  moreover have "hello_body h \<noteq> []" "hd (hello_body h) = 1" by (simp_all add: hello_body_def)
  moreover have "hd (hello_tail h) = of_nat (length (hSession h))" "1 + length (hSession h) \<le> length (hello_tail h)"
    by (simp_all add: hello_tail_def)
  ultimately show ?thesis
    using sni_ciphers_hello [OF assms] l by (simp add: sni_body_def d Let_def)
qed

section \<open>Properties\<close>

text \<open>C33: the server name of every well-formed ClientHello that fits the reader's buffer is
  found, whatever extensions stand around it and however the record arrives, and peeking
  leaves the connection's bytes as they were.\<close>

theorem sni_found:
  assumes "hello_ok h" "rest_of rdr = hello_record minor h @ later"
  shows "\<exists>rdr'. PeekTLSServerName rdr = (Inr (hName h), rdr') \<and> rest_of rdr' = rest_of rdr"
proof -
  let ?l = "length (hello_body h)"
  have l: "?l < 65536" "5 + ?l \<le> bufsize" using assms(1) by (auto simp: hello_ok_def bufsize_def)
  have len: "length (rest_of rdr) = 5 + ?l + length later" by (simp add: assms(2) hello_record_def)
  obtain r1 where r1: "Peek 5 rdr = (take 5 (rest_of rdr), None, r1)" "rest_of r1 = rest_of rdr"
    using Peek_spec [of 5 rdr] len by (auto simp: bufsize_def)
  have h: "take 5 (rest_of rdr) = [0x16, 3, minor, of_nat (?l div 256), of_nat ?l]"
    by (simp add: assms(2) hello_record_def be16_bytes_Cons)
  obtain r2 where r2: "Peek (5 + ?l) r1 = (take (5 + ?l) (rest_of rdr), None, r2)" "rest_of r2 = rest_of rdr"
    using Peek_spec [of "5 + ?l" r1] len l r1(2) by auto
  have "drop 5 (take (5 + ?l) (rest_of rdr)) = hello_body h"
    by (simp add: assms(2) hello_record_def be16_bytes_Cons drop_take)
  then show ?thesis
    using l by (simp add: PeekTLSServerName_def r1 h r2 Let_def sni_body_hello [OF assms(1)])
qed

definition example_hello :: hello where
  "example_hello = \<lparr>hVersion = (3, 3), hRandom = replicate 32 7, hSession = [], hCiphers = [0, 47],
     hCompression = [0], hBefore = [(10, [0, 2, 0, 23])], hName = ''a.b'', hAfter = []\<rparr>"

lemma sni_found_witness:
  "\<exists>rdr'. PeekTLSServerName (new_reader [hello_record 1 example_hello] EOF) = (Inr ''a.b'', rdr') \<and>
     rest_of rdr' = rest_of (new_reader [hello_record 1 example_hello] EOF)"
proof -
  have "hello_ok example_hello"
    by (simp add: hello_ok_def example_hello_def hello_body_def hello_tail_def hello_exts_def ext_def
        sni_ext_def be16_bytes_Cons bufsize_def)
  from sni_found [OF this, of "new_reader [hello_record 1 example_hello] EOF" 1 "[]"] show ?thesis
    by (simp add: rest_of_def new_reader_def example_hello_def)
qed

text \<open>the peer can make the parser panic: a handshake record with an empty body is enough,
  and so is a ClientHello whose session id is longer than the record.\<close>

theorem sni_panics:
  assumes "3 \<le> major" "body = [] \<or> (\<exists>pre sid r. body = 0x01 # pre @ sid # r \<and> length pre = 37 \<and> 3 \<le> length r \<and> length r < unat sid)"
    and "rest_of rdr = [0x16, major, minor] @ be16_bytes (length body) @ body @ later" "length body \<le> 4000"
  shows "\<exists>rdr'. PeekTLSServerName rdr = (Inl Panic, rdr')"
proof -
  let ?l = "length body"
  have len: "length (rest_of rdr) = 5 + ?l + length later" by (simp add: assms(3))
  obtain r1 where r1: "Peek 5 rdr = (take 5 (rest_of rdr), None, r1)" "rest_of r1 = rest_of rdr"
    using Peek_spec [of 5 rdr] len by (auto simp: bufsize_def)
  have h: "take 5 (rest_of rdr) = [0x16, major, minor, of_nat (?l div 256), of_nat ?l]"
    by (simp add: assms(3) be16_bytes_Cons)
  obtain r2 where r2: "Peek (5 + ?l) r1 = (take (5 + ?l) (rest_of rdr), None, r2)"
    using Peek_spec [of "5 + ?l" r1] len assms(4) r1(2) by (auto simp: bufsize_def)
  have b: "drop 5 (take (5 + ?l) (rest_of rdr)) = body" by (simp add: assms(3) be16_bytes_Cons drop_take)
  have "sni_body body = Inl Panic"
    using assms(2)
  proof
    assume "\<exists>pre sid r. body = 0x01 # pre @ sid # r \<and> length pre = 37 \<and> 3 \<le> length r \<and> length r < unat sid"
    then obtain pre sid r where p: "body = 0x01 # pre @ sid # r" "length pre = 37" "3 \<le> length r" "length r < unat sid"
      by blast
    then have "drop 38 body = sid # r" by simp
    with p show ?thesis by (simp add: sni_body_def Let_def)
  qed (simp add: sni_body_def)
  moreover have "\<not> major < 3" using assms(1) by simp
  ultimately show ?thesis
    using assms(4) by (simp add: PeekTLSServerName_def r1 h r2 Let_def b)
qed

lemma sni_panics_witness: "\<exists>rdr'. PeekTLSServerName (new_reader [[0x16, 3, 1, 0, 0]] EOF) = (Inl Panic, rdr')"
  by (rule sni_panics [where body = "[]" and major = 3 and minor = 1 and later = "[]"])
     (simp_all add: rest_of_def new_reader_def be16_bytes_Cons)

text \<open>a ClientHello record longer than the reader's buffer is never parsed: the second peek
  fails, so the name is not found.\<close>

theorem sni_long_record:
  assumes "rest_of rdr = [0x16, major, minor, hi, lo] @ body" "3 \<le> major" "bufsize < 5 + be16 hi lo"
  shows "\<exists>rdr'. PeekTLSServerName rdr = (Inl (PeekFailed BufferFull), rdr')"
proof -
  obtain r1 where r1: "Peek 5 rdr = ([0x16, major, minor, hi, lo], None, r1)"
    using Peek_spec [of 5 rdr] assms(1) by (auto simp: bufsize_def)
  moreover obtain bs r2 where "Peek (5 + be16 hi lo) r1 = (bs, Some BufferFull, r2)"
    using Peek_too_long [OF assms(3), of r1] by blast
  moreover have "\<not> major < 3" using assms(2) by simp
  ultimately show ?thesis by (simp add: PeekTLSServerName_def Let_def)
qed

lemma sni_long_record_witness:
  "\<exists>rdr'. PeekTLSServerName (new_reader [[0x16, 3, 1, 16, 0]] EOF) = (Inl (PeekFailed BufferFull), rdr')"
  by (rule sni_long_record [where body = "[]" and major = 3 and minor = 1 and hi = 16 and lo = 0]) (simp_all add: rest_of_def new_reader_def bufsize_def be16_def)

end
