(* ===== verification/HelperText.thy ===== *)
theory HelperText
  imports Complex_Main GoStrings
begin

text \<open>
  \<open>common/helper/bytes.go\<close>, \<open>common/helper/str.go\<close>, \<open>common/helper/rand.go\<close>: padding, byte
  quantities, request URLs, wildcard patterns, configuration text without comments and random
  text.
\<close>

section \<open>Padding\<close>

definition PKCS7Pad :: "bytes \<Rightarrow> nat \<Rightarrow> bytes" where
  "PKCS7Pad buf blen = (let padding = 16 - blen mod 16 in buf @ replicate padding (of_nat padding))"

text \<open>The loop compares the last \<open>padding\<close> bytes; None is the \<open>nil\<close> result.\<close>

definition PKCS7Unpad :: "bytes \<Rightarrow> bytes option" where
  "PKCS7Unpad i =
     (if i = [] then None
      else let padding = last i in
        if unat padding > length i \<or> unat padding > 16 then None
        else if padding = 0 then None
        else if \<exists>k \<in> {length i - unat padding..<length i}. i ! k \<noteq> padding then None
        else Some (take (length i - unat padding) i))"

section \<open>Byte quantities\<close>

text \<open>The pattern \<open>^(-?\d+(?:\.\d+)?)([KMGT]B?|B)$\<close>, without regard to case: the sign, the digits
  before and after the point, and the first letter of the unit.\<close>

definition upper :: "char \<Rightarrow> char" where
  "upper c = (let n = of_char c :: nat in if 97 \<le> n \<and> n \<le> 122 then char_of (n - 32) else c)"

definition quantity_unit :: "string \<Rightarrow> char option" where
  "quantity_unit u =
     (case map upper u of
        [c] \<Rightarrow> if c \<in> set ''KMGTB'' then Some c else None
      | [c, b] \<Rightarrow> if c \<in> set ''KMGT'' \<and> b = CHR ''B'' then Some c else None
      | _ \<Rightarrow> None)"

definition split_quantity :: "string \<Rightarrow> (bool \<times> string \<times> string \<times> char) option" where
  "split_quantity s =
     (let (neg, r) = (case s of [] \<Rightarrow> (False, []) | c # t \<Rightarrow> if c = CHR ''-'' then (True, t) else (False, s));
          ip = takeWhile is_digit r;
          r1 = dropWhile is_digit r;
          (fp, r2) = (case r1 of [] \<Rightarrow> ([], [])
                      | c # t \<Rightarrow> if c = CHR ''.'' \<and> takeWhile is_digit t \<noteq> []
                                 then (takeWhile is_digit t, dropWhile is_digit t) else ([], r1))
      in if ip = [] then None
         else map_option (\<lambda>u. (neg, ip, fp, u)) (quantity_unit r2))"

definition unit_size :: "char \<Rightarrow> nat" where
  "unit_size u = (if u = CHR ''T'' then 1024 ^ 4 else if u = CHR ''G'' then 1024 ^ 3
                  else if u = CHR ''M'' then 1024 ^ 2 else if u = CHR ''K'' then 1024 else 1)"

text \<open>The first number that is too large for a double.\<close>

definition double_range :: rat where "double_range = 2 ^ 1024"

lemma in_double_range: "x \<le> 2 ^ 67 \<Longrightarrow> \<not> double_range \<le> x"
proof -
  assume x: "x \<le> 2 ^ 67"
  have "(2 :: rat) ^ 67 < 2 ^ 1024" by (rule power_strict_increasing) simp_all
  with x show ?thesis by (simp only: double_range_def not_le)
qed

text \<open>\<open>ToBytes\<close>: the value is a double, so \<open>rnd\<close> is the rounding to a double of the number read
  and of the product; a number out of their range is an error, and the conversion to an integer truncates
  (Go leaves it to the implementation from \<open>2 ^ 64\<close> on; the number is kept here).\<close>

definition ToBytes :: "(rat \<Rightarrow> rat) \<Rightarrow> string \<Rightarrow> nat option" where
  "ToBytes rnd s =
     (case split_quantity (TrimSpace s) of None \<Rightarrow> None
      | Some (neg, ip, fp, u) \<Rightarrow>
          (let v = rnd ((if neg then - 1 else 1) * of_nat (digits_val (ip @ fp)) / 10 ^ length fp) in
           if v \<le> 0 \<or> double_range \<le> v then None else Some (nat \<lfloor>rnd (v * of_nat (unit_size u))\<rfloor>)))"

definition ToMegabytes :: "(rat \<Rightarrow> rat) \<Rightarrow> string \<Rightarrow> nat option" where
  "ToMegabytes rnd s = map_option (\<lambda>b. b div 1024 ^ 2) (ToBytes rnd s)"

section \<open>Requests\<close>

text \<open>What the code reads of an \<open>http.Request\<close>; \<open>rqURLString\<close> is \<open>req.URL.String()\<close>.\<close>

record HttpReq =
  rqMethod :: string
  rqScheme :: string
  rqHost :: string
  rqURLString :: string

definition GetRequestURLString :: "HttpReq option \<Rightarrow> string" where
  "GetRequestURLString req =
     (case req of None \<Rightarrow> []
      | Some q \<Rightarrow>
          (let str = (if rqScheme q = [] \<and> EqualFold (rqMethod q) ''Connect'' then ''https://'' @ rqHost q
                      else rqURLString q)
           in if \<not> HasPrefix str ''http://'' \<and> \<not> HasPrefix str ''https://''
              then (if rqScheme q = [] then ''http'' else rqScheme q) @ ''://'' @ rqHost q @ str
              else str))"

section \<open>Patterns\<close>

fun Replace1 :: "string \<Rightarrow> char \<Rightarrow> string \<Rightarrow> string" where
  "Replace1 [] c r = []"
| "Replace1 (x # s) c r = (if x = c then r else [x]) @ Replace1 s c r"

text \<open>The text \<open>PrepareRegexp\<close> compiles.\<close>

definition PrepareRegexp :: "(string \<Rightarrow> 're option) \<Rightarrow> string \<Rightarrow> 're option" where
  "PrepareRegexp compile rule =
     (let r1 = TrimSpace rule;
          r2 = Replace1 r1 CHR ''.'' [CHR 0x5C, CHR ''.''];
          r3 = Replace1 r2 CHR ''?'' [CHR 0x5C, CHR ''?''];
          r4 = Replace1 r3 CHR ''*'' ''.*''
      in compile r4)"

text \<open>\<open>WildcardMatch\<close>: \<open>strings.TrimLeft\<close> takes its second argument as a set of characters.\<close>

fun wildcard_cards :: "string \<Rightarrow> string list \<Rightarrow> bool" where
  "wildcard_cards s [] = True"
| "wildcard_cards s (str # cards) =
     (if \<not> Contains s str then False
      else wildcard_cards (dropWhile (\<lambda>c. c \<in> set (str @ ''*'')) s) cards)"

definition WildcardMatch :: "string \<Rightarrow> string \<Rightarrow> bool" where
  "WildcardMatch s pat = wildcard_cards s (Split pat CHR ''*'')"

section \<open>Configuration text\<close>

definition nl :: char where "nl = CHR 0x0A"

text \<open>The lines a \<open>bufio.Scanner\<close> gives: a carriage return at a line's end is dropped, and a line
  of 65536 bytes or more ends the scan.\<close>

definition drop_cr :: "string \<Rightarrow> string" where
  "drop_cr l = (if l \<noteq> [] \<and> last l = CHR 0x0D then butlast l else l)"

definition scan_lines :: "string \<Rightarrow> string list" where
  "scan_lines s =
     (let ls = Split s nl; ls = (if last ls = [] then butlast ls else ls)
      in map drop_cr (takeWhile (\<lambda>l. length l < 65536) ls))"

definition ReadWithoutComment :: "string option \<Rightarrow> string \<Rightarrow> string option" where
  "ReadWithoutComment file commentPrefix =
     (case file of None \<Rightarrow> None
      | Some s \<Rightarrow> Some (concat (map (\<lambda>l. l @ [nl])
            (filter (\<lambda>l. \<not> HasPrefix l commentPrefix) (map TrimSpace (scan_lines s))))))"

section \<open>Random text\<close>

text \<open>\<open>rand.Intn(n)\<close> panics for \<open>n <= 0\<close>: None. \<open>pick\<close> is the generator.\<close>

definition RandBetween :: "(nat \<Rightarrow> nat) \<Rightarrow> int \<Rightarrow> int \<Rightarrow> int option" where
  "RandBetween pick lo hi = (if hi - lo \<le> 0 then None else Some (int (pick (nat (hi - lo))) + lo))"

definition letterRunes :: string where
  "letterRunes = ''abcdefghijklmnopqrstuvwxyzABCDEFGHIJKLMNOPQRSTUVWXYZ0123456789''"

definition RandAsciiString :: "(nat \<Rightarrow> nat) \<Rightarrow> nat \<Rightarrow> string" where
  "RandAsciiString pick n = map (\<lambda>i. letterRunes ! (pick i mod length letterRunes)) [0..<n]"

section \<open>Lemmas\<close>

lemma RandBetween_range:
  "(\<And>n. 0 < n \<Longrightarrow> pick n < n) \<Longrightarrow> RandBetween pick lo hi = Some v \<Longrightarrow> lo \<le> v \<and> v < hi"
proof -
  assume p: "\<And>n. 0 < n \<Longrightarrow> pick n < n" and r: "RandBetween pick lo hi = Some v"
  then have "lo < hi" by (auto simp: RandBetween_def split: if_splits)
  then have "pick (nat (hi - lo)) < nat (hi - lo)" by (intro p) simp
  with r show ?thesis by (auto simp: RandBetween_def split: if_splits)
qed

lemma RandBetween_panics: "RandBetween pick lo hi = None \<longleftrightarrow> hi \<le> lo"
  by (auto simp: RandBetween_def)

lemma takeWhile_digits: "list_all P ds \<Longrightarrow> \<not> P c \<Longrightarrow> takeWhile P (ds @ c # r) = ds \<and> dropWhile P (ds @ c # r) = c # r"
  by (auto simp: list_all_iff takeWhile_append_stop dropWhile_append_stop)

lemma no_space_TrimSpace: "\<forall>c \<in> set s. \<not> is_space c \<Longrightarrow> TrimSpace s = s"
proof -
  assume a: "\<forall>c \<in> set s. \<not> is_space c"
  then have "dropWhile is_space s = s" "dropWhile is_space (rev s) = rev s"
    by (metis dropWhile_eq_self_iff hd_in_set, metis dropWhile_eq_self_iff hd_in_set set_rev)
  then show ?thesis by (simp add: TrimSpace_def)
qed

lemma not_space_digit: "is_digit c \<Longrightarrow> \<not> is_space c"
  by (auto simp: is_digit_def is_space_def Let_def)

text \<open>A printed quantity is split into the digits and the unit it was printed from.\<close>

lemma split_quantity_print:
  assumes "u \<in> set ''KMGTB''" "list_all is_digit fp"
  shows "split_quantity (TrimSpace (itoa q @ (if fp = [] then [] else CHR ''.'' # fp) @ [u])) = Some (False, itoa q, fp, u)"
proof -
  have u: "u \<in> {CHR ''K'', CHR ''M'', CHR ''G'', CHR ''T'', CHR ''B''}" using assms(1) by auto
  then have nd: "\<not> is_digit u" "u \<noteq> CHR ''.''" by (auto simp: is_digit_def)
  have us: "\<not> is_space u" "\<not> is_space CHR ''.''" using u by (auto simp: is_space_def)
  have up: "upper u = u" using u by (auto simp: upper_def Let_def)
  let ?m = "(if fp = [] then [] else CHR ''.'' # fp) @ [u]"
  have trim: "TrimSpace (itoa q @ ?m) = itoa q @ ?m"
    by (rule no_space_TrimSpace) (use us not_space_digit itoa_set assms(2) in \<open>auto simp: list_all_iff split: if_splits\<close>)
  obtain c t where c: "itoa q = c # t" by (cases "itoa q") auto
  then have "c \<noteq> CHR ''-''" using itoa_set [of c q] by auto
  then have neg: "(case itoa q @ r of [] \<Rightarrow> (False, []) | c # t \<Rightarrow> if c = CHR ''-'' then (True, t) else (False, itoa q @ r)) = (False, itoa q @ r)" for r
    by (simp add: c)
  have q: "quantity_unit [u] = Some u" using u by (auto simp: quantity_unit_def up)
  show ?thesis
  proof (cases "fp = []")
    case True
    then show ?thesis using trim takeWhile_digits [OF itoa_digits nd(1), of q "[]"] nd(2) q by (simp add: split_quantity_def neg Let_def)
  next
    case False
    then show ?thesis
      using trim takeWhile_digits [OF itoa_digits not_digit(2), of q "fp @ [u]"] takeWhile_digits [OF assms(2) nd(1), of "[]"] q
      by (simp add: split_quantity_def neg Let_def)
  qed
qed

text \<open>A whole number of units is read exactly as long as it is exact as a double.\<close>

lemma ToBytes_unit:
  assumes "\<And>m. m < 2 ^ 53 \<Longrightarrow> rnd (of_nat m) = of_nat m" "0 < n" "u \<in> set ''KMGTB''" "n * unit_size u < 2 ^ 53"
  shows "ToBytes rnd (itoa n @ [u]) = Some (n * unit_size u)"
proof -
  have sq: "split_quantity (TrimSpace (itoa n @ [u])) = Some (False, itoa n, [], u)"
    using split_quantity_print [OF assms(3), of "[]" n] by simp
  have "1 \<le> unit_size u" by (simp add: unit_size_def)
  then have "n \<le> n * unit_size u" by simp
  then have n: "n < 2 ^ 53" using assms(4) by linarith
  have "rnd (of_nat n * of_nat (unit_size u)) = of_nat (n * unit_size u)"
    using assms(1) [OF assms(4)] by simp
  moreover have "\<not> double_range \<le> of_nat n"
  proof (rule in_double_range)
    have "(of_nat n :: rat) < of_nat (2 ^ 53)" using n by (simp only: of_nat_less_iff)
    then show "of_nat n \<le> (2 :: rat) ^ 67" by simp
  qed
  ultimately show ?thesis
    using assms(1) [OF n] assms(2)
    by (simp add: ToBytes_def sq Let_def del: of_nat_mult flip: of_nat_mult [where 'a = rat])
qed

section \<open>Properties\<close>

text \<open>unpadding undoes padding for every buffer and every block length it was padded for.\<close>

theorem PKCS7_roundtrip: "PKCS7Unpad (PKCS7Pad buf blen) = Some buf"
proof -
  define p where "p = 16 - blen mod 16"
  have p: "0 < p" "p \<le> 16" by (auto simp: p_def)
  then have u: "unat (of_nat p :: byte) = p" by simp
  have pad: "PKCS7Pad buf blen = buf @ replicate p (of_nat p)" by (simp add: PKCS7Pad_def p_def)
  have ne: "(of_nat p :: byte) \<noteq> 0" using p u by (metis neq0_conv unat_0)
  have l: "last (buf @ replicate p (of_nat p :: byte)) = of_nat p" using p by simp
  have "(buf @ replicate p (of_nat p)) ! k = of_nat p" if "length buf \<le> k" "k < length buf + p" for k
    using that by (simp add: nth_append)
  then show ?thesis
    using p ne by (simp add: PKCS7Unpad_def pad l u Let_def)
qed

text \<open>a URL that is not absolute gets the scheme and host of its request; the result
  always carries a scheme.\<close>

theorem GetRequestURLString_absolute:
  assumes "rqScheme q \<in> {[], ''http'', ''https''}"
  shows "HasPrefix (GetRequestURLString (Some q)) ''http://'' \<or> HasPrefix (GetRequestURLString (Some q)) ''https://''"
  using assms by (auto simp: GetRequestURLString_def Let_def)

lemma GetRequestURLString_absolute_witness:
  "HasPrefix (GetRequestURLString (Some \<lparr>rqMethod = ''CONNECT'', rqScheme = [], rqHost = ''a:1'', rqURLString = ''//a:1''\<rparr>)) ''http://'' \<or>
   HasPrefix (GetRequestURLString (Some \<lparr>rqMethod = ''CONNECT'', rqScheme = [], rqHost = ''a:1'', rqURLString = ''//a:1''\<rparr>)) ''https://''"
  by (rule GetRequestURLString_absolute) simp

text \<open>the wildcard matcher is not the usual one: it refuses a text its pattern describes and
  accepts one it does not.\<close>

theorem WildcardMatch_unusual:
  "\<not> WildcardMatch ''abba'' ''ab*ba'' \<and> WildcardMatch ''xabcy'' ''a*c''"
  by (simp add: WildcardMatch_def Contains_def sublist_code)

end
