(* ===== verification/HelperIO.thy ===== *)
theory HelperIO
  imports GoBufio Interfaces
begin

text \<open>
  \<open>common/helper/io.go\<close>, \<open>common/helper/chan.go\<close>, \<open>common/helper/conn.go\<close>: readers that end
  after a chunk or keep a copy, deadlines put on streams that have none, signals that do not
  block, and connections read through a buffer.
\<close>

section \<open>Readers\<close>

text \<open>The result of a \<open>Read\<close>: the bytes and the error that came with them.\<close>

type_synonym read_result = "bytes \<times> io_err option"

text \<open>\<open>BufferChunkReader.Read\<close>: what the inner read returned, and the error it records.\<close>

definition chunk_Read :: "read_result \<Rightarrow> read_result \<times> io_err option" where
  "chunk_Read inner = (case inner of (b, Some e) \<Rightarrow> ((b, Some e), Some e) | (b, None) \<Rightarrow> ((b, Some EOF), None))"

definition debug_Read :: "read_result \<Rightarrow> bytes \<Rightarrow> read_result \<times> bytes" where
  "debug_Read inner buf = (case inner of (b, e) \<Rightarrow> ((b, e), if b \<noteq> [] then buf @ b else buf))"

text \<open>\<open>IsTimeoutError\<close> of an error: whether it is a \<open>net.Error\<close>, and what its \<open>Timeout\<close> says.\<close>

definition IsTimeoutError :: "(bool \<times> bool) option \<Rightarrow> bool" where
  "IsTimeoutError err = (case err of Some (isNet, timeout) \<Rightarrow> isNet \<and> timeout | None \<Rightarrow> False)"

section \<open>Deadlines on a stream without deadlines\<close>

text \<open>A read with a deadline runs in a goroutine of its own; when the deadline passes first, the
  caller gets the timeout and the goroutine goes on waiting for data. \<open>tq\<close> are the reads that
  wait on the inner stream, in order, each with whether its caller still waits for it;
  \<open>tgot\<close> is what callers received, \<open>tlost\<close> what goroutines read for nobody.\<close>

record tstream =
  treadDeadline :: "nat option"
  twriteDeadline :: "nat option"
  tq :: "bool list"
  tgot :: "bytes list"
  tlost :: "bytes list"
  ttimeouts :: nat

definition t_new :: tstream where
  "t_new = \<lparr>treadDeadline = None, twriteDeadline = None, tq = [], tgot = [], tlost = [], ttimeouts = 0\<rparr>"

definition t_SetReadDeadline :: "nat option \<Rightarrow> tstream \<Rightarrow> tstream" where
  "t_SetReadDeadline d s = s\<lparr>treadDeadline := d\<rparr>"

definition t_SetWriteDeadline :: "nat option \<Rightarrow> tstream \<Rightarrow> tstream" where
  "t_SetWriteDeadline d s = s\<lparr>twriteDeadline := d\<rparr>"

text \<open>The events of a read: the call, which waits on the inner stream; the deadline, if the call
  was made with one; and data that arrives for the read that waits longest.\<close>

datatype t_event = TRead | TTimeout | TArrive bytes | TSetDeadline "nat option"

fun give_up :: "bool list \<Rightarrow> bool list" where
  "give_up [] = []"
| "give_up (w # ws) = (if w then False # ws else w # give_up ws)"

definition t_step :: "tstream \<Rightarrow> t_event \<Rightarrow> tstream" where
  "t_step s e = (case e of
       TRead \<Rightarrow> if True \<in> set (tq s) then s else s\<lparr>tq := tq s @ [True]\<rparr>
     | TTimeout \<Rightarrow> if treadDeadline s \<noteq> None \<and> True \<in> set (tq s)
                   then s\<lparr>tq := give_up (tq s), ttimeouts := ttimeouts s + 1\<rparr> else s
     | TArrive b \<Rightarrow> (case tq s of [] \<Rightarrow> s
          | w # ws \<Rightarrow> if w then s\<lparr>tq := ws, tgot := tgot s @ [b]\<rparr> else s\<lparr>tq := ws, tlost := tlost s @ [b]\<rparr>)
     | TSetDeadline d \<Rightarrow> t_SetReadDeadline d s)"

text \<open>At most one caller waits, behind the abandoned reads; and what was lost and what still can
  be lost is bounded by the timeouts.\<close>

definition t_inv :: "tstream \<Rightarrow> bool" where
  "t_inv s \<longleftrightarrow> (\<exists>n. tq s = replicate n False \<or> tq s = replicate n False @ [True]) \<and>
     length (tlost s) + length (filter Not (tq s)) = ttimeouts s"

lemma give_up_last: "give_up (replicate n False @ [True]) = replicate (Suc n) False"
  by (induction n) auto

lemma t_step_inv: "t_inv s \<Longrightarrow> t_inv (t_step s e)"
proof -
  assume s: "t_inv s"
  then obtain n where n: "tq s = replicate n False \<or> tq s = replicate n False @ [True]" by (auto simp: t_inv_def)
  show ?thesis
  proof (cases e)
    case TRead
    with n s show ?thesis by (auto simp: t_inv_def t_step_def)
  next
    case TTimeout
    have "t_inv (s\<lparr>tq := give_up (tq s), ttimeouts := ttimeouts s + 1\<rparr>)" if "tq s = replicate n False @ [True]"
      unfolding t_inv_def using s that give_up_last [of n] exI [of _ "Suc n"] by (auto simp: t_inv_def)
    with TTimeout n s show ?thesis by (auto simp: t_step_def)
  next
    case (TArrive b)
    with n s show ?thesis by (cases n) (auto simp: t_inv_def t_step_def)
  next
    case (TSetDeadline d)
    with s show ?thesis by (auto simp: t_inv_def t_step_def t_SetReadDeadline_def)
  qed
qed

interpretation tio: event_machine t_step t_inv
  by unfold_locales (rule t_step_inv)

text \<open>A write with a deadline: \<open>finished\<close> is whether the inner write ended first, with its result.\<close>

definition t_Write :: "bool \<Rightarrow> (nat \<times> io_err option) \<Rightarrow> tstream \<Rightarrow> nat \<times> io_err option" where
  "t_Write finished inner s =
     (if twriteDeadline s = None then inner else if finished then inner else (0, Some IoTimeout))"

section \<open>Signals\<close>

text \<open>A channel of capacity \<open>chcap\<close>, with the number of goroutines that wait to receive.\<close>

record 'a chan =
  chbuf :: "'a list"
  chcap :: nat
  chwait :: nat

definition try_send :: "'a \<Rightarrow> 'a chan \<Rightarrow> 'a chan" where
  "try_send x c = (if chwait c > 0 then c\<lparr>chwait := chwait c - 1\<rparr>
                   else if length (chbuf c) < chcap c then c\<lparr>chbuf := chbuf c @ [x]\<rparr> else c)"

definition AsyncSendErr :: "'e chan option \<Rightarrow> 'e \<Rightarrow> 'e chan option" where
  "AsyncSendErr ch err = (case ch of None \<Rightarrow> None | Some c \<Rightarrow> Some (try_send err c))"

definition AsyncNotify :: "unit chan \<Rightarrow> unit chan" where
  "AsyncNotify c = try_send () c"

section \<open>Buffered connections\<close>

record bufconn =
  bcReader :: bufr
  bcSent :: "bytes list"

definition buf_Read :: "nat \<Rightarrow> bufr \<Rightarrow> (io_err + bytes) \<times> bufr" where
  "buf_Read n r =
     (if n = 0 then (Inr [], r)
      else if bbuf r \<noteq> [] then (Inr (take n (bbuf r)), r\<lparr>bbuf := drop n (bbuf r)\<rparr>)
      else case dropWhile (\<lambda>c. c = []) (bsrc r) of
         [] \<Rightarrow> (Inl (berr r), r)
       | c # cs \<Rightarrow>
           if n \<ge> bufsize then (Inr (take n c), r\<lparr>bsrc := (if drop n c = [] then cs else drop n c # cs)\<rparr>)
           else let b = take bufsize c in
             (Inr (take n b), r\<lparr>bbuf := drop n b, bsrc := (if drop bufsize c = [] then cs else drop bufsize c # cs)\<rparr>))"

definition NewBufConn :: "bytes list \<Rightarrow> io_err \<Rightarrow> bufr option \<Rightarrow> bufconn" where
  "NewBufConn segs e r = \<lparr>bcReader = (case r of Some b \<Rightarrow> b | None \<Rightarrow> new_reader segs e), bcSent = []\<rparr>"

definition bc_Peek :: "nat \<Rightarrow> bufconn \<Rightarrow> (bytes \<times> io_err option) \<times> bufconn" where
  "bc_Peek n c = (case Peek n (bcReader c) of (b, e, r) \<Rightarrow> ((b, e), c\<lparr>bcReader := r\<rparr>))"

definition bc_Read :: "nat \<Rightarrow> bufconn \<Rightarrow> (io_err + bytes) \<times> bufconn" where
  "bc_Read n c = (case buf_Read n (bcReader c) of (x, r) \<Rightarrow> (x, c\<lparr>bcReader := r\<rparr>))"

definition bc_Write :: "bytes \<Rightarrow> bufconn \<Rightarrow> bufconn" where
  "bc_Write b c = c\<lparr>bcSent := bcSent c @ [b]\<rparr>"

text \<open>\<open>Reset\<close> puts another connection in place, to which nothing has been sent; the reader stays the one of the old connection.\<close>

definition bc_Reset :: "bufconn \<Rightarrow> bufconn" where
  "bc_Reset c = c\<lparr>bcSent := []\<rparr>"

text \<open>\<open>IsConnClosed\<close> of \<open>net.go\<close> asks with a read of no bytes, \<open>HttpPostWriter\<close> posts what is written and takes every answer for a
  success.\<close>

definition IsConnClosed :: "(nat \<Rightarrow> bufconn \<Rightarrow> (io_err + bytes) \<times> bufconn) \<Rightarrow> bufconn \<Rightarrow> io_err option" where
  "IsConnClosed read c = (case read 0 c of (Inl e, _) \<Rightarrow> Some e | (Inr _, _) \<Rightarrow> None)"

definition HttpPostWriter_Write :: "int option \<Rightarrow> bytes \<Rightarrow> nat \<times> io_err option" where
  "HttpPostWriter_Write response p = (case response of None \<Rightarrow> (0, Some ConnErr) | Some status \<Rightarrow> (length p, None))"

section \<open>Properties\<close>

text \<open>a stream with deadlines loses at most one arrival for each timeout, and none without.\<close>

theorem t_loss_bounded:
  "length (tlost (foldl t_step t_new es)) \<le> ttimeouts (foldl t_step t_new es)"
proof -
  have "t_inv t_new" by (simp add: t_inv_def t_new_def)
  from tio.run_inv [OF this, of es] show ?thesis by (simp add: t_inv_def)
qed

text \<open>and it does lose it: after a read has timed out, the next data to arrive goes to the
  goroutine left behind, while the caller that reads again keeps waiting.\<close>

theorem t_timeout_loses:
  assumes "tq s = []" "treadDeadline s \<noteq> None"
  shows "tlost (foldl t_step s [TRead, TTimeout, TRead, TArrive b]) = tlost s @ [b] \<and>
     tgot (foldl t_step s [TRead, TTimeout, TRead, TArrive b]) = tgot s \<and>
     tq (foldl t_step s [TRead, TTimeout, TRead, TArrive b]) = [True]"
  using assms by (simp add: t_step_def)

lemma t_timeout_loses_witness:
  "tlost (foldl t_step (t_SetReadDeadline (Some 1) t_new) [TRead, TTimeout, TRead, TArrive [1, 2]]) = tlost (t_SetReadDeadline (Some 1) t_new) @ [[1, 2]] \<and>
   tgot (foldl t_step (t_SetReadDeadline (Some 1) t_new) [TRead, TTimeout, TRead, TArrive [1, 2]]) = tgot (t_SetReadDeadline (Some 1) t_new) \<and>
   tq (foldl t_step (t_SetReadDeadline (Some 1) t_new) [TRead, TTimeout, TRead, TArrive [1, 2]]) = [True]"
  by (rule t_timeout_loses) (simp_all add: t_new_def t_SetReadDeadline_def)

text \<open>Reading a buffered connection consumes its bytes in order, whether they had been peeked at
  or not.\<close>

lemma take_drop_cat: "take n x @ drop n x @ y = x @ y"
  by (metis append.assoc append_take_drop_id)

lemma take_drop_cat2: "n \<le> m \<Longrightarrow> take n x @ drop n (take m x) @ drop m x @ y = x @ y"
  by (metis append.assoc append_take_drop_id min.absorb1 take_take)

lemma buf_Read_order:
  assumes "buf_Read n r = (Inr b, r')"
  shows "rest_of r = b @ rest_of r'"
proof (cases "n = 0 \<or> bbuf r \<noteq> []")
  case True
  with assms show ?thesis by (auto simp: buf_Read_def rest_of_def take_drop_cat split: if_splits)
next
  case False
  then obtain c cs where c: "dropWhile (\<lambda>c. c = []) (bsrc r) = c # cs"
    using assms by (auto simp: buf_Read_def split: list.splits)
  then have "concat (bsrc r) = c @ concat cs" using concat_dropWhile_Nil [of "bsrc r"] by simp
  with assms False c show ?thesis
    by (auto simp: buf_Read_def rest_of_def Let_def take_drop_cat take_drop_cat2 min_def split: if_splits)
qed

text \<open>a read of no bytes asks nobody, so \<open>IsConnClosed\<close> never finds a connection closed, whatever its reader holds.\<close>

lemma IsConnClosed_never: "IsConnClosed bc_Read c = None"
  by (simp add: IsConnClosed_def bc_Read_def buf_Read_def)

text \<open>a post that is refused counts as written.\<close>

lemma refused_post_counts: "HttpPostWriter_Write (Some 500) p = (length p, None)"
  by (simp add: HttpPostWriter_Write_def)

end
