(* ===== verification/ChannelConfig.thy ===== *)
theory ChannelConfig
  imports "HOL-Library.AList" HelperText GoGlob Interfaces MuxMessage Socks5Client
begin

text \<open>
  \<open>common/channel/config.go\<close>, \<open>common/channel/local.go\<close>, \<open>common/channel/dial.go\<close>: the
  configuration of a channel and its normal form, access limits, users, the authentication a
  client sends, and how a server is dialled. The names of \<open>pmux\<close>'s ciphers and its default
  configuration are parameters.
\<close>

section \<open>Access limits\<close>

record ProxyLimitConfig =
  WhiteList :: "string list"
  BlackList :: "string list"

text \<open>One rule: \<open>*\<close> is every host, anything else a \<open>filepath\<close> pattern.\<close>

definition rule_matches :: "string \<Rightarrow> string \<Rightarrow> bool" where
  "rule_matches rule host = (if rule = ''*'' then True else Match rule host)"

fun in_rules :: "string list \<Rightarrow> string \<Rightarrow> bool" where
  "in_rules [] host = False"
| "in_rules (r # rs) host = (if rule_matches r host then True else in_rules rs host)"

definition Allowed :: "ProxyLimitConfig \<Rightarrow> string \<Rightarrow> bool" where
  "Allowed limit host =
     (if WhiteList limit = [] \<and> BlackList limit = [] then True
      else if BlackList limit \<noteq> [] then \<not> in_rules (BlackList limit) host
      else in_rules (WhiteList limit) host)"

section \<open>Ciphers and users\<close>

record cipher_names =
  CipherChacha20Poly1305 :: string
  CipherSalsa20 :: string
  CipherAES256GCM :: string
  CipherNone :: string

record CipherConfig =
  User :: string
  CMethod :: string
  CKey :: string
  allowedUser :: "string list"

definition cipher_Adjust :: "cipher_names \<Rightarrow> string \<Rightarrow> CipherConfig \<Rightarrow> CipherConfig" where
  "cipher_Adjust nm arch conf =
     (let conf = (if CMethod conf = [] then conf\<lparr>CMethod := ''auto''\<rparr> else conf); m = CMethod conf in
      if m = ''auto'' then
        (if Contains arch ''386'' \<or> Contains arch ''amd64'' then conf\<lparr>CMethod := CipherAES256GCM nm\<rparr>
         else if Contains arch ''arm'' then conf\<lparr>CMethod := CipherChacha20Poly1305 nm\<rparr>
         else conf)
      else if m = CipherChacha20Poly1305 nm then conf
      else if m = CipherSalsa20 nm then conf
      else if m = CipherAES256GCM nm then conf
      else if m = CipherNone nm then conf
      else conf\<lparr>CMethod := CipherChacha20Poly1305 nm\<rparr>)"

definition AllowUsers :: "string \<Rightarrow> CipherConfig \<Rightarrow> CipherConfig" where
  "AllowUsers users conf = (if users \<noteq> [] then conf\<lparr>allowedUser := Split users CHR '',''\<rparr> else conf)"

definition VerifyUser :: "CipherConfig \<Rightarrow> string \<Rightarrow> bool" where
  "VerifyUser conf user =
     (if allowedUser conf = [] then True
      else list_ex (\<lambda>u. u = user \<or> u = ''*'') (allowedUser conf))"

section \<open>Multiplexer configuration\<close>

record MuxConfig =
  MaxStreamWindow :: string
  StreamMinRefresh :: string
  StreamIdleTimeout :: int
  SessionIdleTimeout :: int
  UpBufferSize :: int
  DownBufferSize :: int

record pmux_config =
  EnableKeepAlive :: bool
  pmMaxStreamWindowSize :: u32
  pmStreamMinRefresh :: u32
  pmCipherKey :: bytes
  pmCipherMethod :: string
  pmCipherInitialCounter :: u64

text \<open>\<open>uint32(v)\<close> keeps the low 32 bits of the size.\<close>

definition ToPMuxConf :: "(rat \<Rightarrow> rat) \<Rightarrow> pmux_config \<Rightarrow> MuxConfig \<Rightarrow> pmux_config" where
  "ToPMuxConf rnd cfg0 m =
     (let cfg = cfg0\<lparr>EnableKeepAlive := False\<rparr>;
          cfg = (if MaxStreamWindow m \<noteq> [] then
                   (case ToBytes rnd (MaxStreamWindow m) of None \<Rightarrow> cfg
                    | Some v \<Rightarrow> cfg\<lparr>pmMaxStreamWindowSize := of_nat v\<rparr>)
                 else cfg);
          cfg = (if StreamMinRefresh m \<noteq> [] then
                   (case ToBytes rnd (StreamMinRefresh m) of None \<Rightarrow> cfg
                    | Some v \<Rightarrow> cfg\<lparr>pmStreamMinRefresh := of_nat v\<rparr>)
                 else cfg)
      in cfg)"

definition DefaultMuxCipherMethod :: string where "DefaultMuxCipherMethod = ''chacha20poly1305''"
definition DefaultMuxInitialCipherCounter :: u64 where "DefaultMuxInitialCipherCounter = 47816489"

definition InitialPMuxConfig :: "(rat \<Rightarrow> rat) \<Rightarrow> pmux_config \<Rightarrow> MuxConfig \<Rightarrow> CipherConfig \<Rightarrow> pmux_config" where
  "InitialPMuxConfig rnd cfg0 defaultMuxConfig cipher =
     (ToPMuxConf rnd cfg0 defaultMuxConfig)
       \<lparr>pmCipherKey := bytes_of_str (CKey cipher), pmCipherMethod := DefaultMuxCipherMethod,
        pmCipherInitialCounter := DefaultMuxInitialCipherCounter\<rparr>"

section \<open>KCP\<close>

record KCPBaseConfig =
  kMode :: string
  kConn :: int
  kAutoExpire :: int
  kScavengeTTL :: int
  kMTU :: int
  kSndWnd :: int
  kRcvWnd :: int
  kDataShard :: int
  kParityShard :: int
  kDSCP :: int
  kAckNodelay :: bool
  kNoDelay :: int
  kInterval :: int
  kResend :: int
  kNoCongestion :: int
  kSockBuf :: int

definition InitDefaultConf :: "KCPBaseConfig \<Rightarrow> KCPBaseConfig" where
  "InitDefaultConf k = k\<lparr>kMode := ''fast'', kConn := 1, kAutoExpire := 0, kScavengeTTL := 600, kMTU := 1350,
     kSndWnd := 128, kRcvWnd := 512, kDataShard := 10, kParityShard := 3, kDSCP := 0, kAckNodelay := True,
     kNoDelay := 0, kInterval := 50, kResend := 0, kNoCongestion := 0, kSockBuf := 4194304\<rparr>"

definition adjustByMode :: "KCPBaseConfig \<Rightarrow> KCPBaseConfig" where
  "adjustByMode k =
     (if kMode k = ''normal'' then k\<lparr>kNoDelay := 0, kInterval := 40, kResend := 2, kNoCongestion := 1\<rparr>
      else if kMode k = ''fast'' then k\<lparr>kNoDelay := 0, kInterval := 30, kResend := 2, kNoCongestion := 1\<rparr>
      else if kMode k = ''fast2'' then k\<lparr>kNoDelay := 1, kInterval := 20, kResend := 2, kNoCongestion := 1\<rparr>
      else if kMode k = ''fast3'' then k\<lparr>kNoDelay := 1, kInterval := 10, kResend := 2, kNoCongestion := 1\<rparr>
      else k)"

text \<open>\<open>UnmarshalJSON\<close>: the decoder overwrites the fields it finds, also before an error, and says whether there was none.\<close>

definition kcp_UnmarshalJSON :: "(KCPBaseConfig \<Rightarrow> bool \<times> KCPBaseConfig) \<Rightarrow> KCPBaseConfig \<Rightarrow> bool \<times> KCPBaseConfig" where
  "kcp_UnmarshalJSON dec k = (case dec (InitDefaultConf k) of (ok, k') \<Rightarrow> (ok, if ok then adjustByMode k' else k'))"

section \<open>Channels\<close>

record ProxyChannelConfig =
  Enable :: bool
  pcName :: string
  ServerList :: "string list"
  ConnsPerServer :: int
  SNI :: "string list"
  SNIProxy :: string
  pcProxy :: string
  RemoteDialMSTimeout :: int
  RemoteDNSReadMSTimeout :: int
  RemoteUDPReadMSTimeout :: int
  LocalDialMSTimeout :: int
  ReconnectPeriod :: int
  HeartBeatPeriod :: int
  RCPRandomAdjustment :: int
  Compressor :: string
  KCP :: KCPBaseConfig
  HTTPPushRateLimitPerSec :: int
  HTTPUserAgent :: string
  HTTPReadTimeout :: int
  Cipher :: CipherConfig
  Hops :: "string list"
  RemoteSNIProxy :: "(string \<times> string) list"  \<comment> \<open>in the order of the iteration\<close>
  HibernateAfterSecs :: int
  P2PToken :: string
  P2S2PEnable :: bool
  pcproxyURL :: "URL option"
  lazyConnect :: bool

definition HopServers_Set :: "string \<Rightarrow> string list \<Rightarrow> string list" where
  "HopServers_Set v i = i @ [v]"

text \<open>\<open>HTTPConfig.UnmarshalJSON\<close>: push limit, user agent and read timeout.\<close>

definition http_UnmarshalJSON ::
    "(int \<times> string \<times> int \<Rightarrow> (bool \<times> (int \<times> string \<times> int))) \<Rightarrow> string \<Rightarrow> bool \<times> (int \<times> string \<times> int)" where
  "http_UnmarshalJSON dec agent = dec (3, agent, 30000)"

fun GetRemoteSNI_loop :: "(string \<times> string) list \<Rightarrow> string \<Rightarrow> string" where
  "GetRemoteSNI_loop [] domain = []"
| "GetRemoteSNI_loop ((k, v) # m) domain = (if Match k domain then v else GetRemoteSNI_loop m domain)"

definition GetRemoteSNI :: "ProxyChannelConfig \<Rightarrow> string \<Rightarrow> string" where
  "GetRemoteSNI conf domain = GetRemoteSNI_loop (RemoteSNIProxy conf) domain"

text \<open>Go's division truncates towards 0.\<close>

definition half :: "int \<Rightarrow> int" where
  "half x = (if x < 0 then - (- x div 2) else x div 2)"

definition kcp_Adjust :: "KCPBaseConfig \<Rightarrow> KCPBaseConfig" where
  "kcp_Adjust k = adjustByMode (if kMode k = [] then InitDefaultConf k else k)"

definition default_if_zero :: "int \<Rightarrow> int \<Rightarrow> int" where
  "default_if_zero v d = (if v = 0 then d else v)"

definition Adjust_defaults :: "ProxyChannelConfig \<Rightarrow> ProxyChannelConfig" where
  "Adjust_defaults conf =
     (let conf = (if Compressor conf = [] \<or> \<not> IsValidCompressor (Compressor conf)
                  then conf\<lparr>Compressor := NoneCompressor\<rparr> else conf);
          conf = (if RCPRandomAdjustment conf > ReconnectPeriod conf
                  then conf\<lparr>RCPRandomAdjustment := half (ReconnectPeriod conf)\<rparr> else conf)
      in conf\<lparr>ConnsPerServer := default_if_zero (ConnsPerServer conf) 3,
              RemoteDNSReadMSTimeout := default_if_zero (RemoteDNSReadMSTimeout conf) 1000,
              RemoteUDPReadMSTimeout := default_if_zero (RemoteUDPReadMSTimeout conf) 15000,
              LocalDialMSTimeout := default_if_zero (LocalDialMSTimeout conf) 5000,
              HTTPReadTimeout := default_if_zero (HTTPReadTimeout conf) 30000,
              RemoteDialMSTimeout := default_if_zero (RemoteDialMSTimeout conf) 5000,
              HibernateAfterSecs := default_if_zero (HibernateAfterSecs conf) 1800\<rparr>)"

definition Adjust :: "cipher_names \<Rightarrow> string \<Rightarrow> ProxyChannelConfig \<Rightarrow> ProxyChannelConfig" where
  "Adjust nm arch conf =
     Adjust_defaults (conf\<lparr>Cipher := cipher_Adjust nm arch (Cipher conf), KCP := kcp_Adjust (KCP conf)\<rparr>)"

text \<open>\<open>ProxyURL\<close>: the parsed proxy URL, kept once it has been parsed.\<close>

definition ProxyURL :: "(string \<Rightarrow> URL option) \<Rightarrow> ProxyChannelConfig \<Rightarrow> URL option \<times> ProxyChannelConfig" where
  "ProxyURL parse c =
     (if pcproxyURL c \<noteq> None then (pcproxyURL c, c)
      else if pcProxy c \<noteq> [] then (parse (pcProxy c), c\<lparr>pcproxyURL := parse (pcProxy c)\<rparr>)
      else (None, c))"

section \<open>Channel types\<close>

definition DirectSchemes :: "string list" where
  "DirectSchemes = [''direct'', ''socks'', ''socks4'', ''socks5'', ''http_proxy'']"

definition IsDirectScheme :: "string \<Rightarrow> bool" where
  "IsDirectScheme scheme = list_ex (\<lambda>s. s = scheme) DirectSchemes"

definition RegisterLocalChannelType :: "string \<Rightarrow> 't \<Rightarrow> (string \<times> 't) list \<Rightarrow> (string \<times> 't) list" where
  "RegisterLocalChannelType str rt table = AList.update str rt table"

definition AllowedSchema :: "(string \<times> 't) list \<Rightarrow> string list" where
  "AllowedSchema table = sort (filter (\<lambda>s. \<not> IsDirectScheme s) (map fst table))"

section \<open>Authentication of a client session\<close>

definition client_auth_request ::
    "ProxyChannelConfig \<Rightarrow> string \<Rightarrow> string \<Rightarrow> string \<Rightarrow> string \<Rightarrow> bool \<Rightarrow> AuthRequest" where
  "client_auth_request conf connID cipherMethod priAddr pubAddr isP2P =
     (let req = \<lparr>arRand = [], arUser = User (Cipher conf), arCipherCounter = 1, arCipherMethod = cipherMethod,
                 arCompressMethod = Compressor conf, arP2PToken = P2PToken conf, arP2PConnID = [],
                 arP2PPriAddr = priAddr, arP2PPubAddr = pubAddr\<rparr>;
          req = (if P2PToken conf \<noteq> [] then req\<lparr>arP2PConnID := connID\<rparr> else req)
      in if isP2P then req\<lparr>arP2PToken := [], arP2PConnID := [], arP2PPriAddr := [], arP2PPubAddr := []\<rparr> else req)"

text \<open>\<open>clientAuthMuxSession\<close>: whether a stream could be opened, the authentication over it and
  whether the cipher could be reset (asked only for the first authentication of a \<open>pmux\<close>
  session, with the method and the counter of the request).\<close>

datatype client_auth_err = OpenFailed | AuthFailed | ResetFailed

definition clientAuthMuxSession ::
    "bool \<Rightarrow> (AuthRequest \<Rightarrow> AuthResponse) \<Rightarrow> (string \<Rightarrow> u64 \<Rightarrow> bool) \<Rightarrow> string \<Rightarrow> ProxyChannelConfig \<Rightarrow> string \<Rightarrow>
     string \<Rightarrow> string \<Rightarrow> bool \<Rightarrow> bool \<Rightarrow> bool \<Rightarrow> client_auth_err + (AuthRequest \<times> AuthResponse)" where
  "clientAuthMuxSession opened auth reset cipherMethod conf connID priAddr pubAddr isFirst isP2P isPmux =
     (if \<not> opened then Inl OpenFailed
      else let req = client_auth_request conf connID cipherMethod priAddr pubAddr isP2P; res = auth req in
        if auth_error res then Inl AuthFailed
        else if isFirst \<and> isPmux then
          (if reset cipherMethod (arCipherCounter req) then Inr (req, res) else Inl ResetFailed)
        else Inr (req, res))"

text \<open>\<open>clientAuthConn\<close>: \<open>pmuxOk\<close> is whether the multiplexer starts on the connection; the second
  result is whether the connection has been closed.\<close>

definition clientAuthConn ::
    "bool \<Rightarrow> bool \<Rightarrow> (AuthRequest \<Rightarrow> AuthResponse) \<Rightarrow> (string \<Rightarrow> u64 \<Rightarrow> bool) \<Rightarrow> string \<Rightarrow> ProxyChannelConfig \<Rightarrow> string \<Rightarrow>
     string \<Rightarrow> bool \<Rightarrow> (client_auth_err + (AuthRequest \<times> AuthResponse)) option \<times> bool" where
  "clientAuthConn pmuxOk opened auth reset cipherMethod conf connID localAddr p2pTunnel =
     (if \<not> pmuxOk then (None, True)
      else case clientAuthMuxSession opened auth reset cipherMethod conf connID
                  (if p2pTunnel then [] else localAddr) [] True p2pTunnel True of
        Inl e \<Rightarrow> (Some (Inl e), True) | Inr r \<Rightarrow> (Some (Inr r), False))"

section \<open>Dialling a server\<close>

datatype server_dial_err = BadURL | BadScheme string | DnsFailed | DialFailed | HandshakeFailed

datatype dial_plan = DialTCP string bool | DialViaProxy string string bool

definition NewTLSConfig :: "ProxyChannelConfig \<Rightarrow> string" where
  "NewTLSConfig conf = (if SNI conf \<noteq> [] then hd (SNI conf) else [])"

text \<open>Host, port and dial address of a server URL; a URL without a port gets its scheme's.\<close>

definition server_hostport :: "URL \<Rightarrow> (string \<times> string \<times> string) option" where
  "server_hostport u =
     (case SplitHostPort (uHost u) of
        Some (h, p) \<Rightarrow> Some (h, p, uHost u)
      | None \<Rightarrow>
          (if Scheme u \<in> {''http'', ''ws'', ''tcp'', ''tcp4'', ''tcp6''} then Some (uHost u, ''80'', JoinHostPort (uHost u) ''80'')
           else if Scheme u = ''ssh'' then Some (uHost u, ''22'', JoinHostPort (uHost u) ''22'')
           else if Scheme u \<in> {''http2'', ''https'', ''quic'', ''kcp'', ''tls'', ''wss''} then Some (uHost u, ''443'', JoinHostPort (uHost u) ''443'')
           else None))"

definition server_name :: "ProxyChannelConfig \<Rightarrow> string \<Rightarrow> string" where
  "server_name conf h = (let n = NewTLSConfig conf in if n = [] \<and> ParseIP h = None then h else n)"

definition sni_proxied ::
    "(string \<Rightarrow> bool) \<Rightarrow> (string \<Rightarrow> string \<Rightarrow> string) \<Rightarrow> ProxyChannelConfig \<Rightarrow> string \<Rightarrow> string \<Rightarrow> string \<Rightarrow> string \<times> string" where
  "sni_proxied inHosts getAddr conf h p hp =
     (if SNIProxy conf \<noteq> [] \<and> p = ''443'' then
        (if ParseIP (SNIProxy conf) = None then
           (if inHosts (SNIProxy conf) then
              (let a = getAddr (SNIProxy conf) ''443''
               in (case SplitHostPort a of None \<Rightarrow> [] | Some (h', _) \<Rightarrow> h', a))
            else (h, hp))
         else (SNIProxy conf, JoinHostPort (SNIProxy conf) p))
      else (h, hp))"

definition plan_dial ::
    "(string \<Rightarrow> bool) \<Rightarrow> (string \<Rightarrow> string \<Rightarrow> string) \<Rightarrow> (string \<Rightarrow> string option) \<Rightarrow> ProxyChannelConfig \<Rightarrow> URL \<Rightarrow>
     server_dial_err + (string \<times> dial_plan)" where
  "plan_dial inHosts getAddr dns conf u =
     (case server_hostport u of None \<Rightarrow> Inl (BadScheme (Scheme u))
      | Some (h, p, hp) \<Rightarrow>
          (let sn = server_name conf h; (h, hp) = sni_proxied inHosts getAddr conf h p hp; reuse = (P2PToken conf \<noteq> []) in
           if pcProxy conf = [] then
             (if ParseIP h = None then
                (case dns h of None \<Rightarrow> Inl DnsFailed | Some ip \<Rightarrow> Inr (sn, DialTCP (JoinHostPort ip p) reuse))
              else Inr (sn, DialTCP hp reuse))
           else Inr (sn, DialViaProxy (pcProxy conf) hp reuse)))"

text \<open>\<open>DialServerByConf\<close>: the server name of the TLS handshake, if one was made, or the error and
  whether a connection is left open behind it.\<close>

definition DialServerByConf ::
    "(string \<Rightarrow> URL option) \<Rightarrow> (string \<Rightarrow> bool) \<Rightarrow> (string \<Rightarrow> string \<Rightarrow> string) \<Rightarrow> (string \<Rightarrow> string option) \<Rightarrow>
     (dial_plan \<Rightarrow> int \<Rightarrow> bool) \<Rightarrow> (string \<Rightarrow> bool) \<Rightarrow> string \<Rightarrow> ProxyChannelConfig \<Rightarrow>
     (server_dial_err \<times> bool) + string option" where
  "DialServerByConf parse inHosts getAddr dns dial handshake server conf =
     (case parse server of None \<Rightarrow> Inl (BadURL, False)
      | Some u \<Rightarrow>
          (case plan_dial inHosts getAddr dns conf u of Inl e \<Rightarrow> Inl (e, False)
           | Inr (sn, plan) \<Rightarrow>
               if \<not> dial plan (default_if_zero (LocalDialMSTimeout conf) 5000) then Inl (DialFailed, False)
               else if Scheme u = ''tls'' \<or> Scheme u = ''http2'' then
                 (if handshake sn then Inr (Some sn) else Inl (HandshakeFailed, True))
               else Inr None))"

section \<open>Normal forms\<close>

definition kcp_ok :: "KCPBaseConfig \<Rightarrow> bool" where
  "kcp_ok k \<longleftrightarrow> kMode k \<noteq> [] \<and> adjustByMode k = k"

lemma kMode_adjustByMode [adjust_simps]: "kMode (adjustByMode k) = kMode k"
  by (simp add: adjustByMode_def)

lemma adjustByMode_idem [adjust_simps]: "adjustByMode (adjustByMode k) = adjustByMode k"
  by (simp add: adjustByMode_def)

interpretation kcp: normaliser kcp_Adjust kcp_ok
proof
  show "kcp_ok (kcp_Adjust k)" for k
    by (simp add: kcp_ok_def kcp_Adjust_def adjust_simps) (simp add: InitDefaultConf_def)
  show "kcp_Adjust k = k" if "kcp_ok k" for k
    using that by (simp add: kcp_ok_def kcp_Adjust_def)
qed

definition defaults_ok :: "ProxyChannelConfig \<Rightarrow> bool" where
  "defaults_ok c \<longleftrightarrow> IsValidCompressor (Compressor c) \<and>
     (RCPRandomAdjustment c \<le> ReconnectPeriod c \<or> RCPRandomAdjustment c = half (ReconnectPeriod c)) \<and>
     ConnsPerServer c \<noteq> 0 \<and> RemoteDNSReadMSTimeout c \<noteq> 0 \<and> RemoteUDPReadMSTimeout c \<noteq> 0 \<and>
     LocalDialMSTimeout c \<noteq> 0 \<and> HTTPReadTimeout c \<noteq> 0 \<and> RemoteDialMSTimeout c \<noteq> 0 \<and> HibernateAfterSecs c \<noteq> 0"

lemma default_if_zero_nonzero [adjust_simps]: "d \<noteq> 0 \<Longrightarrow> default_if_zero v d \<noteq> 0"
  by (simp add: default_if_zero_def)

lemma default_if_zero_id [adjust_simps]: "v \<noteq> 0 \<Longrightarrow> default_if_zero v d = v"
  by (simp add: default_if_zero_def)

lemma valid_compressors [adjust_simps]: "IsValidCompressor NoneCompressor" "\<not> IsValidCompressor []"
  by (simp_all add: IsValidCompressor_def NoneCompressor_def SnappyCompressor_def)

interpretation defaults: normaliser Adjust_defaults defaults_ok
proof
  show "defaults_ok (Adjust_defaults c)" for c
    by (auto simp: defaults_ok_def Adjust_defaults_def Let_def adjust_simps)
  show "Adjust_defaults c = c" if "defaults_ok c" for c
  proof -
    have "Compressor c \<noteq> []" using that adjust_simps(5,6) by (auto simp: defaults_ok_def valid_compressors)
    with that show ?thesis by (auto simp: defaults_ok_def Adjust_defaults_def Let_def adjust_simps)
  qed
qed

definition adjusted_method :: "cipher_names \<Rightarrow> string \<Rightarrow> string \<Rightarrow> string" where
  "adjusted_method nm arch m =
     (if m = [] \<or> m = ''auto'' then
        (if Contains arch ''386'' \<or> Contains arch ''amd64'' then CipherAES256GCM nm
         else if Contains arch ''arm'' then CipherChacha20Poly1305 nm else ''auto'')
      else if m \<in> {CipherChacha20Poly1305 nm, CipherSalsa20 nm, CipherAES256GCM nm, CipherNone nm} then m
      else CipherChacha20Poly1305 nm)"

lemma cipher_Adjust_method: "cipher_Adjust nm arch c = c\<lparr>CMethod := adjusted_method nm arch (CMethod c)\<rparr>"
  by (cases c) (simp add: cipher_Adjust_def adjusted_method_def Let_def)

lemma adjusted_method_idem:
  assumes "CipherChacha20Poly1305 nm \<notin> {[], ''auto''}" "CipherAES256GCM nm \<notin> {[], ''auto''}"
  shows "adjusted_method nm arch (adjusted_method nm arch m) = adjusted_method nm arch m"
proof -
  have "adjusted_method nm arch m \<in> {CipherChacha20Poly1305 nm, CipherSalsa20 nm, CipherAES256GCM nm, CipherNone nm} \<and>
        adjusted_method nm arch m \<notin> {[], ''auto''} \<or>
        adjusted_method nm arch m = ''auto'' \<and> \<not> (Contains arch ''386'' \<or> Contains arch ''amd64'') \<and> \<not> Contains arch ''arm''"
    using assms unfolding adjusted_method_def by (auto split: if_splits)
  then show ?thesis by (subst (1) adjusted_method_def) auto
qed

lemma cipher_Adjust_idem:
  assumes "CipherChacha20Poly1305 nm \<notin> {[], ''auto''}" "CipherAES256GCM nm \<notin> {[], ''auto''}"
  shows "cipher_Adjust nm arch (cipher_Adjust nm arch c) = cipher_Adjust nm arch c"
  by (simp add: cipher_Adjust_method adjusted_method_idem [OF assms])

lemma Adjust_defaults_frame [adjust_simps]:
  "Cipher (Adjust_defaults c) = Cipher c" "KCP (Adjust_defaults c) = KCP c"
  by (simp_all add: Adjust_defaults_def Let_def)

lemma Adjust_defaults_upd:
  "Adjust_defaults (c\<lparr>Cipher := x, KCP := y\<rparr>) = (Adjust_defaults c)\<lparr>Cipher := x, KCP := y\<rparr>"
  by (simp add: Adjust_defaults_def Let_def)

section \<open>Properties\<close>

text \<open>adjusting a channel's configuration a second time changes nothing.\<close>

theorem Adjust_idempotent:
  assumes "CipherChacha20Poly1305 nm \<notin> {[], ''auto''}" "CipherAES256GCM nm \<notin> {[], ''auto''}"
  shows "Adjust nm arch (Adjust nm arch c) = Adjust nm arch c"
proof -
  have "Adjust nm arch c = (Adjust_defaults c)\<lparr>Cipher := cipher_Adjust nm arch (Cipher c), KCP := kcp_Adjust (KCP c)\<rparr>"
    by (simp add: Adjust_def Adjust_defaults_upd)
  then show ?thesis
    by (simp add: Adjust_def Adjust_defaults_upd kcp.norm_idem defaults.norm_idem cipher_Adjust_idem [OF assms])
qed

definition example_names :: cipher_names where
  "example_names = \<lparr>CipherChacha20Poly1305 = ''chacha20poly1305'', CipherSalsa20 = ''s'', CipherAES256GCM = ''a'', CipherNone = ''n''\<rparr>"

lemma Adjust_idempotent_witness:
  "\<forall>c0. Adjust example_names ''amd64'' (Adjust example_names ''amd64'' c0) = Adjust example_names ''amd64'' c0"
  by (intro allI Adjust_idempotent) (simp_all add: example_names_def)

text \<open>an adjusted configuration has a valid compressor, no timeout or pool size of 0, and,
  when the reconnect period is not negative, a random adjustment within it, so that the
  interval from which the expiry of a session is drawn starts at 0 or later.\<close>

theorem Adjust_bounds:
  assumes "c' = Adjust nm arch c"
  shows "IsValidCompressor (Compressor c') \<and> ConnsPerServer c' \<noteq> 0 \<and> LocalDialMSTimeout c' \<noteq> 0 \<and>
     RemoteDialMSTimeout c' \<noteq> 0 \<and> RemoteDNSReadMSTimeout c' \<noteq> 0 \<and> RemoteUDPReadMSTimeout c' \<noteq> 0 \<and>
     HTTPReadTimeout c' \<noteq> 0 \<and> HibernateAfterSecs c' \<noteq> 0 \<and>
     (0 \<le> ReconnectPeriod c' \<longrightarrow> RCPRandomAdjustment c' \<le> ReconnectPeriod c')"
  using defaults.norm_ok [of "c\<lparr>Cipher := cipher_Adjust nm arch (Cipher c), KCP := kcp_Adjust (KCP c)\<rparr>"]
  by (auto simp: assms Adjust_def defaults_ok_def half_def)

lemma Adjust_bounds_witness:
  "\<forall>c. 0 \<le> ReconnectPeriod (Adjust example_names ''arm'' (c\<lparr>ReconnectPeriod := 10, RCPRandomAdjustment := 99\<rparr>)) \<longrightarrow>
     RCPRandomAdjustment (Adjust example_names ''arm'' (c\<lparr>ReconnectPeriod := 10, RCPRandomAdjustment := 99\<rparr>)) \<le>
     ReconnectPeriod (Adjust example_names ''arm'' (c\<lparr>ReconnectPeriod := 10, RCPRandomAdjustment := 99\<rparr>))"
  using Adjust_bounds [OF refl] by blast

text \<open>a stream window of four gigabytes, which the size parser accepts, becomes a window of
  no bytes; any size is taken modulo \<open>2 ^ 32\<close>.\<close>

theorem window_truncated:
  assumes "ToBytes rnd (MaxStreamWindow m) = Some v" "MaxStreamWindow m \<noteq> []"
  shows "unat (pmMaxStreamWindowSize (ToPMuxConf rnd cfg m)) = v mod 2 ^ 32"
  using assms by (auto simp: ToPMuxConf_def Let_def unat_of_nat split: option.splits)

lemma window_truncated_witness:
  "\<forall>cfg. unat (pmMaxStreamWindowSize (ToPMuxConf (\<lambda>x. x) cfg
     \<lparr>MaxStreamWindow = ''4G'', StreamMinRefresh = [], StreamIdleTimeout = 0, SessionIdleTimeout = 0, UpBufferSize = 0, DownBufferSize = 0\<rparr>)) = 4294967296 mod 2 ^ 32"
proof -
  have "itoa 4 @ ''G'' = ''4G''" by code_simp
  moreover have "unit_size CHR ''G'' = 1073741824" by (simp add: unit_size_def)
  ultimately have "ToBytes (\<lambda>x. x) ''4G'' = Some 4294967296"
    using ToBytes_unit [of "\<lambda>x. x" 4 "CHR ''G''"] by simp
  then show ?thesis by (intro allI window_truncated) simp_all
qed

text \<open>the users a server allows: those listed, or everyone when the list holds a star or is
  empty.\<close>

theorem users_allowed:
  assumes "us \<noteq> []" "\<forall>u \<in> set us. CHR '','' \<notin> set u" "us \<noteq> [[]]"
  shows "VerifyUser (AllowUsers (Join us '','') c) u \<longleftrightarrow> u \<in> set us \<or> ''*'' \<in> set us"
proof -
  have "Split (Join us '','') CHR '','' = us" using Split_Join [OF assms(1,2)] by simp
  moreover have "Join us '','' \<noteq> []" using assms(1,3) by (cases us; cases "tl us") auto
  ultimately show ?thesis
    using assms(1) by (auto simp: AllowUsers_def VerifyUser_def list_ex_iff)
qed

lemma users_allowed_witness:
  "VerifyUser (AllowUsers (Join [''a'', ''b''] '','') \<lparr>User = [], CMethod = [], CKey = [], allowedUser = []\<rparr>) ''b'' \<longleftrightarrow>
     ''b'' \<in> set [''a'', ''b''] \<or> ''*'' \<in> set [''a'', ''b'']"
  by (rule users_allowed) simp_all

text \<open>which hosts pass a limit made of plain names: with a black list only the names on it
  are refused, whatever the white list says; with only a white list only its names pass.\<close>

theorem Allowed_plain:
  assumes "\<forall>r \<in> set (WhiteList l) \<union> set (BlackList l). plain_pattern r"
  shows "Allowed l host \<longleftrightarrow>
     (if BlackList l \<noteq> [] then host \<notin> set (BlackList l)
      else WhiteList l = [] \<or> host \<in> set (WhiteList l))"
proof -
  have star: "\<not> plain_pattern ''*''" by (simp add: plain_pattern_def)
  have "in_rules rs host \<longleftrightarrow> host \<in> set rs" if "\<forall>r \<in> set rs. plain_pattern r" for rs
    using that star by (induction rs) (auto simp: rule_matches_def Match_plain)
  with assms show ?thesis by (auto simp: Allowed_def)
qed

lemma Allowed_plain_witness:
  "Allowed \<lparr>WhiteList = [''a''], BlackList = [''b'']\<rparr> ''c'' \<longleftrightarrow>
     (if [''b''] \<noteq> [] then ''c'' \<notin> set [''b''] else [''a''] = [] \<or> ''c'' \<in> set [''a''])"
  using Allowed_plain [of "\<lparr>WhiteList = [''a''], BlackList = [''b'']\<rparr>" "''c''"] by (simp add: plain_pattern_def)

lemma last_colon_bracket: "CHR '':'' \<in> set s \<Longrightarrow> \<exists>i. last_colon (s @ '']'') = Some i \<and> i < length s"
proof -
  assume c: "CHR '':'' \<in> set s"
  then obtain us vs where s: "s = us @ CHR '':'' # vs" "CHR '':'' \<notin> set vs" by (meson split_list_last)
  then have "last_colon (us @ CHR '':'' # vs @ '']'') = Some (length us)" by (intro last_colon_append) auto
  with s show ?thesis by simp
qed

lemma SplitHostPort_bracketed:
  assumes "CHR '':'' \<in> set h" "CHR '']'' \<notin> set h"
  shows "SplitHostPort (''['' @ h @ '']'') = None"
proof -
  obtain i where i: "last_colon (''['' @ h @ '']'') = Some i" "i < length h + 1"
    using last_colon_bracket [of "CHR ''['' # h"] assms(1) by auto
  have "takeWhile (\<lambda>c. c \<noteq> CHR '']'') (h @ [CHR '']'']) = h"
    by (rule takeWhile_append_stop) (use assms(2) in auto)
  with i show ?thesis by (simp add: SplitHostPort_def Let_def)
qed

lemma xtoi_bracket: "xtoi (CHR ''['' # s) = None"
  by (simp add: xtoi_def hex_val_def)

lemma ParseIP_bracket: "ParseIP (''['' @ h) = None"
proof -
  have 6: "parseIPv6 (CHR ''['' # h) = None"
  proof -
    have "v6_groups 8 (CHR ''['' # h) [] None = None" by (simp add: xtoi_bracket numeral_eq_Suc)
    then show ?thesis by (simp add: parseIPv6_def HasPrefix_def)
  qed
  have 4: "parseIPv4 (CHR ''['' # h) = None"
  proof -
    obtain w ws where "Split (CHR ''['' # h) CHR ''.'' = (CHR ''['' # w) # ws"
      by (cases "Split h CHR ''.''") auto
    then show ?thesis by (auto simp: parseIPv4_def octet_def is_digit_def split: list.splits option.splits)
  qed
  show ?thesis by (simp add: ParseIP_def 4 6 split: option.splits)
qed

text \<open>a server URL with an IPv6 address and no port is not dialled as written: the brackets,
  which are part of the URL's host, are put in brackets once more, and the host is not
  recognised as an address.\<close>

theorem ipv6_without_port:
  assumes "uHost u = ''['' @ h @ '']''" "CHR '':'' \<in> set h" "CHR '']'' \<notin> set h" "Scheme u = ''tcp''"
  shows "server_hostport u = Some (uHost u, ''80'', ''[['' @ h @ '']]:80'') \<and> ParseIP (uHost u) = None"
  using SplitHostPort_bracketed [OF assms(2,3)] ParseIP_bracket [of "h @ '']''"] assms
  by (simp add: server_hostport_def JoinHostPort_def)

lemma ipv6_without_port_witness:
  "server_hostport \<lparr>Scheme = ''tcp'', uHost = ''[::1]'', uUser = None, uPath = [], uRawQuery = []\<rparr> =
     Some (''[::1]'', ''80'', ''[['' @ ''::1'' @ '']]:80'') \<and> ParseIP ''[::1]'' = None"
  using ipv6_without_port [of "\<lparr>Scheme = ''tcp'', uHost = ''[::1]'', uUser = None, uPath = [], uRawQuery = []\<rparr>" "''::1''"]
  by simp

end
