(* ===== verification/MuxHolder.thy ===== *)
theory MuxHolder
  imports ChannelConfig
begin

text \<open>
  \<open>common/channel/mux.go\<close>: the holders of multiplexed sessions to a server (one current
  session, the retired ones that wait for their last stream), the channel that goes round its
  holders for a new stream, and the table of channels. Sessions are named by numbers in the
  order of their creation; what the transports do is the environment of a call.
\<close>

section \<open>Sessions and holders\<close>

text \<open>\<open>wnum\<close> is what \<open>NumStreams\<close> of a session returns, \<open>wclosed\<close> the sessions that have been
  closed, \<open>wserved\<close> those handed to the server loop for a peer's streams.\<close>

record world =
  wnext :: nat
  wnum :: "nat \<Rightarrow> int"
  wclosed :: "nat set"
  wserved :: "nat list"

record holder =
  creatTime :: int
  expireTime :: "int option"      \<comment> \<open>None is the zero time\<close>
  activeTime :: int
  muxSession :: "nat option"
  retired :: "nat set"
  hserver :: string
  heartbeating :: bool

datatype stream_err = SessionShutdown | OpenErr | NoStream

text \<open>The environment of one call: the clock, whether a session is created and authenticated,
  whether a stream opens, the channel's features, the random generator, and whether a proxy
  limit is configured.\<close>

record env =
  eNow :: int
  eCreate :: bool
  eAuth :: bool
  eOpen :: "stream_err option"
  eAutoExpire :: bool
  ePingable :: bool
  ePick :: "nat \<Rightarrow> nat"
  eLimited :: bool

definition sess_Close :: "nat \<Rightarrow> world \<Rightarrow> world" where
  "sess_Close i w = w\<lparr>wclosed := insert i (wclosed w)\<rparr>"

definition tryCloseRetiredSessions :: "holder \<times> world \<Rightarrow> holder \<times> world" where
  "tryCloseRetiredSessions hw =
     (case hw of (h, w) \<Rightarrow>
       (let dead = {i \<in> retired h. wnum w i \<le> 0}
        in (h\<lparr>retired := retired h - dead\<rparr>, w\<lparr>wclosed := wclosed w \<union> dead\<rparr>)))"

definition holder_close :: "holder \<times> world \<Rightarrow> holder \<times> world" where
  "holder_close hw = (case hw of (h, w) \<Rightarrow>
     (case muxSession h of None \<Rightarrow> (h, w) | Some i \<Rightarrow> (h\<lparr>muxSession := None\<rparr>, sess_Close i w)))"

definition check :: "int \<Rightarrow> holder \<Rightarrow> holder" where
  "check t h =
     (case (muxSession h, expireTime h) of
        (Some i, Some x) \<Rightarrow> if x < t then h\<lparr>retired := insert i (retired h), muxSession := None\<rparr> else h
      | _ \<Rightarrow> h)"

text \<open>The life of a session in seconds; None is the panic of \<open>rand.Intn\<close>.\<close>

definition expire_after :: "(nat \<Rightarrow> nat) \<Rightarrow> ProxyChannelConfig \<Rightarrow> int option" where
  "expire_after pick conf =
     (if ReconnectPeriod conf > 0
      then RandBetween pick (ReconnectPeriod conf - RCPRandomAdjustment conf) (ReconnectPeriod conf + RCPRandomAdjustment conf)
      else Some 1800)"

definition session_cipher :: "string \<Rightarrow> ProxyChannelConfig \<Rightarrow> string" where
  "session_cipher server conf =
     (if HasPrefix server ''https://'' \<or> HasPrefix server ''wss://'' \<or> HasPrefix server ''tls://'' \<or>
         HasPrefix server ''quic://'' \<or> HasPrefix server ''http2://'' then ''none'' else CMethod (Cipher conf))"

datatype init_result = InitOk | InitErr | InitPanic

text \<open>\<open>init\<close>: a session whose authentication fails is neither kept nor closed. The heartbeat is
  started with the session.\<close>

definition holder_init :: "ProxyChannelConfig \<Rightarrow> env \<Rightarrow> holder \<times> world \<Rightarrow> init_result \<times> (holder \<times> world)" where
  "holder_init conf e hw = (case hw of (h, w) \<Rightarrow>
     (if muxSession h \<noteq> None then (InitOk, (h, w))
      else if \<not> eCreate e then (InitErr, (h, w))
      else let i = wnext w; w = w\<lparr>wnext := i + 1\<rparr> in
        if \<not> eAuth e then (InitErr, (h, w))
        else let h = h\<lparr>creatTime := eNow e, muxSession := Some i\<rparr> in
          (case (if eAutoExpire e then map_option (\<lambda>x. Some (eNow e + x)) (expire_after (ePick e) conf) else Some (expireTime h)) of
             None \<Rightarrow> (InitPanic, (h, w))
           | Some x \<Rightarrow>
               (let h = h\<lparr>expireTime := x\<rparr>;
                    h = (if ePingable e \<and> HeartBeatPeriod conf > 0 then h\<lparr>heartbeating := True\<rparr> else h);
                    w = (if pcName conf \<noteq> ''direct'' \<and> eLimited e then w\<lparr>wserved := wserved w @ [i]\<rparr> else w)
                in (InitOk, (h, w))))))"

text \<open>\<open>getNewStream\<close>: the new stream's session. A stream that opens counts at once.\<close>

datatype 'a got = Got 'a | GotErr stream_err | GotPanic

definition getNewStream :: "ProxyChannelConfig \<Rightarrow> env \<Rightarrow> holder \<times> world \<Rightarrow> nat got \<times> (holder \<times> world)" where
  "getNewStream conf e hw = (case hw of (h, w) \<Rightarrow>
     (let h = check (eNow e) h;
          (r, h, w) = (if muxSession h = None then holder_init conf e (h, w) else (InitOk, (h, w)))
      in if r = InitPanic then (GotPanic, tryCloseRetiredSessions (h, w))
         else case muxSession h of None \<Rightarrow> (GotErr SessionShutdown, tryCloseRetiredSessions (h, w))
          | Some i \<Rightarrow>
              (let h = h\<lparr>activeTime := eNow e\<rparr> in
               case eOpen e of
                 Some er \<Rightarrow> (GotErr er, tryCloseRetiredSessions (h, w))
               | None \<Rightarrow> (Got i, tryCloseRetiredSessions (h, w\<lparr>wnum := (wnum w)(i := wnum w i + 1)\<rparr>)))))"

text \<open>One round of \<open>heartbeat\<close>; \<open>pingOk\<close> is the outcome of the ping.\<close>

definition heartbeat_tick :: "ProxyChannelConfig \<Rightarrow> env \<Rightarrow> bool \<Rightarrow> holder \<times> world \<Rightarrow> holder \<times> world" where
  "heartbeat_tick conf e pingOk hw = (case hw of (h, w) \<Rightarrow>
     (let h = check (eNow e) h in
      if muxSession h \<noteq> None then
        (if ePingable e \<and> \<not> pingOk then holder_close (h, w) else (h, w))
      else if \<not> lazyConnect conf \<and> eNow e - activeTime h > HibernateAfterSecs conf
        then snd (holder_init conf e (h, w)) else (h, w)))"

definition dumpStat :: "holder \<times> world \<Rightarrow> holder \<times> world" where
  "dumpStat hw = tryCloseRetiredSessions hw"

section \<open>The invariant of a holder\<close>

text \<open>The sessions a holder keeps have been created and are open, and the current one is not
  retired.\<close>

definition kept :: "holder \<Rightarrow> nat set" where
  "kept h = retired h \<union> set_option (muxSession h)"

definition holder_inv :: "holder \<times> world \<Rightarrow> bool" where
  "holder_inv hw = (case hw of (h, w) \<Rightarrow>
     (\<forall>i \<in> retired h. muxSession h \<noteq> Some i) \<and>
     kept h \<inter> wclosed w = {} \<and> (\<forall>i \<in> kept h \<union> wclosed w. i < wnext w))"

lemma tryClose_inv [inv_pres]: "holder_inv hw \<Longrightarrow> holder_inv (tryCloseRetiredSessions hw)"
  by (cases hw) (auto simp: holder_inv_def tryCloseRetiredSessions_def Let_def kept_def)

lemma holder_close_inv [inv_pres]: "holder_inv hw \<Longrightarrow> holder_inv (holder_close hw)"
  by (cases hw) (auto simp: holder_inv_def holder_close_def sess_Close_def kept_def split: option.splits)

lemma check_inv [inv_pres]: "holder_inv (h, w) \<Longrightarrow> holder_inv (check t h, w)"
  by (auto simp: holder_inv_def check_def kept_def split: option.splits)

lemma holder_inv_frame:
  "holder_inv (h\<lparr>activeTime := a\<rparr>, w) = holder_inv (h, w)" "holder_inv (h\<lparr>expireTime := x\<rparr>, w) = holder_inv (h, w)"
  "holder_inv (h\<lparr>heartbeating := b\<rparr>, w) = holder_inv (h, w)" "holder_inv (h\<lparr>creatTime := t\<rparr>, w) = holder_inv (h, w)"
  "holder_inv (h, w\<lparr>wnum := f\<rparr>) = holder_inv (h, w)" "holder_inv (h, w\<lparr>wserved := l\<rparr>) = holder_inv (h, w)"
  by (simp_all add: holder_inv_def kept_def)

lemma holder_inv_new:
  "holder_inv (h, w) \<Longrightarrow> muxSession h = None \<Longrightarrow>
   holder_inv (h\<lparr>muxSession := Some (wnext w)\<rparr>, w\<lparr>wnext := Suc (wnext w)\<rparr>)"
  by (auto simp: holder_inv_def kept_def less_Suc_eq)

lemma holder_inv_alloc: "holder_inv (h, w) \<Longrightarrow> holder_inv (h, w\<lparr>wnext := Suc (wnext w)\<rparr>)"
  by (auto simp: holder_inv_def kept_def less_Suc_eq)

lemma holder_init_inv [inv_pres]:
  assumes "holder_inv hw"
  shows "holder_inv (snd (holder_init conf e hw))"
proof -
  obtain h w where hw: "hw = (h, w)" by fastforce
  let ?h = "h\<lparr>creatTime := eNow e, muxSession := Some (wnext w)\<rparr>" and ?w = "w\<lparr>wnext := Suc (wnext w)\<rparr>"
  have new: "holder_inv (?h, ?w)" if "muxSession h = None"
    using holder_inv_new [of "h\<lparr>creatTime := eNow e\<rparr>" w] assms that by (simp add: hw holder_inv_frame)
  show ?thesis
    using assms new holder_inv_alloc [of h w]
    by (auto simp: hw holder_init_def Let_def holder_inv_frame split: option.splits)
qed

lemma getNewStream_inv [inv_pres]:
  assumes "holder_inv hw"
  shows "holder_inv (snd (getNewStream conf e hw))"
proof -
  obtain h w where hw: "hw = (h, w)" by fastforce
  have c: "holder_inv (check (eNow e) h, w)" using assms hw check_inv by simp
  obtain r h1 w1 where i: "(if muxSession (check (eNow e) h) = None then holder_init conf e (check (eNow e) h, w)
      else (InitOk, (check (eNow e) h, w))) = (r, h1, w1)" by (metis prod_cases3)
  have "holder_inv (h1, w1)"
    using c holder_init_inv [OF c, of conf e] i by (auto split: if_splits)
  then show ?thesis
    by (auto simp: hw getNewStream_def Let_def i holder_inv_frame intro!: tryClose_inv split: option.splits)
qed

lemma heartbeat_inv [inv_pres]: "holder_inv hw \<Longrightarrow> holder_inv (heartbeat_tick conf e ok hw)"
  by (cases hw) (auto simp: heartbeat_tick_def Let_def intro: holder_close_inv holder_init_inv check_inv)

section \<open>A holder's life\<close>

datatype h_event = HNewStream env | HTick env bool | HClose | HDump | HCheck int | HStreamClosed nat

definition holder_step :: "ProxyChannelConfig \<Rightarrow> holder \<times> world \<Rightarrow> h_event \<Rightarrow> holder \<times> world" where
  "holder_step conf hw ev = (case ev of
       HNewStream e \<Rightarrow> snd (getNewStream conf e hw)
     | HTick e ok \<Rightarrow> heartbeat_tick conf e ok hw
     | HClose \<Rightarrow> holder_close hw
     | HDump \<Rightarrow> dumpStat hw
     | HCheck t \<Rightarrow> (check t (fst hw), snd hw)
     | HStreamClosed i \<Rightarrow> (fst hw, (snd hw)\<lparr>wnum := (wnum (snd hw))(i := wnum (snd hw) i - 1)\<rparr>))"

lemma holder_step_inv: "holder_inv hw \<Longrightarrow> holder_inv (holder_step conf hw ev)"
  by (cases ev; cases hw) (auto simp: holder_step_def dumpStat_def holder_inv_frame intro: inv_pres)

interpretation life: event_machine "holder_step conf" holder_inv for conf
  by unfold_locales (rule holder_step_inv)

definition new_holder :: "string \<Rightarrow> holder" where
  "new_holder server = \<lparr>creatTime = 0, expireTime = None, activeTime = 0, muxSession = None, retired = {},
     hserver = server, heartbeating = False\<rparr>"

definition no_sessions :: world where
  "no_sessions = \<lparr>wnext = 0, wnum = (\<lambda>_. 0), wclosed = {}, wserved = []\<rparr>"

lemma new_holder_inv: "holder_inv (new_holder server, no_sessions)"
  by (simp add: holder_inv_def new_holder_def no_sessions_def kept_def)

section \<open>Properties\<close>


definition good_env :: env where
  "good_env = \<lparr>eNow = 10, eCreate = True, eAuth = True, eOpen = None, eAutoExpire = False, ePingable = False,
     ePick = (\<lambda>n. 0), eLimited = False\<rparr>"


text \<open>a retired session is closed as soon as, and only when, it counts no stream any more; the
  current session is never closed by this.\<close>

theorem retired_closed_when_idle:
  assumes "holder_inv (h, w)" "tryCloseRetiredSessions (h, w) = (h', w')"
  shows "wclosed w' - wclosed w = {i \<in> retired h. wnum w i \<le> 0} \<and>
     retired h' = {i \<in> retired h. 0 < wnum w i} \<and> muxSession h' = muxSession h \<and>
     (\<forall>i. muxSession h = Some i \<longrightarrow> i \<notin> wclosed w')"
  using assms by (auto simp: holder_inv_def tryCloseRetiredSessions_def Let_def kept_def)

lemma retired_closed_when_idle_witness:
  "wclosed (snd (tryCloseRetiredSessions ((new_holder [])\<lparr>retired := {0, 1}\<rparr>, no_sessions\<lparr>wnext := 2, wnum := (\<lambda>_. 0)(1 := 3)\<rparr>))) - {} =
     {i \<in> {0, 1}. ((\<lambda>_. 0)(1 := 3)) i \<le> (0 :: int)}"
proof -
  let ?h = "(new_holder [])\<lparr>retired := {0, 1}\<rparr>" and ?w = "no_sessions\<lparr>wnext := 2, wnum := (\<lambda>_. 0)(1 := 3)\<rparr>"
  have "holder_inv (?h, ?w)" by (auto simp: holder_inv_def new_holder_def no_sessions_def kept_def)
  from retired_closed_when_idle [OF this, of "fst (tryCloseRetiredSessions (?h, ?w))" "snd (tryCloseRetiredSessions (?h, ?w))"]
  show ?thesis by (simp add: new_holder_def no_sessions_def)
qed

text \<open>a session that is created but fails its authentication is lost: the holder does not keep
  it, and it is not closed.\<close>

theorem failed_auth_leaks:
  assumes "holder_inv (h, w)" "muxSession h = None" "eCreate e" "\<not> eAuth e"
  shows "\<exists>w'. holder_init conf e (h, w) = (InitErr, (h, w')) \<and> wnext w' = wnext w + 1 \<and>
     wnext w \<notin> kept h \<and> wnext w \<notin> wclosed w'"
  using assms by (auto simp: holder_init_def Let_def holder_inv_def)

lemma failed_auth_leaks_witness:
  "\<forall>conf. \<exists>w'. holder_init conf (good_env\<lparr>eAuth := False\<rparr>) (new_holder [], no_sessions) = (InitErr, (new_holder [], w')) \<and>
     wnext w' = wnext no_sessions + 1 \<and> wnext no_sessions \<notin> kept (new_holder []) \<and> wnext no_sessions \<notin> wclosed w'"
  by (intro allI failed_auth_leaks new_holder_inv) (simp_all add: new_holder_def good_env_def)

text \<open>with a reconnect period and no random adjustment, both as the configuration allows
  them, the first session of a channel that expires its sessions panics; in an adjusted
  configuration with a positive adjustment it does not.\<close>

theorem expire_panic:
  "expire_after pick (Adjust nm arch conf) = None \<longleftrightarrow>
     0 < ReconnectPeriod conf \<and> RCPRandomAdjustment (Adjust nm arch conf) \<le> 0"
  by (auto simp: expire_after_def RandBetween_def Adjust_def Adjust_defaults_def Let_def)

end
