(* ===== verification/ChannelTable.thy ===== *)
theory ChannelTable
  imports MuxHolder
begin

text \<open>
  \<open>common/channel/mux.go\<close>, continued: a channel's list of holders, how it is filled and how a
  stream is taken from it, and the table of channels with its expiry.
\<close>

section \<open>Channels\<close>

record channel =
  chConf :: ProxyChannelConfig
  sessions :: "holder list"
  cursor :: nat
  lastActiveTime :: int
  autoExpire :: bool
  p2pSessions :: "nat list"     \<comment> \<open>in the order of the iteration\<close>
  p2pStarted :: "string list"   \<comment> \<open>servers for which \<open>startP2PSession\<close> was launched\<close>

definition NewProxyChannel :: "ProxyChannelConfig \<Rightarrow> channel" where
  "NewProxyChannel conf = \<lparr>chConf = conf, sessions = [], cursor = 0, lastActiveTime = 0, autoExpire = False,
     p2pSessions = [], p2pStarted = []\<rparr>"

definition isP2PSessionEstablished :: "channel \<Rightarrow> bool" where
  "isP2PSessionEstablished ch \<longleftrightarrow> p2pSessions ch \<noteq> []"

fun close_holders :: "holder list \<Rightarrow> world \<Rightarrow> holder list \<times> world" where
  "close_holders [] w = ([], w)"
| "close_holders (h # hs) w =
     (case holder_close (h, w) of (h', w') \<Rightarrow> (case close_holders hs w' of (hs', w'') \<Rightarrow> (h' # hs', w'')))"

definition closeAll :: "channel \<times> world \<Rightarrow> channel \<times> world" where
  "closeAll cw = (case cw of (ch, w) \<Rightarrow>
     (case close_holders (sessions ch) w of (hs, w') \<Rightarrow> (ch\<lparr>sessions := hs\<rparr>, w')))"

text \<open>\<open>setP2PSession\<close>, and the end of the goroutine that pings the session: after three failed
  pings in a row the session leaves the table.\<close>

definition setP2PSession :: "nat \<Rightarrow> bool \<Rightarrow> channel \<times> world \<Rightarrow> channel \<times> world" where
  "setP2PSession s limited cw = (case cw of (ch, w) \<Rightarrow>
     (ch\<lparr>p2pSessions := (if s \<in> set (p2pSessions ch) then p2pSessions ch else p2pSessions ch @ [s])\<rparr>,
      if limited then w\<lparr>wserved := wserved w @ [s]\<rparr> else w))"

text \<open>The goroutine over the outcomes of its pings: whether it has deleted the session.\<close>

fun p2p_pings :: "nat \<Rightarrow> bool list \<Rightarrow> bool" where
  "p2p_pings failCount [] = (3 \<le> failCount)"
| "p2p_pings failCount (ok # oks) =
     (if 3 \<le> failCount then True else p2p_pings (if ok then 0 else failCount + 1) oks)"

text \<open>The loop of \<open>getMuxStream\<close> over the holders: \<open>k\<close> attempts are left, the next one is number
  \<open>i\<close> (with its own environment) and starts at position \<open>c\<close>.\<close>

fun try_holders :: "ProxyChannelConfig \<Rightarrow> (nat \<Rightarrow> env) \<Rightarrow> nat \<Rightarrow> nat \<Rightarrow> nat \<Rightarrow> holder list \<times> world \<Rightarrow>
    (nat \<times> nat) got \<times> (holder list \<times> world)" where
  "try_holders conf es 0 i c hw = (GotErr NoStream, hw)"
| "try_holders conf es (Suc k) i c (hs, w) =
     (let c = (if c \<ge> length hs then 0 else c) in
      case getNewStream conf (es i) (hs ! c, w) of
        (Got s, (h, w')) \<Rightarrow> (Got (s, c + 1), (hs[c := h], w'))
      | (GotPanic, (h, w')) \<Rightarrow> (GotPanic, (hs[c := h], w'))
      | (GotErr er, (h, w')) \<Rightarrow>
          (case (if er = SessionShutdown then holder_close (h, w') else (h, w')) of (h', w'') \<Rightarrow>
             try_holders conf es k (i + 1) (c + 1) (hs[c := h'], w'')))"

definition getMuxStream :: "(nat \<Rightarrow> bool) \<Rightarrow> (nat \<Rightarrow> env) \<Rightarrow> channel \<times> world \<Rightarrow> nat got \<times> (channel \<times> world)" where
  "getMuxStream p2pOpen es cw = (case cw of (ch, w) \<Rightarrow>
     (case find p2pOpen (p2pSessions ch) of
        Some s \<Rightarrow> (Got s, (ch, w\<lparr>wnum := (wnum w)(s := wnum w s + 1)\<rparr>))
      | None \<Rightarrow>
          (case try_holders (chConf ch) es (length (sessions ch)) 0 (cursor ch) (sessions ch, w) of
             (Got (s, c), (hs, w')) \<Rightarrow>
               (Got s, (ch\<lparr>sessions := hs, cursor := c,
                            lastActiveTime := (if autoExpire ch then eNow (es 0) else lastActiveTime ch)\<rparr>, w'))
           | (GotErr er, (hs, w')) \<Rightarrow> (GotErr er, (ch\<lparr>sessions := hs\<rparr>, w'))
           | (GotPanic, (hs, w')) \<Rightarrow> (GotPanic, (ch\<lparr>sessions := hs\<rparr>, w')))))"

section \<open>Filling a channel\<close>

definition createMuxSessionByProxy ::
    "string \<Rightarrow> bool \<Rightarrow> env \<Rightarrow> channel \<times> world \<Rightarrow> init_result \<times> (channel \<times> world)" where
  "createMuxSessionByProxy server init e cw = (case cw of (ch, w) \<Rightarrow>
     (case (if init then holder_init (chConf ch) e (new_holder server, w) else (InitOk, (new_holder server, w))) of
        (InitOk, (h, w')) \<Rightarrow> (InitOk, (ch\<lparr>sessions := sessions ch @ [h]\<rparr>, w'))
      | (r, (h, w')) \<Rightarrow> (r, (ch, w'))))"

text \<open>Closing the holder just added, as \<open>Init\<close> does for a P2P channel.\<close>

definition close_last :: "channel \<times> world \<Rightarrow> channel \<times> world" where
  "close_last cw = (case cw of (ch, w) \<Rightarrow>
     (case holder_close (last (sessions ch), w) of (h, w') \<Rightarrow> (ch\<lparr>sessions := butlast (sessions ch) @ [h]\<rparr>, w')))"

text \<open>The loop over the connections to one server; \<open>shouldInit\<close> is never reset once set.\<close>

fun conns_loop :: "string \<Rightarrow> (nat \<Rightarrow> env) \<Rightarrow> nat \<Rightarrow> nat \<Rightarrow> bool \<Rightarrow> bool \<Rightarrow> channel \<times> world \<Rightarrow> bool option \<times> (channel \<times> world)" where
  "conns_loop server es 0 i shouldInit success cw = (Some success, cw)"
| "conns_loop server es (Suc k) i shouldInit success cw =
     (let shouldInit = shouldInit \<or> i = 0 in
      case createMuxSessionByProxy server shouldInit (es i) cw of
        (InitPanic, cw') \<Rightarrow> (None, cw')
      | (InitErr, cw') \<Rightarrow> (Some success, cw')
      | (InitOk, cw') \<Rightarrow>
          (let conf = chConf (fst cw');
               cw' = (if P2PToken conf \<noteq> [] \<and> \<not> P2S2PEnable conf then close_last cw' else cw')
           in conns_loop server es k (i + 1) shouldInit True cw'))"

text \<open>\<open>Init\<close>: \<open>known\<close> is whether the server's URL parses and its scheme is registered; the panic is
  None.\<close>

fun init_servers :: "(string \<Rightarrow> bool) \<Rightarrow> (string \<Rightarrow> nat \<Rightarrow> env) \<Rightarrow> string list \<Rightarrow> bool \<Rightarrow> channel \<times> world \<Rightarrow> bool option \<times> (channel \<times> world)" where
  "init_servers known es [] success cw = (Some success, cw)"
| "init_servers known es (server # servers) success (ch, w) =
     (if \<not> known server then init_servers known es servers success (ch, w)
      else let p2s2p = P2S2PEnable (chConf ch) \<and> P2PToken (chConf ch) \<noteq> [];
               conf = (if p2s2p then (chConf ch)\<lparr>lazyConnect := False,
                          HeartBeatPeriod := (if HeartBeatPeriod (chConf ch) \<le> 0 \<or> HeartBeatPeriod (chConf ch) \<ge> 10 then 3
                                              else HeartBeatPeriod (chConf ch))\<rparr> else chConf ch)
        in (case conns_loop server (es server) (nat (ConnsPerServer conf)) 0 p2s2p success (ch\<lparr>chConf := conf\<rparr>, w) of
              (None, cw') \<Rightarrow> (None, cw')
            | (Some success', (ch', w')) \<Rightarrow>
                init_servers known es servers success'
                  (if success' \<and> P2PToken conf \<noteq> [] \<and> \<not> P2S2PEnable conf then ch'\<lparr>p2pStarted := p2pStarted ch' @ [server]\<rparr> else ch', w')))"

type_synonym ctable = "string \<rightharpoonup> channel"

definition channel_Init :: "(string \<Rightarrow> bool) \<Rightarrow> (string \<Rightarrow> nat \<Rightarrow> env) \<Rightarrow> channel \<Rightarrow> ctable \<times> world \<Rightarrow>
    bool option \<times> channel \<times> (ctable \<times> world)" where
  "channel_Init known es ch tw = (case tw of (t, w) \<Rightarrow>
     (case init_servers known es (ServerList (chConf ch)) False (ch, w) of
        (None, (ch', w')) \<Rightarrow> (None, ch', (t, w'))
      | (Some ok, (ch', w')) \<Rightarrow> (Some ok, ch', (if ok then t(pcName (chConf ch') \<mapsto> ch') else t, w'))))"

section \<open>The table of channels\<close>

definition GetMuxStreamByChannel :: "(nat \<Rightarrow> bool) \<Rightarrow> (nat \<Rightarrow> env) \<Rightarrow> string \<Rightarrow> ctable \<times> world \<Rightarrow>
    nat got \<times> ProxyChannelConfig option \<times> (ctable \<times> world)" where
  "GetMuxStreamByChannel p2pOpen es name tw = (case tw of (t, w) \<Rightarrow>
     (case t name of None \<Rightarrow> (GotErr NoStream, None, (t, w))
      | Some ch \<Rightarrow> (case getMuxStream p2pOpen es (ch, w) of
           (r, (ch', w')) \<Rightarrow> (r, Some (chConf ch'), (t(name \<mapsto> ch'), w')))))"

text \<open>The configuration of a channel that is made for a URL.\<close>

definition url_conf :: "cipher_names \<Rightarrow> string \<Rightarrow> string \<Rightarrow> (string \<times> string option \<times> string) option \<Rightarrow> string \<Rightarrow>
    CipherConfig \<Rightarrow> ProxyChannelConfig" where
  "url_conf nm arch key user defaultUser defaultCipher =
     (let (u, k, m) = (case user of None \<Rightarrow> ([], [], []) | Some (n, p, meth) \<Rightarrow> (n, (case p of None \<Rightarrow> [] | Some x \<Rightarrow> x), meth));
          cipher = \<lparr>User = (if u = [] then defaultUser else u), CMethod = m,
                    CKey = (if k = [] then CKey defaultCipher else k), allowedUser = []\<rparr>;
          kcp = \<lparr>kMode = [], kConn = 0, kAutoExpire = 0, kScavengeTTL = 0, kMTU = 0, kSndWnd = 0, kRcvWnd = 0,
                 kDataShard = 0, kParityShard = 0, kDSCP = 0, kAckNodelay = False, kNoDelay = 0, kInterval = 0,
                 kResend = 0, kNoCongestion = 0, kSockBuf = 0\<rparr>
      in Adjust nm arch
        \<lparr>Enable = True, pcName = key, ServerList = [key], ConnsPerServer = 3, SNI = [], SNIProxy = [], pcProxy = [],
         RemoteDialMSTimeout = 0, RemoteDNSReadMSTimeout = 0, RemoteUDPReadMSTimeout = 0, LocalDialMSTimeout = 0,
         ReconnectPeriod = 1800, HeartBeatPeriod = 30, RCPRandomAdjustment = 10, Compressor = [], KCP = kcp,
         HTTPPushRateLimitPerSec = 0, HTTPUserAgent = [], HTTPReadTimeout = 0, Cipher = cipher, Hops = [],
         RemoteSNIProxy = [], HibernateAfterSecs = 0, P2PToken = [], P2S2PEnable = False, pcproxyURL = None,
         lazyConnect = True\<rparr>)"

text \<open>\<open>GetMuxStreamByURL\<close>: the channel of the URL if it gives a stream, else a new channel in its
  place. \<open>es1\<close>, \<open>es2\<close> and \<open>es3\<close> are the environments of the three rounds.\<close>

definition GetMuxStreamByURL ::
    "(string \<Rightarrow> bool) \<Rightarrow> (nat \<Rightarrow> bool) \<Rightarrow> (nat \<Rightarrow> env) \<Rightarrow> (string \<Rightarrow> nat \<Rightarrow> env) \<Rightarrow> (nat \<Rightarrow> env) \<Rightarrow> string \<Rightarrow>
     ProxyChannelConfig \<Rightarrow> ctable \<times> world \<Rightarrow> nat got \<times> (ctable \<times> world)" where
  "GetMuxStreamByURL known p2pOpen es1 es2 es3 key conf tw =
     (case GetMuxStreamByChannel p2pOpen es1 key tw of
        (Got s, _, tw') \<Rightarrow> (Got s, tw')
      | (GotPanic, _, tw') \<Rightarrow> (GotPanic, tw')
      | (GotErr er, _, tw') \<Rightarrow>
          (case channel_Init known es2 (NewProxyChannel conf) tw' of
             (None, _, tw'') \<Rightarrow> (GotPanic, tw'')
           | (Some False, _, tw'') \<Rightarrow> (GotErr NoStream, tw'')
           | (Some True, ch, (t, w)) \<Rightarrow>
               (case getMuxStream p2pOpen es3 (ch\<lparr>autoExpire := True\<rparr>, w) of
                  (r, (ch', w')) \<Rightarrow> (r, (t(pcName (chConf ch) \<mapsto> ch'), w')))))"

text \<open>The scan of one channel by the expiry task: whether it may be removed.\<close>

fun expire_scan :: "int \<Rightarrow> holder list \<Rightarrow> world \<Rightarrow> bool \<times> holder list \<times> world" where
  "expire_scan t [] w = (True, [], w)"
| "expire_scan t (h # hs) w =
     (case tryCloseRetiredSessions (check t h, w) of (h1, w1) \<Rightarrow>
        if retired h1 \<noteq> {} then (False, h1 # hs, w1)
        else if (case muxSession h1 of None \<Rightarrow> False | Some i \<Rightarrow> wnum w1 i > 0) then (False, h1 # hs, w1)
        else (case holder_close (h1, w1) of (h2, w2) \<Rightarrow>
          (case expire_scan t hs w2 of (x, hs', w3) \<Rightarrow> (x, h2 # hs', w3))))"

text \<open>One run of the task over the channels in the order of the map's iteration.\<close>

fun removeExpiredChannels :: "int \<Rightarrow> string list \<Rightarrow> ctable \<times> world \<Rightarrow> ctable \<times> world" where
  "removeExpiredChannels t [] tw = tw"
| "removeExpiredChannels t (key # keys) (tab, w) =
     (case tab key of None \<Rightarrow> removeExpiredChannels t keys (tab, w)
      | Some ch \<Rightarrow>
          (if \<not> autoExpire ch then removeExpiredChannels t keys (tab, w)
           else case expire_scan t (sessions ch) w of (x, hs, w') \<Rightarrow>
             removeExpiredChannels t keys
               (if x then map_delete tab key else tab(key \<mapsto> ch\<lparr>sessions := hs\<rparr>), w')))"

text \<open>The task of \<open>expireLocalChannels\<close> is started by the first call: whether it has been, and what it removes at its ticks, at the
  times and in the orders given.\<close>

definition expireLocalChannels :: "bool \<Rightarrow> (int \<times> string list) list \<Rightarrow> ctable \<times> world \<Rightarrow> bool \<times> (ctable \<times> world)" where
  "expireLocalChannels launched ticks tw =
     (True, if launched then tw else foldl (\<lambda>tw (t, keys). removeExpiredChannels t keys tw) tw ticks)"

text \<open>\<open>StopLocalChannels\<close> closes the current sessions of the channels it iterates over and makes a
  new table.\<close>

definition current_sessions :: "channel \<Rightarrow> nat set" where
  "current_sessions ch = \<Union> (set (map (\<lambda>h. set_option (muxSession h)) (sessions ch)))"

definition StopLocalChannels :: "string list \<Rightarrow> ctable \<times> world \<Rightarrow> ctable \<times> world" where
  "StopLocalChannels keys tw = (case tw of (t, w) \<Rightarrow>
     (Map.empty, w\<lparr>wclosed := wclosed w \<union> \<Union> (set (map (\<lambda>k. case t k of None \<Rightarrow> {} | Some ch \<Rightarrow> current_sessions ch) keys))\<rparr>))"

section \<open>Taking a stream\<close>

definition env_ok :: "ProxyChannelConfig \<Rightarrow> env \<Rightarrow> bool" where
  "env_ok conf e \<longleftrightarrow> eCreate e \<and> eAuth e \<and> eOpen e = None \<and> (eAutoExpire e \<longrightarrow> expire_after (ePick e) conf \<noteq> None)"

lemma getNewStream_ok:
  "env_ok conf e \<Longrightarrow> \<exists>s hw'. getNewStream conf e hw = (Got s, hw')"
  by (cases hw) (auto simp: env_ok_def getNewStream_def holder_init_def Let_def split: option.splits)

lemma getNewStream_fails:
  "eOpen e = Some er \<Longrightarrow> (eAutoExpire e \<Longrightarrow> expire_after (ePick e) conf \<noteq> None) \<Longrightarrow>
   \<exists>er' hw'. getNewStream conf e hw = (GotErr er', hw')"
  by (cases hw) (auto simp: getNewStream_def holder_init_def Let_def split: option.splits)

lemma try_holders_wrap:
  "try_holders conf es k i (if c \<ge> length hs then 0 else c) (hs, w) = try_holders conf es k i c (hs, w)"
  by (cases k; cases "c \<ge> length hs") (simp_all add: Let_def)

lemma try_holders_found:
  assumes "hs \<noteq> []" "c < length hs" "m < k" "env_ok conf (es (i + m))"
    and "\<forall>j < m. \<exists>er. eOpen (es (i + j)) = Some er \<and> (eAutoExpire (es (i + j)) \<longrightarrow> expire_after (ePick (es (i + j))) conf \<noteq> None)"
  shows "\<exists>s hw'. try_holders conf es k i c (hs, w) = (Got (s, (c + m) mod length hs + 1), hw') \<and>
     length (fst hw') = length hs"
  using assms
proof (induction m arbitrary: k i c hs w)
  case 0
  then obtain k' where k: "k = Suc k'" by (cases k) auto
  obtain s h w' where "getNewStream conf (es i) (hs ! c, w) = (Got s, (h, w'))"
    using getNewStream_ok [of conf "es i" "(hs ! c, w)"] 0 by fastforce
  with 0 k show ?case by simp
next
  case (Suc m)
  then obtain k' where k: "k = Suc k'" by (cases k) auto
  obtain er where er: "eOpen (es i) = Some er" "eAutoExpire (es i) \<longrightarrow> expire_after (ePick (es i)) conf \<noteq> None"
    using Suc.prems(5) by (metis add_0_right zero_less_Suc)
  obtain er' h w' where g: "getNewStream conf (es i) (hs ! c, w) = (GotErr er', (h, w'))"
    using getNewStream_fails [of "es i" er conf "(hs ! c, w)"] er by fastforce
  obtain h' w'' where hw: "(if er' = SessionShutdown then holder_close (h, w') else (h, w')) = (h', w'')" by fastforce
  let ?c = "if c + 1 \<ge> length hs then 0 else c + 1"
  let ?hs = "hs[c := h']"
  have unf: "try_holders conf es k i c (hs, w) = try_holders conf es k' (Suc i) (c + 1) (?hs, w'')"
  proof -
    have nc: "\<not> length hs \<le> c" using Suc.prems(2) by simp
    show ?thesis by (simp add: k Let_def nc g hw)
  qed
  have ne: "?hs \<noteq> []" "?c < length ?hs" using Suc.prems(1) by auto
  have m: "m < k'" "env_ok conf (es (Suc i + m))" using Suc.prems(3,4) k by auto
  have fl: "\<forall>j < m. \<exists>er. eOpen (es (Suc i + j)) = Some er \<and> (eAutoExpire (es (Suc i + j)) \<longrightarrow> expire_after (ePick (es (Suc i + j))) conf \<noteq> None)"
  proof (intro allI impI)
    fix j assume "j < m"
    then show "\<exists>er. eOpen (es (Suc i + j)) = Some er \<and> (eAutoExpire (es (Suc i + j)) \<longrightarrow> expire_after (ePick (es (Suc i + j))) conf \<noteq> None)"
      using Suc.prems(5) [rule_format, of "Suc j"] by simp
  qed
  obtain s hw' where "try_holders conf es k' (Suc i) ?c (?hs, w'') = (Got (s, (?c + m) mod length ?hs + 1), hw')"
    "length (fst hw') = length ?hs"
    using Suc.IH [OF ne m fl] by blast
  moreover have "try_holders conf es k' (Suc i) (c + 1) (?hs, w'') = try_holders conf es k' (Suc i) ?c (?hs, w'')"
    using try_holders_wrap [where hs = ?hs and c = "c + 1" and i = "Suc i"] by simp
  moreover have "(?c + m) mod length hs = (c + Suc m) mod length hs"
  proof (cases "c + 1 \<ge> length hs")
    case True
    then have "length hs = Suc c" using Suc.prems(2) by simp
    then have "c + Suc m = length hs + m" by simp
    with True show ?thesis by (simp only: mod_add_self1 if_True add_0)
  qed simp
  ultimately show ?case
    using unf by simp
qed

lemma try_holders_all_fail:
  assumes "\<forall>j < k. \<exists>er. eOpen (es (i + j)) = Some er \<and> (eAutoExpire (es (i + j)) \<longrightarrow> expire_after (ePick (es (i + j))) conf \<noteq> None)"
  shows "\<exists>hw'. try_holders conf es k i c (hs, w) = (GotErr NoStream, hw')"
  using assms
proof (induction k arbitrary: i c hs w)
  case (Suc k)
  let ?c = "if c \<ge> length hs then 0 else c"
  obtain er where er: "eOpen (es i) = Some er" "eAutoExpire (es i) \<longrightarrow> expire_after (ePick (es i)) conf \<noteq> None"
    using Suc.prems by (metis add_0_right zero_less_Suc)
  obtain er' h w' where g: "getNewStream conf (es i) (hs ! ?c, w) = (GotErr er', (h, w'))"
    using getNewStream_fails [of "es i" er conf "(hs ! ?c, w)"] er by fastforce
  obtain h' w'' where hw: "(if er' = SessionShutdown then holder_close (h, w') else (h, w')) = (h', w'')" by fastforce
  have "\<forall>j < k. \<exists>er. eOpen (es (Suc i + j)) = Some er \<and> (eAutoExpire (es (Suc i + j)) \<longrightarrow> expire_after (ePick (es (Suc i + j))) conf \<noteq> None)"
    using Suc.prems by (metis Suc_less_eq add_Suc_shift)
  from Suc.IH [OF this, of "?c + 1" "hs[?c := h']" w''] show ?case
    by (simp add: Let_def g hw)
qed simp

section \<open>Properties\<close>

text \<open>C28: a channel finds a stream whenever one of its holders can give one. If the first \<open>m\<close>
  attempts fail and the next one meets a working server, the stream is opened by the holder
  \<open>m\<close> places after the cursor, going round, and the cursor moves just past that holder.\<close>

theorem channel_finds_stream:
  assumes "sessions ch \<noteq> []" "p2pSessions ch = []" "m < length (sessions ch)" "env_ok (chConf ch) (es m)"
    and "\<forall>j < m. \<exists>er. eOpen (es j) = Some er \<and> (eAutoExpire (es j) \<longrightarrow> expire_after (ePick (es j)) (chConf ch) \<noteq> None)"
  shows "\<exists>s ch' w'. getMuxStream p2pOpen es (ch, w) = (Got s, (ch', w')) \<and>
     cursor ch' = ((if cursor ch \<ge> length (sessions ch) then 0 else cursor ch) + m) mod length (sessions ch) + 1 \<and>
     length (sessions ch') = length (sessions ch)"
proof -
  let ?c = "if cursor ch \<ge> length (sessions ch) then 0 else cursor ch"
  have "?c < length (sessions ch)" using assms(1) by auto
  from try_holders_found [where i = 0 and k = "length (sessions ch)", OF assms(1) this assms(3), of "chConf ch" es w]
  obtain s hw' where "try_holders (chConf ch) es (length (sessions ch)) 0 ?c (sessions ch, w) =
      (Got (s, (?c + m) mod length (sessions ch) + 1), hw')" "length (fst hw') = length (sessions ch)"
    using assms(4,5) by auto
  then show ?thesis
    using assms(2) by (cases hw') (simp add: getMuxStream_def try_holders_wrap)
qed

definition example_conf :: ProxyChannelConfig where
  "example_conf = url_conf example_names ''amd64'' ''tcp://h:1'' None ''u'' \<lparr>User = [], CMethod = [], CKey = ''k'', allowedUser = []\<rparr>"

lemma channel_finds_stream_witness:
  "\<exists>s ch' w'. getMuxStream (\<lambda>_. False) (\<lambda>i. if i = 0 then good_env\<lparr>eOpen := Some OpenErr\<rparr> else good_env)
       ((NewProxyChannel example_conf)\<lparr>sessions := [new_holder ''a'', new_holder ''b'']\<rparr>, no_sessions) = (Got s, (ch', w')) \<and>
     cursor ch' = 2"
  using channel_finds_stream [of "(NewProxyChannel example_conf)\<lparr>sessions := [new_holder ''a'', new_holder ''b'']\<rparr>" 1
      "\<lambda>i. if i = 0 then good_env\<lparr>eOpen := Some OpenErr\<rparr> else good_env" "\<lambda>_. False" no_sessions]
  by (auto simp: NewProxyChannel_def env_ok_def good_env_def numeral_2_eq_2)

lemma kept_check: "kept (check t h) = kept h"
  by (auto simp: kept_def check_def split: option.splits)

lemma kept_tryClose:
  "tryCloseRetiredSessions (h, w) = (h1, w1) \<Longrightarrow>
   kept h \<subseteq> kept h1 \<union> wclosed w1 \<and> wclosed w \<subseteq> wclosed w1"
  by (auto simp: tryCloseRetiredSessions_def Let_def kept_def)

lemma kept_close:
  "holder_close (h, w) = (h1, w1) \<Longrightarrow> kept h1 = retired h \<and> kept h \<subseteq> retired h \<union> wclosed w1 \<and> wclosed w \<subseteq> wclosed w1"
  by (auto simp: holder_close_def kept_def sess_Close_def split: option.splits)

lemma expire_scan_mono: "expire_scan t hs w = (x, hs', w') \<Longrightarrow> wclosed w \<subseteq> wclosed w'"
proof (induction hs arbitrary: w x hs' w')
  case (Cons h hs)
  obtain h1 w1 where 1: "tryCloseRetiredSessions (check t h, w) = (h1, w1)" by fastforce
  obtain h2 w2 where 2: "holder_close (h1, w1) = (h2, w2)" by fastforce
  obtain y hs2 w3 where 3: "expire_scan t hs w2 = (y, hs2, w3)" by (metis prod_cases3)
  have "w' = w1 \<or> w' = w3" using Cons.prems by (auto simp: 1 2 3 split: if_splits)
  then show ?case
    using Cons.IH [OF 3] kept_tryClose [OF 1] kept_close [OF 2] by blast
qed simp

lemma expire_scan_closed:
  "expire_scan t hs w = (True, hs', w') \<Longrightarrow>
   (\<forall>h \<in> set hs'. kept h = {}) \<and> (\<forall>h \<in> set hs. kept h \<subseteq> wclosed w')"
proof (induction hs arbitrary: w hs' w')
  case (Cons h hs)
  obtain h1 w1 where 1: "tryCloseRetiredSessions (check t h, w) = (h1, w1)" by fastforce
  obtain h2 w2 where 2: "holder_close (h1, w1) = (h2, w2)" by fastforce
  obtain x hs2 w3 where 3: "expire_scan t hs w2 = (x, hs2, w3)" by (metis prod_cases3)
  have r: "retired h1 = {}" "x" "hs' = h2 # hs2" "w' = w3"
    using Cons.prems by (auto simp: 1 2 3 split: if_splits)
  have "kept h \<subseteq> wclosed w2"
    using kept_tryClose [OF 1] kept_close [OF 2] r(1) by (auto simp: kept_check)
  then have "kept h \<subseteq> wclosed w3" using expire_scan_mono [OF 3] by blast
  with Cons.IH [of w2 hs2 w3] 3 r kept_close [OF 2] show ?case by auto
qed simp

text \<open>the expiry task removes a channel only when nothing of it is left open: every session
  one of its holders had, current or retired, has been closed.\<close>

theorem removed_channel_closed:
  assumes "removeExpiredChannels t [key] (tab, w) = (tab', w')" "tab key = Some ch" "tab' key = None"
  shows "autoExpire ch \<and> (\<forall>h \<in> set (sessions ch). kept h \<subseteq> wclosed w')"
  using assms expire_scan_closed [of t "sessions ch" w]
  by (auto split: if_splits prod.splits)

lemma removed_channel_closed_witness:
  "autoExpire ((NewProxyChannel example_conf)\<lparr>sessions := [(new_holder ''a'')\<lparr>muxSession := Some 0\<rparr>], autoExpire := True\<rparr>) \<and>
   kept ((new_holder ''a'')\<lparr>muxSession := Some 0\<rparr>) \<subseteq> {0}"
proof -
  let ?ch = "(NewProxyChannel example_conf)\<lparr>sessions := [(new_holder ''a'')\<lparr>muxSession := Some 0\<rparr>], autoExpire := True\<rparr>"
  have "removeExpiredChannels 5 [''k''] ([''k'' \<mapsto> ?ch], no_sessions) = (Map.empty, no_sessions\<lparr>wclosed := {0}\<rparr>)"
    by (auto simp: NewProxyChannel_def new_holder_def no_sessions_def check_def tryCloseRetiredSessions_def
        holder_close_def sess_Close_def map_delete_def fun_eq_iff)
  from removed_channel_closed [OF this, of ?ch] show ?thesis
    by (simp add: NewProxyChannel_def no_sessions_def)
qed

end
