(* ===== verification/P2PRooms.thy ===== *)
theory P2PRooms
  imports Interfaces MuxMessage
begin

text \<open>
  \<open>common/channel/remote_p2p.go\<close>: the rooms in which a server brings two peers together. A
  room is a token; a member is a connection id with its sessions and the addresses of its
  tunnel. Sessions are numbers; a map's iteration is a list of its keys in some order.
\<close>

section \<open>Rooms\<close>

record p2pNode =
  nSessions :: "nat set"
  peerPubAddr :: string
  peerPriAddr :: string

type_synonym room = "string \<rightharpoonup> p2pNode"
type_synonym rooms = "string \<rightharpoonup> room"

definition new_node :: p2pNode where
  "new_node = \<lparr>nSessions = {}, peerPubAddr = [], peerPriAddr = []\<rparr>"

definition room_size :: "room \<Rightarrow> nat" where
  "room_size m = card (dom m)"

text \<open>\<open>addP2PSession\<close>: \<open>raddr\<close> is the remote address as text.\<close>

definition addP2PSession :: "AuthRequest \<Rightarrow> nat \<Rightarrow> string \<Rightarrow> rooms \<Rightarrow> bool \<times> rooms" where
  "addP2PSession auth session raddr t =
     (let m1 = (case t (arP2PToken auth) of Some m \<Rightarrow> m | None \<Rightarrow> Map.empty);
          t1 = t(arP2PToken auth \<mapsto> m1)
      in if m1 (arP2PConnID auth) = None \<and> room_size m1 \<ge> 2 then (False, t1)
         else let node = (case m1 (arP2PConnID auth) of Some n \<Rightarrow> n | None \<Rightarrow> new_node);
                  node = (if arP2PPriAddr auth \<noteq> [] then
                            node\<lparr>peerPriAddr := arP2PPriAddr auth,
                                 peerPubAddr := (if arP2PPubAddr auth = [] then raddr else arP2PPubAddr auth)\<rparr>
                          else node\<lparr>nSessions := insert session (nSessions node)\<rparr>)
              in (True, t1(arP2PToken auth \<mapsto> m1(arP2PConnID auth \<mapsto> node))))"

text \<open>\<open>removeP2PSession\<close>: the addresses of a tunnel are cleared in the node, which matters only
  when the node stays in its room.\<close>

definition removeP2PSession :: "AuthRequest option \<Rightarrow> nat \<Rightarrow> rooms \<Rightarrow> bool \<times> rooms" where
  "removeP2PSession oauth session t =
     (case oauth of None \<Rightarrow> (False, t)
      | Some auth \<Rightarrow>
          (case t (arP2PToken auth) of None \<Rightarrow> (False, t)
           | Some m1 \<Rightarrow>
               (case m1 (arP2PConnID auth) of None \<Rightarrow> (False, t)
                | Some node \<Rightarrow>
                    (let node = node\<lparr>nSessions := nSessions node - {session}\<rparr>;
                         node' = (if arP2PPriAddr auth \<noteq> [] then node\<lparr>peerPriAddr := [], peerPubAddr := []\<rparr> else node)
                     in if nSessions node = {} then
                          (let m2 = map_delete m1 (arP2PConnID auth)
                           in (True, if room_size m2 = 0 then map_delete t (arP2PToken auth) else t(arP2PToken auth \<mapsto> m2)))
                        else (True, t(arP2PToken auth \<mapsto> m1(arP2PConnID auth \<mapsto> node')))))))"

text \<open>The first member in the order of the iteration that is not the caller.\<close>

definition other_member :: "string list \<Rightarrow> string \<Rightarrow> room \<Rightarrow> (string \<times> p2pNode) option" where
  "other_member order cid m =
     (case find (\<lambda>c. c \<noteq> cid \<and> m c \<noteq> None) order of None \<Rightarrow> None | Some c \<Rightarrow> Some (c, the (m c)))"

definition getPeerAddr :: "string list \<Rightarrow> AuthRequest \<Rightarrow> rooms \<Rightarrow> string \<times> string" where
  "getPeerAddr order auth t =
     (case t (arP2PToken auth) of None \<Rightarrow> ([], [])
      | Some m1 \<Rightarrow> (case other_member order (arP2PConnID auth) m1 of None \<Rightarrow> ([], [])
                   | Some (c, n) \<Rightarrow> (peerPriAddr n, peerPubAddr n)))"

text \<open>\<open>openPeerStream\<close>: the loops over the members and over a member's sessions; a member without
  sessions is passed over, and the first session decides. \<open>sorder\<close> is the order of a member's
  sessions and \<open>opens\<close> tells whether a session opens a stream.\<close>

fun peer_loop :: "(nat \<Rightarrow> bool) \<Rightarrow> (string \<Rightarrow> nat list) \<Rightarrow> string list \<Rightarrow> string \<Rightarrow> room \<Rightarrow> nat option" where
  "peer_loop opens sorder [] cid m = None"
| "peer_loop opens sorder (c # cs) cid m =
     (case m c of
        None \<Rightarrow> peer_loop opens sorder cs cid m
      | Some n \<Rightarrow>
          if c = cid then peer_loop opens sorder cs cid m
          else (case filter (\<lambda>s. s \<in> nSessions n) (sorder c) of
                  [] \<Rightarrow> peer_loop opens sorder cs cid m
                | s # _ \<Rightarrow> if opens s then Some s else None))"

definition openPeerStream :: "(nat \<Rightarrow> bool) \<Rightarrow> (string \<Rightarrow> nat list) \<Rightarrow> string list \<Rightarrow> string \<Rightarrow> string \<Rightarrow> rooms \<Rightarrow> nat option" where
  "openPeerStream opens sorder order roomID cid t =
     (case t roomID of None \<Rightarrow> None | Some m1 \<Rightarrow> peer_loop opens sorder order cid m1)"

section \<open>The invariant\<close>

text \<open>Every room in the table has one or two members.\<close>

definition room_ok :: "room \<Rightarrow> bool" where
  "room_ok m \<longleftrightarrow> finite (dom m) \<and> 1 \<le> room_size m \<and> room_size m \<le> 2"

definition rooms_inv :: "rooms \<Rightarrow> bool" where
  "rooms_inv t \<longleftrightarrow> (\<forall>tok m. t tok = Some m \<longrightarrow> room_ok m)"

datatype p2p_event = Join AuthRequest nat string | Leave "AuthRequest option" nat

definition p2p_step :: "rooms \<Rightarrow> p2p_event \<Rightarrow> rooms" where
  "p2p_step t e = (case e of Join auth s raddr \<Rightarrow> snd (addP2PSession auth s raddr t)
                   | Leave auth s \<Rightarrow> snd (removeP2PSession auth s t))"

lemma room_ok_insert:
  assumes "finite (dom m)" "room_size m \<le> 2" "m c \<noteq> None \<or> room_size m < 2"
  shows "room_ok (m(c \<mapsto> n))"
proof -
  have "card (dom (m(c \<mapsto> n))) = (if c \<in> dom m then card (dom m) else Suc (card (dom m)))"
    using assms(1) by (simp add: card_dom_upd insert_absorb)
  moreover have "c \<in> dom m \<Longrightarrow> 0 < card (dom m)" using assms(1) card_gt_0_iff by blast
  ultimately show ?thesis using assms by (auto simp: room_ok_def room_size_def domIff)
qed

lemma addP2PSession_inv [inv_pres]:
  assumes t: "rooms_inv t"
  shows "rooms_inv (snd (addP2PSession auth s raddr t))"
proof -
  define m1 where "m1 = (case t (arP2PToken auth) of Some m \<Rightarrow> m | None \<Rightarrow> Map.empty)"
  have m1: "finite (dom m1)" "room_size m1 \<le> 2"
    using t by (auto simp: m1_def rooms_inv_def room_ok_def room_size_def split: option.splits)
  show ?thesis
  proof (cases "m1 (arP2PConnID auth) = None \<and> room_size m1 \<ge> 2")
    case True
    then have "room_ok m1" using m1 by (simp add: room_ok_def)
    with t True show ?thesis by (auto simp: addP2PSession_def Let_def m1_def [symmetric] rooms_inv_def)
  next
    case False
    then have "\<And>n. room_ok (m1(arP2PConnID auth \<mapsto> n))" using m1 by (intro room_ok_insert) auto
    with t False show ?thesis by (auto simp: addP2PSession_def Let_def m1_def [symmetric] rooms_inv_def)
  qed
qed

lemma removeP2PSession_inv [inv_pres]:
  assumes t: "rooms_inv t"
  shows "rooms_inv (snd (removeP2PSession oauth s t))"
proof (cases oauth)
  case None
  with t show ?thesis by (simp add: removeP2PSession_def)
next
  case (Some auth)
  show ?thesis
  proof (cases "t (arP2PToken auth)")
    case None
    with t Some show ?thesis by (simp add: removeP2PSession_def)
  next
    case m: (Some m1)
    show ?thesis
    proof (cases "m1 (arP2PConnID auth)")
      case None
      with t m Some show ?thesis by (simp add: removeP2PSession_def)
    next
      case n: (Some node)
      have m1: "room_ok m1" using t m by (auto simp: rooms_inv_def)
      let ?m2 = "map_delete m1 (arP2PConnID auth)"
      have "finite (dom ?m2)" "room_size ?m2 \<le> 2"
        using m1 by (auto simp: room_ok_def room_size_def intro: le_trans [OF card_Diff1_le])
      then have m2: "room_size ?m2 \<noteq> 0 \<Longrightarrow> room_ok ?m2" by (simp add: room_ok_def)
      have ins: "\<And>x. room_ok (m1(arP2PConnID auth \<mapsto> x))"
        using m1 n by (intro room_ok_insert) (auto simp: room_ok_def)
      have "rooms_inv (map_delete t (arP2PToken auth))" using t by (auto simp: rooms_inv_def)
      then show ?thesis
        using t m2 ins by (simp add: removeP2PSession_def Some m n Let_def) (auto simp: rooms_inv_def)
    qed
  qed
qed

interpretation p2p: event_machine p2p_step rooms_inv
  by unfold_locales (auto simp: p2p_step_def intro: inv_pres split: p2p_event.splits)

lemma two_members:
  assumes "room_ok m" "c \<in> dom m"
  shows "\<exists>d. dom m \<subseteq> {c, d}"
proof (cases "dom m = {c}")
  case False
  then obtain d where d: "d \<in> dom m" "d \<noteq> c" using assms(2) by blast
  have "card {c, d} = 2" using d by simp
  moreover have "{c, d} \<subseteq> dom m" using d assms(2) by auto
  moreover have "finite (dom m)" "card (dom m) \<le> 2" using assms(1) by (auto simp: room_ok_def room_size_def)
  ultimately have "{c, d} = dom m" by (metis card_subset_eq card_mono le_antisym)
  then show ?thesis by auto
qed auto

section \<open>Properties\<close>

text \<open>C16: whoever joins and leaves in whatever order, every room in the table has one or two
  members: no room is empty, and no third peer gets in.\<close>

theorem rooms_one_or_two:
  assumes "foldl p2p_step Map.empty evs tok = Some m"
  shows "room_size m = 1 \<or> room_size m = 2"
proof -
  have "rooms_inv (foldl p2p_step Map.empty evs)" by (rule p2p.run_inv) (simp add: rooms_inv_def)
  with assms show ?thesis by (fastforce simp: rooms_inv_def room_ok_def)
qed

definition joiner :: "string \<Rightarrow> AuthRequest" where
  "joiner c = empty_auth\<lparr>arP2PToken := ''t'', arP2PConnID := c\<rparr>"

lemma rooms_one_or_two_witness:
  "room_size [''a'' \<mapsto> new_node\<lparr>nSessions := {1}\<rparr>] = 1 \<or> room_size [''a'' \<mapsto> new_node\<lparr>nSessions := {1}\<rparr>] = 2"
  by (rule rooms_one_or_two [where tok = "''t''" and evs = "[Join (joiner ''a'') 1 []]"])
     (simp add: p2p_step_def addP2PSession_def joiner_def empty_auth_def Let_def room_size_def new_node_def)

text \<open>a third peer is refused and changes nothing in the room, while a peer that is in the room
  can always add a session; a peer that leaves with its last session makes its place free.\<close>

theorem third_peer_refused:
  assumes "t (arP2PToken auth) = Some m" "room_ok m"
  shows "(fst (addP2PSession auth s raddr t) \<longleftrightarrow> arP2PConnID auth \<in> dom m \<or> room_size m < 2) \<and>
     (\<not> fst (addP2PSession auth s raddr t) \<longrightarrow> snd (addP2PSession auth s raddr t) = t) \<and>
     (arP2PConnID auth \<in> dom m \<and> nSessions (the (m (arP2PConnID auth))) \<subseteq> {s} \<and> room_size m = 2 \<longrightarrow>
        (\<exists>m'. snd (removeP2PSession (Some auth) s t) (arP2PToken auth) = Some m' \<and> room_size m' = 1))"
proof -
  have fin: "finite (dom m)" using assms(2) by (simp add: room_ok_def)
  have leave: "\<exists>m'. snd (removeP2PSession (Some auth) s t) (arP2PToken auth) = Some m' \<and> room_size m' = 1"
    if n: "arP2PConnID auth \<in> dom m" "nSessions (the (m (arP2PConnID auth))) \<subseteq> {s}" "room_size m = 2"
  proof -
    obtain node where node: "m (arP2PConnID auth) = Some node" using n(1) by auto
    have e: "nSessions node - {s} = {}" using n(2) node by auto
    have "room_size (map_delete m (arP2PConnID auth)) = 1"
      using n(1,3) fin by (simp add: room_size_def)
    then show ?thesis by (simp add: removeP2PSession_def assms(1) node e Let_def)
  qed
  show ?thesis
    using assms leave by (auto simp: addP2PSession_def Let_def domIff fun_upd_idem)
qed

lemma third_peer_refused_witness:
  "\<not> fst (addP2PSession (joiner ''c'') 3 [] [''t'' \<mapsto> [''a'' \<mapsto> new_node, ''b'' \<mapsto> new_node]])"
proof -
  have "dom [''a'' \<mapsto> new_node, ''b'' \<mapsto> new_node] = {''a'', ''b''}" by auto
  then have "room_size [''a'' \<mapsto> new_node, ''b'' \<mapsto> new_node] = 2" by (simp add: room_size_def)
  then show ?thesis
    using third_peer_refused [of "[''t'' \<mapsto> [''a'' \<mapsto> new_node, ''b'' \<mapsto> new_node]]" "joiner ''c''" "[''a'' \<mapsto> new_node, ''b'' \<mapsto> new_node]" 3 "[]"]
    by (simp add: joiner_def empty_auth_def room_ok_def)
qed

text \<open>which peer's addresses a member is told does not depend on the order in which the map
  is iterated.\<close>

theorem peer_order_irrelevant:
  assumes "rooms_inv t" "t (arP2PToken auth) = Some m" "arP2PConnID auth \<in> dom m"
    and "set order1 = dom m" "set order2 = dom m"
  shows "getPeerAddr order1 auth t = getPeerAddr order2 auth t"
proof -
  have "room_ok m" using assms(1,2) by (auto simp: rooms_inv_def)
  then obtain d where d: "dom m \<subseteq> {arP2PConnID auth, d}" using two_members assms(3) by blast
  have "find (\<lambda>c. c \<noteq> arP2PConnID auth \<and> m c \<noteq> None) o1 =
      (if d \<in> dom m \<and> d \<noteq> arP2PConnID auth then Some d else None)" if "set o1 = dom m" for o1
  proof (cases "find (\<lambda>c. c \<noteq> arP2PConnID auth \<and> m c \<noteq> None) o1")
    case None
    then show ?thesis using that by (auto simp: find_None_iff)
  next
    case (Some c)
    then have "c \<in> set o1" "c \<noteq> arP2PConnID auth" by (auto simp: find_Some_iff)
    then have "c = d" using d that by auto
    with Some \<open>c \<in> set o1\<close> \<open>c \<noteq> arP2PConnID auth\<close> that show ?thesis by auto
  qed
  with assms(4,5) show ?thesis by (simp add: getPeerAddr_def assms(2) other_member_def)
qed

lemma peer_order_irrelevant_witness:
  "getPeerAddr [''a'', ''b''] (joiner ''a'') [''t'' \<mapsto> [''a'' \<mapsto> new_node, ''b'' \<mapsto> new_node\<lparr>peerPubAddr := ''p''\<rparr>]] =
   getPeerAddr [''b'', ''a''] (joiner ''a'') [''t'' \<mapsto> [''a'' \<mapsto> new_node, ''b'' \<mapsto> new_node\<lparr>peerPubAddr := ''p''\<rparr>]]"
proof (rule peer_order_irrelevant)
  have "dom [''a'' \<mapsto> new_node, ''b'' \<mapsto> new_node\<lparr>peerPubAddr := ''p''\<rparr>] = {''a'', ''b''}"
    by (auto split: if_splits)
  then show "rooms_inv [''t'' \<mapsto> [''a'' \<mapsto> new_node, ''b'' \<mapsto> new_node\<lparr>peerPubAddr := ''p''\<rparr>]]"
    by (simp add: rooms_inv_def room_ok_def room_size_def)
qed (auto simp: joiner_def empty_auth_def split: if_splits)

end
