(* ===== verification/ServerSession.thy ===== *)
theory ServerSession
  imports P2PRooms ChannelConfig
begin

text \<open>
  \<open>common/channel/remote.go\<close>: a server's side of a multiplexed session: authentication, the
  loop that accepts streams, the decision what to do with a connect request, rate limits and
  the sweep of idle sessions.
\<close>

section \<open>Rate limits\<close>

text \<open>\<open>getRateLimitBucket\<close>: the configured limits (None when there are none), the buckets made so
  far with their rate, and the key of the bucket the user draws from. A limit of \<open>2 ^ 63\<close> or more is negative as an \<open>int64\<close>.\<close>

definition getRateLimitBucket ::
    "(rat \<Rightarrow> rat) \<Rightarrow> (string \<rightharpoonup> string) option \<Rightarrow> string \<Rightarrow> (string \<rightharpoonup> nat) \<Rightarrow> string option \<times> (string \<rightharpoonup> nat)" where
  "getRateLimitBucket rnd limits user buckets =
     (case limits of None \<Rightarrow> (None, buckets)
      | Some ls \<Rightarrow>
          (let (l, user) = (case ls user of Some l \<Rightarrow> (Some l, user) | None \<Rightarrow> (ls ''*'', ''*'')) in
           case l of None \<Rightarrow> (None, buckets)
           | Some l \<Rightarrow>
               (let limitPerSec = (if l = [] then None else ToBytes rnd l) in
                case limitPerSec of None \<Rightarrow> (None, buckets)
                | Some n \<Rightarrow>
                    if n = 0 \<or> n \<ge> 2 ^ 63 then (None, buckets)
                    else (Some user, case buckets user of Some _ \<Rightarrow> buckets | None \<Rightarrow> buckets(user \<mapsto> n)))))"

section \<open>Authentication\<close>

datatype serv_err = AcceptFailed stream_end | BadAuthRequest mux_err | ErrAuthFailed | ServPanic
  and stream_end = SessionDown | AcceptOther

text \<open>What \<open>serverAuthSession\<close> leaves behind: the rooms, whether it closed the session, the response
  it wrote and the cipher it switched to.\<close>

record auth_effect =
  aeRooms :: rooms
  aeClosed :: bool
  aeResponse :: "AuthResponse option"
  aeReset :: "(string \<times> u64) option"

definition auth_response :: "AuthRequest \<Rightarrow> string \<times> string \<Rightarrow> string option \<Rightarrow> AuthResponse" where
  "auth_response recv peer raddr =
     (let res = \<lparr>Code = AuthOK, PeerPriAddr = [], PeerPubAddr = [], PubAddr = []\<rparr>;
          res = (if arP2PPriAddr recv \<noteq> [] \<and> fst peer \<noteq> [] then res\<lparr>PeerPriAddr := fst peer, PeerPubAddr := snd peer\<rparr> else res)
      in if arP2PPubAddr recv = [] then (case raddr of Some a \<Rightarrow> res\<lparr>PubAddr := a\<rparr> | None \<Rightarrow> res)
         else res\<lparr>PubAddr := arP2PPubAddr recv\<rparr>)"

text \<open>\<open>recv\<close> is the request read from the stream; \<open>order\<close> the order in which a room is
  iterated.\<close>

text \<open>A member that tells its private but no public address is given the remote address of the session;
  some transports have none, and the call on the nil address panics.\<close>

definition no_raddr_panic :: "AuthRequest \<Rightarrow> string option \<Rightarrow> bool" where
  "no_raddr_panic r raddr \<longleftrightarrow> arP2PToken r \<noteq> [] \<and> arP2PPriAddr r \<noteq> [] \<and> arP2PPubAddr r = [] \<and> raddr = None"

definition serverAuthSession ::
    "CipherConfig \<Rightarrow> string list \<Rightarrow> nat \<Rightarrow> string option \<Rightarrow> bool \<Rightarrow> bool \<Rightarrow> mux_err + AuthRequest \<Rightarrow> rooms \<Rightarrow>
     (serv_err + AuthRequest) \<times> auth_effect" where
  "serverAuthSession cipher order session raddr isFirst isPmux recv t =
     (let eff = \<lparr>aeRooms = t, aeClosed = False, aeResponse = None, aeReset = None\<rparr> in
      case recv of Inl e \<Rightarrow> (Inl (BadAuthRequest e), eff)
      | Inr r \<Rightarrow>
          if \<not> VerifyUser cipher (arUser r) then (Inl ErrAuthFailed, eff\<lparr>aeClosed := True\<rparr>)
          else if \<not> IsValidCompressor (arCompressMethod r) then (Inl ErrAuthFailed, eff\<lparr>aeClosed := True\<rparr>)
          else (let (joined, t') = (if arP2PToken r \<noteq> [] then addP2PSession r session (case raddr of Some a \<Rightarrow> a | None \<Rightarrow> []) t
                                    else (True, t)) in
            if \<not> joined then (Inl ErrAuthFailed, eff\<lparr>aeRooms := t', aeClosed := True\<rparr>)
            else if no_raddr_panic r raddr then (Inl ServPanic, eff\<lparr>aeRooms := t'\<rparr>)
            else let peer = (if arP2PPriAddr r \<noteq> [] then getPeerAddr order r t' else ([], [])) in
              (Inr r, eff\<lparr>aeRooms := t', aeResponse := Some (auth_response r peer raddr),
                          aeReset := (if isFirst \<and> isPmux then Some (arCipherMethod r, arCipherCounter r) else None)\<rparr>)))"

section \<open>The accept loop\<close>

record sessionContext =
  scAuth :: "AuthRequest option"
  scStreams :: int
  scClosed :: bool
  scP2P :: bool
  scExchange :: bool
  scFirst :: bool
  scEmpty :: bool

text \<open>\<open>scEmpty\<close> is whether the session is in the set \<open>emptySessions\<close>.\<close>

definition new_ctx :: "AuthRequest option \<Rightarrow> sessionContext" where
  "new_ctx auth = \<lparr>scAuth = auth, scStreams = 0, scClosed = False, scP2P = False, scExchange = False, scFirst = True, scEmpty = False\<rparr>"

text \<open>What the session gives the loop: the end of the session, or a stream, with the authentication
  request that is read from it if one is expected. What the loop does: authenticate, hand the
  stream to a handler, or end.\<close>

datatype serv_event = EvEnd stream_end | EvStream "mux_err + AuthRequest"
datatype serv_action = DidAuth AuthRequest | ToP2P | ToProxy | Ended serv_err

text \<open>One round; \<open>ctx.close\<close> runs when the loop ends and leaves the room of a P2P session.\<close>

definition ctx_close :: "nat \<Rightarrow> sessionContext \<Rightarrow> rooms \<Rightarrow> sessionContext \<times> rooms" where
  "ctx_close session c t =
     (c\<lparr>scClosed := True, scEmpty := False\<rparr>, if scP2P c \<and> scAuth c \<noteq> None then snd (removeP2PSession (scAuth c) session t) else t)"

text \<open>Before a stream is accepted, a session without proxied streams is put into the set.\<close>

definition note_empty :: "sessionContext \<Rightarrow> sessionContext" where
  "note_empty c = (if scStreams c = 0 then c\<lparr>scEmpty := True\<rparr> else c)"

definition serv_round ::
    "CipherConfig \<Rightarrow> string list \<Rightarrow> nat \<Rightarrow> string option \<Rightarrow> bool \<Rightarrow> sessionContext \<times> rooms \<Rightarrow> serv_event \<Rightarrow>
     serv_action \<times> (sessionContext \<times> rooms)" where
  "serv_round cipher order session raddr isPmux ct ev =
     (case ct of (c, t) \<Rightarrow>
        if scAuth c = None \<or> scExchange c then
          (case ev of
             EvEnd x \<Rightarrow> (Ended (AcceptFailed x), ctx_close session c t)
           | EvStream recv \<Rightarrow>
               (case serverAuthSession cipher order session raddr (scFirst c) isPmux recv t of
                  (Inl e, eff) \<Rightarrow> (Ended e, ctx_close session c (aeRooms eff))
                | (Inr r, eff) \<Rightarrow>
                    (DidAuth r, (c\<lparr>scFirst := False, scAuth := Some r,
                        scExchange := (scExchange c \<or> arP2PPriAddr r \<noteq> []),
                        scP2P := (scP2P c \<or> arP2PToken r \<noteq> [])\<rparr>, aeRooms eff))))
        else
          (case ev of
             EvEnd x \<Rightarrow> (Ended (AcceptFailed x), ctx_close session (note_empty c) t)
           | EvStream _ \<Rightarrow> (if scP2P c then ToP2P else ToProxy, (note_empty c, t))))"

text \<open>\<open>ServProxyMuxSession\<close> over a list of events; it stops when the loop returns.\<close>

fun ServProxyMuxSession ::
    "CipherConfig \<Rightarrow> string list \<Rightarrow> nat \<Rightarrow> string option \<Rightarrow> bool \<Rightarrow> sessionContext \<times> rooms \<Rightarrow> serv_event list \<Rightarrow>
     serv_action list \<times> (sessionContext \<times> rooms)" where
  "ServProxyMuxSession cipher order session raddr isPmux ct [] = ([], ct)"
| "ServProxyMuxSession cipher order session raddr isPmux ct (ev # evs) =
     (case serv_round cipher order session raddr isPmux ct ev of
        (Ended e, ct') \<Rightarrow> ([Ended e], ct')
      | (a, ct') \<Rightarrow> (case ServProxyMuxSession cipher order session raddr isPmux ct' evs of (as, ct'') \<Rightarrow> (a # as, ct'')))"

section \<open>A connect request\<close>

text \<open>What \<open>handleProxyStream\<close> does with a request: refuse it, dial the address, or pass it on to the
  next hop with the hops after it. The number is the dial timeout in milliseconds.\<close>

datatype route = BadRequest | NotAllowed | DialHere string string int | NextHop string string string StreamOptions

definition route_request :: "ProxyLimitConfig \<Rightarrow> mux_err option \<times> ConnectRequest \<Rightarrow> route" where
  "route_request limit req =
     (case req of (Some e, _) \<Rightarrow> BadRequest
      | (None, creq) \<Rightarrow>
          if \<not> Allowed limit (crAddr creq) then NotAllowed
          else let dialTimeout = (if crDialTimeout creq = 0 then 10000 else crDialTimeout creq) in
            (case crHops creq of
               [] \<Rightarrow> DialHere (crNetwork creq) (crAddr creq) dialTimeout
             | hop # hops \<Rightarrow> NextHop hop (crNetwork creq) (crAddr creq)
                 \<lparr>soDialTimeout = crDialTimeout creq, soReadTimeout = crReadTimeout creq, soHops = hops\<rparr>))"

text \<open>How long a stream may be idle, in milliseconds, and whether a read error ends the relay.\<close>

definition max_idle :: "MuxConfig \<Rightarrow> ConnectRequest \<Rightarrow> int" where
  "max_idle mc creq =
     (let m = StreamIdleTimeout mc * 1000; m = (if m = 0 then 10000 else m)
      in if crHops creq = [] \<and> crReadTimeout creq > 0 then crReadTimeout creq else m)"

definition relay_continues :: "bool \<Rightarrow> int \<Rightarrow> int \<Rightarrow> bool" where
  "relay_continues isTimeout idle maxIdle \<longleftrightarrow> isTimeout \<and> idle < maxIdle"

text \<open>\<open>isTimeoutErr\<close>: the error of \<open>pmux\<close> for timeouts, or a \<open>net.Error\<close> that says so.\<close>

definition isTimeoutErr :: "bool \<Rightarrow> (bool \<times> bool) \<Rightarrow> bool" where
  "isTimeoutErr isPmuxTimeout netErr =
     (if isPmuxTimeout then True else if fst netErr \<and> snd netErr then True else False)"

text \<open>The counter of a session's streams and the set of sessions without streams at the start of a handler.\<close>

definition stream_begins :: "sessionContext \<Rightarrow> sessionContext" where
  "stream_begins c = c\<lparr>scStreams := scStreams c + 1, scEmpty := False\<rparr>"

text \<open>The end of a handler: the counter, then, as a step of its own, the set.\<close>

definition stream_leaves :: "sessionContext \<Rightarrow> bool \<times> sessionContext" where
  "stream_leaves c = (scStreams c - 1 = 0 \<and> \<not> scClosed c, c\<lparr>scStreams := scStreams c - 1\<rparr>)"

definition stream_stores :: "bool \<Rightarrow> sessionContext \<Rightarrow> sessionContext" where
  "stream_stores b c = (if b then c\<lparr>scEmpty := True\<rparr> else c)"

definition stream_ends :: "sessionContext \<Rightarrow> sessionContext" where
  "stream_ends c = (case stream_leaves c of (b, c) \<Rightarrow> stream_stores b c)"

text \<open>The sweep of idle sessions, started in the package's \<open>init\<close>: it runs only if the limit is
  already positive then.\<close>

definition idle_sweep :: "int \<Rightarrow> int \<Rightarrow> int \<Rightarrow> (nat \<Rightarrow> int) \<Rightarrow> (nat \<Rightarrow> sessionContext) \<Rightarrow> nat set" where
  "idle_sweep limitAtInit limit t activeTime ctx =
     (if limitAtInit > 0 then {i. scEmpty (ctx i) \<and> t - activeTime i > limit} else {})"

section \<open>Lemmas\<close>

lemma serverAuth_Inr:
  "serverAuthSession cipher order s raddr f p recv t = (Inr r, eff) \<Longrightarrow>
   recv = Inr r \<and> VerifyUser cipher (arUser r) \<and> IsValidCompressor (arCompressMethod r) \<and> aeResponse eff \<noteq> None"
  by (auto simp: serverAuthSession_def Let_def split: prod.splits if_splits sum.splits)

text \<open>A session that has not authenticated stays so until it does.\<close>

lemma serv_authenticated:
  assumes "ServProxyMuxSession cipher order s raddr p (c, t) evs = (as, ct')" "a \<in> set as" "a = ToProxy \<or> a = ToP2P"
  shows "scAuth c \<noteq> None \<or> (\<exists>r. DidAuth r \<in> set (takeWhile (\<lambda>x. x \<noteq> a) as) \<and> VerifyUser cipher (arUser r))"
  using assms
proof (induction evs arbitrary: c t as)
  case (Cons ev evs)
  obtain b c1 t1 where r: "serv_round cipher order s raddr p (c, t) ev = (b, (c1, t1))" by (metis prod_cases3)
  show ?case
  proof (cases "scAuth c = None")
    case True
    then have b: "(\<exists>e. b = Ended e) \<or> (\<exists>q. b = DidAuth q \<and> VerifyUser cipher (arUser q))"
      using r by (auto simp: serv_round_def note_empty_def ctx_close_def split: serv_event.splits sum.splits prod.splits dest: serverAuth_Inr)
    then show ?thesis
    proof (elim disjE exE conjE)
      fix e assume "b = Ended e"
      then show ?thesis using Cons.prems r by auto
    next
      fix q assume q: "b = DidAuth q" "VerifyUser cipher (arUser q)"
      then obtain as' where "as = DidAuth q # as'" using Cons.prems(1) r by (auto split: prod.splits)
      then show ?thesis using Cons.prems(3) q(2) by (intro disjI2 exI [of _ q]) auto
    qed
  qed simp
qed simp

text \<open>Once a session belongs to a peer's tunnel exchange, every stream is read as an
  authentication; once it is a P2P session, no stream goes to the proxy.\<close>

lemma serv_no_proxy:
  assumes "ServProxyMuxSession cipher order s raddr p (c, t) evs = (as, ct')" "scP2P c" "scAuth c \<noteq> None"
  shows "ToProxy \<notin> set as"
  using assms
proof (induction evs arbitrary: c t as ct')
  case (Cons ev evs)
  obtain b c1 t1 where r: "serv_round cipher order s raddr p (c, t) ev = (b, (c1, t1))" by (metis prod_cases3)
  have b: "b \<noteq> ToProxy \<and> ((\<exists>e. b = Ended e) \<or> scP2P c1 \<and> scAuth c1 \<noteq> None)"
    using r Cons.prems(2,3)
    by (auto simp: serv_round_def note_empty_def ctx_close_def split: serv_event.splits sum.splits prod.splits if_splits)
  show ?case
  proof (cases "\<exists>e. b = Ended e")
    case True
    with Cons.prems r show ?thesis by auto
  next
    case False
    obtain as' ct2 where 2: "ServProxyMuxSession cipher order s raddr p (c1, t1) evs = (as', ct2)"
      by (cases "ServProxyMuxSession cipher order s raddr p (c1, t1) evs")
    then have "as = b # as'" using Cons.prems(1) r False by (cases b) auto
    with Cons.IH [OF 2] b False show ?thesis by auto
  qed
qed simp

section \<open>Hops\<close>

text \<open>A request goes from server to server: each one either dials or passes it on as the request
  its \<open>Connect\<close> would send.\<close>

fun follow :: "nat \<Rightarrow> (string \<Rightarrow> ProxyLimitConfig) \<Rightarrow> string \<Rightarrow> ConnectRequest \<Rightarrow> string list \<times> route" where
  "follow 0 limits here req = ([here], BadRequest)"
| "follow (Suc n) limits here req =
     (case route_request (limits here) (None, req) of
        NextHop hop net addr opt \<Rightarrow>
          (case follow n limits hop \<lparr>crNetwork = net, crAddr = addr, crDialTimeout = soDialTimeout opt,
                crReadTimeout = soReadTimeout opt, crHops = soHops opt\<rparr> of (path, r) \<Rightarrow> (here # path, r))
      | r \<Rightarrow> ([here], r))"

lemma follow_hops:
  "\<lbrakk>length (crHops req) < n; \<forall>h \<in> set (here # crHops req). Allowed (limits h) (crAddr req)\<rbrakk> \<Longrightarrow>
   follow n limits here req =
     (here # crHops req, DialHere (crNetwork req) (crAddr req) (if crDialTimeout req = 0 then 10000 else crDialTimeout req))"
proof (induction n arbitrary: here req)
  case (Suc n)
  show ?case
  proof (cases "crHops req")
    case Nil
    with Suc.prems show ?thesis by (simp add: route_request_def Let_def)
  next
    case (Cons h hs)
    let ?req = "\<lparr>crNetwork = crNetwork req, crAddr = crAddr req, crDialTimeout = crDialTimeout req,
                crReadTimeout = crReadTimeout req, crHops = hs\<rparr>"
    have "follow n limits h ?req = (h # hs, DialHere (crNetwork req) (crAddr req) (if crDialTimeout req = 0 then 10000 else crDialTimeout req))"
      using Suc.IH [of ?req h] Suc.prems Cons by simp
    with Suc.prems Cons show ?thesis by (simp add: route_request_def Let_def)
  qed
qed simp

section \<open>Properties\<close>

text \<open>C2: no stream is served before the session has authenticated: in every run of the accept loop
  that starts without an authentication, a stream is handed to a handler only after a request
  of an allowed user has been accepted.\<close>

theorem no_service_before_auth:
  assumes "ServProxyMuxSession cipher order s raddr p (new_ctx None, t) evs = (as, ct')"
    and "a \<in> set as" "a = ToProxy \<or> a = ToP2P"
  shows "\<exists>r. DidAuth r \<in> set (takeWhile (\<lambda>x. x \<noteq> a) as) \<and> VerifyUser cipher (arUser r)"
  using serv_authenticated [OF assms] by (simp add: new_ctx_def)

definition plain_auth :: AuthRequest where
  "plain_auth = empty_auth\<lparr>arUser := ''u'', arCompressMethod := ''none''\<rparr>"

definition one_user :: CipherConfig where
  "one_user = \<lparr>User = [], CMethod = [], CKey = [], allowedUser = [''u'']\<rparr>"

lemma no_service_before_auth_witness:
  "\<exists>r. DidAuth r \<in> set (takeWhile (\<lambda>x. x \<noteq> ToProxy) [DidAuth plain_auth, ToProxy]) \<and> VerifyUser one_user (arUser r)"
proof -
  have 1: "ServProxyMuxSession one_user [] 0 None False (new_ctx None, Map.empty) [EvStream (Inr plain_auth), EvStream (Inr plain_auth)] =
     ([DidAuth plain_auth, ToProxy], ((new_ctx (Some plain_auth))\<lparr>scFirst := False, scEmpty := True\<rparr>, Map.empty))"
    by (simp add: serv_round_def note_empty_def serverAuthSession_def no_raddr_panic_def new_ctx_def plain_auth_def one_user_def empty_auth_def VerifyUser_def
        IsValidCompressor_def NoneCompressor_def SnappyCompressor_def Let_def)
  show ?thesis by (rule no_service_before_auth [OF 1]) simp_all
qed

text \<open>the streams of a P2P session, once it has joined its room, never reach the proxy: the server
  does not dial anything for it.\<close>

theorem p2p_session_never_proxied:
  assumes "serv_round cipher order s raddr p (new_ctx None, t) (EvStream (Inr q)) = (DidAuth q, ct)" "arP2PToken q \<noteq> []"
    and "ServProxyMuxSession cipher order s raddr p ct evs = (as, ct')"
  shows "ToProxy \<notin> set as"
proof -
  obtain c t1 where ct: "ct = (c, t1)" by fastforce
  have "scP2P c \<and> scAuth c \<noteq> None"
    using assms(1,2) ct by (auto simp: serv_round_def new_ctx_def split: sum.splits prod.splits)
  with serv_no_proxy [of cipher order s raddr p c t1 evs as ct'] assms(3) ct show ?thesis by simp
qed

lemma p2p_session_never_proxied_witness:
  "ToProxy \<notin> set [ToP2P]"
proof -
  let ?q = "plain_auth\<lparr>arP2PToken := ''t''\<rparr>"
  let ?c = "(new_ctx (Some ?q))\<lparr>scFirst := False, scP2P := True\<rparr>"
  let ?t = "[''t'' \<mapsto> [[] \<mapsto> new_node\<lparr>nSessions := {0}\<rparr>]]"
  have 1: "serv_round one_user [] 0 None False (new_ctx None, Map.empty) (EvStream (Inr ?q)) = (DidAuth ?q, (?c, ?t))"
    by (simp add: serv_round_def note_empty_def serverAuthSession_def no_raddr_panic_def new_ctx_def plain_auth_def one_user_def empty_auth_def VerifyUser_def
        IsValidCompressor_def NoneCompressor_def SnappyCompressor_def Let_def addP2PSession_def room_size_def new_node_def)
  have 2: "ServProxyMuxSession one_user [] 0 None False (?c, ?t) [EvStream (Inr ?q)] = ([ToP2P], (?c\<lparr>scEmpty := True\<rparr>, ?t))"
    by (simp add: serv_round_def note_empty_def new_ctx_def)
  show ?thesis by (rule p2p_session_never_proxied [OF 1 _ 2]) simp
qed

text \<open>a client is accepted exactly when its user is allowed, its compressor is known, and, if it
  names a room, the room takes it and the address it is to tell is known; then the server answers
  that it is accepted, and otherwise, unless that address is missing and the program panics, it closes the session without an answer.\<close>

theorem server_accepts_iff:
  assumes "serverAuthSession cipher order s raddr first isPmux (Inr q) t = (res, eff)"
  shows "(res = Inr q \<longleftrightarrow> VerifyUser cipher (arUser q) \<and> IsValidCompressor (arCompressMethod q) \<and>
      (arP2PToken q = [] \<or> fst (addP2PSession q s (case raddr of Some a \<Rightarrow> a | None \<Rightarrow> []) t)) \<and> \<not> no_raddr_panic q raddr) \<and>
    (res = Inr q \<longrightarrow> \<not> aeClosed eff \<and> (\<exists>a. aeResponse eff = Some a \<and> \<not> auth_error a)) \<and>
    (res \<noteq> Inr q \<and> \<not> no_raddr_panic q raddr \<longrightarrow> res = Inl ErrAuthFailed \<and> aeClosed eff \<and> aeResponse eff = None)"
  using assms
  by (auto simp: serverAuthSession_def auth_response_def auth_error_def no_raddr_panic_def Let_def split: prod.splits if_splits option.splits)

lemma server_accepts_iff_witness:
  "fst (serverAuthSession one_user [] 0 None True True (Inr plain_auth) Map.empty) = Inr plain_auth \<longleftrightarrow>
     VerifyUser one_user (arUser plain_auth) \<and> IsValidCompressor (arCompressMethod plain_auth) \<and>
     (arP2PToken plain_auth = [] \<or> fst (addP2PSession plain_auth 0 [] Map.empty)) \<and> \<not> no_raddr_panic plain_auth None"
  using server_accepts_iff [OF prod.collapse [symmetric], of one_user "[]" 0 None True True plain_auth Map.empty] by simp

text \<open>C26: a request with hops visits exactly these hops, in their order, and is dialled at the last
  one with the network, the address and the timeout the client asked for.\<close>

theorem hops_followed:
  assumes "\<forall>h \<in> set (here # crHops req). Allowed (limits h) (crAddr req)"
  shows "follow (Suc (length (crHops req))) limits here req =
     (here # crHops req, DialHere (crNetwork req) (crAddr req) (if crDialTimeout req = 0 then 10000 else crDialTimeout req))"
  using follow_hops [of req "Suc (length (crHops req))" here limits] assms by simp

lemma hops_followed_witness:
  "follow (Suc (length [''b'', ''c''])) (\<lambda>_. \<lparr>WhiteList = [], BlackList = []\<rparr>) ''a'' (empty_connect\<lparr>crAddr := ''x:1'', crHops := [''b'', ''c'']\<rparr>) =
     (''a'' # [''b'', ''c''], DialHere [] ''x:1'' 10000)"
  using hops_followed [of "''a''" "empty_connect\<lparr>crAddr := ''x:1'', crHops := [''b'', ''c'']\<rparr>" "\<lambda>_. \<lparr>WhiteList = [], BlackList = []\<rparr>"]
  by (simp add: empty_connect_def Allowed_def)

text \<open>a limit made of plain host names does not work: the limit is asked about the address of the
  request, which has a port, so a black list of names refuses nothing and a white list of
  names refuses everything.\<close>

theorem plain_limit_ineffective:
  assumes "\<forall>r \<in> set (WhiteList l) \<union> set (BlackList l). plain_pattern r \<and> CHR '':'' \<notin> set r"
    and "crAddr req = host @ '':'' @ port" "WhiteList l \<noteq> [] \<or> BlackList l \<noteq> []"
  shows "route_request l (None, req) = NotAllowed \<longleftrightarrow> BlackList l = []"
proof -
  have star: "\<not> plain_pattern ''*''" by (simp add: plain_pattern_def)
  have "in_rules rs (crAddr req) = False" if "\<forall>r \<in> set rs. plain_pattern r \<and> CHR '':'' \<notin> set r" for rs
    using that star by (induction rs) (auto simp: rule_matches_def Match_plain assms(2))
  with assms(1,3) have "Allowed l (crAddr req) \<longleftrightarrow> BlackList l \<noteq> []" by (auto simp: Allowed_def)
  then show ?thesis by (simp add: route_request_def Let_def split: list.splits)
qed

lemma plain_limit_ineffective_witness:
  "route_request \<lparr>WhiteList = [], BlackList = [''evil'']\<rparr> (None, empty_connect\<lparr>crAddr := ''evil:80''\<rparr>) = NotAllowed \<longleftrightarrow> [''evil''] = ([] :: string list)"
  using plain_limit_ineffective [of "\<lparr>WhiteList = [], BlackList = [''evil'']\<rparr>" "empty_connect\<lparr>crAddr := ''evil:80''\<rparr>" "''evil''" "''80''"]
  by (simp add: plain_pattern_def)

end
