(* ===== verification/GfwList.thy ===== *)
theory GfwList
  imports GoNet HelperText
begin

text \<open>
  The GFW list (\<open>common/gfwlist/gfwlist.go\<close>): its rules, the matching of a request, the
  parser of the list, and the loading of the list from the cache file and the network.

  A rule may write the request (\<open>req.URL.Scheme = "https"\<close>), so matching returns the
  request it leaves. The regular expressions of package \<open>regexp\<close> are a parameter \<open>rx\<close>
  (\<open>rx pattern text\<close> is false for an invalid pattern). The slice \<open>str[1:len(str)-1]\<close> of a
  single slash is out of range; the parser then returns \<open>None\<close> (a Go panic).
\<close>

section \<open>Requests and rules\<close>

text \<open>What the rules read of an \<open>http.Request\<close>: its host, and of its URL the scheme, the
  authority and the rest.\<close>

record hreq =
  hqMethod :: string
  hqHost :: string
  hqScheme :: string
  hqAuthority :: string
  hqTail :: string

text \<open>\<open>URL.String\<close>.\<close>

definition url_string :: "hreq \<Rightarrow> string" where
  "url_string q =
     (if hqScheme q = [] then [] else hqScheme q @ '':'') @
     (if (hqScheme q \<noteq> [] \<or> hqAuthority q \<noteq> []) \<and> (hqAuthority q \<noteq> [] \<or> hqTail q \<noteq> []) then ''//'' @ hqAuthority q else []) @
     (if hqTail q \<noteq> [] \<and> hd (hqTail q) \<notin> {CHR ''/'', CHR ''?'', CHR ''#''} \<and> hqAuthority q \<noteq> [] then ''/'' else []) @
     hqTail q"

datatype gfwRule =
    HostWildcard string
  | UrlWildcard string bool
  | RegexRule string
  | WhiteListRule gfwRule

definition https_if_none :: "hreq \<Rightarrow> hreq" where
  "https_if_none q = (if hqScheme q = [] then q\<lparr>hqScheme := ''https''\<rparr> else q)"

fun rule_match :: "(string \<Rightarrow> string \<Rightarrow> bool) \<Rightarrow> gfwRule \<Rightarrow> hreq \<Rightarrow> bool \<times> hreq" where
  "rule_match rx (HostWildcard p) q = (Contains (hqHost q) p, q)"
| "rule_match rx (UrlWildcard p pre) q =
     (let q' = https_if_none q
      in if pre then (HasPrefix (url_string q') p, q') else (Contains (url_string q') p, q'))"
| "rule_match rx (RegexRule p) q = (let q' = https_if_none q in (rx p (url_string q'), q'))"
| "rule_match rx (WhiteListRule r) q = rule_match rx r q"

fun is_white :: "gfwRule \<Rightarrow> bool" where
  "is_white (WhiteListRule r) = True"
| "is_white _ = False"

section \<open>Decisions\<close>

record gfwlist =
  ruleMap :: "string \<rightharpoonup> gfwRule"
  ruleList :: "gfwRule list"

text \<open>\<open>FastMatchDoamin\<close>: the key under which the domain rules are looked up second.\<close>

definition root_domain :: "string \<Rightarrow> string" where
  "root_domain domain =
     (let ss = Split domain CHR ''.''; n = length ss
      in if n > 2 then
           (let r = ss ! (n - 2) @ ''.'' @ ss ! (n - 1)
            in if length (ss ! (n - 2)) < 4 \<and> n \<ge> 3 then ss ! (n - 3) @ ''.'' @ r else r)
         else domain)"

definition request_domain :: "hreq \<Rightarrow> string" where
  "request_domain q =
     (if Contains (hqHost q) '':'' then (case SplitHostPort (hqHost q) of Some (h, _) \<Rightarrow> h | None \<Rightarrow> []) else hqHost q)"

definition domain_rule :: "gfwlist \<Rightarrow> string \<Rightarrow> gfwRule option" where
  "domain_rule g d = (case ruleMap g d of Some r \<Rightarrow> Some r | None \<Rightarrow> ruleMap g (root_domain d))"

text \<open>The result is the decision and whether there is one, and the request.\<close>

definition FastMatchDoamin :: "(string \<Rightarrow> string \<Rightarrow> bool) \<Rightarrow> gfwlist \<Rightarrow> hreq \<Rightarrow> (bool \<times> bool) \<times> hreq" where
  "FastMatchDoamin rx g q =
     (case domain_rule g (request_domain q) of
        Some r \<Rightarrow> (case rule_match rx r q of (m, q') \<Rightarrow> (((if is_white r then \<not> m else m), True), q'))
      | None \<Rightarrow> ((False, False), q))"

fun list_decision :: "(string \<Rightarrow> string \<Rightarrow> bool) \<Rightarrow> gfwRule list \<Rightarrow> hreq \<Rightarrow> bool \<times> hreq" where
  "list_decision rx [] q = (False, q)"
| "list_decision rx (r # rs) q =
     (case rule_match rx r q of
        (True, q') \<Rightarrow> (\<not> is_white r, q')
      | (False, q') \<Rightarrow> list_decision rx rs q')"

definition IsBlockedByGFW :: "(string \<Rightarrow> string \<Rightarrow> bool) \<Rightarrow> gfwlist \<Rightarrow> hreq \<Rightarrow> bool \<times> hreq" where
  "IsBlockedByGFW rx g q =
     (case FastMatchDoamin rx g q of
        ((d, True), q') \<Rightarrow> (d, q')
      | ((_, False), q') \<Rightarrow> list_decision rx (ruleList g) q')"

text \<open>\<open>clone\<close>: what a refresh takes over of the new list.\<close>

definition clone :: "gfwlist \<Rightarrow> gfwlist \<Rightarrow> gfwlist" where
  "clone g n = g\<lparr>ruleList := ruleList n\<rparr>"

section \<open>The parser\<close>

text \<open>\<open>bufio.Reader.ReadLine\<close> on the text: a line of 4096 bytes or more comes in pieces, and
  the flag that tells so is ignored.\<close>

function read_lines :: "string \<Rightarrow> string list" where
  "read_lines s =
     (if s = [] then []
      else let w = takeWhile (\<lambda>c. c \<noteq> nl) s in
        if length w < 4096 then
          (if w = s then [w] else drop_cr w # read_lines (drop (Suc (length w)) s))
        else if s ! 4095 = CHR 0x0D then take 4095 s # read_lines (drop 4095 s)
        else take 4096 s # read_lines (drop 4096 s))"
  by pat_completeness auto
termination
  by (relation "measure length") auto

declare read_lines.simps [simp del]

text \<open>The rule of a line, and the key under which it is put if it is a host rule.\<close>

definition rule_of :: "string \<Rightarrow> (gfwRule \<times> string option) option" where
  "rule_of str =
     (if HasPrefix str ''/'' \<and> HasSuffix str ''/'' then
        (if length str < 2 then None else Some (RegexRule (butlast (tl str)), None))
      else if HasPrefix str ''||'' then Some (HostWildcard (drop 2 str), Some (drop 2 str))
      else if HasPrefix str ''|'' then Some (UrlWildcard (tl str) True, None)
      else if \<not> Contains str ''/'' then
        Some (HostWildcard str, Some (if HasPrefix str ''.'' then tl str else str))
      else Some (UrlWildcard str False, None))"

definition parse_line :: "string \<Rightarrow> gfwlist \<Rightarrow> gfwlist option" where
  "parse_line line g =
     (let str = TrimSpace line
      in if HasPrefix str ''!'' \<or> str = [] \<or> HasPrefix str ''['' then Some g
         else let white = HasPrefix str ''@@''; str' = (if white then drop 2 str else str)
           in case rule_of str' of
                None \<Rightarrow> None
              | Some (r, key) \<Rightarrow>
                  (let rule = (if white then WhiteListRule r else r)
                   in case key of
                        Some k \<Rightarrow> Some (g\<lparr>ruleMap := (ruleMap g)(k \<mapsto> rule)\<rparr>)
                      | None \<Rightarrow> Some (g\<lparr>ruleList := ruleList g @ [rule]\<rparr>)))"

fun parse_lines :: "string list \<Rightarrow> gfwlist \<Rightarrow> gfwlist option" where
  "parse_lines [] g = Some g"
| "parse_lines (l # ls) g = (case parse_line l g of None \<Rightarrow> None | Some g' \<Rightarrow> parse_lines ls g')"

definition empty_list :: gfwlist where
  "empty_list = \<lparr>ruleMap = Map.empty, ruleList = []\<rparr>"

definition Parse :: "string \<Rightarrow> gfwlist option" where
  "Parse rules = parse_lines (read_lines rules) empty_list"

text \<open>\<open>ParseRaw\<close>; \<open>b64\<close> is the decoder of \<open>encoding/base64\<close>. The outer option is the decoding
  error.\<close>

definition ParseRaw :: "(string \<Rightarrow> string option) \<Rightarrow> string \<Rightarrow> gfwlist option option" where
  "ParseRaw b64 rules = (case b64 rules of None \<Rightarrow> None | Some c \<Rightarrow> Some (Parse c))"

section \<open>Loading\<close>

text \<open>The variables \<open>nextFetchTime\<close> (in seconds) and \<open>firstFetch\<close> of \<open>NewGFWList\<close> and the cache
  file. One call of \<open>fetch\<close> gets what the network returns to it: the text of a 200
  response, or nothing. \<open>cacheWanted\<close> says that a cache file is configured.\<close>

record fetcher =
  nextFetchTime :: nat
  firstFetch :: bool
  cache :: "string option"
  fetches :: nat

definition new_fetcher :: "string option \<Rightarrow> fetcher" where
  "new_fetcher c = \<lparr>nextFetchTime = 21600, firstFetch = True, cache = c, fetches = 0\<rparr>"

definition with_user_rules :: "string list \<Rightarrow> string \<Rightarrow> string" where
  "with_user_rules rules c =
     (if rules = [] then c
      else c @ nl # ''!################User Rule List Begin#################'' @ [nl] @
        concat (map (\<lambda>r. r @ [nl]) rules) @
        ''!################User Rule List End#################'' @ [nl])"

definition fetch :: "(string \<Rightarrow> string option) \<Rightarrow> bool \<Rightarrow> string list \<Rightarrow> string option \<Rightarrow> fetcher \<Rightarrow> string option \<times> fetcher" where
  "fetch b64 cacheWanted rules net f =
     (let fromCache = firstFetch f \<and> cacheWanted \<and> cache f \<noteq> None;
          content = (if fromCache then (case cache f of Some c \<Rightarrow> c | None \<Rightarrow> []) else []);
          f1 = (if fromCache then f\<lparr>nextFetchTime := 30\<rparr> else f)
      in if content = [] \<or> \<not> firstFetch f then
           (let f2 = f1\<lparr>firstFetch := False, fetches := Suc (fetches f1)\<rparr>
            in case net of None \<Rightarrow> (None, f2)
               | Some body \<Rightarrow>
                   (case b64 body of None \<Rightarrow> (None, f2)
                    | Some plain \<Rightarrow>
                        (let c = with_user_rules rules plain
                         in (Some c, if cacheWanted then f2\<lparr>cache := Some c\<rparr> else f2))))
         else (Some content, f1))"

text \<open>\<open>NewGFWList\<close> and the rounds of its watching goroutine. \<open>None\<close> as the list stands for an
  error return; a list that makes the parser panic ends the program (\<open>watch_round\<close> then gives
  \<open>None\<close>).\<close>

datatype 'a loaded = Loaded 'a | LoadError | LoadPanic

definition NewGFWList :: "(string \<Rightarrow> string option) \<Rightarrow> bool \<Rightarrow> string list \<Rightarrow> string option \<Rightarrow> string option \<Rightarrow>
    gfwlist loaded \<times> fetcher" where
  "NewGFWList b64 cacheWanted rules cached net =
     (case fetch b64 cacheWanted rules net (new_fetcher cached) of
        (None, f) \<Rightarrow> (LoadError, f)
      | (Some c, f) \<Rightarrow> ((case Parse c of None \<Rightarrow> LoadPanic | Some g \<Rightarrow> Loaded g), f))"

definition watch_round :: "(string \<Rightarrow> string option) \<Rightarrow> bool \<Rightarrow> string list \<Rightarrow> gfwlist \<times> fetcher \<Rightarrow> string option \<Rightarrow>
    (gfwlist \<times> fetcher) option" where
  "watch_round b64 cacheWanted rules gf net =
     (case gf of (g, f) \<Rightarrow>
       (case fetch b64 cacheWanted rules net f of
          (None, f') \<Rightarrow> Some (g, f')
        | (Some c, f') \<Rightarrow> (case Parse c of None \<Rightarrow> None | Some n \<Rightarrow> Some (clone g n, f'))))"

fun watch :: "(string \<Rightarrow> string option) \<Rightarrow> bool \<Rightarrow> string list \<Rightarrow> gfwlist \<times> fetcher \<Rightarrow> string option list \<Rightarrow>
    (gfwlist \<times> fetcher) option" where
  "watch b64 cw rules gf [] = Some gf"
| "watch b64 cw rules gf (n # ns) =
     (case watch_round b64 cw rules gf n of None \<Rightarrow> None | Some gf' \<Rightarrow> watch b64 cw rules gf' ns)"

section \<open>Lemmas\<close>

lemma is_white_iff: "is_white r \<longleftrightarrow> (\<exists>s. r = WhiteListRule s)"
  by (cases r) auto

lemma rule_match_host [frame_simps]: "hqHost (snd (rule_match rx r q)) = hqHost q"
  by (induction rx r q rule: rule_match.induct) (auto simp: https_if_none_def Let_def)

lemma rule_match_scheme: "snd (rule_match rx r q) = q \<or> snd (rule_match rx r q) = https_if_none q"
  by (induction rx r q rule: rule_match.induct) (auto simp: Let_def)

lemma https_if_none_idem [simp]: "https_if_none (https_if_none q) = https_if_none q"
  by (simp add: https_if_none_def)

text \<open>What a rule answers does not depend on whether an earlier rule has completed the scheme.\<close>

lemma rule_match_https: "fst (rule_match rx r (https_if_none q)) = fst (rule_match rx r q)"
  by (induction rx r q rule: rule_match.induct) (auto simp: Let_def https_if_none_def)

lemma list_decision_https: "fst (list_decision rx rs (https_if_none q)) = fst (list_decision rx rs q)"
proof (induction rs arbitrary: q)
  case (Cons r rs)
  have f: "fst (rule_match rx r (https_if_none q)) = fst (rule_match rx r q)" by (rule rule_match_https)
  have s: "snd (rule_match rx r q) = q \<or> snd (rule_match rx r q) = https_if_none q" by (rule rule_match_scheme)
  have t: "snd (rule_match rx r (https_if_none q)) = https_if_none q"
    using rule_match_scheme [of rx r "https_if_none q"] by simp
  show ?case
    using f s t Cons.IH [of q]
    by (cases "rule_match rx r q"; cases "rule_match rx r (https_if_none q)") (auto split: bool.splits)
qed simp

text \<open>The list decides by its first rule that matches.\<close>

lemma list_decision_find:
  "fst (list_decision rx rs q) =
     (case find (\<lambda>r. fst (rule_match rx r q)) rs of None \<Rightarrow> False | Some r \<Rightarrow> \<not> is_white r)"
proof (induction rs arbitrary: q)
  case (Cons r rs)
  have s: "snd (rule_match rx r q) = q \<or> snd (rule_match rx r q) = https_if_none q" by (rule rule_match_scheme)
  show ?case
    using s Cons.IH [of q] list_decision_https [of rx rs q]
    by (cases "rule_match rx r q") (auto split: bool.splits)
qed simp

lemma fetch_cached:
  "\<lbrakk>cacheWanted; firstFetch f; cache f = Some c; c \<noteq> []\<rbrakk> \<Longrightarrow>
   fetch b64 cacheWanted rules net f = (Some c, f\<lparr>nextFetchTime := 30\<rparr>)"
  by (simp add: fetch_def Let_def)

lemma watch_cached:
  "\<lbrakk>firstFetch f; cache f = Some c; c \<noteq> []; Parse c = Some n\<rbrakk> \<Longrightarrow>
   \<exists>f'. watch b64 True rules (g, f) nets = Some ((if nets = [] then g else clone g n), f') \<and>
        fetches f' = fetches f \<and> firstFetch f' \<and> cache f' = Some c"
proof (induction nets arbitrary: g f)
  case (Cons x nets)
  have r: "watch_round b64 True rules (g, f) x = Some (clone g n, f\<lparr>nextFetchTime := 30\<rparr>)"
    using Cons.prems by (simp add: watch_round_def fetch_cached)
  have c: "clone (clone g n) n = clone g n" by (simp add: clone_def)
  show ?case using r c Cons.IH [of "f\<lparr>nextFetchTime := 30\<rparr>" "clone g n"] Cons.prems by auto
qed auto

lemma parse_lines_append:
  "parse_lines (xs @ ys) g = (case parse_lines xs g of None \<Rightarrow> None | Some g' \<Rightarrow> parse_lines ys g')"
  by (induction xs arbitrary: g) (auto split: option.splits)

text \<open>The rules of the list keep the order of the text; a host rule replaces an earlier one for the
  same key.\<close>

lemma parse_line_map_frame:
  assumes "parse_line l g = Some g'" "\<forall>r k. rule_of (if HasPrefix (TrimSpace l) ''@@'' then drop 2 (TrimSpace l) else TrimSpace l) = Some (r, Some k) \<longrightarrow> k \<noteq> d"
  shows "ruleMap g' d = ruleMap g d"
  using assms by (auto simp: parse_line_def Let_def split: option.splits if_splits prod.splits)

lemma parse_line_list_grows:
  "parse_line l g = Some g' \<Longrightarrow> \<exists>rs. ruleList g' = ruleList g @ rs"
  by (auto simp: parse_line_def Let_def split: option.splits if_splits prod.splits)

section \<open>Properties\<close>

text \<open>outside the domain table, a request is decided by the first rule of the list that matches
  it: blocked unless that rule is an exception, and not blocked when no rule matches; the
  completion of the request's scheme by one rule does not change the answer of another.\<close>

theorem gfw_first_rule_decides:
  assumes "domain_rule g (request_domain q) = None"
  shows "fst (IsBlockedByGFW rx g q) \<longleftrightarrow>
     (case find (\<lambda>r. fst (rule_match rx r q)) (ruleList g) of None \<Rightarrow> False | Some r \<Rightarrow> \<not> is_white r)"
  using list_decision_find [of rx "ruleList g" q] assms by (simp add: IsBlockedByGFW_def FastMatchDoamin_def)

definition example_req :: hreq where
  "example_req = \<lparr>hqMethod = ''GET'', hqHost = ''a.b'', hqScheme = [], hqAuthority = ''a.b'', hqTail = ''/x''\<rparr>"

lemma gfw_first_rule_decides_witness:
  "fst (IsBlockedByGFW (\<lambda>_ _. False) (empty_list\<lparr>ruleList := [UrlWildcard ''https://a'' True]\<rparr>) example_req)"
  using gfw_first_rule_decides [of "empty_list\<lparr>ruleList := [UrlWildcard ''https://a'' True]\<rparr>" example_req "\<lambda>_ _. False"]
  by (simp add: domain_rule_def empty_list_def Let_def example_req_def https_if_none_def url_string_def)

text \<open>an exception for a domain written with a leading dot blocks the domain itself: the rule
  \<open>@@.d\<close> is put under \<open>d\<close> but matches only hosts that contain \<open>.d\<close>, and an exception that does not
  match counts as blocked.\<close>

theorem dotted_exception_blocks:
  assumes "parse_line (''@@.'' @ d) g = Some g'" "TrimSpace (''@@.'' @ d) = ''@@.'' @ d" "CHR ''/'' \<notin> set d" "CHR '':'' \<notin> set d"
    and "hqHost q = d"
  shows "fst (IsBlockedByGFW rx g' q)"
proof -
  have sl: "\<not> Contains (CHR ''.'' # d) ''/''" "\<not> Contains d '':''"
    using assms(3,4) by (simp_all add: Contains_single)
  then have "ruleMap g' d = Some (WhiteListRule (HostWildcard (CHR ''.'' # d)))"
    using assms(1,2) by (auto simp: parse_line_def rule_of_def Let_def HasPrefix_def)
  moreover have "\<not> Contains d (CHR ''.'' # d)"
    unfolding Contains_def by (auto dest: sublist_length_le)
  ultimately show ?thesis
    using assms(5) sl by (simp add: IsBlockedByGFW_def FastMatchDoamin_def request_domain_def domain_rule_def)
qed

lemma dotted_exception_blocks_witness:
  "fst (IsBlockedByGFW (\<lambda>_ _. False) (empty_list\<lparr>ruleMap := [''a.b'' \<mapsto> WhiteListRule (HostWildcard ''.a.b'')]\<rparr>) example_req)"
  by (rule dotted_exception_blocks [of "''a.b''" empty_list])
     (simp_all add: parse_line_def rule_of_def TrimSpace_def is_space_def Let_def HasPrefix_def HasSuffix_def Contains_def
        empty_list_def example_req_def sublist_code)

text \<open>a refresh never takes over a domain rule: a request decided by the domain table is decided
  the same way after any number of refreshes, whatever the new lists say.\<close>

theorem refresh_keeps_domain_rules:
  assumes "domain_rule g (request_domain q) = Some r"
  shows "IsBlockedByGFW rx (foldl clone g ns) q = IsBlockedByGFW rx g q"
proof -
  have "ruleMap (foldl clone g ns) = ruleMap g"
    by (induction ns arbitrary: g) (simp_all add: clone_def)
  then have "domain_rule (foldl clone g ns) (request_domain q) = domain_rule g (request_domain q)"
    by (simp only: domain_rule_def)
  with assms show ?thesis by (simp add: IsBlockedByGFW_def FastMatchDoamin_def split: prod.splits)
qed

lemma refresh_keeps_domain_rules_witness:
  "IsBlockedByGFW (\<lambda>_ _. False) (foldl clone (empty_list\<lparr>ruleMap := [''a.b'' \<mapsto> HostWildcard ''a.b'']\<rparr>) [empty_list]) example_req =
   IsBlockedByGFW (\<lambda>_ _. False) (empty_list\<lparr>ruleMap := [''a.b'' \<mapsto> HostWildcard ''a.b'']\<rparr>) example_req"
  by (rule refresh_keeps_domain_rules [of _ _ "HostWildcard ''a.b''"])
     (simp add: domain_rule_def request_domain_def example_req_def Contains_def sublist_code)

text \<open>with a cache file that is there at the start, the list is never fetched: every round of the
  watching goroutine reads the cache file again, whatever the network would give.\<close>

theorem cached_list_never_fetched:
  assumes "c \<noteq> []" "Parse c = Some g"
  shows "NewGFWList b64 True rules (Some c) net = (Loaded g, (new_fetcher (Some c))\<lparr>nextFetchTime := 30\<rparr>) \<and>
    (\<exists>f'. watch b64 True rules (g, (new_fetcher (Some c))\<lparr>nextFetchTime := 30\<rparr>) nets = Some (g, f') \<and> fetches f' = 0)"
proof -
  have c: "clone g g = g" by (simp add: clone_def)
  have 1: "firstFetch (new_fetcher (Some c))" "cache (new_fetcher (Some c)) = Some c" "fetches (new_fetcher (Some c)) = 0"
    by (simp_all add: new_fetcher_def)
  show ?thesis
    using watch_cached [of "(new_fetcher (Some c))\<lparr>nextFetchTime := 30\<rparr>" c g b64 rules g nets] assms 1 c
    by (simp add: NewGFWList_def fetch_cached) metis
qed

lemma cached_list_never_fetched_witness:
  "NewGFWList Some True [] (Some ''!'') None = (Loaded empty_list, (new_fetcher (Some ''!''))\<lparr>nextFetchTime := 30\<rparr>) \<and>
   (\<exists>f'. watch Some True [] (empty_list, (new_fetcher (Some ''!''))\<lparr>nextFetchTime := 30\<rparr>) [Some ''fresh''] = Some (empty_list, f') \<and> fetches f' = 0)"
  by (rule cached_list_never_fetched)
     (simp_all add: Parse_def read_lines.simps parse_line_def TrimSpace_def is_space_def nl_def)

text \<open>a list with a line that is a single slash, even as an exception, ends the program.\<close>

theorem slash_rule_panics:
  assumes "TrimSpace l \<in> {''/'', ''@@/''}"
  shows "parse_lines (pre @ l # post) g = None"
proof -
  have "parse_line l h = None" for h
    using assms by (elim insertE) (simp_all add: parse_line_def rule_of_def HasSuffix_def Let_def HasPrefix_def)
  then show ?thesis by (cases "parse_lines pre g") (simp_all add: parse_lines_append)
qed

lemma slash_rule_panics_witness: "parse_lines ([''!''] @ ''/ '' # [''||a'']) empty_list = None"
  by (rule slash_rule_panics) (simp add: TrimSpace_def is_space_def)

end
