(* ===== verification/Hosts.thy ===== *)
theory Hosts
  imports GoNet HelperText Interfaces
begin

text \<open>
  The hosts table (\<open>common/hosts/hosts.go\<close>): addresses and aliases of host names, with a
  rotating cursor per entry.

  Entries are pointers in Go: a name that matched a pattern is put into the table under the same
  entry, so it shares the cursor. The entries are therefore kept in a heap (\<open>hEntries\<close>) and
  the table holds their places. \<open>regexp\<close> is a parameter: \<open>compile\<close> says which texts compile,
  \<open>rx\<close> which names they match. The order in which Go ranges over the table is the argument
  \<open>ord\<close>, given for each depth of the recursion. \<open>getHost\<close> calls itself on aliases and has no
  bound, so it gets fuel: \<open>None\<close> is a call that has not returned.
\<close>

section \<open>Entries\<close>

record hostMapping =
  hmHost :: string
  hostRegex :: "string option"
  mapping :: "string list"
  cursor :: nat

record hosts =
  hTable :: "string \<rightharpoonup> nat"
  hEntries :: "hostMapping list"

definition hm_Get :: "hostMapping \<Rightarrow> string \<times> hostMapping" where
  "hm_Get h =
     (let c = (if cursor h \<ge> length (mapping h) then 0 else cursor h)
      in (mapping h ! c, h\<lparr>cursor := c + 1\<rparr>))"

definition entry_Get :: "nat \<Rightarrow> hosts \<Rightarrow> string \<times> hosts" where
  "entry_Get i h = (case hm_Get (hEntries h ! i) of (s, m) \<Rightarrow> (s, h\<lparr>hEntries := (hEntries h)[i := m]\<rparr>))"

section \<open>Lookup\<close>

definition regex_entry :: "(string \<Rightarrow> string \<Rightarrow> bool) \<Rightarrow> string \<Rightarrow> hosts \<Rightarrow> string \<Rightarrow> nat option" where
  "regex_entry rx host h k =
     (case hTable h k of None \<Rightarrow> None
      | Some i \<Rightarrow> (case hostRegex (hEntries h ! i) of None \<Rightarrow> None | Some p \<Rightarrow> if rx p host then Some i else None))"

fun first_some :: "('a \<Rightarrow> 'b option) \<Rightarrow> 'a list \<Rightarrow> 'b option" where
  "first_some f [] = None"
| "first_some f (x # xs) = (case f x of None \<Rightarrow> first_some f xs | Some y \<Rightarrow> Some y)"

fun getHost :: "(string \<Rightarrow> string \<Rightarrow> bool) \<Rightarrow> (nat \<Rightarrow> string list) \<Rightarrow> nat \<Rightarrow> string \<Rightarrow> hosts \<Rightarrow> (string \<times> bool) option \<times> hosts" where
  "getHost rx ord 0 host h = (None, h)"
| "getHost rx ord (Suc n) host h =
     (case hTable h host of
        Some i \<Rightarrow>
          (case entry_Get i h of (s, h1) \<Rightarrow>
             if \<not> Contains s ''.'' then getHost rx ord n s h1 else (Some (s, True), h1))
      | None \<Rightarrow>
          (case first_some (regex_entry rx host h) (ord n) of
             None \<Rightarrow> (Some (host, False), h)
           | Some i \<Rightarrow>
               (case entry_Get i h of (s, h1) \<Rightarrow>
                  if \<not> Contains s ''.'' then getHost rx ord n s h1
                  else (Some (s, True), h1\<lparr>hTable := (hTable h1)(host \<mapsto> i)\<rparr>))))"

definition GetHost :: "(string \<Rightarrow> string \<Rightarrow> bool) \<Rightarrow> (nat \<Rightarrow> string list) \<Rightarrow> nat \<Rightarrow> string \<Rightarrow> hosts \<Rightarrow> string option \<times> hosts" where
  "GetHost rx ord n host h = (case getHost rx ord n host h of (r, h') \<Rightarrow> (map_option fst r, h'))"

definition GetAddr :: "(string \<Rightarrow> string \<Rightarrow> bool) \<Rightarrow> (nat \<Rightarrow> string list) \<Rightarrow> nat \<Rightarrow> string \<Rightarrow> string \<Rightarrow> hosts \<Rightarrow> string option \<times> hosts" where
  "GetAddr rx ord n addr defaultPort h =
     (let sp = SplitHostPort addr;
          host = (case sp of Some (x, _) \<Rightarrow> x | None \<Rightarrow> addr);
          port = (case sp of Some (_, p) \<Rightarrow> p | None \<Rightarrow> defaultPort)
      in case ParseIP host of
           Some _ \<Rightarrow> (Some (JoinHostPort host port), h)
         | None \<Rightarrow> (case getHost rx ord n host h of
               (None, h') \<Rightarrow> (None, h')
             | (Some (s, _), h') \<Rightarrow> (Some (JoinHostPort s port), h')))"

definition InHosts :: "(string \<Rightarrow> string \<Rightarrow> bool) \<Rightarrow> (nat \<Rightarrow> string list) \<Rightarrow> nat \<Rightarrow> string \<Rightarrow> hosts \<Rightarrow> bool option \<times> hosts" where
  "InHosts rx ord n host h =
     (if Contains host '':'' then (Some True, h)
      else case getHost rx ord n host h of (r, h') \<Rightarrow> (map_option snd r, h'))"

section \<open>Loading\<close>

definition Clear :: "hosts \<Rightarrow> hosts" where
  "Clear h = h\<lparr>hTable := Map.empty\<rparr>"

definition new_mapping :: "(string \<Rightarrow> bool) \<Rightarrow> string \<Rightarrow> string list \<Rightarrow> hostMapping" where
  "new_mapping compile k vs =
     \<lparr>hmHost = k,
      hostRegex = (if Contains k ''*'' \<and> compile (Replace1 k CHR ''*'' ''.*'') then Some (Replace1 k CHR ''*'' ''.*'') else None),
      mapping = vs, cursor = 0\<rparr>"

fun add_hosts :: "(string \<Rightarrow> bool) \<Rightarrow> (string \<times> string list) list \<Rightarrow> hosts \<Rightarrow> hosts" where
  "add_hosts compile [] h = h"
| "add_hosts compile ((k, vs) # r) h =
     add_hosts compile r
       (if vs \<noteq> [] then \<lparr>hTable = (hTable h)(k \<mapsto> length (hEntries h)), hEntries = hEntries h @ [new_mapping compile k vs]\<rparr> else h)"

text \<open>\<open>Init\<close>: \<open>json\<close> is the decoder of package \<open>encoding/json\<close>, giving the map in the order in
  which Go ranges over it; the first component is the error return.\<close>

definition hosts_Init :: "(string \<Rightarrow> bool) \<Rightarrow> (string \<Rightarrow> (string \<times> string list) list option) \<Rightarrow> string option \<Rightarrow> hosts \<Rightarrow> bool \<times> hosts" where
  "hosts_Init compile json file h =
     (case ReadWithoutComment file ''//'' of None \<Rightarrow> (False, h)
      | Some data \<Rightarrow> (case json data of None \<Rightarrow> (False, h)
          | Some hs \<Rightarrow> (True, add_hosts compile hs (Clear h))))"

section \<open>The invariant\<close>

text \<open>Every name of the table has an entry with at least one value, so the index in \<open>Get\<close> is in
  range.\<close>

definition hosts_inv :: "hosts \<Rightarrow> bool" where
  "hosts_inv h \<longleftrightarrow> (\<forall>k i. hTable h k = Some i \<longrightarrow> i < length (hEntries h) \<and> mapping (hEntries h ! i) \<noteq> [])"

lemma mapping_entry_Get [frame_simps]: "mapping (hEntries (snd (entry_Get i h)) ! j) = mapping (hEntries h ! j)"
  by (cases "i < length (hEntries h)"; cases "i = j") (auto simp: entry_Get_def hm_Get_def Let_def list_update_beyond split: prod.splits)

lemma length_entry_Get [frame_simps]: "length (hEntries (snd (entry_Get i h))) = length (hEntries h)"
  by (simp add: entry_Get_def split: prod.splits)

lemma hTable_entry_Get [frame_simps]: "hTable (snd (entry_Get i h)) = hTable h"
  by (simp add: entry_Get_def split: prod.splits)

lemma regex_entry_entry_Get [frame_simps]: "regex_entry rx host (snd (entry_Get i h)) = regex_entry rx host h"
proof
  fix k
  have "hostRegex (hEntries (snd (entry_Get i h)) ! j) = hostRegex (hEntries h ! j)" for j
    by (cases "i < length (hEntries h)"; cases "i = j") (auto simp: entry_Get_def hm_Get_def Let_def list_update_beyond split: prod.splits)
  then show "regex_entry rx host (snd (entry_Get i h)) k = regex_entry rx host h k"
    by (simp add: regex_entry_def frame_simps split: option.splits)
qed

lemma entry_Get_value:
  "mapping (hEntries h ! i) \<noteq> [] \<Longrightarrow> fst (entry_Get i h) \<in> set (mapping (hEntries h ! i))"
  by (auto simp: entry_Get_def hm_Get_def Let_def split: prod.splits)

lemma entry_Get_inv [inv_pres]: "hosts_inv h \<Longrightarrow> hosts_inv (snd (entry_Get i h))"
  by (simp add: hosts_inv_def frame_simps)

lemma first_some_mem: "first_some f xs = Some y \<Longrightarrow> \<exists>x \<in> set xs. f x = Some y"
  by (induction xs) (auto split: option.splits)

lemma regex_entry_ok: "\<lbrakk>hosts_inv h; regex_entry rx host h k = Some i\<rbrakk> \<Longrightarrow> i < length (hEntries h) \<and> mapping (hEntries h ! i) \<noteq> []"
  by (auto simp: regex_entry_def hosts_inv_def split: option.splits if_splits)

lemma getHost_inv [inv_pres]: "hosts_inv h \<Longrightarrow> hosts_inv (snd (getHost rx ord n host h))"
proof (induction n arbitrary: host h)
  case (Suc n)
  show ?case
  proof (cases "hTable h host")
    case (Some i)
    obtain s h1 where e: "entry_Get i h = (s, h1)" by fastforce
    with Some Suc.IH [of h1 s] entry_Get_inv [OF Suc.prems, of i] show ?thesis by simp
  next
    case None
    show ?thesis
    proof (cases "first_some (regex_entry rx host h) (ord n)")
      case (Some i)
      from first_some_mem [OF Some] obtain k where k: "regex_entry rx host h k = Some i" by blast
      have "hosts_inv (snd (entry_Get i h))" by (rule entry_Get_inv [OF Suc.prems])
      moreover have "hosts_inv ((snd (entry_Get i h))\<lparr>hTable := (hTable h)(host \<mapsto> i)\<rparr>)"
        using regex_entry_ok [OF Suc.prems k] Suc.prems by (auto simp: hosts_inv_def frame_simps)
      moreover obtain s h1 where e: "entry_Get i h = (s, h1)" by fastforce
      ultimately show ?thesis
        using None Some Suc.IH [of h1 s] hTable_entry_Get [of i h] by simp
    qed (use None Suc.prems in simp)
  qed
qed simp

lemma add_hosts_inv [inv_pres]: "hosts_inv h \<Longrightarrow> hosts_inv (add_hosts compile hs h)"
proof (induction compile hs h rule: add_hosts.induct)
  case (2 compile k vs r h)
  have "hosts_inv (if vs \<noteq> [] then \<lparr>hTable = (hTable h)(k \<mapsto> length (hEntries h)), hEntries = hEntries h @ [new_mapping compile k vs]\<rparr> else h)"
    using 2(2) by (auto simp: hosts_inv_def nth_append new_mapping_def less_Suc_eq)
  with 2(1) show ?case by simp
qed simp

lemma hosts_Init_inv [inv_pres]: "hosts_inv h \<Longrightarrow> hosts_inv (snd (hosts_Init compile json file h))"
  by (auto simp: hosts_Init_def Clear_def hosts_inv_def intro!: add_hosts_inv [unfolded hosts_inv_def] split: option.splits)

text \<open>The operations of the table as events.\<close>

datatype hosts_event =
    HLookup nat string "nat \<Rightarrow> string list"
  | HIn nat string "nat \<Rightarrow> string list"
  | HLoad "string option"
  | HClear

definition hosts_step :: "(string \<Rightarrow> bool) \<Rightarrow> (string \<Rightarrow> (string \<times> string list) list option) \<Rightarrow> (string \<Rightarrow> string \<Rightarrow> bool) \<Rightarrow> hosts \<Rightarrow> hosts_event \<Rightarrow> hosts" where
  "hosts_step compile json rx h e =
     (case e of HLookup n x ord \<Rightarrow> snd (GetHost rx ord n x h)
      | HIn n x ord \<Rightarrow> snd (InHosts rx ord n x h)
      | HLoad f \<Rightarrow> snd (hosts_Init compile json f h)
      | HClear \<Rightarrow> Clear h)"

lemma snd_GetHost [simp]: "snd (GetHost rx ord n x h) = snd (getHost rx ord n x h)"
  by (simp add: GetHost_def split: prod.splits)

lemma snd_InHosts: "snd (InHosts rx ord n x h) = (if Contains x '':'' then h else snd (getHost rx ord n x h))"
  by (simp add: InHosts_def split: prod.splits)

lemma Clear_inv [inv_pres]: "hosts_inv (Clear h)"
  by (simp add: Clear_def hosts_inv_def)

lemma hosts_step_inv: "hosts_inv h \<Longrightarrow> hosts_inv (hosts_step compile json rx h e)"
  by (cases e) (simp_all add: hosts_step_def snd_InHosts inv_pres)

interpretation hosts: event_machine "hosts_step compile json rx" hosts_inv for compile json rx
  by unfold_locales (rule hosts_step_inv)

section \<open>Rotation\<close>

text \<open>The answers of \<open>k\<close> lookups of one name, one after the other.\<close>

fun lookups :: "(string \<Rightarrow> string \<Rightarrow> bool) \<Rightarrow> (nat \<Rightarrow> string list) \<Rightarrow> nat \<Rightarrow> string \<Rightarrow> nat \<Rightarrow> hosts \<Rightarrow> string option list" where
  "lookups rx ord n host 0 h = []"
| "lookups rx ord n host (Suc k) h = (case GetHost rx ord n host h of (r, h') \<Rightarrow> r # lookups rx ord n host k h')"

text \<open>A check whether the name is in the table before each lookup, as a rule of the proxy
  selection makes it.\<close>

fun checked_lookups :: "(string \<Rightarrow> string \<Rightarrow> bool) \<Rightarrow> (nat \<Rightarrow> string list) \<Rightarrow> nat \<Rightarrow> string \<Rightarrow> nat \<Rightarrow> hosts \<Rightarrow> string option list" where
  "checked_lookups rx ord n host 0 h = []"
| "checked_lookups rx ord n host (Suc k) h =
     (case GetHost rx ord n host (snd (InHosts rx ord n host h)) of (r, h') \<Rightarrow> r # checked_lookups rx ord n host k h')"

definition address_entry :: "string \<Rightarrow> nat \<Rightarrow> string list \<Rightarrow> nat \<Rightarrow> hosts \<Rightarrow> bool" where
  "address_entry host i vs c h \<longleftrightarrow>
     hTable h host = Some i \<and> i < length (hEntries h) \<and> mapping (hEntries h ! i) = vs \<and> vs \<noteq> [] \<and>
     (\<forall>v \<in> set vs. Contains v ''.'') \<and> cursor (hEntries h ! i) = c \<and> c \<le> length vs"

lemma getHost_address:
  assumes "address_entry host i vs c h"
  shows "\<exists>h'. getHost rx ord (Suc n) host h = (Some (vs ! (c mod length vs), True), h') \<and>
    address_entry host i vs (Suc (c mod length vs)) h'"
proof -
  let ?c = "c mod length vs"
  have c: "(if c \<ge> length vs then 0 else c) = ?c" "?c < length vs"
    using assms by (auto simp: address_entry_def)
  have e: "entry_Get i h = (vs ! ?c, h\<lparr>hEntries := (hEntries h)[i := (hEntries h ! i)\<lparr>cursor := Suc ?c\<rparr>]\<rparr>)"
  proof -
    have "hm_Get (hEntries h ! i) = (vs ! ?c, (hEntries h ! i)\<lparr>cursor := Suc ?c\<rparr>)"
      using assms c(1) unfolding address_entry_def hm_Get_def Let_def by (simp only: refl) simp
    then show ?thesis by (simp add: entry_Get_def)
  qed
  have "vs ! ?c \<in> set vs" using c(2) by simp
  then have dot: "Contains (vs ! ?c) ''.''" using assms by (auto simp: address_entry_def)
  have "Suc ?c \<le> length vs" using c(2) by simp
  then show ?thesis using assms dot by (auto simp: address_entry_def e)
qed

lemma lookups_rotate:
  "address_entry host i vs c h \<Longrightarrow>
   lookups rx ord (Suc n) host k h = map (\<lambda>j. Some (vs ! ((c + j) mod length vs))) [0..<k]"
proof (induction k arbitrary: c h)
  case (Suc k)
  obtain h' where h': "getHost rx ord (Suc n) host h = (Some (vs ! (c mod length vs), True), h')"
    "address_entry host i vs (Suc (c mod length vs)) h'" using getHost_address [OF Suc.prems] by blast
  have m: "(Suc (c mod length vs) + j) mod length vs = (c + Suc j) mod length vs" for j
    using mod_add_left_eq [of c "length vs" "Suc j"] by (simp only: add_Suc add_Suc_right)
  show ?case
    unfolding lookups.simps GetHost_def h'(1) prod.case Suc.IH [OF h'(2)]
    by (simp only: m upt_conv_Cons [of 0 "Suc k"] zero_less_Suc list.map map_Suc_upt [symmetric] map_map comp_def fst_conv
        option.map add_0_right)
qed simp

lemma checked_lookups_second:
  assumes "address_entry host i [a, b] c h" "\<not> Contains host '':''" "c = 0 \<or> c = 2"
  shows "checked_lookups rx ord (Suc n) host k h = replicate k (Some b)"
  using assms
proof (induction k arbitrary: c h)
  case (Suc k)
  obtain h1 where h1: "getHost rx ord (Suc n) host h = (Some (a, True), h1)" "address_entry host i [a, b] 1 h1"
    using getHost_address [OF Suc.prems(1), of rx ord n] Suc.prems(3) by (auto simp: numeral_2_eq_2)
  obtain h2 where h2: "getHost rx ord (Suc n) host h1 = (Some (b, True), h2)" "address_entry host i [a, b] 2 h2"
    using getHost_address [OF h1(2), of rx ord n] by (auto simp: numeral_2_eq_2)
  have "snd (InHosts rx ord (Suc n) host h) = h1" unfolding snd_InHosts using Suc.prems(2) h1(1) by simp
  then show ?case unfolding checked_lookups.simps GetHost_def using h2(1) Suc.IH [OF h2(2) Suc.prems(2)] by simp
qed simp

section \<open>Aliases\<close>

text \<open>The entries a name may reach: its own, or that of a pattern it matches.\<close>

definition reaches :: "(string \<Rightarrow> string \<Rightarrow> bool) \<Rightarrow> hosts \<Rightarrow> string \<Rightarrow> nat \<Rightarrow> bool" where
  "reaches rx h host i \<longleftrightarrow> hTable h host = Some i \<or> hTable h host = None \<and> (\<exists>k. regex_entry rx host h k = Some i)"

lemma reaches_entry_Get [frame_simps]: "reaches rx (snd (entry_Get j h)) host i = reaches rx h host i"
  by (simp add: reaches_def frame_simps)

lemma getHost_returns:
  assumes "hosts_inv h" "\<forall>k i. reaches rx h k i \<longrightarrow> (\<forall>v \<in> set (mapping (hEntries h ! i)). \<not> Contains v ''.'' \<longrightarrow> r v < r k)"
    and "r host < n"
  shows "fst (getHost rx ord n host h) \<noteq> None"
  using assms
proof (induction n arbitrary: host h)
  case (Suc n)
  have step: "fst (getHost rx ord n s h1) \<noteq> None"
    if i: "reaches rx h host i" "mapping (hEntries h ! i) \<noteq> []" and e: "entry_Get i h = (s, h1)" "\<not> Contains s ''.''" for i s h1
  proof -
    have h1: "h1 = snd (entry_Get i h)" using e(1) by simp
    have "s \<in> set (mapping (hEntries h ! i))" using entry_Get_value [OF i(2)] e(1) by simp
    then have "r s < n" using Suc.prems(2,3) i(1) e(2) by fastforce
    then show ?thesis using Suc.IH [of h1 s] Suc.prems(1,2) unfolding h1 by (simp add: frame_simps inv_pres)
  qed
  show ?case
  proof (cases "hTable h host")
    case (Some i)
    then have "reaches rx h host i" "mapping (hEntries h ! i) \<noteq> []" using Suc.prems(1) by (auto simp: reaches_def hosts_inv_def)
    with Some step show ?thesis by (cases "entry_Get i h") auto
  next
    case None
    show ?thesis
    proof (cases "first_some (regex_entry rx host h) (ord n)")
      case (Some i)
      from first_some_mem [OF this] obtain k where k: "regex_entry rx host h k = Some i" by blast
      then have "reaches rx h host i" using None by (auto simp: reaches_def)
      with step regex_entry_ok [OF Suc.prems(1) k] None Some show ?thesis by (cases "entry_Get i h") auto
    qed (simp add: None)
  qed
qed simp

lemma getHost_loops:
  assumes "\<forall>a \<in> A. \<exists>i. hTable h a = Some i \<and> mapping (hEntries h ! i) \<noteq> [] \<and>
      (\<forall>v \<in> set (mapping (hEntries h ! i)). v \<in> A \<and> \<not> Contains v ''.'')" "a \<in> A"
  shows "fst (getHost rx ord n a h) = None"
  using assms
proof (induction n arbitrary: a h)
  case (Suc n)
  then obtain i where i: "hTable h a = Some i" "mapping (hEntries h ! i) \<noteq> []"
    "\<forall>v \<in> set (mapping (hEntries h ! i)). v \<in> A \<and> \<not> Contains v ''.''" by blast
  obtain s h1 where e: "entry_Get i h = (s, h1)" by fastforce
  have s: "s \<in> set (mapping (hEntries h ! i))" using entry_Get_value [OF i(2)] e by simp
  have h1: "h1 = snd (entry_Get i h)" using e by simp
  have "fst (getHost rx ord n s h1) = None"
    by (rule Suc.IH) (use i(3) s Suc.prems(1) in \<open>simp_all add: h1 frame_simps\<close>)
  then show ?case using i s e by simp
qed simp

section \<open>Properties\<close>

text \<open>the addresses of a name are handed out in turn, each as often as the others.\<close>

theorem hosts_rotate:
  assumes "address_entry host i vs c h" "0 < n"
  shows "lookups rx ord n host k h = map (\<lambda>j. Some (vs ! ((c + j) mod length vs))) [0..<k]"
  using lookups_rotate [OF assms(1), of rx ord "n - 1" k] assms(2) by simp

definition two_hosts :: hosts where
  "two_hosts = add_hosts (\<lambda>_. True) [(''a.b'', [''1.1.1.1'', ''2.2.2.2'']), (''x'', [''y'']), (''y'', [''x''])] \<lparr>hTable = Map.empty, hEntries = []\<rparr>"

lemma two_hosts_entry: "address_entry ''a.b'' 0 [''1.1.1.1'', ''2.2.2.2''] 0 two_hosts"
  by (simp add: two_hosts_def address_entry_def new_mapping_def Contains_single)

lemma hosts_rotate_witness:
  "lookups (\<lambda>_ _. False) (\<lambda>_. []) 1 ''a.b'' 3 two_hosts = [Some ''1.1.1.1'', Some ''2.2.2.2'', Some ''1.1.1.1'']"
  using hosts_rotate [OF two_hosts_entry, of 1 "\<lambda>_ _. False" "\<lambda>_. []" 3] by (simp add: upt_rec numeral_3_eq_3)

text \<open>when each lookup comes after a check that the name is in the table, a name with two
  addresses always gets the second: the check moves the cursor too.\<close>

theorem checked_lookup_skips:
  assumes "address_entry host i [a, b] 0 h" "CHR '':'' \<notin> set host" "0 < n"
  shows "checked_lookups rx ord n host k h = replicate k (Some b)"
  using checked_lookups_second [OF assms(1), of rx ord "n - 1" k] assms(2,3) by (simp add: Contains_single)

lemma checked_lookup_skips_witness:
  "checked_lookups (\<lambda>_ _. False) (\<lambda>_. []) 1 ''a.b'' 3 two_hosts = replicate 3 (Some ''2.2.2.2'')"
  by (rule checked_lookup_skips [OF two_hosts_entry]) simp_all

text \<open>C31: a lookup returns when no name is an alias of itself in any number of steps: fuel beyond the
  rank of the name is enough.\<close>

theorem alias_lookup_returns:
  assumes "hosts_inv h" "\<forall>k i. reaches rx h k i \<longrightarrow> (\<forall>v \<in> set (mapping (hEntries h ! i)). \<not> Contains v ''.'' \<longrightarrow> rank v < (rank k :: nat))"
    and "rank host < n"
  shows "\<exists>s. fst (GetHost rx ord n host h) = Some s"
  using getHost_returns [OF assms, of ord] by (auto simp: GetHost_def split: prod.splits)

lemma alias_lookup_returns_witness:
  "\<exists>s. fst (GetHost (\<lambda>_ _. False) (\<lambda>_. []) 2 ''w'' (add_hosts (\<lambda>_. True) [(''w'', [''localhost''])] \<lparr>hTable = Map.empty, hEntries = []\<rparr>)) = Some s"
  by (rule alias_lookup_returns [of _ _ "\<lambda>k. if k = ''w'' then 1 else 0"])
     (auto simp: hosts_inv_def reaches_def regex_entry_def new_mapping_def split: if_splits option.splits)

text \<open>a lookup never returns when the name and all its values are aliases of each other: no fuel is
  enough.\<close>

theorem alias_cycle_never_returns:
  assumes "\<forall>a \<in> A. \<exists>i. hTable h a = Some i \<and> mapping (hEntries h ! i) \<noteq> [] \<and>
      (\<forall>v \<in> set (mapping (hEntries h ! i)). v \<in> A \<and> \<not> Contains v ''.'')" "a \<in> A"
  shows "fst (GetHost rx ord n a h) = None"
  using getHost_loops [OF assms, of rx ord n] by (auto simp: GetHost_def split: prod.splits)

lemma alias_cycle_never_returns_witness: "\<forall>n. fst (GetHost (\<lambda>_ _. False) (\<lambda>_. []) n ''x'' two_hosts) = None"
  by (intro allI alias_cycle_never_returns [of "{''x'', ''y''}"])
     (simp_all add: two_hosts_def new_mapping_def Contains_single)

end
