(* ===== verification/LocalPac.thy ===== *)
theory LocalPac
  imports Hosts GfwList ChannelConfig Socks5Client
begin

text \<open>
  The selection of a proxy channel (\<open>local/config.go\<close>, \<open>common/dns/dns.go\<close>): the rules and the
  patterns of a PAC entry, the choice of the channel for a request, and the completion of
  the configuration at the start.

  Matching a rule has effects the code relies on or suffers from: \<open>InHosts\<close> moves the cursor of the
  hosts table, a GFW rule completes the scheme of the request, and \<open>IsCNIP\<close> replaces the
  domain by its address for the rules after it. They are threaded through as state.
  The country database, the DNS client and the URL parser are parameters.
\<close>

section \<open>Names of a domain\<close>

datatype rr = A string | AAAA string | OtherRR

fun pick_first :: "(rr \<Rightarrow> string option) \<Rightarrow> rr list \<Rightarrow> string option" where
  "pick_first f [] = None"
| "pick_first f (x # xs) = (case f x of Some s \<Rightarrow> Some s | None \<Rightarrow> pick_first f xs)"

definition pickIP :: "rr list \<Rightarrow> string" where
  "pickIP rr =
     (case pick_first (\<lambda>r. case r of A s \<Rightarrow> Some s | _ \<Rightarrow> None) rr of
        Some s \<Rightarrow> s
      | None \<Rightarrow> (case pick_first (\<lambda>r. case r of AAAA s \<Rightarrow> Some s | _ \<Rightarrow> None) rr of Some s \<Rightarrow> s | None \<Rightarrow> []))"

text \<open>\<open>selectDNSServer\<close>: \<open>rand.Intn\<close> of 0 panics.\<close>

definition selectDNSServer :: "(nat \<Rightarrow> nat) \<Rightarrow> string list \<Rightarrow> string option" where
  "selectDNSServer rnd ss =
     (if length ss = 1 then Some (ss ! 0) else if ss = [] then None else Some (ss ! (rnd (length ss) mod length ss)))"

definition getIPByDefaultResolver :: "(string \<Rightarrow> bool \<times> string list) \<Rightarrow> string \<Rightarrow> string \<times> bool" where
  "getIPByDefaultResolver lookup domain =
     (case lookup domain of (ok, addrs) \<Rightarrow> if ok \<and> addrs \<noteq> [] then (addrs ! 0, True) else ([], ok))"

text \<open>\<open>DnsGetDoaminIP\<close>: \<open>dnsA\<close> is \<open>LocalDNS.LookupA\<close> if there is a local DNS server; the second
  component is the absence of an error.\<close>

definition DnsGetDoaminIP :: "(string \<Rightarrow> rr list \<times> bool) option \<Rightarrow> (string \<Rightarrow> bool \<times> string list) \<Rightarrow> string \<Rightarrow> string \<times> bool" where
  "DnsGetDoaminIP dnsA lookup domain =
     (case dnsA of
        Some f \<Rightarrow> (case f domain of (ips, ok) \<Rightarrow> if ips \<noteq> [] then (pickIP ips, ok) else getIPByDefaultResolver lookup domain)
      | None \<Rightarrow> getIPByDefaultResolver lookup domain)"

section \<open>Host names\<close>

fun match_parts :: "bool \<Rightarrow> string list \<Rightarrow> string list \<Rightarrow> bool" where
  "match_parts first (p # ps) (h # hs) = (if first \<and> p = ''*'' then match_parts False ps hs else p = h \<and> match_parts False ps hs)"
| "match_parts first _ _ = True"

definition matchHostnames :: "string \<Rightarrow> string \<Rightarrow> bool" where
  "matchHostnames pattern host =
     (let host = TrimSuffix host ''.''; pattern = TrimSuffix pattern ''.''
      in if pattern = [] \<or> host = [] then False
         else let ps = Split pattern CHR ''.''; hs = Split host CHR ''.''
              in length ps = length hs \<and> match_parts True ps hs)"

section \<open>PAC entries\<close>

record PACConfig =
  pacMethod :: "string list"
  pacHost :: "string list"
  pacURL :: "string list"
  pacRule :: "string list"
  pacProtocol :: "string list"
  pacRemote :: string

text \<open>What the rules ask: the GFW list if there is one (\<open>gotoolkit/gfwlist\<close>: its verdict on a request, which it
  may complete), the hosts' patterns, the country database if
  there is one (it is also asked about addresses that do not parse), the DNS. \<open>pvFuel\<close> bounds
  the alias recursion of \<open>InHosts\<close>; a lookup that has not returned by then is \<open>None\<close>.\<close>

record pac_env =
  pvRx :: "string \<Rightarrow> string \<Rightarrow> bool"
  pvOrd :: "nat \<Rightarrow> string list"
  pvFuel :: nat
  pvGfw :: "(hreq \<Rightarrow> bool \<times> hreq) option"
  pvCNIP :: "(bytes option \<Rightarrow> bool) option"
  pvDnsA :: "(string \<Rightarrow> rr list \<times> bool) option"
  pvLookup :: "string \<Rightarrow> bool \<times> string list"

type_synonym pac_state = "hreq option \<times> hosts"

definition matchProtocol :: "PACConfig \<Rightarrow> string \<Rightarrow> bool" where
  "matchProtocol pac protocol \<longleftrightarrow>
     pacProtocol pac = [] \<or> list_ex (\<lambda>p. p = ''*'' \<or> EqualFold p protocol) (pacProtocol pac)"

definition ruleInHosts :: "pac_env \<Rightarrow> string \<Rightarrow> hosts \<Rightarrow> bool option \<times> hosts" where
  "ruleInHosts v host h = InHosts (pvRx v) (pvOrd v) (pvFuel v) host h"

text \<open>One rule without its negation: the new value of \<open>ok\<close>, the new \<open>ip\<close> and the state.\<close>

definition plain_rule :: "pac_env \<Rightarrow> string \<Rightarrow> bool \<Rightarrow> string \<Rightarrow> pac_state \<Rightarrow> bool option \<times> string \<times> pac_state" where
  "plain_rule v rule ok ip st =
     (case st of (req, h) \<Rightarrow>
      if EqualFold rule ''InHosts'' then
        (case req of None \<Rightarrow> (Some False, ip, st)
         | Some q \<Rightarrow> (case ruleInHosts v (hqHost q) h of (b, h') \<Rightarrow> (b, ip, (req, h'))))
      else if EqualFold rule ''BlockedByGFW'' then
        (case (pvGfw v, req) of
           (Some g, Some q) \<Rightarrow> (case g q of (b, q') \<Rightarrow> (Some b, ip, (Some q', h)))
         | _ \<Rightarrow> (Some True, ip, st))
      else if EqualFold rule ''IsCNIP'' then
        (if ip = [] \<or> pvCNIP v = None then (Some False, ip, st)
         else (case (if ParseIP ip = None then DnsGetDoaminIP (pvDnsA v) (pvLookup v) ip else (ip, True)) of
                 (ip', noerr) \<Rightarrow>
                   (Some (if noerr then (case pvCNIP v of Some c \<Rightarrow> c (ParseIP ip') | None \<Rightarrow> ok) else ok), ip', st)))
      else if EqualFold rule ''IsPrivateIP'' then
        (if ip = [] then (Some False, ip, st) else (Some (IsPrivateIP ip), ip, st))
      else (Some ok, ip, st))"

fun rule_loop :: "pac_env \<Rightarrow> string list \<Rightarrow> bool \<Rightarrow> string \<Rightarrow> pac_state \<Rightarrow> bool option \<times> pac_state" where
  "rule_loop v [] ok ip st = (Some ok, st)"
| "rule_loop v (r # rs) ok ip st =
     (case plain_rule v (if HasPrefix r ''!'' then tl r else r) ok ip st of
        (None, _, st') \<Rightarrow> (None, st')
      | (Some b, ip', st') \<Rightarrow>
          (let b' = (if HasPrefix r ''!'' then \<not> b else b)
           in if \<not> b' then (Some False, st') else rule_loop v rs True ip' st'))"

definition matchRules :: "pac_env \<Rightarrow> PACConfig \<Rightarrow> string \<Rightarrow> pac_state \<Rightarrow> bool option \<times> pac_state" where
  "matchRules v pac ip st = rule_loop v (pacRule pac) True ip st"

text \<open>\<open>filepath.Match\<close> is \<open>Match\<close> of \<open>GoGlob\<close>, false for an invalid pattern too.\<close>

definition MatchPatterns :: "string \<Rightarrow> string list \<Rightarrow> bool" where
  "MatchPatterns str rules \<longleftrightarrow> rules = [] \<or> list_ex (\<lambda>p. Match p (ToLower str)) rules"

definition pac_host :: "PACConfig \<Rightarrow> hreq \<Rightarrow> string" where
  "pac_host pac q =
     (if pacHost pac \<noteq> [] \<and> Contains (hqHost q) '':'' then (case SplitHostPort (hqHost q) of Some (h, _) \<Rightarrow> h | None \<Rightarrow> [])
      else hqHost q)"

definition pac_Match :: "pac_env \<Rightarrow> PACConfig \<Rightarrow> string \<Rightarrow> string \<Rightarrow> pac_state \<Rightarrow> bool option \<times> pac_state" where
  "pac_Match v pac protocol ip st =
     (if \<not> matchProtocol pac protocol then (Some False, st)
      else case matchRules v pac ip st of
        (None, st') \<Rightarrow> (None, st')
      | (Some False, st') \<Rightarrow> (Some False, st')
      | (Some True, (req, h)) \<Rightarrow>
          (Some (case req of
             None \<Rightarrow> \<not> (pacHost pac \<noteq> [] \<or> pacMethod pac \<noteq> [] \<or> pacURL pac \<noteq> [])
           | Some q \<Rightarrow> MatchPatterns (pac_host pac q) (pacHost pac) \<and> MatchPatterns (hqMethod q) (pacMethod pac) \<and>
                MatchPatterns (url_string q) (pacURL pac)), (req, h)))"

section \<open>The channel of a request\<close>

fun find_pac :: "pac_env \<Rightarrow> PACConfig list \<Rightarrow> string \<Rightarrow> string \<Rightarrow> pac_state \<Rightarrow> string option \<times> pac_state" where
  "find_pac v [] proto ip st = (Some [], st)"
| "find_pac v (p # ps) proto ip st =
     (case pac_Match v p proto ip st of
        (None, st') \<Rightarrow> (None, st')
      | (Some True, st') \<Rightarrow> (Some (pacRemote p), st')
      | (Some False, st') \<Rightarrow> find_pac v ps proto ip st')"

record ProxyConfig =
  pxLocal :: string
  pxForward :: string
  pxMITM :: bool
  pxTransparent :: bool
  pxDumpDomain :: "string list"
  pxPAC :: "PACConfig list"

definition findProxyChannelByRequest :: "pac_env \<Rightarrow> ProxyConfig \<Rightarrow> string \<Rightarrow> string \<Rightarrow> hreq option \<Rightarrow> hosts \<Rightarrow> string option \<times> hosts" where
  "findProxyChannelByRequest v cfg proto ip req h =
     (case find_pac v (pxPAC cfg) proto ip (req, h) of (r, (_, h')) \<Rightarrow> (r, h'))"

text \<open>\<open>http.NewRequest("Connect", "https://" + host)\<close>; \<open>badURL\<close> says which texts the URL parser
  refuses: then the request is nil, and the error is ignored. The host is a name or an address, with or without a port: the whole of
  it is the host of the URL.\<close>

definition connect_request :: "(string \<Rightarrow> bool) \<Rightarrow> string \<Rightarrow> hreq option" where
  "connect_request badURL host =
     (if badURL (''https://'' @ host) then None
      else Some \<lparr>hqMethod = ''Connect'', hqHost = host, hqScheme = ''https'', hqAuthority = host, hqTail = []\<rparr>)"

definition getProxyChannelByHost :: "(string \<Rightarrow> bool) \<Rightarrow> pac_env \<Rightarrow> ProxyConfig \<Rightarrow> string \<Rightarrow> string \<Rightarrow> hosts \<Rightarrow> string option \<times> hosts" where
  "getProxyChannelByHost badURL v cfg proto host h =
     findProxyChannelByRequest v cfg proto host (connect_request badURL host) h"

definition MatchDomain :: "string list \<Rightarrow> string \<Rightarrow> bool" where
  "MatchDomain domains host = list_ex (\<lambda>dm. Match dm host) domains"

text \<open>\<open>redirect\<close> ranges over a map: the list is the order of the iteration.\<close>

fun redirect :: "(string \<times> string) list \<Rightarrow> string \<Rightarrow> string \<times> bool" where
  "redirect [] domain = ([], False)"
| "redirect ((k, v) # m) domain = (if Match k domain then (v, True) else redirect m domain)"

section \<open>The configuration at the start\<close>

record LocalConfig =
  lcCipher :: CipherConfig
  lcUserAgent :: string
  lcChannel :: "ProxyChannelConfig list"

definition zero_kcp :: KCPBaseConfig where
  "zero_kcp = \<lparr>kMode = [], kConn = 0, kAutoExpire = 0, kScavengeTTL = 0, kMTU = 0, kSndWnd = 0, kRcvWnd = 0,
     kDataShard = 0, kParityShard = 0, kDSCP = 0, kAckNodelay = False, kNoDelay = 0, kInterval = 0,
     kResend = 0, kNoCongestion = 0, kSockBuf = 0\<rparr>"

definition zero_channel :: ProxyChannelConfig where
  "zero_channel =
     \<lparr>Enable = False, pcName = [], ServerList = [], ConnsPerServer = 0, SNI = [], SNIProxy = [], pcProxy = [],
      RemoteDialMSTimeout = 0, RemoteDNSReadMSTimeout = 0, RemoteUDPReadMSTimeout = 0, LocalDialMSTimeout = 0,
      ReconnectPeriod = 0, HeartBeatPeriod = 0, RCPRandomAdjustment = 0, Compressor = [], KCP = zero_kcp,
      HTTPPushRateLimitPerSec = 0, HTTPUserAgent = [], HTTPReadTimeout = 0,
      Cipher = \<lparr>User = [], CMethod = [], CKey = [], allowedUser = []\<rparr>, Hops = [],
      RemoteSNIProxy = [], HibernateAfterSecs = 0, P2PToken = [], P2S2PEnable = False, pcproxyURL = None,
      lazyConnect = False\<rparr>"

definition DirectChannelName :: string where "DirectChannelName = ''direct''"

definition direct_server :: "string list" where "direct_server = [''direct://0.0.0.0:0'']"

definition is_direct :: "ProxyChannelConfig \<Rightarrow> bool" where
  "is_direct c \<longleftrightarrow> pcName c = DirectChannelName \<and> Enable c"

definition init_channel :: "cipher_names \<Rightarrow> string \<Rightarrow> ('a) LocalConfig_scheme \<Rightarrow> ProxyChannelConfig \<Rightarrow> ProxyChannelConfig" where
  "init_channel nm arch cfg c =
     (let c = (if is_direct c then c\<lparr>ServerList := direct_server, ConnsPerServer := 1\<rparr> else c);
          c = (if CKey (Cipher c) = [] then c\<lparr>Cipher := lcCipher cfg\<rparr> else c);
          c = (if HTTPUserAgent c = [] then c\<lparr>HTTPUserAgent := lcUserAgent cfg\<rparr> else c)
      in Adjust nm arch c)"

definition default_direct :: ProxyChannelConfig where
  "default_direct = zero_channel\<lparr>pcName := DirectChannelName, Enable := True, ConnsPerServer := 1,
     LocalDialMSTimeout := 5000, ServerList := direct_server\<rparr>"

definition LocalConfig_init :: "cipher_names \<Rightarrow> string \<Rightarrow> ('a) LocalConfig_scheme \<Rightarrow> 'a LocalConfig_scheme" where
  "LocalConfig_init nm arch cfg =
     (let cs = map (init_channel nm arch cfg) (lcChannel cfg)
      in cfg\<lparr>lcChannel := (if list_ex is_direct (lcChannel cfg) then cs else default_direct # cs)\<rparr>)"

section \<open>Lemmas\<close>

lemma lower_lower [simp]: "lower (lower c) = lower c"
  by (auto simp: lower_def Let_def)

lemma ToLower_ToLower [simp]: "ToLower (ToLower s) = ToLower s"
  by (simp add: ToLower_def comp_def)

lemma set_ToLower_sep: "CHR ''/'' \<in> set s \<Longrightarrow> CHR ''/'' \<in> set (ToLower s)"
  by (force simp: ToLower_def lower_def)

text \<open>A pattern of plain text matches its own lower-case text only.\<close>

lemma MatchPatterns_plain:
  "list_all plain_pattern ps \<Longrightarrow> MatchPatterns s ps \<longleftrightarrow> ps = [] \<or> ToLower s \<in> set ps"
  by (auto simp: MatchPatterns_def list_ex_iff list_all_iff Match_plain)

lemma MatchPatterns_upper:
  assumes "list_all plain_pattern ps" "\<forall>p \<in> set ps. ToLower p \<noteq> p" "ps \<noteq> []"
  shows "\<not> MatchPatterns s ps"
proof
  assume "MatchPatterns s ps"
  then have "ToLower s \<in> set ps" using MatchPatterns_plain [OF assms(1)] assms(3) by simp
  with assms(2) have "ToLower (ToLower s) \<noteq> ToLower s" by blast
  then show False by simp
qed

lemma url_string_https: "hqScheme q = ''https'' \<Longrightarrow> hqAuthority q \<noteq> [] \<Longrightarrow> CHR ''/'' \<in> set (url_string q)"
  by (simp add: url_string_def)

lemma MatchPatterns_star_url: "hqScheme q = ''https'' \<Longrightarrow> hqAuthority q \<noteq> [] \<Longrightarrow> \<not> MatchPatterns (url_string q) [''*'']"
  using set_ToLower_sep [OF url_string_https] by (simp add: MatchPatterns_def Match_star)

text \<open>What the rules leave of the request.\<close>

lemma IsBlockedByGFW_request: "snd (IsBlockedByGFW rx g q) = q \<or> snd (IsBlockedByGFW rx g q) = https_if_none q"
proof -
  have l: "snd (list_decision rx rs q) = q \<or> snd (list_decision rx rs q) = https_if_none q" for rs q
  proof (induction rs arbitrary: q)
    case (Cons r rs)
    show ?case
      using rule_match_scheme [of rx r q] Cons.IH [of q] Cons.IH [of "https_if_none q"]
      by (cases "rule_match rx r q") (auto split: bool.splits)
  qed simp
  show ?thesis
  proof (cases "domain_rule g (request_domain q)")
    case None
    with l [of "ruleList g" q] show ?thesis by (simp add: IsBlockedByGFW_def FastMatchDoamin_def)
  next
    case (Some r)
    with rule_match_scheme [of rx r q] show ?thesis
      by (cases "rule_match rx r q") (simp add: IsBlockedByGFW_def FastMatchDoamin_def)
  qed
qed

text \<open>A list that leaves requests with a scheme as they are; the package \<open>common/gfwlist\<close> is one.\<close>

definition gfw_keeps :: "pac_env \<Rightarrow> bool" where
  "gfw_keeps v \<longleftrightarrow> (\<forall>g q. pvGfw v = Some g \<longrightarrow> hqScheme q \<noteq> [] \<longrightarrow> snd (g q) = q)"

lemma own_list_keeps: "gfw_keeps (v\<lparr>pvGfw := Some (IsBlockedByGFW rx g)\<rparr>)"
proof -
  have "hqScheme q \<noteq> [] \<Longrightarrow> snd (IsBlockedByGFW rx g q) = q" for q
    using IsBlockedByGFW_request [of rx g q] by (auto simp: https_if_none_def)
  then show ?thesis by (simp add: gfw_keeps_def)
qed

lemma plain_rule_https:
  assumes "gfw_keeps v" "hqScheme q \<noteq> []" "plain_rule v r ok ip (Some q, h) = (b, ip', (req, h'))"
  shows "req = Some q"
proof -
  have "pvGfw v = Some g \<Longrightarrow> snd (g q) = q" for g
    using assms(1,2) by (simp add: gfw_keeps_def)
  with assms(3) show ?thesis
    by (force simp: plain_rule_def split: if_splits option.splits prod.splits)
qed

lemma rule_loop_https:
  "\<lbrakk>rule_loop v rs ok ip (Some q, h) = (b, (req, h')); hqScheme q \<noteq> []; gfw_keeps v\<rbrakk> \<Longrightarrow> req = Some q"
proof (induction rs arbitrary: ok ip h)
  case (Cons r rs)
  obtain b1 ip1 req1 h1 where 1: "plain_rule v (if HasPrefix r ''!'' then tl r else r) ok ip (Some q, h) = (b1, ip1, (req1, h1))"
    by (metis prod_cases4)
  have q: "req1 = Some q" by (rule plain_rule_https [OF Cons.prems(3,2) 1])
  show ?case
  proof (cases b1)
    case None
    with 1 q Cons.prems show ?thesis by simp
  next
    case (Some c)
    with 1 q Cons.prems Cons.IH [of True ip1 h1] show ?thesis by (auto simp: Let_def split: if_splits)
  qed
qed simp

text \<open>An entry that no request can match is skipped.\<close>

definition static_match :: "PACConfig \<Rightarrow> string \<Rightarrow> hreq \<Rightarrow> bool" where
  "static_match p proto q \<longleftrightarrow>
     matchProtocol p proto \<and> MatchPatterns (pac_host p q) (pacHost p) \<and> MatchPatterns (hqMethod q) (pacMethod p) \<and>
     MatchPatterns (url_string q) (pacURL p)"

lemma pac_Match_no_rules:
  "pacRule p = [] \<Longrightarrow> pac_Match v p proto ip (Some q, h) = (Some (static_match p proto q), (Some q, h))"
  by (auto simp: pac_Match_def matchRules_def static_match_def)

lemma pac_Match_unmatchable:
  assumes "hqScheme q \<noteq> []" "\<not> static_match p proto q" "gfw_keeps v"
    and "pac_Match v p proto ip (Some q, h) = (b, (req, h'))"
  shows "b \<noteq> Some True \<and> req = Some q"
proof (cases "matchProtocol p proto")
  case True
  obtain b1 req1 h1 where 1: "rule_loop v (pacRule p) True ip (Some q, h) = (b1, (req1, h1))" by (metis prod_cases3)
  from rule_loop_https [OF this assms(1,3)] have "req1 = Some q" .
  with 1 assms(2,4) True show ?thesis
    by (auto simp: pac_Match_def matchRules_def static_match_def split: option.splits bool.splits)
qed (use assms in \<open>auto simp: pac_Match_def\<close>)

lemma find_pac_unmatchable:
  "\<lbrakk>hqScheme q \<noteq> []; gfw_keeps v; \<forall>p \<in> set ps. \<not> static_match p proto q\<rbrakk> \<Longrightarrow>
   fst (find_pac v ps proto ip (Some q, h)) \<in> {None, Some []}"
proof (induction ps arbitrary: h)
  case (Cons p ps)
  obtain b req h1 where 1: "pac_Match v p proto ip (Some q, h) = (b, (req, h1))" by (metis prod_cases3)
  from pac_Match_unmatchable [OF Cons.prems(1) _ Cons.prems(2) 1] Cons.prems(3) have "b \<noteq> Some True" "req = Some q" by simp_all
  with 1 Cons.IH [of h1] Cons.prems show ?case by (cases b) auto
qed simp

lemma find_pac_static:
  "\<forall>p \<in> set ps. pacRule p = [] \<Longrightarrow>
   find_pac v ps proto ip (Some q, h) =
     (Some (case find (\<lambda>p. static_match p proto q) ps of None \<Rightarrow> [] | Some p \<Rightarrow> pacRemote p), (Some q, h))"
  by (induction ps) (auto simp: pac_Match_no_rules)

section \<open>Properties\<close>


definition any_pac :: "string \<Rightarrow> PACConfig" where
  "any_pac r = \<lparr>pacMethod = [], pacHost = [], pacURL = [], pacRule = [], pacProtocol = [], pacRemote = r\<rparr>"

definition pac_proxy :: "PACConfig list \<Rightarrow> ProxyConfig" where
  "pac_proxy ps = \<lparr>pxLocal = [], pxForward = [], pxMITM = False, pxTransparent = False, pxDumpDomain = [], pxPAC = ps\<rparr>"

definition plain_env :: pac_env where
  "plain_env = \<lparr>pvRx = (\<lambda>_ _. False), pvOrd = (\<lambda>_. []), pvFuel = 1, pvGfw = None, pvCNIP = None,
     pvDnsA = None, pvLookup = (\<lambda>_. (False, []))\<rparr>"

definition no_hosts :: hosts where
  "no_hosts = \<lparr>hTable = Map.empty, hEntries = []\<rparr>"


text \<open>a method or host pattern with an upper-case letter, or the URL pattern \<open>*\<close>, makes an entry
  useless: no connection is sent to its channel, as the text is lower-cased and the pattern is
  not, and \<open>*\<close> does not match a text with a slash.\<close>

theorem upper_case_or_star_entry_useless:
  assumes "host \<noteq> []" "\<forall>p \<in> set (pxPAC cfg). pacURL p = [''*''] \<or>
      (list_all plain_pattern (pacMethod p) \<and> pacMethod p \<noteq> [] \<and> (\<forall>m \<in> set (pacMethod p). ToLower m \<noteq> m))"
    and "connect_request badURL host \<noteq> None" "gfw_keeps v"
  shows "fst (getProxyChannelByHost badURL v cfg proto host h) \<in> {None, Some []}"
proof -
  obtain q where q: "connect_request badURL host = Some q" "hqScheme q = ''https''" "hqAuthority q = host"
    using assms(3) by (auto simp: connect_request_def split: if_splits)
  have "\<not> static_match p proto q" if "p \<in> set (pxPAC cfg)" for p
    using assms(2) [rule_format, OF that] MatchPatterns_upper [of "pacMethod p"] MatchPatterns_star_url [of q] q assms(1)
    by (auto simp: static_match_def)
  with q assms(4) find_pac_unmatchable [of q v "pxPAC cfg" proto host h] show ?thesis
    by (cases "find_pac v (pxPAC cfg) proto host (Some q, h)")
       (auto simp: getProxyChannelByHost_def findProxyChannelByRequest_def split: prod.splits)
qed

lemma upper_case_or_star_entry_useless_witness:
  "fst (getProxyChannelByHost (\<lambda>_. False) plain_env (pac_proxy [(any_pac ''d'')\<lparr>pacMethod := [''CONNECT'']\<rparr>, (any_pac ''e'')\<lparr>pacURL := [''*'']\<rparr>]) ''https'' ''a.b'' no_hosts) \<in> {None, Some []}"
  by (rule upper_case_or_star_entry_useless)
     (simp_all add: pac_proxy_def any_pac_def connect_request_def plain_pattern_def ToLower_def lower_def char_of_eq_iff
       gfw_keeps_def plain_env_def)

text \<open>when the name of a host cannot be resolved, it counts as a Chinese address, and not as a
  foreign one: a failed lookup leaves the answer of the rule as it was.\<close>

theorem unresolved_counts_as_chinese:
  assumes "ip \<noteq> []" "ParseIP ip = None" "pvCNIP v \<noteq> None" "snd (DnsGetDoaminIP (pvDnsA v) (pvLookup v) ip) = False"
  shows "fst (matchRules v (p\<lparr>pacRule := [''IsCNIP'']\<rparr>) ip st) = Some True \<and>
    fst (matchRules v (p\<lparr>pacRule := [''!IsCNIP'']\<rparr>) ip st) = Some False"
proof -
  have e: "\<not> EqualFold ''IsCNIP'' ''InHosts''" "\<not> EqualFold ''IsCNIP'' ''BlockedByGFW''"
    by (simp_all add: EqualFold_def ToLower_def lower_def)
  have p: "\<not> HasPrefix ''IsCNIP'' ''!''" "HasPrefix ''!IsCNIP'' ''!''" by simp_all
  obtain ip' where "DnsGetDoaminIP (pvDnsA v) (pvLookup v) ip = (ip', False)"
    using assms(4) by (metis prod.collapse)
  with assms e have "\<exists>st'. plain_rule v ''IsCNIP'' True ip st = (Some True, ip', st')"
    by (cases st) (simp add: plain_rule_def)
  with p show ?thesis by (auto simp: matchRules_def)
qed

lemma unresolved_counts_as_chinese_witness:
  "fst (matchRules (plain_env\<lparr>pvCNIP := Some (\<lambda>_. False)\<rparr>) ((any_pac ''d'')\<lparr>pacRule := [''IsCNIP'']\<rparr>) ''a.b'' (None, no_hosts)) = Some True \<and>
   fst (matchRules (plain_env\<lparr>pvCNIP := Some (\<lambda>_. False)\<rparr>) ((any_pac ''d'')\<lparr>pacRule := [''!IsCNIP'']\<rparr>) ''a.b'' (None, no_hosts)) = Some False"
  by (rule unresolved_counts_as_chinese)
     (simp_all add: plain_env_def DnsGetDoaminIP_def getIPByDefaultResolver_def ParseIP_def parseIPv4_def octet_def is_digit_def Let_def)

text \<open>an IPv6 address counts as a name of the hosts table, whatever the table holds: an entry with
  the rule \<open>InHosts\<close> gets the connection.\<close>

theorem ipv6_counts_in_hosts:
  assumes "CHR '':'' \<in> set host" "connect_request badURL host \<noteq> None"
    and "pxPAC cfg = p # ps" "p = (any_pac r)\<lparr>pacRule := [''InHosts'']\<rparr>"
  shows "getProxyChannelByHost badURL v cfg proto host h = (Some r, h)"
proof -
  obtain q where q: "connect_request badURL host = Some q" "hqHost q = host"
    using assms(2) by (auto simp: connect_request_def split: if_splits)
  have 1: "plain_rule v ''InHosts'' True host (Some q, h) = (Some True, host, (Some q, h))"
    using q(2) assms(1) by (simp add: plain_rule_def ruleInHosts_def InHosts_def Contains_single)
  have "\<not> HasPrefix ''InHosts'' ''!''" by simp
  with 1 have "pac_Match v p proto host (Some q, h) = (Some True, (Some q, h))"
    by (simp add: pac_Match_def matchRules_def assms(4) any_pac_def matchProtocol_def MatchPatterns_def)
  moreover have "pacRemote p = r" by (simp add: assms(4) any_pac_def)
  ultimately show ?thesis using q(1) assms(3) by (simp add: getProxyChannelByHost_def findProxyChannelByRequest_def)
qed

lemma ipv6_counts_in_hosts_witness:
  "getProxyChannelByHost (\<lambda>_. False) plain_env (pac_proxy [(any_pac ''d'')\<lparr>pacRule := [''InHosts'']\<rparr>]) ''tcp'' ''::1'' no_hosts = (Some ''d'', no_hosts)"
  by (rule ipv6_counts_in_hosts) (simp_all add: connect_request_def pac_proxy_def)

text \<open>C35: after the configuration is completed there is an enabled direct channel, every enabled
  direct channel has the one direct server, and no channel that was configured is lost or moved.\<close>

theorem config_has_direct:
  "(\<exists>c \<in> set (lcChannel (LocalConfig_init nm arch cfg)). is_direct c) \<and>
   list_all (\<lambda>c. is_direct c \<longrightarrow> ServerList c = direct_server \<and> ConnsPerServer c = 1) (lcChannel (LocalConfig_init nm arch cfg)) \<and>
   (\<exists>pre. map pcName (lcChannel (LocalConfig_init nm arch cfg)) = pre @ map pcName (lcChannel cfg) \<and> pre \<in> {[], [DirectChannelName]})"
proof -
  have n: "pcName (Adjust nm arch c) = pcName c \<and> Enable (Adjust nm arch c) = Enable c \<and>
      ServerList (Adjust nm arch c) = ServerList c \<and> (ConnsPerServer c = 1 \<longrightarrow> ConnsPerServer (Adjust nm arch c) = 1)" for c
    by (simp add: Adjust_def Adjust_defaults_def Let_def default_if_zero_def)
  have i: "pcName (init_channel nm arch cfg c) = pcName c \<and> Enable (init_channel nm arch cfg c) = Enable c \<and>
      (is_direct c \<longrightarrow> ServerList (init_channel nm arch cfg c) = direct_server \<and> ConnsPerServer (init_channel nm arch cfg c) = 1)" for c
    by (auto simp: init_channel_def Let_def n)
  have d: "is_direct (init_channel nm arch cfg c) = is_direct c" for c using i [of c] by (simp add: is_direct_def)
  have dd: "is_direct default_direct" "ServerList default_direct = direct_server" "ConnsPerServer default_direct = 1" "pcName default_direct = DirectChannelName"
    by (simp_all add: default_direct_def is_direct_def)
  have m: "map (pcName \<circ> init_channel nm arch cfg) cs = map pcName cs" for cs using i by (induction cs) simp_all
  show ?thesis
    by (cases "list_ex is_direct (lcChannel cfg)")
       (auto simp: LocalConfig_init_def Let_def d dd m i list_ex_iff list_all_iff)
qed

lemma config_has_direct_witness:
  "\<exists>c \<in> set (lcChannel (LocalConfig_init example_names []
     \<lparr>lcCipher = \<lparr>User = [], CMethod = [], CKey = [], allowedUser = []\<rparr>, lcUserAgent = [], lcChannel = []\<rparr>)). is_direct c"
  using config_has_direct by blast

end
