(* ===== verification/DirectSsh.thy ===== *)
theory DirectSsh
  imports LocalPac MuxHolder
begin

text \<open>
  The channels that need no server of this program: direct connections, also through a SOCKS or
  HTTP proxy (\<open>common/channel/direct/local.go\<close>), and SSH servers
  (\<open>common/channel/ssh/local.go\<close>). A stream of such a channel is one outgoing connection.

  Dialling and the answers of the peers are parameters; \<open>Socks5ProxyConnect\<close> is the client of
  \<open>Socks5Client\<close>, \<open>url.Parse\<close> the parameter \<open>deParse\<close>. The URL of the proxy may be a nil pointer,
  which the SOCKS5 client dereferences: \<open>CPanic\<close>.
\<close>

section \<open>Streams\<close>

record 'c ostream =
  osConn :: "'c option"
  osAddr :: string
  osProxyServer :: string
  osLatest :: nat

text \<open>The operations direct and SSH streams have in common: without a connection they report the end
  of the input; \<open>io\<close> is the operation on the connection.\<close>

definition os_SetDeadline :: "('c \<Rightarrow> bool) \<Rightarrow> 'c ostream \<Rightarrow> io_err option" where
  "os_SetDeadline ok s = (case osConn s of None \<Rightarrow> Some EOF | Some c \<Rightarrow> if ok c then None else Some ConnErr)"

definition os_Auth :: "AuthRequest \<Rightarrow> int" where
  "os_Auth req = AuthOK"

definition os_Read :: "nat \<Rightarrow> ('c \<Rightarrow> io_err + bytes) \<Rightarrow> 'c ostream \<Rightarrow> (io_err + bytes) \<times> 'c ostream" where
  "os_Read tm io s = (case osConn s of None \<Rightarrow> (Inl EOF, s) | Some c \<Rightarrow> (io c, s\<lparr>osLatest := tm\<rparr>))"

definition os_Write :: "nat \<Rightarrow> ('c \<Rightarrow> io_err + nat) \<Rightarrow> 'c ostream \<Rightarrow> (io_err + nat) \<times> 'c ostream" where
  "os_Write tm io s = (case osConn s of None \<Rightarrow> (Inl EOF, s) | Some c \<Rightarrow> (io c, s\<lparr>osLatest := tm\<rparr>))"

section \<open>Direct connections\<close>

record direct_env =
  deRx :: "string \<Rightarrow> string \<Rightarrow> bool"
  deOrd :: "nat \<Rightarrow> string list"
  deFuel :: nat
  deDnsA :: "(string \<Rightarrow> rr list \<times> bool) option"
  deLookup :: "string \<Rightarrow> bool \<times> string list"
  deParse :: "string \<Rightarrow> URL option"
  deDial :: "string \<Rightarrow> string \<Rightarrow> int \<Rightarrow> cconn option"
  deHTTP :: "string \<Rightarrow> cconn \<Rightarrow> (dial_err + unit) \<times> cconn"

datatype connect_out = COk | CBadProxy | CDns | CDial | CHandshake | CHostsLoop | CPanic

text \<open>The host to go to: the SNI proxy for HTTPS, then the hosts table for a name.\<close>

definition direct_host :: "direct_env \<Rightarrow> ProxyChannelConfig \<Rightarrow> string \<Rightarrow> string \<Rightarrow> string \<Rightarrow> hosts \<Rightarrow> string option \<times> hosts" where
  "direct_host v conf network host port h =
     (case (if SNIProxy conf \<noteq> [] \<and> port = ''443'' \<and> network = ''tcp''
            then (case InHosts (deRx v) (deOrd v) (deFuel v) (SNIProxy conf) h of
                    (None, h') \<Rightarrow> (None, h')
                  | (Some b, h') \<Rightarrow> (Some (if b then SNIProxy conf else host), h'))
            else (Some host, h)) of
        (None, h') \<Rightarrow> (None, h')
      | (Some x, h') \<Rightarrow> if ParseIP x = None then GetHost (deRx v) (deOrd v) (deFuel v) x h' else (Some x, h'))"

text \<open>The address to dial and the proxy URL, if there is a proxy.\<close>

definition direct_addr :: "direct_env \<Rightarrow> ProxyChannelConfig \<Rightarrow> string \<Rightarrow> string \<Rightarrow> string \<Rightarrow> (string \<times> URL option) option" where
  "direct_addr v conf proxyServer host port =
     (let purl = fst (ProxyURL (deParse v) conf)
      in if purl = None \<and> proxyServer = [] then Some (host @ '':'' @ port, None)
         else case purl of Some u \<Rightarrow> Some (uHost u, Some u)
           | None \<Rightarrow> (case deParse v proxyServer of None \<Rightarrow> None | Some u \<Rightarrow> Some (uHost u, Some u)))"

text \<open>The SOCKS5 handshake with a URL that may be nil; \<open>None\<close> is the nil dereference.\<close>

definition socks5_nilable :: "URL option \<Rightarrow> string \<Rightarrow> cconn \<Rightarrow> ((dial_err + unit) \<times> cconn) option" where
  "socks5_nilable url addr c =
     (case url of
        Some u \<Rightarrow> Some (case Socks5ProxyConnect u addr c of (Inl e, c') \<Rightarrow> (Inl (Socks5Error e), c') | (Inr _, c') \<Rightarrow> (Inr (), c'))
      | None \<Rightarrow>
         (case SplitHostPort addr of None \<Rightarrow> Some (Inl (Socks5Error BadAddr), c)
          | Some (host, p) \<Rightarrow>
             (case Atoi p of None \<Rightarrow> Some (Inl (Socks5Error BadPort), c)
              | Some port \<Rightarrow> if port < 1 \<or> port > 0xffff then Some (Inl (Socks5Error PortRange), c) else None)))"

definition direct_handshake :: "direct_env \<Rightarrow> ProxyChannelConfig \<Rightarrow> URL option \<Rightarrow> string \<Rightarrow> string \<Rightarrow> cconn \<Rightarrow> ((dial_err + unit) \<times> cconn) option" where
  "direct_handshake v conf proxyURL host port c =
     (case proxyURL of None \<Rightarrow> Some (Inr (), c)
      | Some u \<Rightarrow>
          if Scheme u \<in> {''http_proxy'', ''http''} then Some (deHTTP v (''https://'' @ JoinHostPort host port) c)
          else if Scheme u \<in> {''socks'', ''socks4'', ''socks5''} then
            socks5_nilable (fst (ProxyURL (deParse v) conf)) (JoinHostPort host port) c
          else Some (Inr (), c))"

text \<open>\<open>directStream.Connect\<close>: the outcome, the connection that is left open without an owner when the
  handshake fails, and the new stream and hosts table.\<close>

definition direct_Connect :: "direct_env \<Rightarrow> ProxyChannelConfig \<Rightarrow> string \<Rightarrow> string \<Rightarrow> StreamOptions \<Rightarrow> cconn ostream \<times> hosts \<Rightarrow>
    connect_out \<times> cconn option \<times> (cconn ostream \<times> hosts)" where
  "direct_Connect v conf network addr opt sh =
     (case sh of (s, h) \<Rightarrow>
      let (host, port) = (case SplitHostPort addr of Some hp \<Rightarrow> hp | None \<Rightarrow> ([], [])) in
      (case direct_host v conf network host port h of
         (None, h1) \<Rightarrow> (CHostsLoop, None, (s, h1))
       | (Some host1, h1) \<Rightarrow>
         (case direct_addr v conf (osProxyServer s) host1 port of
            None \<Rightarrow> (CBadProxy, None, (s, h1))
          | Some (daddr, proxyURL) \<Rightarrow>
            (let (ch, cp) = (case SplitHostPort daddr of Some hp \<Rightarrow> hp | None \<Rightarrow> ([], []));
                 target = (if ParseIP ch = None then
                             (case DnsGetDoaminIP (deDnsA v) (deLookup v) ch of (ip, ok) \<Rightarrow> if ok then Some (JoinHostPort ip cp) else None)
                           else Some daddr)
             in case target of None \<Rightarrow> (CDns, None, (s, h1))
              | Some a \<Rightarrow>
                (case deDial v network a (default_if_zero (soDialTimeout opt) 5000) of
                   None \<Rightarrow> (CDial, None, (s, h1))
                 | Some c \<Rightarrow>
                   (case direct_handshake v conf proxyURL host1 port c of
                      None \<Rightarrow> (CPanic, Some c, (s, h1))
                    | Some (Inl e, c') \<Rightarrow> (CHandshake, Some c', (s, h1))
                    | Some (Inr _, c') \<Rightarrow> (COk, None, (s\<lparr>osConn := Some c', osAddr := a\<rparr>, h1))))))))"

section \<open>SSH\<close>

text \<open>The SSH client of a session is open or gone; dialling through it is a parameter.\<close>

definition ssh_Connect :: "(string \<Rightarrow> string \<Rightarrow> 'c option) \<Rightarrow> string \<Rightarrow> string \<Rightarrow> bool \<Rightarrow> 'c ostream \<Rightarrow> bool \<times> bool \<times> 'c ostream" where
  "ssh_Connect dial network addr clientOpen s =
     (if network \<notin> {''tcp'', ''tcp6'', ''tcp4''} then (False, clientOpen, s)
      else if \<not> clientOpen then (False, False, s)
      else case dial network addr of
             None \<Rightarrow> (False, False, s)
           | Some c \<Rightarrow> (True, True, s\<lparr>osConn := Some c, osAddr := addr\<rparr>))"

text \<open>The other operations of a stream are the same code as those of a direct stream.\<close>

definition ssh_SetDeadline :: "('c \<Rightarrow> bool) \<Rightarrow> 'c ostream \<Rightarrow> io_err option" where
  "ssh_SetDeadline = os_SetDeadline"

definition ssh_Auth :: "AuthRequest \<Rightarrow> int" where
  "ssh_Auth req = AuthOK"

definition ssh_Read :: "nat \<Rightarrow> ('c \<Rightarrow> io_err + bytes) \<Rightarrow> 'c ostream \<Rightarrow> (io_err + bytes) \<times> 'c ostream" where
  "ssh_Read = os_Read"

definition ssh_Write :: "nat \<Rightarrow> ('c \<Rightarrow> io_err + nat) \<Rightarrow> 'c ostream \<Rightarrow> (io_err + nat) \<times> 'c ostream" where
  "ssh_Write = os_Write"

datatype ssh_err = SshBadUrl | SshDial | SshKeyFile | SshKeyParse | SshNoMethod | SshHandshake

datatype ssh_method = SshPassword string string | SshPublicKey string string

text \<open>\<open>SSHProxy.CreateMuxSession\<close>: \<open>qget\<close> is \<open>url.Values.Get\<close> on the query, \<open>readFile\<close> and \<open>parseKey\<close>
  read the key; the second component says that the dialled connection is left open.\<close>

definition ssh_method_of :: "(string \<Rightarrow> string \<Rightarrow> string) \<Rightarrow> (string \<Rightarrow> string option) \<Rightarrow> (string \<Rightarrow> bool) \<Rightarrow> URL \<Rightarrow> ssh_err + ssh_method" where
  "ssh_method_of qget readFile parseKey u =
     (case uUser u of
        Some (n, Some p) \<Rightarrow> Inr (SshPassword n p)
      | _ \<Rightarrow>
          (let identify = qget (uRawQuery u) ''key''
           in if identify = [] then Inl SshNoMethod
              else case readFile identify of None \<Rightarrow> Inl SshKeyFile
                | Some content \<Rightarrow> if parseKey content then Inr (SshPublicKey (User_Username u) content) else Inl SshKeyParse))"

definition ssh_CreateMuxSession :: "(string \<Rightarrow> URL option) \<Rightarrow> (string \<Rightarrow> bool) \<Rightarrow> (string \<Rightarrow> string \<Rightarrow> string) \<Rightarrow> (string \<Rightarrow> string option) \<Rightarrow>
    (string \<Rightarrow> bool) \<Rightarrow> (ssh_method \<Rightarrow> bool) \<Rightarrow> string \<Rightarrow> (ssh_err \<times> bool) + ssh_method" where
  "ssh_CreateMuxSession parse dial qget readFile parseKey handshake server =
     (case parse server of None \<Rightarrow> Inl (SshBadUrl, False)
      | Some u \<Rightarrow>
          if \<not> dial server then Inl (SshDial, False)
          else case ssh_method_of qget readFile parseKey u of
                 Inl e \<Rightarrow> Inl (e, True)
               | Inr m \<Rightarrow> if handshake m then Inr m else Inl (SshHandshake, False))"

section \<open>Sessions\<close>

text \<open>The tables of the two session types. \<open>OpenStream\<close> makes a stream and does not put it into the
  table. The client of a direct session is always open.\<close>

record osess =
  oStreams :: "nat set"
  oNext :: nat
  oClient :: bool

definition o_new :: osess where
  "o_new = \<lparr>oStreams = {}, oNext = 0, oClient = True\<rparr>"

definition o_OpenStream :: "osess \<Rightarrow> nat option \<times> osess" where
  "o_OpenStream s = (if oClient s then (Some (oNext s), s\<lparr>oNext := Suc (oNext s)\<rparr>) else (None, s))"

definition o_closeStream :: "nat \<Rightarrow> osess \<Rightarrow> osess" where
  "o_closeStream i s = s\<lparr>oStreams := oStreams s - {i}\<rparr>"

definition os_Close :: "nat \<Rightarrow> 'c ostream \<times> osess \<Rightarrow> 'c ostream \<times> osess" where
  "os_Close i ts = (case ts of (t, s) \<Rightarrow> (t\<lparr>osConn := None\<rparr>, o_closeStream i s))"

text \<open>The operations of a direct session: its stream has no connection yet and carries the proxy of the session; telling the
  session that a stream has been closed does nothing, which is left to the stream.\<close>

definition direct_OpenStream :: "string \<Rightarrow> osess \<Rightarrow> 'c ostream \<times> osess" where
  "direct_OpenStream proxyServer s =
     (\<lparr>osConn = None, osAddr = [], osProxyServer = proxyServer, osLatest = 0\<rparr>, s\<lparr>oNext := Suc (oNext s)\<rparr>)"

definition direct_closeStream :: "nat \<Rightarrow> osess \<Rightarrow> osess" where
  "direct_closeStream = o_closeStream"

definition direct_CloseStream :: "nat \<Rightarrow> osess \<Rightarrow> osess" where
  "direct_CloseStream i s = s"

definition ssh_CloseStream :: "nat \<Rightarrow> osess \<Rightarrow> osess" where
  "ssh_CloseStream i s = s"

definition direct_NumStreams :: "osess \<Rightarrow> nat" where
  "direct_NumStreams s = card (oStreams s)"

definition os_SetWriteDeadline :: "('c \<Rightarrow> bool) \<Rightarrow> 'c ostream \<Rightarrow> io_err option" where
  "os_SetWriteDeadline ok s = (case osConn s of None \<Rightarrow> Some EOF | Some c \<Rightarrow> if ok c then None else Some ConnErr)"

text \<open>The same of an SSH stream.\<close>

definition ssh_stream_Close :: "nat \<Rightarrow> 'c ostream \<times> osess \<Rightarrow> 'c ostream \<times> osess" where
  "ssh_stream_Close = os_Close"

text \<open>\<open>AcceptStream\<close>: a direct session refuses; an SSH session returns no stream and no error.\<close>

definition direct_AcceptStream :: "unit + nat option" where "direct_AcceptStream = Inl ()"

definition ssh_AcceptStream :: "unit + nat option" where "ssh_AcceptStream = Inr None"

definition o_NumStreams :: "osess \<Rightarrow> nat" where
  "o_NumStreams s = card (oStreams s)"

text \<open>\<open>Close\<close>: the lock is held while the streams are closed, and closing a stream takes it again, so
  with a stream in the table the call does not return (\<open>None\<close>).\<close>

definition direct_Close :: "osess \<Rightarrow> osess option" where
  "direct_Close s = (if oStreams s = {} then Some s else None)"

definition ssh_Close :: "osess \<Rightarrow> osess option" where
  "ssh_Close s = (if oStreams s = {} then Some (s\<lparr>oClient := False\<rparr>) else None)"

definition ssh_Ping :: "bool \<Rightarrow> osess \<Rightarrow> bool" where
  "ssh_Ping ok s = (if oClient s then ok else True)"

definition direct_CreateMuxSession :: "string \<Rightarrow> string \<Rightarrow> string" where
  "direct_CreateMuxSession proxyType server = (if proxyType = [] then [] else server)"

text \<open>What the init function registers. The table keeps the type of the registered value (\<open>reflect.TypeOf\<close>) and a
  channel makes a new value of that type (\<open>reflect.New\<close>), so the field \<open>proxyType\<close> is lost: it is empty in every
  \<open>DirectProxy\<close> a channel uses.\<close>

definition direct_types :: "(string \<times> string) list \<Rightarrow> (string \<times> string) list" where
  "direct_types t =
     fold (\<lambda>scheme. RegisterLocalChannelType scheme ''DirectProxy'')
       [DirectChannelName, ''socks'', ''socks4'', ''socks5'', ''http_proxy''] t"

definition new_DirectProxy :: string where
  "new_DirectProxy = []"

section \<open>Counting\<close>

datatype o_event = OOpen | OCloseStream nat | OCloseDirect | OCloseSsh

definition o_step :: "osess \<Rightarrow> o_event \<Rightarrow> osess" where
  "o_step s e =
     (case e of OOpen \<Rightarrow> snd (o_OpenStream s)
      | OCloseStream i \<Rightarrow> o_closeStream i s
      | OCloseDirect \<Rightarrow> (case direct_Close s of Some s' \<Rightarrow> s' | None \<Rightarrow> s)
      | OCloseSsh \<Rightarrow> (case ssh_Close s of Some s' \<Rightarrow> s' | None \<Rightarrow> s))"

definition o_inv :: "osess \<Rightarrow> bool" where
  "o_inv s \<longleftrightarrow> oStreams s = {}"

interpretation osessions: event_machine o_step o_inv
  by unfold_locales
     (auto simp: o_step_def o_inv_def o_OpenStream_def o_closeStream_def direct_Close_def ssh_Close_def split: o_event.splits)

lemma direct_addr_plain:
  "\<lbrakk>pcProxy conf = []; pcproxyURL conf = None\<rbrakk> \<Longrightarrow> direct_addr v conf [] host port = Some (host @ '':'' @ port, None)"
  by (simp add: direct_addr_def ProxyURL_def)

lemma SplitHostPort_two_colons:
  assumes "CHR '':'' \<in> set h" "CHR ''['' \<notin> set h" "plain_host p"
  shows "SplitHostPort (h @ CHR '':'' # p) = None"
proof -
  have lc: "last_colon (h @ CHR '':'' # p) = Some (length h)" using assms(3) by (simp add: last_colon_append plain_host_def)
  have "hd (h @ CHR '':'' # p) \<noteq> CHR ''[''" using assms(1,2) by (cases h) auto
  then show ?thesis using lc assms(1) by (simp add: SplitHostPort_def Let_def)
qed

section \<open>Properties\<close>

text \<open>a stream to an IPv4 address is one connection to exactly this address, with the timeout the
  client asked for.\<close>

theorem direct_ipv4_dialled:
  assumes "host = dotted [a, b, c, d]" "plain_host port" "SNIProxy conf = []" "pcProxy conf = []" "pcproxyURL conf = None"
    and "osProxyServer s = []" "deDial v network (host @ '':'' @ port) (default_if_zero (soDialTimeout opt) 5000) = Some conn"
  shows "direct_Connect v conf network (JoinHostPort host port) opt (s, h) =
    (COk, None, (s\<lparr>osConn := Some conn, osAddr := host @ '':'' @ port\<rparr>, h))"
proof -
  have p: "plain_host host" using assms(1) by simp
  have sp: "SplitHostPort (JoinHostPort host port) = Some (host, port)" "SplitHostPort (host @ '':'' @ port) = Some (host, port)"
    using Split_Join_HostPort [OF p assms(2)] SplitHostPort_plain [OF p assms(2)] by simp_all
  have ip: "ParseIP host = Some (IPv4 a b c d)" using assms(1) ParseIP_dotted by simp
  show ?thesis
    using sp ip assms(3-7) direct_addr_plain [of conf v host port]
    by (simp add: direct_Connect_def direct_host_def direct_handshake_def)
qed

definition example_denv :: direct_env where
  "example_denv = \<lparr>deRx = (\<lambda>_ _. False), deOrd = (\<lambda>_. []), deFuel = 1, deDnsA = None, deLookup = (\<lambda>_. (False, [])),
     deParse = (\<lambda>s. Some \<lparr>Scheme = ''socks5'', uHost = ''1.1.1.1:1080'', uUser = None, uPath = [], uRawQuery = []\<rparr>),
     deDial = (\<lambda>_ _ _. Some (dialled [] EOF (\<lambda>_. True))), deHTTP = (\<lambda>_ c. (Inr (), c))\<rparr>"

definition idle_stream :: "string \<Rightarrow> cconn ostream" where
  "idle_stream p = \<lparr>osConn = None, osAddr = [], osProxyServer = p, osLatest = 0\<rparr>"

definition no_opt :: StreamOptions where
  "no_opt = \<lparr>soDialTimeout = 0, soReadTimeout = 0, soHops = []\<rparr>"

lemma direct_ipv4_dialled_witness:
  "direct_Connect example_denv default_direct ''tcp'' (JoinHostPort (dotted [1, 2, 3, 4]) ''80'') no_opt (idle_stream [], no_hosts) =
   (COk, None, ((idle_stream [])\<lparr>osConn := Some (dialled [] EOF (\<lambda>_. True)), osAddr := dotted [1, 2, 3, 4] @ '':'' @ ''80''\<rparr>, no_hosts))"
  by (rule direct_ipv4_dialled [OF refl]) (simp_all add: plain_host_def default_direct_def zero_channel_def idle_stream_def example_denv_def)

text \<open>a direct stream to an IPv6 address always fails: host and port are joined without brackets, so
  the address does not split again and the empty name is looked up, which the DNS refuses.\<close>

theorem direct_ipv6_fails:
  assumes "ParseIP host \<noteq> None" "CHR '':'' \<in> set host" "CHR ''['' \<notin> set host" "CHR '']'' \<notin> set host" "plain_host port"
    and "SNIProxy conf = []" "pcProxy conf = []" "pcproxyURL conf = None" "osProxyServer s = []"
    and "snd (DnsGetDoaminIP (deDnsA v) (deLookup v) []) = False"
  shows "direct_Connect v conf network (JoinHostPort host port) opt (s, h) = (CDns, None, (s, h))"
proof -
  have sp: "SplitHostPort (JoinHostPort host port) = Some (host, port)" "SplitHostPort (host @ '':'' @ port) = None"
    using Split_Join_HostPort_bracket [OF assms(2,3,4,5)] SplitHostPort_two_colons [OF assms(2,3,5)] by simp_all
  have e: "ParseIP [] = None" by (simp add: ParseIP_def)
  obtain ip where ip: "DnsGetDoaminIP (deDnsA v) (deLookup v) [] = (ip, False)" using assms(10) by (metis prod.collapse)
  obtain hip where hip: "ParseIP host = Some hip" using assms(1) by blast
  have dh: "direct_host v conf network host port h = (Some host, h)" using hip assms(6) by (simp add: direct_host_def)
  have da: "direct_addr v conf (osProxyServer s) host port = Some (host @ '':'' @ port, None)"
    using assms(7-9) direct_addr_plain [of conf v host port] by simp
  show ?thesis unfolding direct_Connect_def by (simp only: prod.case sp option.case dh da Let_def e ip simp_thms if_True if_False)
qed

lemma direct_ipv6_fails_witness:
  "direct_Connect example_denv default_direct ''tcp'' (JoinHostPort ''::'' ''80'') no_opt (idle_stream [], no_hosts) =
   (CDns, None, (idle_stream [], no_hosts))"
proof (rule direct_ipv6_fails)
  show "ParseIP ''::'' \<noteq> None" by (simp add: ParseIP_def parseIPv6_def)
qed (simp_all add: plain_host_def default_direct_def zero_channel_def idle_stream_def example_denv_def DnsGetDoaminIP_def getIPByDefaultResolver_def)



text \<open>if the type of the proxy were kept, a channel with a SOCKS server and no other proxy setting would panic at the first
  stream: the handshake is made with the nil URL of the setting.\<close>

theorem socks_channel_panics:
  assumes "plain_host host" "ParseIP host \<noteq> None" "plain_host port" "Atoi port = Some n" "1 \<le> n" "n \<le> 65535"
    and "SNIProxy conf = []" "pcProxy conf = []" "pcproxyURL conf = None"
    and "osProxyServer s \<noteq> []" "deParse v (osProxyServer s) = Some u" "Scheme u \<in> {''socks'', ''socks4'', ''socks5''}"
    and "SplitHostPort (uHost u) = Some (ph, pp)" "ParseIP ph \<noteq> None"
    and "deDial v network (uHost u) (default_if_zero (soDialTimeout opt) 5000) = Some c"
  shows "direct_Connect v conf network (JoinHostPort host port) opt (s, h) = (CPanic, Some c, (s, h))"
proof -
  have sp: "SplitHostPort (JoinHostPort host port) = Some (host, port)"
    using Split_Join_HostPort [OF assms(1,3)] by simp
  have a: "direct_addr v conf (osProxyServer s) host port = Some (uHost u, Some u)" "fst (ProxyURL (deParse v) conf) = None"
    using assms(8-11) by (simp_all add: direct_addr_def ProxyURL_def)
  have "Scheme u \<notin> {''http_proxy'', ''http''}" using assms(12) by auto
  then have hs: "direct_handshake v conf (Some u) host port c = None"
    using assms(4-6,12) sp a(2) by (simp add: direct_handshake_def socks5_nilable_def)
  have dh: "direct_host v conf network host port h = (Some host, h)" using assms(2,7) by (auto simp: direct_host_def)
  obtain pip where "ParseIP ph = Some pip" using assms(14) by blast
  then show ?thesis using sp a(1) hs dh assms(13,15) by (simp add: direct_Connect_def)
qed

lemma socks_channel_panics_witness:
  "direct_Connect example_denv default_direct ''tcp'' (JoinHostPort (dotted [1, 2, 3, 4]) ''80'') no_opt (idle_stream ''socks5://1.1.1.1:1080'', no_hosts) =
   (CPanic, Some (dialled [] EOF (\<lambda>_. True)), (idle_stream ''socks5://1.1.1.1:1080'', no_hosts))"
proof (rule socks_channel_panics)
  show "Atoi ''80'' = Some 80" by code_simp
  show "SplitHostPort (uHost \<lparr>Scheme = ''socks5'', uHost = ''1.1.1.1:1080'', uUser = None, uPath = [], uRawQuery = []\<rparr>) = Some (''1.1.1.1'', ''1080'')"
    by code_simp
  show "ParseIP ''1.1.1.1'' \<noteq> None" by code_simp
  show "plain_host (dotted [1, 2, 3, 4])" by (rule plain_host_dotted)
qed (simp_all add: ParseIP_dotted plain_host_def default_direct_def zero_channel_def idle_stream_def example_denv_def)

text \<open>a stream that has been closed neither reads nor writes, and leaves its session's table.\<close>

lemma ssh_closed_stream:
  assumes "ssh_stream_Close i (t, s) = (t', s')"
  shows "ssh_Read tm io t' = (Inl EOF, t') \<and> ssh_Write tm io' t' = (Inl EOF, t') \<and> i \<notin> oStreams s'"
  using assms by (auto simp: ssh_stream_Close_def os_Close_def ssh_Read_def ssh_Write_def os_Read_def os_Write_def o_closeStream_def)

text \<open>a connection that cannot be made over SSH ends the session for its other streams.\<close>

lemma ssh_failed_dial_closes:
  assumes "network \<in> {''tcp'', ''tcp6'', ''tcp4''}" "dial network addr = None"
  shows "ssh_Connect dial network addr True s = (False, False, s)"
  using assms by (auto simp: ssh_Connect_def)

text \<open>however many streams are open, a direct or SSH session counts none; so a retired SSH session is
  closed at the next look at the retired ones, with its streams in use.\<close>

theorem ssh_retired_closed_in_use:
  assumes "i \<in> retired h" "wnum w i = int (o_NumStreams (foldl o_step o_new es))"
    and "tryCloseRetiredSessions (h, w) = (h', w')"
  shows "i \<in> wclosed w' \<and> i \<notin> retired h'"
proof -
  have "o_inv o_new" by (simp add: o_inv_def o_new_def)
  from osessions.run_inv [OF this, of es] have "wnum w i = 0" using assms(2) by (simp add: o_inv_def o_NumStreams_def)
  with assms(1,3) show ?thesis by (auto simp: tryCloseRetiredSessions_def Let_def)
qed

definition retired_holder :: holder where
  "retired_holder = (new_holder ''ssh'')\<lparr>retired := {0}\<rparr>"

lemma ssh_retired_closed_in_use_witness:
  "0 \<in> wclosed (snd (tryCloseRetiredSessions (retired_holder, no_sessions))) \<and>
   0 \<notin> retired (fst (tryCloseRetiredSessions (retired_holder, no_sessions)))"
  by (rule ssh_retired_closed_in_use [of 0 retired_holder no_sessions "[OOpen, OOpen]"])
     (simp_all add: retired_holder_def no_sessions_def o_step_def o_new_def o_OpenStream_def o_NumStreams_def)

end
