(* ===== verification/HttpDuplex.thy ===== *)
theory HttpDuplex
  imports HelperIO HelperText ChannelConfig Interfaces
begin

text \<open>
  The duplex connection over HTTP requests (\<open>common/channel/http/local.go\<close> and
  \<open>common/channel/http/remote.go\<close>): the client pushes its bytes in POST requests and pulls the
  server's bytes from long-lived responses; the server keeps a connection per session identifier.

  What the HTTP client returns is the outcome of a round. \<open>hcUp\<close> records the bytes the server has
  taken from the requests. Writers wait in \<open>Write\<close>; a write that has waited five seconds
  without an answer is put into the queue again.
\<close>

section \<open>The client: requests\<close>

type_synonym frame = "nat \<times> bytes"   \<comment> \<open>the write a frame answers, and its data\<close>

record hconn =
  hcId :: string
  hcAck :: string
  hcServer :: string
  hcRunning :: bool
  hcChunk :: bool
  hcSend :: "frame list"
  hcFrs :: "frame list"
  hcErr :: "io_err option"
  hcPushing :: bool
  hcDone :: "(nat \<times> io_err option) list"
  hcReader :: "bytes list option"
  hcUp :: bytes

definition SessionIDHeader :: string where "SessionIDHeader = ''X-Session-ID''"
definition SessionACKIDHeader :: string where "SessionACKIDHeader = ''X-Session-ACK-ID''"
definition PullPeriodHeader :: string where "PullPeriodHeader = ''X-PullPeriod''"

definition buildHTTPReq :: "string \<Rightarrow> hconn \<Rightarrow> (string \<times> string) list" where
  "buildHTTPReq agent h =
     [(''Connection'', ''keep-alive''), (''Content-Type'', ''image/jpeg'')] @
     (if agent \<noteq> [] then [(''User-Agent'', agent)] else []) @
     [(SessionIDHeader, hcId h)] @
     (if hcAck h \<noteq> [] then [(SessionACKIDHeader, hcAck h)] else [])"

text \<open>A response is a status and the header with the acknowledged identifier; \<open>None\<close> is an error
  of the request.\<close>

type_synonym response = "(nat \<times> string) option"

definition testChunkPush :: "response \<Rightarrow> hconn \<Rightarrow> hconn" where
  "testChunkPush r h = h\<lparr>hcChunk := (case r of Some (st, _) \<Rightarrow> st = 200 | None \<Rightarrow> False)\<rparr>"

definition hc_init :: "(string \<Rightarrow> bool) \<Rightarrow> (nat \<Rightarrow> nat) \<Rightarrow> response \<Rightarrow> string \<Rightarrow> hconn option" where
  "hc_init parses rnd test server =
     (if \<not> parses server then None
      else Some ((testChunkPush test
        \<lparr>hcId = RandAsciiString rnd 64, hcAck = [], hcServer = server, hcRunning = False, hcChunk = False, hcSend = [],
         hcFrs = [], hcErr = None, hcPushing = True, hcDone = [], hcReader = None, hcUp = []\<rparr>)\<lparr>hcRunning := True\<rparr>))"

definition setAckId :: "response \<Rightarrow> hconn \<Rightarrow> hconn" where
  "setAckId r h = (case r of Some (st, a) \<Rightarrow> if st = 200 \<and> hcAck h = [] then h\<lparr>hcAck := a\<rparr> else h | None \<Rightarrow> h)"

definition hc_Close :: "hconn \<Rightarrow> hconn" where
  "hc_Close h = (if hcRunning h then h\<lparr>hcRunning := False\<rparr> else h)"

section \<open>The client: writing\<close>

text \<open>Putting a frame into \<open>sendCh\<close>, which holds ten; \<open>False\<close> is the wait of the full channel.\<close>

definition hc_enqueue :: "frame \<Rightarrow> hconn \<Rightarrow> bool \<times> hconn" where
  "hc_enqueue f h = (if hcRunning h \<and> length (hcSend h) < 10 then (True, h\<lparr>hcSend := hcSend h @ [f]\<rparr>) else (False, h))"

text \<open>What \<open>Write\<close> may return for the write \<open>i\<close> of \<open>n\<close> bytes: the answer of the push loop, or the end
  of the connection. With neither it puts the frame into the queue again after five seconds.\<close>

definition hc_Write_result :: "nat \<Rightarrow> nat \<Rightarrow> hconn \<Rightarrow> (nat \<times> io_err option) set" where
  "hc_Write_result i n h =
     {(n, e) | e. (i, e) \<in> set (hcDone h)} \<union> (if hcRunning h then {} else {(0, Some EOF)})"

definition hc_Write_retry :: "nat \<Rightarrow> bytes \<Rightarrow> hconn \<Rightarrow> hconn" where
  "hc_Write_retry i p h = (if hc_Write_result i (length p) h = {} then snd (hc_enqueue (i, p) h) else h)"

text \<open>One round of the push loop. \<open>PushStatus\<close> and \<open>PushFails\<close> are the outcomes of a POST request, with
  whether the server took the body; \<open>Offer\<close> is the outcome of handing a chunk to the body of the
  running chunked request.\<close>

datatype push_out = PushFails bool | PushStatus nat string bool | Offer bool

definition push_response :: "push_out \<Rightarrow> response" where
  "push_response x = (case x of PushStatus st a _ \<Rightarrow> Some (st, a) | _ \<Rightarrow> None)"

definition push_taken :: "push_out \<Rightarrow> bool" where
  "push_taken x = (case x of PushStatus _ _ b \<Rightarrow> b | PushFails b \<Rightarrow> b | Offer b \<Rightarrow> b)"

definition notifyDone :: "hconn \<Rightarrow> hconn" where
  "notifyDone h = h\<lparr>hcDone := hcDone h @ map (\<lambda>f. (fst f, hcErr h)) (hcFrs h), hcFrs := []\<rparr>"

definition readFrames :: "hconn \<Rightarrow> hconn" where
  "readFrames h = (if hcFrs h = [] then h\<lparr>hcFrs := hcSend h, hcSend := [], hcErr := None\<rparr> else h)"

definition push_round :: "push_out \<Rightarrow> hconn \<Rightarrow> hconn" where
  "push_round x h =
     (if \<not> hcPushing h then h
      else if \<not> hcRunning h then (notifyDone h)\<lparr>hcPushing := False\<rparr>
      else let h = readFrames h; data = concat (map snd (hcFrs h)); h' = (if push_taken x \<and> data \<noteq> [] then h\<lparr>hcUp := hcUp h @ data\<rparr> else h)
        in if data = [] then h
           else if hcChunk h then
             (if push_taken x then notifyDone (h'\<lparr>hcErr := None\<rparr>) else h'\<lparr>hcErr := Some IoTimeout\<rparr>)
           else let h' = setAckId (push_response x) h'
             in case push_response x of
                  Some (st, _) \<Rightarrow>
                    if st = 200 then notifyDone h'
                    else if st = 401 then (hc_Close h')\<lparr>hcPushing := False\<rparr>
                    else h'
                | None \<Rightarrow> h')"

section \<open>The client: the body of a chunked request\<close>

text \<open>The buffer \<open>pmux.ByteSliceBuffer\<close> is given by its operations: its length, writing and reading.
  \<open>got\<close> is what the channel gives: a chunk, or nil at the end.\<close>

definition chunkedBody_Read :: "('b \<Rightarrow> nat) \<Rightarrow> (bytes \<Rightarrow> 'b \<Rightarrow> 'b) \<Rightarrow> (nat \<Rightarrow> 'b \<Rightarrow> bytes \<times> 'b) \<Rightarrow> nat \<Rightarrow> bytes option \<Rightarrow> 'b \<times> nat \<Rightarrow>
    (io_err + bytes) \<times> ('b \<times> nat)" where
  "chunkedBody_Read blen bwrite bread n got bc =
     (case bc of (b, counter) \<Rightarrow>
      if blen b = 0 then
        (case got of None \<Rightarrow> (Inl EOF, (b, counter))
         | Some c \<Rightarrow> (case bread n (bwrite c b) of (x, b') \<Rightarrow> (Inr x, (b', counter + length x))))
      else (case bread n b of (x, b') \<Rightarrow> (Inr x, (b', counter + length x))))"

text \<open>A new body takes over the buffer of the one before.\<close>

definition newChunkPushBody :: "'b \<Rightarrow> ('b \<times> nat) option \<Rightarrow> 'b \<times> nat" where
  "newChunkPushBody nobuf old = ((case old of None \<Rightarrow> nobuf | Some (b, _) \<Rightarrow> b), 0)"

section \<open>The client: pulling\<close>

definition pull_round :: "response \<Rightarrow> bytes list \<Rightarrow> hconn \<Rightarrow> hconn" where
  "pull_round r body h =
     (if \<not> hcRunning h \<or> hcReader h \<noteq> None then h
      else case r of None \<Rightarrow> h
        | Some (st, a) \<Rightarrow>
            if st = 401 then hc_Close h
            else if st \<noteq> 200 then h
            else (setAckId r h)\<lparr>hcReader := Some body\<rparr>)"

text \<open>\<open>Read\<close>: \<open>None\<close> is the wait for the next response. An error of the body ends the response and gives
  no error; it comes alone or, when \<open>joined\<close>, together with the last bytes.\<close>

definition hc_Read :: "nat \<Rightarrow> bool \<Rightarrow> hconn \<Rightarrow> (io_err + bytes) option \<times> hconn" where
  "hc_Read n joined h =
     (case hcReader h of
        None \<Rightarrow> ((if hcRunning h then None else Some (Inl EOF)), h)
      | Some [] \<Rightarrow> (Some (Inr []), h\<lparr>hcReader := None\<rparr>)
      | Some (c # cs) \<Rightarrow>
          (let rest = (if drop n c = [] then cs else drop n c # cs)
           in (Some (Inr (take n c)), h\<lparr>hcReader := (if joined \<and> rest = [] then None else Some rest)\<rparr>)))"

section \<open>The server\<close>

record sconn =
  scAck :: string
  scRecv :: bytes
  scWriter :: "nat option"
  scStop :: "nat option"
  scRunning :: bool
  scShutdown :: bool
  scActive :: int
  scSession :: bool
  scSent :: "(nat \<times> bytes) list"

type_synonym stable = "string \<rightharpoonup> sconn"

definition sc_touch :: "int \<Rightarrow> sconn \<Rightarrow> sconn" where
  "sc_touch t c = c\<lparr>scActive := t\<rparr>"

definition sc_init :: "(nat \<Rightarrow> nat) \<Rightarrow> int \<Rightarrow> sconn" where
  "sc_init rnd t = \<lparr>scAck = RandAsciiString rnd 32, scRecv = [], scWriter = None, scStop = None, scRunning = True,
     scShutdown = False, scActive = t, scSession = False, scSent = []\<rparr>"

definition setReader :: "int \<Rightarrow> bytes list \<Rightarrow> sconn \<Rightarrow> sconn" where
  "setReader t segs c = foldl (\<lambda>c s. if s = [] then c else sc_touch t (c\<lparr>scRecv := scRecv c @ s\<rparr>)) (sc_touch t c) segs"

text \<open>A pull is named by a number, which stands for its response writer and its stop channel.\<close>

definition setWriter :: "int \<Rightarrow> nat \<Rightarrow> sconn \<Rightarrow> sconn" where
  "setWriter t w c = (sc_touch t c)\<lparr>scWriter := Some w, scStop := Some w\<rparr>"

definition sc_Read :: "nat \<Rightarrow> sconn \<Rightarrow> (io_err + bytes) option \<times> sconn" where
  "sc_Read n c =
     (if \<not> scRunning c then (Some (Inl EOF), c)
      else if scRecv c = [] then (None, c)
      else (Some (Inr (take n (scRecv c))), c\<lparr>scRecv := drop n (scRecv c)\<rparr>))"

text \<open>\<open>Write\<close>: \<open>None\<close> is the wait for a pull. \<open>res\<close> is the outcome of the response writer: \<open>None\<close> is success, \<open>Some k\<close> an
  error after \<open>k\<close> bytes.\<close>

definition sc_Write :: "int \<Rightarrow> nat option \<Rightarrow> bytes \<Rightarrow> sconn \<Rightarrow> (nat \<times> io_err option) option \<times> sconn" where
  "sc_Write t res p c =
     (if \<not> scRunning c then (Some (0, Some EOF), c)
      else case scWriter c of
        None \<Rightarrow> (None, c)
      | Some w \<Rightarrow>
          (case res of None \<Rightarrow> (Some (length p, None), (sc_touch t c)\<lparr>scSent := scSent c @ [(w, p)]\<rparr>)
           | Some k \<Rightarrow> (Some (min k (length p), Some ConnErr), (sc_touch t c)\<lparr>scSent := scSent c @ [(w, take k p)], scWriter := None\<rparr>)))"

definition closeWrite :: "sconn \<Rightarrow> sconn" where
  "closeWrite c = (if scRunning c then c\<lparr>scWriter := None\<rparr> else c)"

definition sc_close :: "sconn \<Rightarrow> sconn" where
  "sc_close c = (if scRunning c then (closeWrite c)\<lparr>scRunning := False\<rparr> else c)"

definition st_Close :: "string \<Rightarrow> stable \<Rightarrow> stable" where
  "st_Close i t = map_delete t i"

definition sc_shutdown :: "sconn \<Rightarrow> sconn" where
  "sc_shutdown c = sc_close (c\<lparr>scShutdown := True\<rparr>)"

text \<open>A tick of the watchdog, every ten seconds: whether it closes the connection.\<close>

definition alive_tick :: "int \<Rightarrow> string \<Rightarrow> stable \<Rightarrow> stable" where
  "alive_tick t i tab =
     (case tab i of None \<Rightarrow> tab
      | Some c \<Rightarrow> if scRunning c \<and> t - scActive c > 120 then map_delete tab i else tab)"

section \<open>The server: requests\<close>

record sreq =
  sqId :: string
  sqAck :: string
  sqPath :: string
  sqPeriod :: int
  sqBody :: "bytes list"

datatype sreply =
    NoSessionID
  | Unauthorized
  | SessionFailed
  | Pulling int
  | Pushed bool        \<comment> \<open>whether it is answered with 401 at the end\<close>

definition getHttpDuplexServConnByID :: "(nat \<Rightarrow> nat) \<Rightarrow> int \<Rightarrow> string \<Rightarrow> bool \<Rightarrow> stable \<Rightarrow> sconn option \<times> bool \<times> stable" where
  "getHttpDuplexServConnByID rnd t i createIfNotExist tab =
     (case tab i of Some c \<Rightarrow> (Some c, False, tab)
      | None \<Rightarrow> if createIfNotExist then (Some (sc_init rnd t), True, tab(i \<mapsto> sc_init rnd t)) else (None, False, tab))"

text \<open>\<open>HTTPInvoke\<close> up to the wait of a pull; \<open>pmuxOk\<close> says whether the multiplexer takes the connection
  and \<open>w\<close> names the pull.\<close>

definition HTTPInvoke :: "(nat \<Rightarrow> nat) \<Rightarrow> int \<Rightarrow> bool \<Rightarrow> nat \<Rightarrow> sreq \<Rightarrow> stable \<Rightarrow> sreply \<times> stable" where
  "HTTPInvoke rnd t pmuxOk w r tab =
     (if sqId r = [] then (NoSessionID, tab)
      else case getHttpDuplexServConnByID rnd t (sqId r) True tab of
        (None, _, tab1) \<Rightarrow> (NoSessionID, tab1)
      | (Some c, create, tab1) \<Rightarrow>
          if create \<and> sqAck r \<noteq> [] then (Unauthorized, tab1)
          else if create \<and> \<not> pmuxOk then (SessionFailed, tab1)
          else let c = (if create then c\<lparr>scSession := True\<rparr> else c); tab2 = tab1(sqId r \<mapsto> c)
            in if sqAck r \<noteq> [] \<and> sqAck r \<noteq> scAck c then (Unauthorized, tab2)
               else if HasSuffix (sqPath r) ''pull'' then
                 (let c' = setWriter t w c; period = (if sqPeriod r \<le> 0 then 30 else sqPeriod r)
                  in ((if scRunning c' then Pulling period else Unauthorized), tab2(sqId r \<mapsto> c')))
               else (let c' = setReader t (sqBody r) c
                     in (Pushed (scShutdown c'), tab2(sqId r \<mapsto> c'))))"

text \<open>The three ways a pull ends: its period, the end of the connection, another pull. Only the first
  writes the connection.\<close>

datatype pull_end = PullTimeout | PullClosed | PullStopped

definition end_pull :: "pull_end \<Rightarrow> sconn \<Rightarrow> sconn" where
  "end_pull e c = (case e of PullTimeout \<Rightarrow> closeWrite c | _ \<Rightarrow> c)"

section \<open>From the writer to the server's reader\<close>

text \<open>The client's writes, the rounds of its push loop with a server that takes a body exactly when it
  answers 200, and the reads of the server's multiplexer. The state is the client, the server's
  connection, the bytes written so far and the bytes read so far.\<close>

datatype dx_event = DxWrite nat bytes | DxPush nat string | DxPushFails | DxRead nat

type_synonym duplex = "hconn \<times> sconn \<times> bytes \<times> bytes"

definition dx_take :: "int \<Rightarrow> hconn \<Rightarrow> hconn \<Rightarrow> sconn \<Rightarrow> sconn" where
  "dx_take t h h' c = setReader t [drop (length (hcUp h)) (hcUp h')] c"

definition dx_step :: "duplex \<Rightarrow> dx_event \<Rightarrow> duplex" where
  "dx_step d e =
     (case d of (h, c, w, r) \<Rightarrow>
      (case e of
         DxWrite i p \<Rightarrow> (case hc_enqueue (i, p) h of (ok, h') \<Rightarrow> (h', c, (if ok then w @ p else w), r))
       | DxPush st a \<Rightarrow> (let h' = push_round (PushStatus st a (st = 200)) h in (h', dx_take 0 h h' c, w, r))
       | DxPushFails \<Rightarrow> (push_round (PushFails False) h, c, w, r)
       | DxRead n \<Rightarrow> (case sc_Read n c of (Some (Inr b), c') \<Rightarrow> (h, c', w, r @ b) | (_, c') \<Rightarrow> (h, c', w, r))))"

definition pending :: "hconn \<Rightarrow> bytes" where
  "pending h = concat (map snd (hcFrs h @ hcSend h))"

definition dx_inv :: "duplex \<Rightarrow> bool" where
  "dx_inv d \<longleftrightarrow>
     (case d of (h, c, w, r) \<Rightarrow>
      \<not> hcChunk h \<and> (hcPushing h \<or> \<not> hcRunning h) \<and> hcUp h = r @ scRecv c \<and> prefix (hcUp h) w \<and> (hcRunning h \<longrightarrow> w = hcUp h @ pending h))"

lemma scRecv_setReader [simp]: "scRecv (setReader t segs c) = scRecv c @ concat segs"
proof -
  have "scRecv (foldl (\<lambda>c s. if s = [] then c else sc_touch t (c\<lparr>scRecv := scRecv c @ s\<rparr>)) c segs) = scRecv c @ concat segs" for c
    by (induction segs arbitrary: c) (simp_all add: sc_touch_def)
  from this [of "sc_touch t c"] show ?thesis by (simp add: setReader_def sc_touch_def)
qed

lemma setReader_frame [simp]:
  "scRunning (setReader t segs c) = scRunning c" "scWriter (setReader t segs c) = scWriter c"
  "scShutdown (setReader t segs c) = scShutdown c" "scSession (setReader t segs c) = scSession c"
proof -
  let ?f = "\<lambda>c s. if s = [] then c else sc_touch t (c\<lparr>scRecv := scRecv c @ s\<rparr>)"
  have "scRunning (foldl ?f c segs) = scRunning c \<and> scWriter (foldl ?f c segs) = scWriter c \<and>
      scShutdown (foldl ?f c segs) = scShutdown c \<and> scSession (foldl ?f c segs) = scSession c" for c
    by (induction segs arbitrary: c) (simp_all add: sc_touch_def)
  from this [of "sc_touch t c"] show
    "scRunning (setReader t segs c) = scRunning c" "scWriter (setReader t segs c) = scWriter c"
    "scShutdown (setReader t segs c) = scShutdown c" "scSession (setReader t segs c) = scSession c"
    by (simp_all add: setReader_def sc_touch_def)
qed

lemma pending_readFrames [simp]: "pending (readFrames h) = pending h"
  by (simp add: readFrames_def pending_def)

lemma readFrames_frame [simp]:
  "hcRunning (readFrames h) = hcRunning h" "hcChunk (readFrames h) = hcChunk h" "hcUp (readFrames h) = hcUp h"
  "hcPushing (readFrames h) = hcPushing h"
  by (simp_all add: readFrames_def)

lemma setAckId_frame [simp]:
  "hcRunning (setAckId x h) = hcRunning h" "hcChunk (setAckId x h) = hcChunk h" "hcUp (setAckId x h) = hcUp h"
  "hcFrs (setAckId x h) = hcFrs h" "hcSend (setAckId x h) = hcSend h" "hcPushing (setAckId x h) = hcPushing h"
  "hcDone (setAckId x h) = hcDone h" "hcErr (setAckId x h) = hcErr h"
  by (simp_all add: setAckId_def split: option.splits)

lemma notifyDone_frame [simp]:
  "hcRunning (notifyDone h) = hcRunning h" "hcChunk (notifyDone h) = hcChunk h" "hcUp (notifyDone h) = hcUp h"
  "hcPushing (notifyDone h) = hcPushing h" "hcFrs (notifyDone h) = []" "hcSend (notifyDone h) = hcSend h"
  by (simp_all add: notifyDone_def)

lemma hc_Close_frame [simp]:
  "hcRunning (hc_Close h) = False" "hcUp (hc_Close h) = hcUp h" "hcChunk (hc_Close h) = hcChunk h"
  "hcPushing (hc_Close h) = hcPushing h" "hcFrs (hc_Close h) = hcFrs h" "hcErr (hc_Close h) = hcErr h"
  by (simp_all add: hc_Close_def)

text \<open>A round that is answered with 200 moves the first frames of what is pending to the server; any
  other round moves nothing.\<close>

lemma push_round_plain:
  assumes "\<not> hcChunk h" "hcPushing h \<or> \<not> hcRunning h" "push_taken x \<longleftrightarrow> (\<exists>a. push_response x = Some (200, a))"
  shows "\<not> hcChunk (push_round x h) \<and> (hcPushing (push_round x h) \<or> \<not> hcRunning (push_round x h)) \<and>
    (hcRunning (push_round x h) \<longrightarrow> hcRunning h \<and> hcUp (push_round x h) @ pending (push_round x h) = hcUp h @ pending h) \<and>
    (\<exists>d rest. hcUp (push_round x h) = hcUp h @ d \<and> (hcRunning h \<longrightarrow> pending h = d @ rest) \<and> (\<not> hcRunning h \<longrightarrow> d = []) \<and>
      (\<not> push_taken x \<longrightarrow> d = []))"
proof (cases "hcPushing h \<and> hcRunning h")
  case False
  with assms show ?thesis by (auto simp: push_round_def Let_def pending_def)
next
  case True
  define h1 where "h1 = readFrames h"
  define d where "d = concat (map snd (hcFrs h1))"
  have p: "pending h = d @ concat (map snd (hcSend h1))" using pending_readFrames [of h] by (simp add: h1_def d_def pending_def)
  show ?thesis
  proof (cases "d = []")
    case True
    then have "push_round x h = h1" using assms(1) \<open>hcPushing h \<and> hcRunning h\<close> by (simp add: push_round_def h1_def d_def Let_def)
    then show ?thesis using assms(1,2) by (auto simp: h1_def)
  next
    case False
    then have r: "push_round x h =
        (let h' = setAckId (push_response x) (if push_taken x then h1\<lparr>hcUp := hcUp h1 @ d\<rparr> else h1)
         in case push_response x of
              Some (st, _) \<Rightarrow> if st = 200 then notifyDone h' else if st = 401 then (hc_Close h')\<lparr>hcPushing := False\<rparr> else h'
            | None \<Rightarrow> h')"
    proof -
      have c: "concat (map snd (hcFrs h1)) = d" "\<not> hcChunk h1" using assms(1) by (simp_all add: d_def h1_def)
      show ?thesis unfolding push_round_def Let_def h1_def [symmetric] c(1)
        using c(2) False \<open>hcPushing h \<and> hcRunning h\<close> by simp
    qed
    show ?thesis
    proof (cases "push_taken x")
      case True
      then obtain a where "push_response x = Some (200, a)" using assms(3) by blast
      then show ?thesis using True assms(1) p \<open>hcPushing h \<and> hcRunning h\<close>
        unfolding r by (auto simp: Let_def pending_def h1_def)
    next
      case False
      then have "push_response x = None \<or> (\<exists>st a. push_response x = Some (st, a) \<and> st \<noteq> 200)" using assms(3) by (cases "push_response x") auto
      then show ?thesis using False assms(1) \<open>hcPushing h \<and> hcRunning h\<close> pending_readFrames [of h]
        unfolding r by (auto simp: Let_def pending_def h1_def split: if_splits)
    qed
  qed
qed

lemma dx_step_inv: "dx_inv d \<Longrightarrow> dx_inv (dx_step d e)"
proof -
  assume inv: "dx_inv d"
  obtain h c w r where d: "d = (h, c, w, r)" by (metis prod_cases4)
  from inv have i: "\<not> hcChunk h" "hcPushing h \<or> \<not> hcRunning h" "hcUp h = r @ scRecv c" "prefix (hcUp h) w" "hcRunning h \<longrightarrow> w = hcUp h @ pending h"
    unfolding d dx_inv_def prod.case by blast+
  show ?thesis
  proof (cases e)
    case (DxWrite j p)
    then show ?thesis using i by (auto simp: dx_step_def d dx_inv_def hc_enqueue_def pending_def)
  next
    case (DxPush st a)
    let ?x = "PushStatus st a (st = 200)"
    have t: "push_taken ?x \<longleftrightarrow> (\<exists>a. push_response ?x = Some (200, a))" by (simp add: push_taken_def push_response_def)
    obtain dd rest where p: "hcUp (push_round ?x h) = hcUp h @ dd" "hcRunning h \<longrightarrow> pending h = dd @ rest" "\<not> hcRunning h \<longrightarrow> dd = []"
      using push_round_plain [OF i(1,2) t] by blast
    have "prefix (hcUp h @ dd) w" using p i(4,5) by (cases "hcRunning h") auto
    then show ?thesis using push_round_plain [OF i(1,2) t] p(1) i DxPush by (auto simp: dx_step_def d dx_inv_def Let_def dx_take_def)
  next
    case DxPushFails
    have t: "push_taken (PushFails False) \<longleftrightarrow> (\<exists>a. push_response (PushFails False) = Some (200, a))"
      by (simp add: push_taken_def push_response_def)
    have "\<not> push_taken (PushFails False)" by (simp add: push_taken_def)
    then show ?thesis using push_round_plain [OF i(1,2) t] i DxPushFails by (auto simp: dx_step_def d dx_inv_def)
  next
    case (DxRead n)
    then show ?thesis using i by (auto simp: dx_step_def d dx_inv_def sc_Read_def split: if_splits)
  qed
qed

interpretation duplex: event_machine dx_step dx_inv
  by unfold_locales (rule dx_step_inv)

section \<open>Properties\<close>

definition fresh_client :: "string \<Rightarrow> hconn" where
  "fresh_client i = \<lparr>hcId = i, hcAck = [], hcServer = [], hcRunning = True, hcChunk = False, hcSend = [], hcFrs = [], hcErr = None,
     hcPushing = True, hcDone = [], hcReader = None, hcUp = []\<rparr>"



text \<open>a write that waits more than five seconds for a slow server is sent twice: the repeated frame is
  queued behind the one that is still being sent.\<close>

theorem slow_write_sent_twice:
  assumes "hcRunning h" "hcPushing h" "\<not> hcChunk h" "hcFrs h = [(i, d)]" "hcSend h = []" "d \<noteq> []" "i \<notin> fst ` set (hcDone h)"
  shows "hcUp (push_round (PushStatus 200 a True) (push_round (PushStatus 200 a True) (hc_Write_retry i d h))) = hcUp h @ d @ d"
proof -
  have "hc_Write_result i (length d) h = {}" using assms(1,7) by (force simp: hc_Write_result_def)
  then have 1: "hc_Write_retry i d h = h\<lparr>hcSend := [(i, d)]\<rparr>" using assms(1,5) by (simp add: hc_Write_retry_def hc_enqueue_def)
  have 2: "push_round (PushStatus 200 a True) (h\<lparr>hcSend := [(i, d)]\<rparr>) =
      notifyDone (setAckId (Some (200, a)) (h\<lparr>hcSend := [(i, d)], hcUp := hcUp h @ d\<rparr>))"
    using assms by (simp add: push_round_def readFrames_def push_taken_def push_response_def Let_def)
  show ?thesis unfolding 1 2 using assms(1-3,6) by (simp add: push_round_def readFrames_def push_taken_def push_response_def Let_def)
qed

lemma slow_write_sent_twice_witness:
  "hcUp (push_round (PushStatus 200 ''a'' True) (push_round (PushStatus 200 ''a'' True) (hc_Write_retry 0 [7] ((fresh_client ''x'')\<lparr>hcFrs := [(0, [7])]\<rparr>)))) =
   [] @ [7] @ [7]"
  using slow_write_sent_twice [of "(fresh_client ''x'')\<lparr>hcFrs := [(0, [7])]\<rparr>" 0 "[7]" "''a''"] by (simp add: fresh_client_def)

text \<open>an empty write stops the push loop: as long as the connection runs no later frame is ever taken
  from the queue, and no byte is pushed.\<close>

theorem empty_write_stalls:
  assumes "hcRunning h" "hcPushing h" "hcFrs h = [(i, [])]"
  shows "foldl (\<lambda>h x. push_round x h) h xs = h"
proof (induction xs)
  case (Cons x xs)
  have "push_round x h = h" using assms by (simp add: push_round_def readFrames_def Let_def)
  with Cons show ?case by simp
qed simp

lemma empty_write_stalls_witness:
  "foldl (\<lambda>h x. push_round x h) ((fresh_client ''x'')\<lparr>hcFrs := [(0, [])], hcSend := [(1, [7])]\<rparr>) [PushStatus 200 ''a'' True] =
   (fresh_client ''x'')\<lparr>hcFrs := [(0, [])], hcSend := [(1, [7])]\<rparr>"
  by (rule empty_write_stalls [of _ 0]) (simp_all add: fresh_client_def)

text \<open>when the connection is closed after a failed push, the write may be reported as successful
  though the server has nothing of it.\<close>

theorem lost_write_reported_ok:
  assumes "hcRunning h" "hcPushing h" "\<not> hcChunk h" "hcFrs h = [(i, d)]" "d \<noteq> []" "hcErr h = None"
  shows "(length d, None) \<in> hc_Write_result i (length d) (push_round x (hc_Close (push_round (PushFails False) h))) \<and>
    hcUp (push_round x (hc_Close (push_round (PushFails False) h))) = hcUp h"
proof -
  have "push_round (PushFails False) h = h"
    using assms by (simp add: push_round_def readFrames_def Let_def push_taken_def push_response_def setAckId_def)
  then show ?thesis
    using assms by (simp add: push_round_def notifyDone_def hc_Write_result_def hc_Close_def)
qed

lemma lost_write_reported_ok_witness:
  "(1, None) \<in> hc_Write_result 0 1 (push_round (PushFails False) (hc_Close (push_round (PushFails False) ((fresh_client ''x'')\<lparr>hcFrs := [(0, [7])]\<rparr>))))"
  using lost_write_reported_ok [of "(fresh_client ''x'')\<lparr>hcFrs := [(0, [7])]\<rparr>" 0 "[7]" "PushFails False"] by (simp add: fresh_client_def)

text \<open>a request of a session the server has lost is refused, but leaves a connection in the table that
  no multiplexer reads: the next push under the identifier is answered as taken.\<close>

theorem lost_session_left_orphan:
  assumes "tab (sqId r) = None" "sqId r \<noteq> []" "sqAck r \<noteq> []"
    and "sqId r2 = sqId r" "sqAck r2 = []" "\<not> HasSuffix (sqPath r2) ''pull''"
  shows "\<exists>tab1 tab2 c. HTTPInvoke rnd t True w r tab = (Unauthorized, tab1) \<and>
    HTTPInvoke rnd t2 True w r2 tab1 = (Pushed False, tab2) \<and>
    tab2 (sqId r) = Some c \<and> \<not> scSession c \<and> scRecv c = concat (sqBody r2)"
proof -
  have 1: "HTTPInvoke rnd t True w r tab = (Unauthorized, tab(sqId r \<mapsto> sc_init rnd t))"
    using assms(1-3) by (simp add: HTTPInvoke_def getHttpDuplexServConnByID_def)
  have 2: "HTTPInvoke rnd t2 True w r2 (tab(sqId r \<mapsto> sc_init rnd t)) =
      (Pushed False, tab(sqId r \<mapsto> sc_init rnd t, sqId r \<mapsto> setReader t2 (sqBody r2) (sc_init rnd t)))"
    using assms(2,4-6) by (simp add: HTTPInvoke_def getHttpDuplexServConnByID_def Let_def sc_init_def)
  show ?thesis using 1 2 by (simp add: sc_init_def)
qed

definition push_req :: "string \<Rightarrow> bytes \<Rightarrow> sreq" where
  "push_req ack b = \<lparr>sqId = ''s'', sqAck = ack, sqPath = ''/http/push'', sqPeriod = 0, sqBody = [b]\<rparr>"

lemma lost_session_left_orphan_witness:
  "\<exists>tab1 tab2 c. HTTPInvoke (\<lambda>_. 0) 0 True 0 (push_req ''old'' []) Map.empty = (Unauthorized, tab1) \<and>
    HTTPInvoke (\<lambda>_. 0) 5 True 0 (push_req [] [7]) tab1 = (Pushed False, tab2) \<and>
    tab2 ''s'' = Some c \<and> \<not> scSession c \<and> scRecv c = [7]"
  using lost_session_left_orphan [of Map.empty "push_req ''old'' []" "push_req [] [7]" "\<lambda>_. 0" 0 0 5]
  by (simp add: push_req_def HasSuffix_def suffix_to_prefix)

text \<open>the end of a pull by its period takes the response writer away from the pull that has replaced it:
  the server's next write waits though a newer pull has come. (The newer pull is told to stop as well, if it waits already.)\<close>

theorem old_pull_ends_new:
  assumes "scRunning c"
  shows "fst (sc_Write t3 None p (end_pull PullTimeout (setWriter t2 w2 (setWriter t1 w1 c)))) = None \<and>
    fst (sc_Write t3 None p (end_pull PullStopped (setWriter t2 w2 (setWriter t1 w1 c)))) = Some (length p, None)"
  using assms by (simp add: sc_Write_def end_pull_def closeWrite_def setWriter_def sc_touch_def)

lemma old_pull_ends_new_witness:
  "fst (sc_Write 3 None [7] (end_pull PullTimeout (setWriter 2 1 (setWriter 1 0 (sc_init (\<lambda>_. 0) 0))))) = None"
  using old_pull_ends_new [of "sc_init (\<lambda>_. 0) 0" 3 "[7]" 2 1 1 0] by (simp add: sc_init_def)

end
