(* ===== verification/Protector.thy ===== *)
theory Protector
  imports GoNet LocalPac
begin

text \<open>
  Protected sockets (\<open>common/protector/protected.go\<close>, \<open>config.go\<close>, \<open>resolver.go\<close>) and the
  replaceable dial functions (\<open>common/netx/netx.go\<close>): which file descriptors each operation
  opens and closes, on every path.

  Descriptors are numbered in the order of their creation and never reused, so a second close of
  one number is the close that in the kernel may hit a descriptor of somebody else.
  \<open>fdOpen\<close> is the set of open descriptors, \<open>fdClosed\<close> the log of all closes. The outcomes of the
  system calls are an argument.
\<close>

section \<open>Descriptors\<close>

record fds =
  fdNext :: nat
  fdOpen :: "nat set"
  fdClosed :: "nat list"

definition fd_open :: "fds \<Rightarrow> nat \<times> fds" where
  "fd_open w = (fdNext w, w\<lparr>fdNext := Suc (fdNext w), fdOpen := insert (fdNext w) (fdOpen w)\<rparr>)"

definition fd_close :: "nat \<Rightarrow> fds \<Rightarrow> fds" where
  "fd_close i w = w\<lparr>fdOpen := fdOpen w - {i}, fdClosed := fdClosed w @ [i]\<rparr>"

definition no_fds :: fds where
  "no_fds = \<lparr>fdNext = 0, fdOpen = {}, fdClosed = []\<rparr>"

text \<open>The result of an operation: the descriptor of the connection that is returned, an error, a nil
  connection without an error, or a panic.\<close>

datatype fd_result = FdOk nat | FdErr | FdNil | FdPanic

text \<open>The outcomes of the calls: creating the socket, setting its mark, \<open>SO_REUSEADDR\<close> and
  \<open>SO_REUSEPORT\<close>, the local address, binding, protecting, connecting or listening, and duplicating
  the descriptor into a connection.\<close>

record outcomes =
  ocSocket :: bool
  ocMark :: bool
  ocReuseAddr :: bool
  ocReusePort :: bool
  ocLocal :: "(bytes option \<times> nat) option"
  ocBind :: bool
  ocProtect :: bool
  ocConnect :: bool
  ocListen :: bool
  ocConvert :: bool

record NetOptions =
  ReusePort :: bool
  LocalAddr :: string

section \<open>The connection\<close>

text \<open>\<open>socketFd\<close> is \<open>None\<close> for \<open>socketError\<close>; \<open>inner\<close> is the converted connection.\<close>

record pconn =
  socketFd :: "nat option"
  isClosed :: bool
  inner :: "nat option"

definition new_pconn :: pconn where
  "new_pconn = \<lparr>socketFd = None, isClosed = False, inner = None\<rparr>"

definition cleanup :: "pconn \<times> fds \<Rightarrow> pconn \<times> fds" where
  "cleanup cw = (case cw of (c, w) \<Rightarrow>
     (case socketFd c of None \<Rightarrow> (c, w) | Some i \<Rightarrow> (c\<lparr>socketFd := None\<rparr>, fd_close i w)))"

text \<open>\<open>convert\<close>: the descriptor is duplicated and the original closed.\<close>

definition convert :: "bool \<Rightarrow> pconn \<times> fds \<Rightarrow> nat option \<times> (pconn \<times> fds)" where
  "convert ok cw = (case cw of (c, w) \<Rightarrow>
     (let (j, w1) = (if ok then (case fd_open w of (j, w') \<Rightarrow> (Some j, w')) else (None, w));
          w2 = (case socketFd c of Some i \<Rightarrow> fd_close i w1 | None \<Rightarrow> w1)
      in (j, (c\<lparr>socketFd := None, inner := j\<rparr>, w2))))"

text \<open>The same for a listener, which is not kept, and for a packet connection, which also keeps the closed file.\<close>

definition convertLisener :: "bool \<Rightarrow> pconn \<times> fds \<Rightarrow> nat option \<times> (pconn \<times> fds)" where
  "convertLisener ok cw = (case cw of (c, w) \<Rightarrow>
     (let (j, w1) = (if ok then (case fd_open w of (j, w') \<Rightarrow> (Some j, w')) else (None, w));
          w2 = (case socketFd c of Some i \<Rightarrow> fd_close i w1 | None \<Rightarrow> w1)
      in (j, (c\<lparr>socketFd := None\<rparr>, w2))))"

definition packet_convert :: "bool \<Rightarrow> pconn \<times> fds \<Rightarrow> nat option \<times> (pconn \<times> fds)" where
  "packet_convert ok cw = convert ok cw"

text \<open>\<open>reuseTCPAddr\<close> closes the descriptor when the option cannot be set: the descriptors after this error, or \<open>None\<close>.\<close>

definition reuseTCPAddr :: "bool \<Rightarrow> nat \<Rightarrow> fds \<Rightarrow> fds option" where
  "reuseTCPAddr ok i w = (if ok then None else Some (fd_close i w))"

text \<open>\<open>bindSocket\<close>: the slices \<open>ip.To4()[0:4]\<close> and \<open>ip.To16()[0:16]\<close> of an address that is nil are out of
  range.\<close>

datatype bind_result = BindOk | BindErr | BindPanic

definition bindSocket :: "bool \<Rightarrow> bytes option \<Rightarrow> bool \<Rightarrow> bind_result" where
  "bindSocket ok ip ipv6 =
     (case ip of None \<Rightarrow> BindPanic
      | Some a \<Rightarrow> if \<not> ipv6 \<and> To4 a = None then BindPanic else if ok then BindOk else BindErr)"

definition is_v6 :: "bytes option \<Rightarrow> bool" where
  "is_v6 ip = (case ip of None \<Rightarrow> True | Some a \<Rightarrow> To4 a = None)"

definition connectSocket :: "bytes option \<Rightarrow> bool \<Rightarrow> bool" where
  "connectSocket ip ok = (ip \<noteq> None \<and> ok)"

definition pconn_Close :: "pconn \<times> fds \<Rightarrow> pconn \<times> fds" where
  "pconn_Close cw = (case cw of (c, w) \<Rightarrow>
     (if isClosed c then (c, w)
      else case inner c of
        Some j \<Rightarrow> (c\<lparr>isClosed := True\<rparr>, fd_close j w)
      | None \<Rightarrow> (case socketFd c of None \<Rightarrow> (c\<lparr>isClosed := True\<rparr>, w)
                 | Some i \<Rightarrow> (c\<lparr>isClosed := True, socketFd := None\<rparr>, fd_close i w))))"

text \<open>A packet connection: \<open>Write\<close> needs a connection that can write (\<open>write\<close> is its result), and \<open>Close\<close> closes the converted connection,
  which ignores a second close; None is the nil dereference of one that has not been converted.\<close>

definition packet_Write :: "(nat + nat) option \<Rightarrow> (nat + nat)" where
  "packet_Write write = (case write of None \<Rightarrow> Inl 22 | Some r \<Rightarrow> r)"

definition packet_Close :: "pconn \<times> fds \<Rightarrow> (pconn \<times> fds) option" where
  "packet_Close cw = (case cw of (c, w) \<Rightarrow>
     (case inner c of None \<Rightarrow> None | Some j \<Rightarrow> Some (c, if j \<in> fdOpen w then fd_close j w else w)))"

definition listenSocket :: "bool \<Rightarrow> bytes option \<Rightarrow> bool \<Rightarrow> bind_result" where
  "listenSocket ok ip ipv6 = bindSocket ok ip ipv6"

text \<open>The structure of \<open>SO_LINGER\<close>: on or off, and the seconds in 32 bits.\<close>

definition setLinger :: "int \<Rightarrow> u32 \<times> u32" where
  "setLinger sec = (if sec \<ge> 0 then (1, word_of_int sec) else (0, 0))"

definition setQueryTimeouts :: "int \<Rightarrow> int \<times> int" where
  "setQueryTimeouts tm = (tm + 15, tm + 15)"

text \<open>The package's own \<open>SplitHostPort\<close>, with the port as a number.\<close>

definition pSplitHostPort :: "string \<Rightarrow> (string \<times> int) option" where
  "pSplitHostPort addr =
     (case SplitHostPort addr of None \<Rightarrow> None
      | Some (h, p) \<Rightarrow> (case Atoi p of None \<Rightarrow> None | Some n \<Rightarrow> Some (h, n)))"

section \<open>Dialling\<close>

text \<open>The part after the deferred \<open>cleanup\<close> has been set up: whatever happens, \<open>cleanup\<close> is run at the
  end.\<close>

definition finish :: "(pconn \<times> fds \<Rightarrow> fd_result \<times> (pconn \<times> fds)) \<Rightarrow> pconn \<times> fds \<Rightarrow> fd_result \<times> fds" where
  "finish body cw = (case body cw of (r, cw') \<Rightarrow> (r, snd (cleanup cw')))"

definition converted :: "(bool \<Rightarrow> pconn \<times> fds \<Rightarrow> nat option \<times> (pconn \<times> fds)) \<Rightarrow> bool \<Rightarrow> pconn \<times> fds \<Rightarrow> fd_result \<times> (pconn \<times> fds)" where
  "converted conv ok cw = (case conv ok cw of (None, cw') \<Rightarrow> (FdErr, cw') | (Some j, cw') \<Rightarrow> (FdOk j, cw'))"

definition reuse_and_bind :: "bool \<Rightarrow> NetOptions option \<Rightarrow> outcomes \<Rightarrow> nat \<Rightarrow> fds \<Rightarrow> (fd_result \<times> fds) option" where
  "reuse_and_bind isTCP options oc i w =
     (case options of None \<Rightarrow> None
      | Some opt \<Rightarrow>
          if isTCP \<and> ReusePort opt \<and> \<not> ocReuseAddr oc then Some (FdErr, fd_close i w)
          else (case (if isTCP \<and> ReusePort opt then reuseTCPAddr (ocReusePort oc) i w else None) of
            Some w' \<Rightarrow> Some (FdErr, w')
          | None \<Rightarrow>
              if isTCP \<and> LocalAddr opt \<noteq> [] then
                (case ocLocal oc of None \<Rightarrow> Some (FdErr, fd_close i w)
                 | Some (ip, port) \<Rightarrow>
                    (case bindSocket (ocBind oc) ip (is_v6 ip) of
                       BindPanic \<Rightarrow> Some (FdPanic, w)
                     | BindErr \<Rightarrow> Some (FdErr, fd_close i w)
                     | BindOk \<Rightarrow> None))
              else None))"

definition dialContext :: "bool \<Rightarrow> bool \<Rightarrow> string \<Rightarrow> string \<Rightarrow> NetOptions option \<Rightarrow> outcomes \<Rightarrow> fds \<Rightarrow> fd_result \<times> fds" where
  "dialContext marked ctxDone network raddr options oc w =
     (case pSplitHostPort raddr of None \<Rightarrow> (FdErr, w)
      | Some (host, port) \<Rightarrow>
         (case ParseIP host of None \<Rightarrow> (FdNil, w)
          | Some ip \<Rightarrow>
              if ctxDone then (FdErr, w)
              else if \<not> ocSocket oc then (FdErr, w)
              else let isTCP = (network \<notin> {''udp'', ''udp4'', ''udp6''}); (i, w) = fd_open w
                in if marked \<and> \<not> ocMark oc then (FdErr, fd_close i w)
                   else case reuse_and_bind isTCP options oc i w of
                          Some r \<Rightarrow> r
                        | None \<Rightarrow>
                            finish (\<lambda>cw. if \<not> ocProtect oc then (FdErr, cw)
                                else if \<not> connectSocket (Some ip) (ocConnect oc) then (FdErr, cw)
                                else converted convert (ocConvert oc) cw)
                              (new_pconn\<lparr>socketFd := Some i\<rparr>, w)))"

definition DialContext :: "bool \<Rightarrow> bool \<Rightarrow> string \<Rightarrow> string \<Rightarrow> outcomes \<Rightarrow> fds \<Rightarrow> fd_result \<times> fds" where
  "DialContext marked ctxDone network addr oc w = dialContext marked ctxDone network addr None oc w"

text \<open>\<open>Dial\<close>: a context with the timeout, which may have ended before the socket is made.\<close>

definition protector_Dial :: "bool \<Rightarrow> bool \<Rightarrow> string \<Rightarrow> string \<Rightarrow> outcomes \<Rightarrow> fds \<Rightarrow> fd_result \<times> fds" where
  "protector_Dial marked timedOut network addr oc w = DialContext marked timedOut network addr oc w"

definition DialContextOptions :: "bool \<Rightarrow> bool \<Rightarrow> string \<Rightarrow> string \<Rightarrow> NetOptions option \<Rightarrow> outcomes \<Rightarrow> fds \<Rightarrow> fd_result \<times> fds" where
  "DialContextOptions marked ctxDone network addr opt oc w = dialContext marked ctxDone network addr opt oc w"

section \<open>Listening\<close>

text \<open>A listener whose port cannot be shared has its descriptor closed by \<open>reuseTCPAddr\<close> and then
  again here (\<open>socketFd > 0\<close> holds of a new socket, as descriptor 0 is the standard input).\<close>

definition ListenTCP :: "bytes option \<Rightarrow> NetOptions option \<Rightarrow> outcomes \<Rightarrow> fds \<Rightarrow> fd_result \<times> fds" where
  "ListenTCP laddrIP options oc w =
     (if \<not> ocSocket oc then (FdErr, w)
      else let (i, w) = fd_open w in
        case (if (case options of Some opt \<Rightarrow> ReusePort opt | None \<Rightarrow> False) then reuseTCPAddr (ocReusePort oc) i w else None) of
          Some w' \<Rightarrow> (FdErr, fd_close i w')
        | None \<Rightarrow> finish (\<lambda>cw.
               if \<not> ocProtect oc then (FdErr, cw)
               else case (case laddrIP of None \<Rightarrow> BindOk | Some a \<Rightarrow> bindSocket (ocBind oc) laddrIP (To4 a = None)) of
                 BindPanic \<Rightarrow> (FdPanic, cw)
               | BindErr \<Rightarrow> (FdErr, cw)
               | BindOk \<Rightarrow> if \<not> ocListen oc then (FdErr, cw) else converted convertLisener (ocConvert oc) cw)
             (new_pconn\<lparr>socketFd := Some i\<rparr>, w))"

definition protector_ListenUDP :: "bool \<Rightarrow> bytes option \<Rightarrow> outcomes \<Rightarrow> fds \<Rightarrow> fd_result \<times> fds" where
  "protector_ListenUDP marked laddrIP oc w =
     (if \<not> ocSocket oc then (FdErr, w)
      else let (i, w) = fd_open w in
        if marked \<and> \<not> ocMark oc then (FdErr, fd_close i w)
        else finish (\<lambda>cw.
               if \<not> ocProtect oc then (FdErr, cw)
               else case bindSocket (ocBind oc) laddrIP (is_v6 laddrIP) of
                 BindPanic \<Rightarrow> (FdPanic, cw)
               | BindErr \<Rightarrow> (FdErr, cw)
               | BindOk \<Rightarrow> converted packet_convert (ocConvert oc) cw)
             (new_pconn\<lparr>socketFd := Some i\<rparr>, w))"

definition protector_DialUDP :: "bool \<Rightarrow> bytes option \<Rightarrow> outcomes \<Rightarrow> fds \<Rightarrow> fd_result \<times> fds" where
  "protector_DialUDP marked raddrIP oc w =
     (if \<not> ocSocket oc then (FdErr, w)
      else let (i, w) = fd_open w in
        if marked \<and> \<not> ocMark oc then (FdErr, fd_close i w)
        else finish (\<lambda>cw.
               if \<not> ocProtect oc then (FdErr, cw)
               else if \<not> connectSocket raddrIP (ocConnect oc) then (FdErr, cw)
               else converted packet_convert (ocConvert oc) cw)
             (new_pconn\<lparr>socketFd := Some i\<rparr>, w))"

definition SupportReusePort :: "outcomes \<Rightarrow> fds \<Rightarrow> bool \<times> fds" where
  "SupportReusePort oc w =
     (if \<not> ocSocket oc then (False, w)
      else case fd_open w of (i, w) \<Rightarrow> (ocReusePort oc, fd_close i w))"

section \<open>Resolving\<close>

record DNSRecord =
  recIP :: string
  ExpireAt :: int

text \<open>The A records of an answer; each comes with its time to live.\<close>

fun a_records :: "int \<Rightarrow> (rr \<times> int) list \<Rightarrow> DNSRecord list" where
  "a_records tm [] = []"
| "a_records tm ((A ip, ttl) # rs) = \<lparr>recIP = ip, ExpireAt = tm + ttl\<rparr> # a_records tm rs"
| "a_records tm (r # rs) = a_records tm rs"

definition DnsLookup :: "int \<Rightarrow> (rr \<times> int) list option \<Rightarrow> DNSRecord list option" where
  "DnsLookup tm answer = (case answer of None \<Rightarrow> None | Some rs \<Rightarrow> Some (a_records tm rs))"

definition PickRandomIP :: "(nat \<Rightarrow> nat) \<Rightarrow> DNSRecord list \<Rightarrow> string option" where
  "PickRandomIP rnd rs = (if rs = [] then None else Some (recIP (rs ! (rnd (length rs) mod length rs))))"

definition PickRecord :: "DNSRecord list \<Rightarrow> DNSRecord option" where
  "PickRecord rs = (if rs = [] then None else Some (rs ! 0))"

text \<open>\<open>Resolve\<close>: the socket is closed by the deferred \<open>file.Close\<close> and by the deferred
  \<open>syscall.Close\<close>; the duplicate is closed with the lookup. \<open>None\<close> is an error.\<close>

definition resolve_socket :: "string \<Rightarrow> (nat \<Rightarrow> nat) \<Rightarrow> int \<Rightarrow> (rr \<times> int) list option \<Rightarrow> outcomes \<Rightarrow> nat \<Rightarrow> fds \<Rightarrow> string option \<times> fds" where
  "resolve_socket dnsServer rnd tm answer oc i w =
     (if \<not> ocProtect oc then (None, fd_close i w)
      else if ParseIP dnsServer = None then (None, fd_close i w)
      else if \<not> ocConnect oc then (None, fd_close i w)
      else if \<not> ocConvert oc then (None, fd_close i (fd_close i w))
      else case fd_open w of (j, w1) \<Rightarrow>
        (let w2 = fd_close i (fd_close i (fd_close j w1))
         in case DnsLookup tm answer of None \<Rightarrow> (None, w2)
          | Some rs \<Rightarrow> (PickRandomIP rnd rs, w2)))"

definition Resolve :: "string \<Rightarrow> (nat \<Rightarrow> nat) \<Rightarrow> int \<Rightarrow> (rr \<times> int) list option \<Rightarrow> string \<Rightarrow> outcomes \<Rightarrow> fds \<Rightarrow> (string \<times> int) option \<times> fds" where
  "Resolve dnsServer rnd tm answer addr oc w =
     (case pSplitHostPort addr of None \<Rightarrow> (None, w)
      | Some (host, port) \<Rightarrow>
         (case ParseIP host of Some ip \<Rightarrow> (Some (IPString ip, port), w)
          | None \<Rightarrow>
             if \<not> ocSocket oc then (None, w)
             else case fd_open w of (i, w) \<Rightarrow>
               (case resolve_socket dnsServer rnd tm answer oc i w of (r, w) \<Rightarrow> (map_option (\<lambda>ip. (ip, port)) r, w))))"

section \<open>Configuration\<close>

record pconf =
  currentProtect :: bool   \<comment> \<open>whether a protector has been set\<close>
  currentDnsServer :: string

definition protector_init :: pconf where
  "protector_init = \<lparr>currentProtect = False, currentDnsServer = []\<rparr>"

text \<open>\<open>Configure\<close> assigns the default server to its own parameter.\<close>

definition Configure :: "string \<Rightarrow> pconf \<Rightarrow> pconf" where
  "Configure dnsServer c =
     (if dnsServer \<noteq> [] then c\<lparr>currentProtect := True, currentDnsServer := dnsServer\<rparr> else c\<lparr>currentProtect := True\<rparr>)"

definition SetDNSServer :: "string \<Rightarrow> pconf \<Rightarrow> pconf" where
  "SetDNSServer server c = (if currentDnsServer c \<noteq> [] then c\<lparr>currentDnsServer := server\<rparr> else c)"

text \<open>Package \<open>netx\<close>: four functions that can be replaced.\<close>

record ('d, 'r, 'l, 'u) netx =
  nxDial :: 'd
  nxResolve :: 'r
  nxListenUDP :: 'l
  nxDialUDP :: 'u

definition OverrideDial :: "'d \<Rightarrow> ('d, 'r, 'l, 'u) netx \<Rightarrow> ('d, 'r, 'l, 'u) netx" where
  "OverrideDial f n = n\<lparr>nxDial := f\<rparr>"

definition OverrideResolve :: "'r \<Rightarrow> ('d, 'r, 'l, 'u) netx \<Rightarrow> ('d, 'r, 'l, 'u) netx" where
  "OverrideResolve f n = n\<lparr>nxResolve := f\<rparr>"

definition OverrideListenUDP :: "'l \<Rightarrow> ('d, 'r, 'l, 'u) netx \<Rightarrow> ('d, 'r, 'l, 'u) netx" where
  "OverrideListenUDP f n = n\<lparr>nxListenUDP := f\<rparr>"

definition OverrideDialUDP :: "'u \<Rightarrow> ('d, 'r, 'l, 'u) netx \<Rightarrow> ('d, 'r, 'l, 'u) netx" where
  "OverrideDialUDP f n = n\<lparr>nxDialUDP := f\<rparr>"

definition netx_Reset :: "'d \<Rightarrow> 'r \<Rightarrow> 'l \<Rightarrow> 'u \<Rightarrow> ('d, 'r, 'l, 'u) netx \<Rightarrow> ('d, 'r, 'l, 'u) netx" where
  "netx_Reset d r l u n = OverrideDialUDP u (OverrideListenUDP l (OverrideResolve r (OverrideDial d n)))"

definition ProtectConnections :: "'d \<Rightarrow> 'r \<Rightarrow> 'l \<Rightarrow> 'u \<Rightarrow> string \<Rightarrow> pconf \<times> ('d, 'r, 'l, 'u) netx \<Rightarrow> pconf \<times> ('d, 'r, 'l, 'u) netx" where
  "ProtectConnections d r l u dnsServer cn =
     (case cn of (c, n) \<Rightarrow> (Configure dnsServer c, OverrideDialUDP u (OverrideListenUDP l (OverrideResolve r (OverrideDial d n)))))"

section \<open>Accounting\<close>

text \<open>What an operation must leave: nothing open but the connection it returns, and no descriptor closed
  that it has not opened, none twice.\<close>

definition fds_ok :: "fds \<Rightarrow> bool" where
  "fds_ok w \<longleftrightarrow> (\<forall>i \<in> fdOpen w. i < fdNext w) \<and> (\<forall>i \<in> set (fdClosed w). i < fdNext w)"

definition exact :: "fds \<Rightarrow> fd_result \<Rightarrow> fds \<Rightarrow> bool" where
  "exact w r w' \<longleftrightarrow>
     fdOpen w' = fdOpen w \<union> (case r of FdOk j \<Rightarrow> {j} | _ \<Rightarrow> {}) \<and> (\<forall>j. r = FdOk j \<longrightarrow> j \<notin> fdOpen w) \<and>
     (\<exists>cs. fdClosed w' = fdClosed w @ cs \<and> distinct cs \<and> set cs \<inter> fdOpen w = {} \<and> set cs \<inter> set (fdClosed w) = {})"

lemma exact_nothing: "exact w FdErr w" "exact w FdNil w"
  by (simp_all add: exact_def)

lemma fresh_notin: "fds_ok w \<Longrightarrow> fdNext w \<notin> fdOpen w \<and> Suc (fdNext w) \<notin> fdOpen w \<and> fdNext w \<notin> set (fdClosed w)"
  by (auto simp: fds_ok_def)

lemma exact_close:
  "fds_ok w \<Longrightarrow> fd_open w = (i, w1) \<Longrightarrow> exact w FdErr (fd_close i w1)"
  using fresh_notin [of w] by (auto simp: exact_def fd_open_def fd_close_def)

text \<open>The deferred \<open>cleanup\<close> closes the socket unless it has been converted.\<close>

lemma finish_err:
  "fds_ok w \<Longrightarrow> fd_open w = (i, w1) \<Longrightarrow> exact w FdErr (snd (cleanup (new_pconn\<lparr>socketFd := Some i\<rparr>, w1)))"
  using exact_close [of w i w1] by (simp add: cleanup_def new_pconn_def)

lemma finish_converted:
  assumes "fds_ok w" "fd_open w = (i, w1)" "converted convert ok (new_pconn\<lparr>socketFd := Some i\<rparr>, w1) = (r, cw)"
  shows "exact w r (snd (cleanup cw))"
proof (cases ok)
  case True
  then have "r = FdOk (Suc (fdNext w))" "snd (cleanup cw) = fd_close i (snd (fd_open w1))"
    using assms(2,3) by (auto simp: converted_def convert_def new_pconn_def cleanup_def fd_open_def Let_def)
  then show ?thesis using assms(1,2) fresh_notin [of w] by (auto simp: exact_def fd_open_def fd_close_def)
next
  case False
  then have "r = FdErr" "snd (cleanup cw) = fd_close i w1"
    using assms(3) by (auto simp: converted_def convert_def new_pconn_def cleanup_def Let_def)
  then show ?thesis using exact_close [OF assms(1,2)] by simp
qed

lemma finish_exact:
  assumes "fds_ok w" "fd_open w = (i, w1)" "finish body (new_pconn\<lparr>socketFd := Some i\<rparr>, w1) = (r, w')" "r \<noteq> FdPanic"
    and "body (new_pconn\<lparr>socketFd := Some i\<rparr>, w1) \<in>
      {(FdErr, (new_pconn\<lparr>socketFd := Some i\<rparr>, w1)), (FdPanic, (new_pconn\<lparr>socketFd := Some i\<rparr>, w1)), converted convert ok (new_pconn\<lparr>socketFd := Some i\<rparr>, w1)}"
  shows "exact w r w'"
proof -
  obtain cw where b: "body (new_pconn\<lparr>socketFd := Some i\<rparr>, w1) = (r, cw)" "w' = snd (cleanup cw)"
    using assms(3) by (auto simp: finish_def split: prod.splits)
  consider "r = FdErr \<and> cw = (new_pconn\<lparr>socketFd := Some i\<rparr>, w1)" | "converted convert ok (new_pconn\<lparr>socketFd := Some i\<rparr>, w1) = (r, cw)"
    using assms(4,5) b(1) by auto
  then show ?thesis
    using finish_err [OF assms(1,2)] finish_converted [OF assms(1,2)] b(2) by cases auto
qed

lemma reuse_and_bind_exact:
  "\<lbrakk>fds_ok w; fd_open w = (i, w1); reuse_and_bind isTCP options oc i w1 = Some (r, w'); r \<noteq> FdPanic\<rbrakk> \<Longrightarrow> exact w r w'"
  using exact_close [of w i w1]
  by (auto simp: reuse_and_bind_def reuseTCPAddr_def split: option.splits if_splits bind_result.splits)

section \<open>Properties\<close>

text \<open>C15: dialling a protected connection leaks no descriptor and closes none twice, on every path that does
  not panic: afterwards only the connection that is returned is open.\<close>

theorem dial_descriptors_exact:
  assumes "dialContext marked ctxDone network raddr options oc w = (r, w')" "fds_ok w" "r \<noteq> FdPanic"
  shows "exact w r w'"
proof -
  obtain i w1 where o: "fd_open w = (i, w1)" by fastforce
  show ?thesis
  proof (cases "pSplitHostPort raddr")
    case None
    with assms(1) exact_nothing show ?thesis by (auto simp: dialContext_def)
  next
    case (Some hp)
    obtain host port where hp: "hp = (host, port)" by fastforce
    show ?thesis
    proof (cases "ParseIP host = None \<or> ctxDone \<or> \<not> ocSocket oc \<or> marked \<and> \<not> ocMark oc")
      case True
      with assms(1) exact_nothing exact_close [OF assms(2) o] Some hp o show ?thesis
        by (auto simp: dialContext_def split: option.splits if_splits)
    next
      case False
      then obtain ip where ip: "ParseIP host = Some ip" by (cases "ParseIP host") auto
      let ?tcp = "network \<notin> {''udp'', ''udp4'', ''udp6''}"
      let ?body = "\<lambda>cw. if \<not> ocProtect oc then (FdErr, cw)
                                else if \<not> connectSocket (Some ip) (ocConnect oc) then (FdErr, cw)
                                else converted convert (ocConvert oc) cw"
      have e: "dialContext marked ctxDone network raddr options oc w =
          (case reuse_and_bind ?tcp options oc i w1 of Some r \<Rightarrow> r
           | None \<Rightarrow> finish ?body (new_pconn\<lparr>socketFd := Some i\<rparr>, w1))"
      proof -
        have "\<not> ctxDone" "ocSocket oc" "(marked \<and> \<not> ocMark oc) = False" using False by auto
        then show ?thesis using Some hp ip o unfolding dialContext_def Let_def by auto
      qed
      show ?thesis
      proof (cases "reuse_and_bind ?tcp options oc i w1")
        case None
        with e assms(1) have f: "finish ?body (new_pconn\<lparr>socketFd := Some i\<rparr>, w1) = (r, w')" by simp
        show ?thesis by (rule finish_exact [OF assms(2) o f assms(3), of "ocConvert oc"]) simp
      next
        case (Some x)
        with e assms(1) have "reuse_and_bind ?tcp options oc i w1 = Some (r, w')" by simp
        from reuse_and_bind_exact [OF assms(2) o this assms(3)] show ?thesis .
      qed
    qed
  qed
qed

definition all_ok :: outcomes where
  "all_ok = \<lparr>ocSocket = True, ocMark = True, ocReuseAddr = True, ocReusePort = True, ocLocal = None, ocBind = True,
     ocProtect = True, ocConnect = True, ocListen = True, ocConvert = True\<rparr>"

lemma pSplit_example: "pSplitHostPort ''1.2.3.4:80'' = Some (''1.2.3.4'', 80)" by code_simp

lemma pSplit_name: "pSplitHostPort ''a:80'' = Some (''a'', 80)" by code_simp

lemma ParseIP_example: "ParseIP ''1.2.3.4'' \<noteq> None" by code_simp

lemma dial_descriptors_exact_witness:
  "exact no_fds (FdOk 1) \<lparr>fdNext = 2, fdOpen = {1}, fdClosed = [0]\<rparr>"
proof (rule dial_descriptors_exact)
  show "dialContext False False ''tcp'' ''1.2.3.4:80'' None all_ok no_fds = (FdOk 1, \<lparr>fdNext = 2, fdOpen = {1}, fdClosed = [0]\<rparr>)"
    using ParseIP_example
    by (auto simp: dialContext_def pSplit_example all_ok_def reuse_and_bind_def finish_def connectSocket_def converted_def convert_def
        new_pconn_def cleanup_def fd_open_def fd_close_def no_fds_def Let_def)
qed (simp_all add: fds_ok_def no_fds_def)

text \<open>a listener whose port cannot be shared closes its descriptor twice.\<close>

theorem ListenTCP_double_close:
  assumes "ocSocket oc" "ReusePort opt" "\<not> ocReusePort oc"
  shows "fdClosed (snd (ListenTCP ip (Some opt) oc w)) = fdClosed w @ [fdNext w, fdNext w]"
  using assms by (simp add: ListenTCP_def reuseTCPAddr_def fd_open_def fd_close_def)

lemma ListenTCP_double_close_witness:
  "fdClosed (snd (ListenTCP None (Some \<lparr>ReusePort = True, LocalAddr = []\<rparr>) (all_ok\<lparr>ocReusePort := False\<rparr>) no_fds)) = [0, 0]"
  using ListenTCP_double_close [of "all_ok\<lparr>ocReusePort := False\<rparr>" "\<lparr>ReusePort = True, LocalAddr = []\<rparr>" None no_fds]
  by (simp add: all_ok_def no_fds_def)

text \<open>every lookup of a name that gets as far as its connection closes the socket twice, whatever the
  server answers.\<close>

theorem Resolve_double_close:
  assumes "pSplitHostPort addr = Some (host, port)" "ParseIP host = None" "ocSocket oc" "ocProtect oc" "ParseIP dns \<noteq> None"
    "ocConnect oc" "ocConvert oc"
  shows "fdClosed (snd (Resolve dns rnd tm answer addr oc w)) = fdClosed w @ [Suc (fdNext w), fdNext w, fdNext w]"
  using assms by (auto simp: Resolve_def resolve_socket_def fd_open_def fd_close_def Let_def split: option.splits prod.splits)

lemma Resolve_double_close_witness:
  "fdClosed (snd (Resolve ''1.2.3.4'' (\<lambda>_. 0) 0 None ''a:80'' all_ok no_fds)) = [1, 0, 0]"
  using Resolve_double_close [OF pSplit_name, of all_ok "''1.2.3.4''" "\<lambda>_. 0" 0 None no_fds] ParseIP_example
  by (simp add: all_ok_def no_fds_def ParseIP_def [of "''a''"])

text \<open>dialling a name instead of an address gives neither a connection nor an error.\<close>

theorem dial_name_gives_nil:
  assumes "pSplitHostPort raddr = Some (host, port)" "ParseIP host = None"
  shows "dialContext marked ctxDone network raddr options oc w = (FdNil, w)"
  using assms by (simp add: dialContext_def)

lemma dial_name_gives_nil_witness: "dialContext False False ''tcp'' ''a:80'' None all_ok no_fds = (FdNil, no_fds)"
  by (rule dial_name_gives_nil [OF pSplit_name]) (simp add: ParseIP_def)

text \<open>after a configuration without a DNS server no later setting has an effect, and no name can be
  resolved.\<close>

theorem default_dns_never_set:
  assumes "pSplitHostPort addr = Some (host, port)" "ParseIP host = None"
  shows "fst (Resolve (currentDnsServer (SetDNSServer s (Configure [] protector_init))) rnd tm answer addr oc w) = None"
  using assms by (simp add: SetDNSServer_def Configure_def protector_init_def Resolve_def resolve_socket_def ParseIP_def split: prod.splits)

lemma default_dns_never_set_witness:
  "fst (Resolve (currentDnsServer (SetDNSServer ''8.8.8.8'' (Configure [] protector_init))) (\<lambda>_. 0) 0 (Some [(A ''1.1.1.1'', 5)]) ''a:80'' all_ok no_fds) = None"
  by (rule default_dns_never_set [OF pSplit_name]) (simp add: ParseIP_def)

text \<open>A connection can be closed any number of times: its descriptor is closed once.\<close>

lemma pconn_Close_idempotent: "pconn_Close (pconn_Close cw) = pconn_Close cw"
  by (cases cw) (auto simp: pconn_Close_def split: option.splits)

end
