(* ===== verification/UdpPacket.thy ===== *)
theory UdpPacket
  imports HelperIO GoNet
begin

text \<open>
  The packets of the UDP gateway (\<open>local/udpgw.go\<close>): a little-endian length, then flags,
  connection id, address, port and content. The reader peeks at the whole body and then
  takes the fields out of the buffer, with a 16-bit count of what is left of the body; errors
  of these later reads are ignored by the code.
\<close>

unbundle bit_operations_syntax

section \<open>Packets\<close>

definition flagKeepAlive :: byte where "flagKeepAlive = 1"
definition flagReBind :: byte where "flagReBind = 2"
definition flagDNS :: byte where "flagDNS = 4"
definition flagIPv6 :: byte where "flagIPv6 = 8"

record udpgwAddr =
  gaIP :: bytes
  gaPort :: u16

record udpgwPacket =
  gpLength :: u16
  gpFlags :: byte
  gpConid :: u16
  gpAddr :: udpgwAddr
  gpContent :: bytes

definition zero_packet :: udpgwPacket where
  "zero_packet = \<lparr>gpLength = 0, gpFlags = 0, gpConid = 0, gpAddr = \<lparr>gaIP = [], gaPort = 0\<rparr>, gpContent = []\<rparr>"

text \<open>\<open>address\<close>: \<open>fmt.Sprintf("%s:%d")\<close>, without brackets around an IPv6 address. An address
  that is neither 16 nor 4 bytes long becomes nil.\<close>

definition udpgw_address :: "udpgwPacket \<Rightarrow> string" where
  "udpgw_address u =
     (let ip = (if length (gaIP (gpAddr u)) = 16 then gaIP (gpAddr u)
                else case To4 (gaIP (gpAddr u)) of Some q \<Rightarrow> q | None \<Rightarrow> [])
      in IPString ip @ '':'' @ itoa (unat (gaPort (gpAddr u))))"

section \<open>Writing\<close>

definition le16_bytes :: "nat \<Rightarrow> bytes" where
  "le16_bytes n = [of_nat n, of_nat (n div 256)]"

text \<open>The length is computed in 16 bits.\<close>

definition packet_length :: "udpgwPacket \<Rightarrow> u16" where
  "packet_length u = 1 + 2 + of_nat (length (gaIP (gpAddr u))) + 2 + of_nat (length (gpContent u))"

definition packet_bytes :: "udpgwPacket \<Rightarrow> bytes" where
  "packet_bytes u = le16_bytes (unat (packet_length u)) @ [gpFlags u] @ be16_bytes (unat (gpConid u)) @
     gaIP (gpAddr u) @ be16_bytes (unat (gaPort (gpAddr u))) @ gpContent u"

text \<open>\<open>write\<close>: the packet with its length set, and the outcome of the one \<open>Write\<close>.\<close>

definition packet_write :: "(bytes \<Rightarrow> io_err option) \<Rightarrow> udpgwPacket \<Rightarrow> io_err option \<times> udpgwPacket \<times> bytes" where
  "packet_write w u = (let u = u\<lparr>gpLength := packet_length u\<rparr> in (w (packet_bytes u), u, packet_bytes u))"

section \<open>Reading\<close>

text \<open>\<open>binary.Read\<close> of \<open>n\<close> bytes: a short read uses up what is there and leaves the value alone.\<close>

definition binary_Read :: "nat \<Rightarrow> bufr \<Rightarrow> bytes option \<times> bufr" where
  "binary_Read n r = (case ReadFull n r of Inr (b, r') \<Rightarrow> (Some b, r') | Inl _ \<Rightarrow> (None, r\<lparr>bbuf := [], bsrc := []\<rparr>))"

definition as_u8 :: "bytes option \<Rightarrow> byte" where
  "as_u8 b = (case b of Some [x] \<Rightarrow> x | _ \<Rightarrow> 0)"

definition as_u16 :: "bytes option \<Rightarrow> u16" where
  "as_u16 b = (case b of Some [x, y] \<Rightarrow> of_nat (be16 x y) | _ \<Rightarrow> 0)"

text \<open>\<open>r.Read(buf)\<close> into a fresh buffer of \<open>n\<close> bytes, the result ignored: what one read gives, then zeros.\<close>

definition read_into :: "nat \<Rightarrow> bufr \<Rightarrow> bytes \<times> bufr" where
  "read_into n r = (case buf_Read n r of
     (Inr b, r') \<Rightarrow> (b @ replicate (n - length b) 0, r')
   | (Inl _, r') \<Rightarrow> (replicate n 0, r'))"

definition Discard2 :: "bufr \<Rightarrow> bufr" where
  "Discard2 r = r\<lparr>bbuf := drop 2 (bbuf r)\<rparr>"

text \<open>The part of \<open>read\<close> after the two \<open>Peek\<close>s. \<open>bodylen\<close> wraps.\<close>

definition read_body :: "u16 \<Rightarrow> bufr \<Rightarrow> udpgwPacket \<times> bufr" where
  "read_body len r =
     (case binary_Read 1 r of (f, r) \<Rightarrow>
      case binary_Read 2 r of (c, r) \<Rightarrow>
        let u = zero_packet\<lparr>gpLength := len, gpFlags := as_u8 f, gpConid := as_u16 c\<rparr>;
            bodylen = len - 3
        in if bodylen > 0 then
             (let iplen = (if gpFlags u AND flagIPv6 \<noteq> 0 then 16 else 4) in
              case read_into iplen r of (ip, r) \<Rightarrow>
                (let bodylen = bodylen - of_nat iplen in
                 case binary_Read 2 r of (p, r) \<Rightarrow>
                   (let bodylen = bodylen - 2 in
                    case read_into (unat bodylen) r of (content, r) \<Rightarrow>
                      (u\<lparr>gpAddr := \<lparr>gaIP = ip, gaPort = as_u16 p\<rparr>, gpContent := content\<rparr>, r))))
           else (u, r))"

definition packet_read :: "bufr \<Rightarrow> (io_err + udpgwPacket) \<times> bufr" where
  "packet_read r =
     (case Peek 2 r of
        (_, Some e, r) \<Rightarrow> (Inl e, r)
      | (bs, None, r) \<Rightarrow>
          (let len = as_u16 (Some [bs ! 1, bs ! 0]) in
           case Peek (unat len) (Discard2 r) of
             (_, Some e, r) \<Rightarrow> (Inl e, r)
           | (_, None, r) \<Rightarrow> (case read_body len r of (u, r) \<Rightarrow> (Inr u, r))))"

section \<open>What the buffer holds is read exactly\<close>

lemma binary_Read_spec:
  assumes "length xs = n" "rest_of r = xs @ ys"
  shows "\<exists>r'. binary_Read n r = (Some xs, r') \<and> rest_of r' = ys"
  using ReadFull_spec [of n r] assms by (auto simp: binary_Read_def)

lemma ReadFull_buffered:
  assumes "length xs = n" "bbuf r = xs @ ys"
  shows "ReadFull n r = Inr (xs, r\<lparr>bbuf := ys\<rparr>)"
  using assms by (cases xs) (auto simp: ReadFull_def read_full.simps [of n "[]" r] read_full.simps [of 0] Let_def)

lemma binary_Read_buffered:
  "length xs = n \<Longrightarrow> bbuf r = xs @ ys \<Longrightarrow> binary_Read n r = (Some xs, r\<lparr>bbuf := ys\<rparr>)"
  by (simp add: binary_Read_def ReadFull_buffered)

lemma read_into_buffered:
  "length xs = n \<Longrightarrow> bbuf r = xs @ ys \<Longrightarrow> read_into n r = (xs, r\<lparr>bbuf := ys\<rparr>)"
  by (cases xs) (auto simp: read_into_def buf_Read_def)

lemma unat_u16: "n < 65536 \<Longrightarrow> unat (of_nat n :: u16) = n"
  by (simp add: unat_of_nat)

lemma u16_bound: "unat (w :: u16) < 65536"
  using unsigned_less [of w] by simp

lemma as_u16_be16: "as_u16 (Some (be16_bytes (unat (w :: u16)))) = w"
  unfolding as_u16_def be16_bytes_def option.case list.case be16_bytes_inv [OF u16_bound] by simp

lemma as_u16_le16: "as_u16 (Some [le16_bytes (unat (w :: u16)) ! 1, le16_bytes (unat w) ! 0]) = w"
  using as_u16_be16 [of w] by (simp add: be16_bytes_def le16_bytes_def)

text \<open>A packet as \<open>write\<close> makes it and \<open>read\<close> expects it: the flag agrees with the length of the
  address, and the body fits into the buffer of the reader.\<close>

definition packet_ok :: "udpgwPacket \<Rightarrow> bool" where
  "packet_ok u \<longleftrightarrow> length (gaIP (gpAddr u)) = (if gpFlags u AND flagIPv6 \<noteq> 0 then 16 else 4) \<and>
     5 + length (gaIP (gpAddr u)) + length (gpContent u) \<le> bufsize \<and> gpLength u = packet_length u"

lemma packet_ok_length:
  assumes "packet_ok u"
  shows "unat (gpLength u) = 5 + length (gaIP (gpAddr u)) + length (gpContent u)"
    "length (packet_bytes u) = 2 + unat (gpLength u)"
proof -
  have e: "packet_length u = of_nat (5 + length (gaIP (gpAddr u)) + length (gpContent u))"
    by (simp add: packet_length_def)
  have lt: "5 + length (gaIP (gpAddr u)) + length (gpContent u) < 65536" and g: "gpLength u = packet_length u"
    using assms by (simp_all add: packet_ok_def bufsize_def split: if_splits)
  show l: "unat (gpLength u) = 5 + length (gaIP (gpAddr u)) + length (gpContent u)"
    unfolding g e by (rule unat_u16 [OF lt])
  show "length (packet_bytes u) = 2 + unat (gpLength u)"
    unfolding l by (simp add: packet_bytes_def le16_bytes_def)
qed

lemma read_body_ok:
  assumes ok: "packet_ok u" and buf: "packet_bytes u = le16_bytes (unat (gpLength u)) @ bs" "bbuf r = bs @ ys"
  shows "read_body (gpLength u) r = (u, r\<lparr>bbuf := ys\<rparr>)"
proof -
  let ?ip = "gaIP (gpAddr u)" and ?c = "gpContent u"
  have len: "gpLength u = of_nat (5 + length ?ip + length ?c)" using ok by (simp add: packet_ok_def packet_length_def)
  have iplen: "length ?ip = (if gpFlags u AND flagIPv6 \<noteq> 0 then 16 else 4)" using ok by (simp add: packet_ok_def)
  have l5: "5 + length ?ip + length ?c \<le> 4096" using ok by (simp add: packet_ok_def bufsize_def)
  have pos: "gpLength u - 3 = of_nat (2 + length ?ip + length ?c)" unfolding len by simp
  have "unat (gpLength u - 3) = 2 + length ?ip + length ?c" unfolding pos by (rule unat_u16) (use l5 in simp)
  then have pos': "gpLength u - 3 > 0" by (simp add: word_gt_0 unat_eq_zero [symmetric] del: unat_eq_zero)
  have "gpLength u - 3 - of_nat (length ?ip) - 2 = of_nat (length ?c)" unfolding pos by simp
  then have rem: "unat (gpLength u - 3 - of_nat (length ?ip) - 2) = length ?c" using l5 by (simp add: unat_u16)
  have b: "bbuf r = [gpFlags u] @ be16_bytes (unat (gpConid u)) @ ?ip @ be16_bytes (unat (gaPort (gpAddr u))) @ ?c @ ys"
    using buf ok by (auto simp: packet_bytes_def le16_bytes_def packet_ok_def)
  note steps = binary_Read_buffered [of "[gpFlags u]"] binary_Read_buffered [of "be16_bytes _"] read_into_buffered
  have 1: "binary_Read 1 r = (Some [gpFlags u], r\<lparr>bbuf := be16_bytes (unat (gpConid u)) @ ?ip @ be16_bytes (unat (gaPort (gpAddr u))) @ ?c @ ys\<rparr>)"
    using b by (simp add: binary_Read_buffered)
  have 2: "binary_Read 2 (r\<lparr>bbuf := be16_bytes x @ zs\<rparr>) = (Some (be16_bytes x), r\<lparr>bbuf := zs\<rparr>)" for x zs
    by (simp add: binary_Read_buffered [of "be16_bytes x"])
  have 3: "read_into (length xs) (r\<lparr>bbuf := xs @ zs\<rparr>) = (xs, r\<lparr>bbuf := zs\<rparr>)" for xs zs
    by (simp add: read_into_buffered [of xs])
  have u: "u = zero_packet\<lparr>gpLength := gpLength u, gpFlags := gpFlags u, gpConid := gpConid u, gpAddr := \<lparr>gaIP = ?ip, gaPort = gaPort (gpAddr u)\<rparr>, gpContent := ?c\<rparr>"
    by (cases u) (simp add: zero_packet_def)
  have "read_body (gpLength u) r = (zero_packet\<lparr>gpLength := gpLength u, gpFlags := gpFlags u, gpConid := gpConid u,
      gpAddr := \<lparr>gaIP = ?ip, gaPort = gaPort (gpAddr u)\<rparr>, gpContent := ?c\<rparr>, r\<lparr>bbuf := ys\<rparr>)"
    using pos' rem by (simp add: read_body_def 1 [unfolded One_nat_def] 2 3 Let_def as_u16_be16 as_u8_def zero_packet_def iplen [symmetric] split del: if_split)
  then show ?thesis using u by simp
qed

text \<open>One packet is read off any segmentation of it and of what follows.\<close>

lemma packet_read_ok:
  assumes "packet_ok u" "rest_of r = packet_bytes u @ rest"
  shows "\<exists>r'. packet_read r = (Inr u, r') \<and> rest_of r' = rest"
proof -
  let ?n = "unat (gpLength u)"
  have g: "packet_length u = gpLength u" using assms(1) by (simp add: packet_ok_def)
  obtain body where body: "packet_bytes u = le16_bytes ?n @ body" by (simp add: packet_bytes_def g)
  have lb: "length body = ?n" using packet_ok_length [OF assms(1)] unfolding body by (simp add: le16_bytes_def)
  have fits: "?n \<le> bufsize" using packet_ok_length(1) [OF assms(1)] assms(1) by (simp add: packet_ok_def)
  obtain r1 where r1: "Peek 2 r = (le16_bytes ?n, None, r1)" "rest_of r1 = le16_bytes ?n @ body @ rest" "2 \<le> length (bbuf r1)"
    using Peek_spec [of 2 r] assms(2) by (auto simp: body le16_bytes_def bufsize_def Buffered_def)
  have r2: "rest_of (Discard2 r1) = body @ rest"
  proof -
    obtain x y zs where "bbuf r1 = x # y # zs" using r1(3) by (cases "bbuf r1"; cases "tl (bbuf r1)") auto
    then show ?thesis using r1(2) by (simp add: Discard2_def rest_of_def le16_bytes_def)
  qed
  obtain b r3 where r3: "Peek ?n (Discard2 r1) = (b, None, r3)" "rest_of r3 = body @ rest" "?n \<le> length (bbuf r3)"
    using Peek_spec [of ?n "Discard2 r1"] r2 lb fits by (auto simp: Buffered_def)
  obtain ys where ys: "bbuf r3 = body @ ys" "rest = ys @ concat (bsrc r3)"
  proof -
    have "body = take ?n (bbuf r3)" using r3(2,3) lb by (metis append_eq_append_conv_if rest_of_def take_all_iff append_take_drop_id le_refl take_append diff_is_0_eq take_0 append_Nil2)
    then have "bbuf r3 = body @ drop ?n (bbuf r3)" by (metis append_take_drop_id)
    then show ?thesis using that r3(2) by (metis append.assoc append_same_eq rest_of_def same_append_eq)
  qed
  have "packet_read r = (case read_body (gpLength u) r3 of (u, r) \<Rightarrow> (Inr u, r))"
    using r1(1) r3(1) by (simp add: packet_read_def as_u16_le16 [unfolded One_nat_def])
  with read_body_ok [OF assms(1) body ys(1)] ys(2) show ?thesis by (simp add: rest_of_def)
qed

text \<open>Read from one segment, the packets are a self-delimiting code.\<close>

definition packet_parse :: "bytes \<Rightarrow> io_err + (udpgwPacket \<times> bytes)" where
  "packet_parse bs = (case packet_read (new_reader [bs] EOF) of (Inl e, _) \<Rightarrow> Inl e | (Inr u, r) \<Rightarrow> Inr (u, rest_of r))"

interpretation packets: prefix_codec packet_ok packet_bytes packet_parse
proof unfold_locales
  fix u rest assume "packet_ok u"
  then show "packet_parse (packet_bytes u @ rest) = Inr (u, rest)"
    using packet_read_ok [of u "new_reader [packet_bytes u @ rest] EOF" rest]
    by (auto simp: packet_parse_def new_reader_def rest_of_def)
qed

text \<open>Packets read one after the other, until one cannot be read.\<close>

fun read_packets :: "nat \<Rightarrow> bufr \<Rightarrow> udpgwPacket list \<times> bufr" where
  "read_packets 0 r = ([], r)"
| "read_packets (Suc n) r = (case packet_read r of (Inl e, r) \<Rightarrow> ([], r)
     | (Inr u, r) \<Rightarrow> (case read_packets n r of (us, r) \<Rightarrow> (u # us, r)))"

text \<open>C30: whatever the segments in which they arrive, packets that were written are read back in their
  order, each with its flags, connection id, address, port and content, and nothing of what
  follows them is consumed.\<close>

theorem udpgw_packets_roundtrip:
  assumes "list_all packet_ok us" "rest_of r = concat (map packet_bytes us) @ rest"
  shows "fst (read_packets (length us) r) = us \<and> rest_of (snd (read_packets (length us) r)) = rest"
  using assms
proof (induction us arbitrary: r)
  case Nil
  then show ?case by simp
next
  case (Cons u us)
  then obtain r' where "packet_read r = (Inr u, r')" "rest_of r' = concat (map packet_bytes us) @ rest"
    using packet_read_ok [of u r "concat (map packet_bytes us) @ rest"] by auto
  with Cons show ?case by (simp split: prod.splits) (metis fst_conv snd_conv)
qed

definition example_packet :: udpgwPacket where
  "example_packet = \<lparr>gpLength = 11, gpFlags = 0, gpConid = 7, gpAddr = \<lparr>gaIP = [8, 8, 4, 4], gaPort = 53\<rparr>, gpContent = [1, 2]\<rparr>"

lemma example_packet_ok: "packet_ok example_packet"
  by (simp add: packet_ok_def example_packet_def packet_length_def bufsize_def)

lemma udpgw_packets_roundtrip_witness:
  "fst (read_packets 2 (new_reader [[11], [0, 0, 0], [7, 8, 8, 4, 4, 0, 53, 1, 2, 11, 0, 0, 0, 7, 8, 8, 4], [4, 0, 53, 1, 2]] EOF)) =
     [example_packet, example_packet]"
  using udpgw_packets_roundtrip [of "[example_packet, example_packet]"
      "new_reader [[11], [0, 0, 0], [7, 8, 8, 4, 4, 0, 53, 1, 2, 11, 0, 0, 0, 7, 8, 8, 4], [4, 0, 53, 1, 2]] EOF" "[]"]
  by (simp add: example_packet_ok numeral_2_eq_2)
     (simp add: new_reader_def rest_of_def example_packet_def packet_bytes_def packet_length_def le16_bytes_def be16_bytes_def)

section \<open>Lengths the code does not check\<close>

lemma read_into_length: "length (fst (read_into n r)) = n"
proof (cases "buf_Read n r")
  case (Pair x r')
  then show ?thesis
  proof (cases x)
    case (Inr b)
    then have "length b \<le> n"
      using Pair by (auto simp: buf_Read_def Let_def split: if_splits list.splits)
    then show ?thesis using Pair Inr by (simp add: read_into_def)
  qed (simp add: read_into_def)
qed

lemma read_into_lengthD: "read_into n r = (b, r') \<Longrightarrow> length b = n"
  using read_into_length [of n r] by simp

lemma read_body_content_length:
  assumes "read_body len r = (u, r')" "len - 3 > 0"
  shows "length (gpContent u) = unat (len - 3 - (if gpFlags u AND flagIPv6 \<noteq> 0 then 16 else 4) - 2)"
  using assms by (auto simp: read_body_def Let_def zero_packet_def dest: read_into_lengthD split: prod.splits if_splits)

text \<open>a packet whose length leaves no room for address and port is not refused: the 16-bit count of
  the rest wraps, and the packet gets the following ones as a content of more than 65000 bytes.\<close>

lemma short_packet_swallows:
  assumes "read_body len r = (u, r')" "4 \<le> unat len" "unat len < 9" "gpFlags u AND flagIPv6 = 0"
  shows "length (gpContent u) = 65527 + unat len"
proof -
  define k where "k = unat len"
  then have k: "len = of_nat k" "4 \<le> k" "k < 9" using assms(2,3) by simp_all
  then have "k \<in> {4, 5, 6, 7, 8}" by auto
  then show ?thesis using read_body_content_length [OF assms(1)] assms(4) k(1)
    by (auto simp: unsigned_minus_1_eq_mask mask_eq_exp_minus_1)
qed

text \<open>a packet longer than the reader's buffer ends the connection of the gateway.\<close>

lemma long_packet_refused:
  assumes "Peek 2 r = ([a, b], None, r1)" "bufsize < be16 b a"
  shows "fst (packet_read r) = Inl BufferFull"
proof -
  have "unat (of_nat (be16 b a) :: u16) = be16 b a" by (simp add: unat_u16)
  then show ?thesis
    using assms Peek_too_long [of "be16 b a" "Discard2 r1"] by (auto simp: packet_read_def as_u16_def Let_def)
qed

end
