(* ===== verification/UdpGw.thy ===== *)
theory UdpGw
  imports UdpPacket LocalPac ChannelTable DirectSsh
begin

text \<open>
  The sessions of the UDP gateway (\<open>local/udpgw.go\<close>): the table of sessions by connection id, the
  ordered set of the times of their last packets, the expiry task, the handling of a packet, and
  the goroutine that returns the replies.

  A session is referred to by its index in the list of all sessions ever made, as the code refers to it
  by pointer: a goroutine may still use a session that has left the table. The ordered set
  (\<open>google/btree\<close>) is a parameter: its operations on keys, ordered by \<open>Less\<close>. Every interleaving of
  the goroutines is a list of events.
\<close>

section \<open>The ordered set of activity times\<close>

type_synonym udpSessionId = "nat \<times> u16"   \<comment> \<open>\<open>activeTime\<close> in milliseconds, and \<open>id\<close>\<close>

definition udp_Less :: "udpSessionId \<Rightarrow> udpSessionId \<Rightarrow> bool" where
  "udp_Less s other = (if fst s \<noteq> fst other then fst s < fst other else snd s < snd other)"

record 't id_ops =
  idMin :: "'t \<Rightarrow> udpSessionId option"
  idDelete :: "udpSessionId \<Rightarrow> 't \<Rightarrow> 't"
  idInsert :: "udpSessionId \<Rightarrow> 't \<Rightarrow> 't"

text \<open>What \<open>btree\<close> documents of \<open>Min\<close>, \<open>Delete\<close> and \<open>ReplaceOrInsert\<close>.\<close>

locale id_tree =
  fixes B :: "'t id_ops" and elems :: "'t \<Rightarrow> udpSessionId set"
  assumes elems_insert: "elems (idInsert B k t) = insert k (elems t)"
    and elems_delete: "elems (idDelete B k t) = elems t - {k}"
    and min_none: "idMin B t = None \<longleftrightarrow> elems t = {}"
    and min_some: "idMin B t = Some k \<Longrightarrow> k \<in> elems t \<and> (\<forall>k' \<in> elems t. k' = k \<or> udp_Less k k')"
begin

lemma min_earliest: "idMin B t = Some (a, c) \<Longrightarrow> (a', c') \<in> elems t \<Longrightarrow> a \<le> a'"
  using min_some [of t "(a, c)"] by (fastforce simp: udp_Less_def split: if_splits)

end

section \<open>Sessions\<close>

record udpSession =
  usId :: u16
  usActive :: "nat option"       \<comment> \<open>\<open>activeTime\<close>; None is the zero time\<close>
  usAddr :: udpgwAddr
  usTarget :: string
  usConn :: nat                  \<comment> \<open>\<open>localConn\<close>\<close>
  usStream :: "nat option"       \<comment> \<open>\<open>stream\<close>, \<open>streamWriter\<close>, \<open>streamReader\<close>: set and cleared together\<close>
  usChannel :: string

datatype gw_act =
    ToStream nat bytes
  | ToConn nat bytes
  | StreamConnect nat string StreamOptions

record 't gw =
  gHeap :: "udpSession list"
  gTable :: "u16 \<rightharpoonup> nat"
  gIds :: 't
  gCid :: "nat \<rightharpoonup> u16"
  gNow :: nat
  gClosed :: "nat set"                       \<comment> \<open>streams that have been closed\<close>
  gReaders :: "(nat \<times> nat option) list"      \<comment> \<open>goroutines: at the head of the loop, or in a read of a stream\<close>
  gHosts :: hosts
  gOut :: "gw_act list"
  gPanic :: bool

definition closeStream :: "nat \<Rightarrow> 't gw \<Rightarrow> 't gw" where
  "closeStream p st =
     (case usStream (gHeap st ! p) of None \<Rightarrow> st
      | Some s \<Rightarrow> st\<lparr>gHeap := (gHeap st)[p := (gHeap st ! p)\<lparr>usStream := None\<rparr>], gClosed := insert s (gClosed st)\<rparr>)"

definition removeUdpSession :: "u16 \<Rightarrow> 't gw \<Rightarrow> 't gw" where
  "removeUdpSession c st =
     (case gTable st c of None \<Rightarrow> st
      | Some p \<Rightarrow> (closeStream p st)\<lparr>gTable := map_delete (gTable st) c\<rparr>)"

definition updateUdpSession :: "'t id_ops \<Rightarrow> nat \<Rightarrow> bool \<Rightarrow> 't gw \<Rightarrow> 't gw" where
  "updateUdpSession B p remove st =
     (let u = gHeap st ! p;
          ids = (case usActive u of None \<Rightarrow> gIds st | Some t \<Rightarrow> idDelete B (t, usId u) (gIds st))
      in if remove then st\<lparr>gIds := ids\<rparr>
         else st\<lparr>gHeap := (gHeap st)[p := u\<lparr>usActive := Some (gNow st)\<rparr>], gIds := idInsert B (gNow st, usId u) ids\<rparr>)"

definition us_close :: "'t id_ops \<Rightarrow> nat \<Rightarrow> 't gw \<Rightarrow> 't gw" where
  "us_close B p st = updateUdpSession B p True (removeUdpSession (usId (gHeap st ! p)) (closeStream p st))"

definition new_usession :: "u16 \<Rightarrow> nat \<Rightarrow> udpSession" where
  "new_usession c conn = \<lparr>usId = c, usActive = None, usAddr = \<lparr>gaIP = [], gaPort = 0\<rparr>, usTarget = [], usConn = conn,
     usStream = None, usChannel = []\<rparr>"

definition getUDPSession :: "u16 \<Rightarrow> nat \<Rightarrow> bool \<Rightarrow> 't gw \<Rightarrow> nat option \<times> 't gw" where
  "getUDPSession c conn createIfMissing st =
     (case gTable st c of Some p \<Rightarrow> (Some p, st)
      | None \<Rightarrow> if createIfMissing
          then (Some (length (gHeap st)),
                st\<lparr>gHeap := gHeap st @ [new_usession c conn], gTable := (gTable st)(c \<mapsto> length (gHeap st))\<rparr>)
          else (None, st))"

definition getCid :: "nat \<Rightarrow> 't gw \<Rightarrow> u16 option" where
  "getCid sid st = gCid st sid"

text \<open>\<open>closeAllUDPSession\<close>, with the order in which the table is ranged over. The ordered set is
  not emptied.\<close>

definition closeAllUDPSession :: "nat list \<Rightarrow> 't gw \<Rightarrow> 't gw" where
  "closeAllUDPSession ord st = (foldl (\<lambda>s p. closeStream p s) st ord)\<lparr>gTable := Map.empty, gCid := Map.empty\<rparr>"

text \<open>\<open>removeExpiredSession\<close>: at most five sessions of a tick.\<close>

definition idle_limit :: nat where "idle_limit = 30000"

fun expire_loop :: "'t id_ops \<Rightarrow> nat \<Rightarrow> 't gw \<Rightarrow> 't gw" where
  "expire_loop B 0 st = st"
| "expire_loop B (Suc n) st =
     (case idMin B (gIds st) of
        None \<Rightarrow> expire_loop B n st
      | Some (t, c) \<Rightarrow>
          if gNow st - t \<ge> idle_limit
          then expire_loop B n (removeUdpSession c (st\<lparr>gIds := idDelete B (t, c) (gIds st)\<rparr>))
          else st)"

definition removeExpiredSession :: "'t id_ops \<Rightarrow> 't gw \<Rightarrow> 't gw" where
  "removeExpiredSession B st = expire_loop B 5 st"

section \<open>Packets\<close>

text \<open>\<open>udpSession.Write\<close>: a reply to the local connection, with the address of the latest packet.\<close>

definition reply_packet :: "udpSession \<Rightarrow> bytes \<Rightarrow> udpgwPacket" where
  "reply_packet u content = zero_packet\<lparr>gpFlags := (if length (gaIP (usAddr u)) = 16 then flagIPv6 else 0),
     gpConid := usId u, gpAddr := usAddr u, gpContent := content\<rparr>"

definition us_Write :: "nat \<Rightarrow> bytes \<Rightarrow> 't gw \<Rightarrow> 't gw" where
  "us_Write p content st = (let u = gHeap st ! p in
     st\<lparr>gOut := gOut st @ [ToConn (usConn u) (packet_bytes (reply_packet u content))]\<rparr>)"

text \<open>What a packet's handling asks of the rest: the PAC entries, the DNS client, whether a write to a
  local connection succeeds, the trusted servers, \<open>GetMuxStreamByChannel\<close>, and whether a stream's
  connect request can be written.\<close>

record gw_env =
  geV :: pac_env
  geCfg :: ProxyConfig
  geDns :: "bytes \<Rightarrow> bytes option"
  geConnOk :: "nat \<Rightarrow> bool"
  geTrusted :: "string list"
  geOpen :: "string \<Rightarrow> nat got \<times> ProxyChannelConfig option"
  geConnect :: "nat \<Rightarrow> bool"

datatype gw_res = GwOk | GwErr | GwPanic

definition packet_ip :: "udpgwPacket \<Rightarrow> string" where
  "packet_ip u = IPString (if length (gaIP (gpAddr u)) = 16 then gaIP (gpAddr u)
                           else case To4 (gaIP (gpAddr u)) of Some q \<Rightarrow> q | None \<Rightarrow> [])"

text \<open>The end of \<open>handlePacket\<close>: a stream for the channel, and the goroutine for its replies. A missing
  channel has no configuration, which is dereferenced before the error is looked at.\<close>

definition open_stream :: "gw_env \<Rightarrow> nat \<Rightarrow> udpgwPacket \<Rightarrow> string \<Rightarrow> string \<Rightarrow> 't gw \<Rightarrow> gw_res \<times> 't gw" where
  "open_stream e p pkt chan remoteAddr st =
     (case geOpen e chan of
        (_, None) \<Rightarrow> (GwPanic, st\<lparr>gPanic := True\<rparr>)
      | (g, Some conf) \<Rightarrow>
          (let opt = \<lparr>soDialTimeout = RemoteDialMSTimeout conf,
                      soReadTimeout = (if gaPort (gpAddr pkt) = 53 then RemoteDNSReadMSTimeout conf else RemoteUDPReadMSTimeout conf),
                      soHops = []\<rparr>
           in case g of
                GotPanic \<Rightarrow> (GwPanic, st\<lparr>gPanic := True\<rparr>)
              | GotErr _ \<Rightarrow> (GwErr, st)
              | Got s \<Rightarrow>
                  (if \<not> geConnect e s then (GwErr, st\<lparr>gOut := gOut st @ [StreamConnect s remoteAddr opt]\<rparr>)
                   else (GwOk, st\<lparr>gOut := gOut st @ [StreamConnect s remoteAddr opt, ToStream s (gpContent pkt)],
                                  gHeap := (gHeap st)[p := (gHeap st ! p)\<lparr>usStream := Some s\<rparr>],
                                  gReaders := gReaders st @ [(p, None)]\<rparr>))))"

definition choose_channel :: "gw_env \<Rightarrow> nat \<Rightarrow> udpgwPacket \<Rightarrow> string \<Rightarrow> 't gw \<Rightarrow> gw_res \<times> 't gw" where
  "choose_channel e p pkt remoteAddr st =
     (let u = gHeap st ! p;
          (found, h) = (if usChannel u = [] then findProxyChannelByRequest (geV e) (geCfg e) ''udp'' (packet_ip pkt) None (gHosts st)
                        else (Some (usChannel u), gHosts st))
      in case found of
           None \<Rightarrow> (GwPanic, st\<lparr>gPanic := True\<rparr>)
         | Some chan \<Rightarrow>
             (let st = st\<lparr>gHosts := h, gHeap := (gHeap st)[p := u\<lparr>usChannel := chan\<rparr>]\<rparr> in
              if chan = [] then (GwOk, st)
              else open_stream e p pkt chan remoteAddr
                     (if usTarget u \<noteq> [] \<and> usTarget u \<noteq> udpgw_address pkt then closeStream p st else st)))"

definition handlePacket :: "'t id_ops \<Rightarrow> gw_env \<Rightarrow> nat \<Rightarrow> udpgwPacket \<Rightarrow> 't gw \<Rightarrow> gw_res \<times> 't gw" where
  "handlePacket B e p pkt st =
     (let u = gHeap st ! p in
      case usStream u of
        Some s \<Rightarrow> (GwOk, st\<lparr>gOut := gOut st @ [ToStream s (gpContent pkt)]\<rparr>)
      | None \<Rightarrow>
          if gaPort (gpAddr pkt) = 53 then
            (case findProxyChannelByRequest (geV e) (geCfg e) ''dns'' (packet_ip pkt) None (gHosts st) of
               (None, h) \<Rightarrow> (GwPanic, st\<lparr>gPanic := True\<rparr>)
             | (Some chan, h) \<Rightarrow>
                 if chan = DirectChannelName then
                   (case geDns e (gpContent pkt) of
                      None \<Rightarrow> (GwErr, us_close B p (st\<lparr>gHosts := h\<rparr>))
                    | Some res \<Rightarrow> (if geConnOk e (usConn u) then GwOk else GwErr, us_close B p (us_Write p res (st\<lparr>gHosts := h\<rparr>))))
                 else choose_channel e p pkt (if geTrusted e \<noteq> [] then geTrusted e ! 0 else udpgw_address pkt)
                        (st\<lparr>gHosts := h, gHeap := (gHeap st)[p := u\<lparr>usChannel := chan\<rparr>]\<rparr>))
          else choose_channel e p pkt (udpgw_address pkt) st)"

section \<open>The goroutine of the replies\<close>

text \<open>The head of the loop reads the field \<open>streamReader\<close> of the session, which may have been cleared.
  The result of a read: bytes are returned to the local connection, and the outcome of that write
  replaces the error that came with them.\<close>

definition reader_begin :: "nat \<Rightarrow> 't gw \<Rightarrow> 't gw" where
  "reader_begin p st =
     (if (p, None) \<in> set (gReaders st) then
        (case usStream (gHeap st ! p) of
           None \<Rightarrow> st\<lparr>gReaders := remove1 (p, None) (gReaders st), gPanic := True\<rparr>
         | Some s \<Rightarrow> st\<lparr>gReaders := remove1 (p, None) (gReaders st) @ [(p, Some s)]\<rparr>)
      else st)"

definition reader_end :: "(nat \<Rightarrow> bool) \<Rightarrow> nat \<Rightarrow> nat \<Rightarrow> bytes \<Rightarrow> bool \<Rightarrow> 't gw \<Rightarrow> 't gw" where
  "reader_end connOk p s b err st =
     (if (p, Some s) \<in> set (gReaders st) then
        (let stop = (if b \<noteq> [] then \<not> connOk (usConn (gHeap st ! p)) else err);
             st = (if b \<noteq> [] then us_Write p b st else st)
         in st\<lparr>gReaders := remove1 (p, Some s) (gReaders st) @ (if stop then [] else [(p, None)])\<rparr>)
      else st)"

section \<open>A connection of the gateway\<close>

text \<open>One round of \<open>handleUDPGatewayConn\<close> after a packet has been read: the session to handle it, if
  it has a content.\<close>

definition set_addr :: "nat \<Rightarrow> udpgwAddr \<Rightarrow> 't gw \<Rightarrow> 't gw" where
  "set_addr p a st = st\<lparr>gHeap := (gHeap st)[p := (gHeap st ! p)\<lparr>usAddr := a\<rparr>]\<rparr>"

definition gw_receive :: "'t id_ops \<Rightarrow> nat \<Rightarrow> udpgwPacket \<Rightarrow> 't gw \<Rightarrow> nat option \<times> 't gw" where
  "gw_receive B conn pkt st =
     (if gpContent pkt = [] then (None, st)
      else case getUDPSession (gpConid pkt) conn True st of
             (None, st) \<Rightarrow> (None, st)
           | (Some p, st) \<Rightarrow> (Some p, updateUdpSession B p False (set_addr p (gpAddr pkt) st)))"

text \<open>The whole connection, as far as \<open>n\<close> packets: what is handed to \<open>go handlePacket\<close>, and the reader.\<close>

fun receive_all :: "'t id_ops \<Rightarrow> nat \<Rightarrow> udpgwPacket list \<Rightarrow> 't gw \<Rightarrow> (nat \<times> udpgwPacket) list \<times> 't gw" where
  "receive_all B conn [] st = ([], st)"
| "receive_all B conn (u # us) st =
     (case gw_receive B conn u st of
        (None, st) \<Rightarrow> receive_all B conn us st
      | (Some p, st) \<Rightarrow> (case receive_all B conn us st of (hs, st) \<Rightarrow> ((p, u) # hs, st)))"

definition handleUDPGatewayConn :: "'t id_ops \<Rightarrow> nat \<Rightarrow> nat \<Rightarrow> bufr \<Rightarrow> 't gw \<Rightarrow> (nat \<times> udpgwPacket) list \<times> bufr \<times> 't gw" where
  "handleUDPGatewayConn B conn n r st =
     (case read_packets n r of (us, r) \<Rightarrow> (case receive_all B conn us st of (hs, st) \<Rightarrow> (hs, r, st)))"

section \<open>Events\<close>

datatype gw_event =
    GGet u16 nat                       \<comment> \<open>\<open>getUDPSession\<close>\<close>
  | GTouch nat udpgwAddr               \<comment> \<open>the session's address is set and its time updated\<close>
  | GHandle gw_env nat udpgwPacket
  | GBegin nat
  | GEnd "nat \<Rightarrow> bool" nat nat bytes bool
  | GTick
  | GStop "nat list"
  | GWait nat

text \<open>A goroutine only refers to sessions that exist.\<close>

fun gw_step :: "'t id_ops \<Rightarrow> 't gw \<Rightarrow> gw_event \<Rightarrow> 't gw" where
  "gw_step B st (GGet c conn) = snd (getUDPSession c conn True st)"
| "gw_step B st (GTouch p a) = (if p < length (gHeap st) then updateUdpSession B p False (set_addr p a st) else st)"
| "gw_step B st (GHandle e p pkt) = (if p < length (gHeap st) then snd (handlePacket B e p pkt st) else st)"
| "gw_step B st (GBegin p) = reader_begin p st"
| "gw_step B st (GEnd ok p s b err) = reader_end ok p s b err st"
| "gw_step B st GTick = removeExpiredSession B st"
| "gw_step B st (GStop ord) = (if set ord \<subseteq> ran (gTable st) then closeAllUDPSession ord st else st)"
| "gw_step B st (GWait d) = st\<lparr>gNow := gNow st + d\<rparr>"

definition gw_init :: "'t \<Rightarrow> hosts \<Rightarrow> 't gw" where
  "gw_init ids h = \<lparr>gHeap = [], gTable = Map.empty, gIds = ids, gCid = Map.empty, gNow = 1, gClosed = {}, gReaders = [],
     gHosts = h, gOut = [], gPanic = False\<rparr>"

section \<open>What every event keeps\<close>

lemma nth_upd_self: "(xs[p := f (xs ! p)]) ! q = (if q = p \<and> p < length xs then f (xs ! p) else xs ! q)"
  by (cases "p < length xs") (auto simp: list_update_beyond)

text \<open>The entries of the table are the sessions with their own id; goroutines belong to sessions.\<close>

definition gw_inv :: "'t gw \<Rightarrow> bool" where
  "gw_inv st \<longleftrightarrow> (\<forall>c p. gTable st c = Some p \<longrightarrow> p < length (gHeap st) \<and> usId (gHeap st ! p) = c) \<and>
     (\<forall>p x. (p, x) \<in> set (gReaders st) \<longrightarrow> p < length (gHeap st))"

text \<open>An operation on session \<open>p\<close>: no session is made, renamed or entered.\<close>

definition works_on :: "nat \<Rightarrow> 't gw \<Rightarrow> 't gw \<Rightarrow> bool" where
  "works_on p st st' \<longleftrightarrow> length (gHeap st') = length (gHeap st) \<and> (\<forall>q. usId (gHeap st' ! q) = usId (gHeap st ! q)) \<and>
     gTable st' \<subseteq>\<^sub>m gTable st \<and> fst ` set (gReaders st') \<subseteq> insert p (fst ` set (gReaders st))"

lemma works_on_refl [simp]: "works_on p st st"
  by (auto simp: works_on_def)

lemma works_on_trans:
  assumes "works_on p a b" "works_on p b c" shows "works_on p a c"
proof -
  have "gTable c \<subseteq>\<^sub>m gTable b" "gTable b \<subseteq>\<^sub>m gTable a" using assms unfolding works_on_def by simp_all
  then have "gTable c \<subseteq>\<^sub>m gTable a" by (rule map_le_trans)
  moreover have "fst ` set (gReaders c) \<subseteq> insert p (fst ` set (gReaders a))" using assms unfolding works_on_def by blast
  ultimately show ?thesis using assms unfolding works_on_def by simp
qed

lemma works_on_inv:
  assumes "works_on p st st'" "p < length (gHeap st)" "gw_inv st" shows "gw_inv st'"
  unfolding gw_inv_def
proof (intro conjI allI impI)
  fix c q assume "gTable st' c = Some q"
  then have "gTable st c = Some q" using assms(1) unfolding works_on_def map_le_def by (metis domI)
  then show "q < length (gHeap st')" "usId (gHeap st' ! q) = c"
    using assms by (simp_all add: works_on_def gw_inv_def)
next
  fix q x assume "(q, x) \<in> set (gReaders st')"
  then have "q \<in> insert p (fst ` set (gReaders st))" using assms(1) unfolding works_on_def by force
  then show "q < length (gHeap st')" using assms by (auto simp: works_on_def gw_inv_def)
qed

lemma works_on_all_inv:
  assumes w: "\<And>p. works_on p st st'" and i: "gw_inv st" shows "gw_inv st'"
proof (cases "gHeap st = []")
  case True
  have "gTable st c = None" for c using i True by (cases "gTable st c") (auto simp: gw_inv_def)
  then have "gTable st' c = None" for c using w [of 0] unfolding works_on_def map_le_def by (metis domIff)
  moreover have "set (gReaders st) = {}" using i True by (cases "gReaders st") (auto simp: gw_inv_def)
  then have "fst ` set (gReaders st') \<subseteq> {0}" "fst ` set (gReaders st') \<subseteq> {1}"
    using w [of 0] w [of 1] by (simp_all add: works_on_def)
  then have "set (gReaders st') = {}" by (cases "gReaders st'") auto
  ultimately show ?thesis by (simp add: gw_inv_def)
next
  case False
  then show ?thesis using works_on_inv [OF w [of 0] _ i] by simp
qed

lemma works_on_closeStream: "works_on p st (closeStream q st)"
  by (auto simp: works_on_def closeStream_def nth_upd_self [of _ _ "\<lambda>u. u\<lparr>usStream := None\<rparr>"] split: option.splits)

lemma works_on_remove: "works_on p st (removeUdpSession c st)"
proof (cases "gTable st c")
  case (Some q)
  have "gTable (closeStream q st) = gTable st" by (simp add: closeStream_def split: option.splits)
  with works_on_closeStream [of p st q] show ?thesis
    by (auto simp: removeUdpSession_def Some works_on_def map_le_def map_delete_def)
qed (simp add: removeUdpSession_def)

lemma works_on_update: "works_on p st (updateUdpSession B q r st)"
  by (auto simp: works_on_def updateUdpSession_def Let_def nth_upd_self [of _ _ "\<lambda>u. u\<lparr>usActive := Some (gNow st)\<rparr>"])

lemma works_on_us_close: "works_on p st (us_close B q st)"
  unfolding us_close_def by (blast intro: works_on_trans works_on_update works_on_remove works_on_closeStream)

lemma works_on_open: "works_on p st (snd (open_stream e p pkt chan r st))"
  by (auto simp: works_on_def open_stream_def Let_def nth_upd_self [of _ _ "\<lambda>u. u\<lparr>usStream := Some _\<rparr>"] split: prod.splits option.splits got.splits)

lemma works_on_fields:
  "length hp = length (gHeap st) \<Longrightarrow> (\<forall>q. usId (hp ! q) = usId (gHeap st ! q)) \<Longrightarrow>
   works_on p st (st\<lparr>gHosts := h, gHeap := hp\<rparr>)" "works_on p st (st\<lparr>gHosts := h\<rparr>)" "works_on p st (st\<lparr>gPanic := b\<rparr>)"
  "works_on p st (st\<lparr>gOut := os\<rparr>)"
  by (auto simp: works_on_def)

lemma works_on_choose: "works_on p st (snd (choose_channel e p pkt r st))"
proof -
  have h: "works_on p st (st\<lparr>gHosts := h, gHeap := (gHeap st)[p := (gHeap st ! p)\<lparr>usChannel := c\<rparr>]\<rparr>)" for h c
    by (rule works_on_fields(1)) (simp_all add: nth_upd_self [of _ _ "\<lambda>u. u\<lparr>usChannel := c\<rparr>"])
  show ?thesis
    unfolding choose_channel_def Let_def
    by (auto intro!: works_on_fields works_on_trans [OF _ works_on_open] works_on_trans [OF _ works_on_closeStream] h
        split: prod.splits option.splits)
qed

lemma works_on_handle: "works_on p st (snd (handlePacket B e p pkt st))"
proof -
  have h: "works_on p st (st\<lparr>gHosts := h, gHeap := (gHeap st)[p := (gHeap st ! p)\<lparr>usChannel := c\<rparr>]\<rparr>)" for h c
    by (rule works_on_fields(1)) (simp_all add: nth_upd_self [of _ _ "\<lambda>u. u\<lparr>usChannel := c\<rparr>"])
  have w: "works_on p st (us_Write p b (st\<lparr>gHosts := h\<rparr>))" for b h by (auto simp: us_Write_def Let_def works_on_def)
  show ?thesis
    unfolding handlePacket_def Let_def
    by (auto intro!: works_on_fields works_on_choose works_on_trans [OF _ works_on_us_close] works_on_trans [OF _ works_on_choose] h w
        split: prod.splits option.splits)
qed

lemma works_on_expire: "works_on p st (expire_loop B n st)"
proof (induction n arbitrary: st)
  case (Suc n)
  have "works_on p st (st\<lparr>gIds := ids\<rparr>)" for st :: "'a gw" and ids by (auto simp: works_on_def)
  with Suc show ?case
    by (auto split: option.splits intro!: works_on_trans [OF _ Suc] works_on_trans [OF _ works_on_remove])
qed simp

lemma works_on_closeAll: "works_on p st (closeAllUDPSession ord st)"
proof -
  have "works_on p st (foldl (\<lambda>s p. closeStream p s) st ord)"
    by (induction ord arbitrary: st) (auto intro: works_on_trans works_on_closeStream)
  then show ?thesis by (auto simp: closeAllUDPSession_def works_on_def)
qed

lemma gw_inv_get: "gw_inv st \<Longrightarrow> gw_inv (snd (getUDPSession c conn b st))"
  unfolding getUDPSession_def gw_inv_def
  by (auto simp: nth_append new_usession_def less_Suc_eq split: option.splits if_splits)

lemma gw_step_inv: "gw_inv st \<Longrightarrow> gw_inv (gw_step B st ev)"
proof (induction B st ev rule: gw_step.induct)
  case (1 B st c conn)
  then show ?case by (simp add: gw_inv_get)
next
  case (2 B st p a)
  have "works_on p st (set_addr p a st)"
    by (auto simp: set_addr_def works_on_def nth_upd_self [of _ _ "\<lambda>u. u\<lparr>usAddr := a\<rparr>"])
  with 2 show ?case by (auto intro: works_on_inv works_on_trans works_on_update)
next
  case (3 B st e p pkt)
  then show ?case by (auto intro: works_on_inv works_on_handle)
next
  case (4 B st p)
  then show ?case by (auto simp: reader_begin_def gw_inv_def split: option.splits dest!: set_remove1_subset [THEN subsetD])
next
  case (5 B st ok p s b err)
  then show ?case
    by (auto simp: reader_end_def gw_inv_def us_Write_def Let_def dest!: set_remove1_subset [THEN subsetD])
next
  case (6 B st)
  then show ?case by (auto simp: removeExpiredSession_def intro: works_on_all_inv [OF works_on_expire])
next
  case (7 B st ord)
  then show ?case by (auto intro: works_on_all_inv [OF works_on_closeAll])
next
  case (8 B st d)
  then show ?case by (simp add: gw_inv_def)
qed

interpretation gateway: event_machine "gw_step B" gw_inv for B
  by unfold_locales (rule gw_step_inv)

section \<open>Expiry\<close>

text \<open>The set of times agrees with the table: exactly the sessions of the table are in it, each with
  the time of its last packet.\<close>

definition ids_ok :: "('t \<Rightarrow> udpSessionId set) \<Rightarrow> 't gw \<Rightarrow> bool" where
  "ids_ok elems st \<longleftrightarrow> (\<forall>t c. (t, c) \<in> elems (gIds st) \<longleftrightarrow> (\<exists>p. gTable st c = Some p \<and> usActive (gHeap st ! p) = Some t)) \<and>
     (\<forall>c p. gTable st c = Some p \<longrightarrow> usActive (gHeap st ! p) \<noteq> None)"

definition idle :: "'t gw \<Rightarrow> nat \<Rightarrow> bool" where
  "idle st p \<longleftrightarrow> (\<exists>t. usActive (gHeap st ! p) = Some t \<and> idle_limit \<le> gNow st - t)"

text \<open>What expiry does to the sessions of the table: it leaves each as it is, or removes it.\<close>

definition expires :: "'t gw \<Rightarrow> 't gw \<Rightarrow> bool" where
  "expires st st' \<longleftrightarrow> gNow st' = gNow st \<and> (\<forall>c p. gTable st c = Some p \<longrightarrow>
     (gTable st' c = Some p \<and> gHeap st' ! p = gHeap st ! p) \<or> (gTable st' c = None \<and> idle st p)) \<and>
     (\<forall>c. gTable st c = None \<longrightarrow> gTable st' c = None)"

lemma expires_refl [simp]: "expires st st"
  by (simp add: expires_def)

lemma expiresD:
  assumes "expires st st'"
  shows "gTable st c = Some p \<Longrightarrow> gTable st' c = Some q \<Longrightarrow> q = p \<and> gHeap st' ! p = gHeap st ! p"
    "gTable st c = Some p \<Longrightarrow> gTable st' c = None \<Longrightarrow> idle st p" "gTable st c = None \<Longrightarrow> gTable st' c = None"
    "gNow st' = gNow st"
  using assms unfolding expires_def by fastforce+

lemma expiresI:
  assumes "\<And>c p q. gTable st c = Some p \<Longrightarrow> gTable st' c = Some q \<Longrightarrow> q = p \<and> gHeap st' ! p = gHeap st ! p"
    "\<And>c p. gTable st c = Some p \<Longrightarrow> gTable st' c = None \<Longrightarrow> idle st p" "\<And>c. gTable st c = None \<Longrightarrow> gTable st' c = None"
    "gNow st' = gNow st"
  shows "expires st st'"
  unfolding expires_def
proof (intro conjI allI impI)
  fix c p assume "gTable st c = Some p"
  then show "gTable st' c = Some p \<and> gHeap st' ! p = gHeap st ! p \<or> gTable st' c = None \<and> idle st p"
    using assms(1,2) by (cases "gTable st' c") auto
qed (use assms(3,4) in auto)

lemma expires_trans:
  assumes ab: "expires a b" and bc: "expires b c" shows "expires a c"
proof (rule expiresI)
  fix k p q assume p: "gTable a k = Some p" and q: "gTable c k = Some q"
  then obtain r where "gTable b k = Some r" using expiresD(3) [OF bc, of k] by (cases "gTable b k") auto
  with p q show "q = p \<and> gHeap c ! p = gHeap a ! p" using expiresD(1) [OF ab p] expiresD(1) [OF bc] by auto
next
  fix k p assume p: "gTable a k = Some p" and q: "gTable c k = None"
  show "idle a p"
  proof (cases "gTable b k")
    case None
    then show ?thesis by (rule expiresD(2) [OF ab p])
  next
    case (Some r)
    then have "idle b r" using expiresD(2) [OF bc _ q] by simp
    then show ?thesis using expiresD(1) [OF ab p Some] expiresD(4) [OF ab] by (simp add: idle_def)
  qed
qed (use expiresD(3,4) [OF ab] expiresD(3,4) [OF bc] in auto)

lemma remove_frame:
  assumes "gw_inv st" "gTable st c = Some p"
  shows "gTable (removeUdpSession c st) = map_delete (gTable st) c" "gIds (removeUdpSession c st) = gIds st"
    "gNow (removeUdpSession c st) = gNow st"
    "gTable st c' = Some q \<Longrightarrow> c' \<noteq> c \<Longrightarrow> gHeap (removeUdpSession c st) ! q = gHeap st ! q"
proof -
  show "gTable (removeUdpSession c st) = map_delete (gTable st) c" "gIds (removeUdpSession c st) = gIds st"
    "gNow (removeUdpSession c st) = gNow st"
    using assms(2) by (simp_all add: removeUdpSession_def closeStream_def split: option.splits)
  assume q: "gTable st c' = Some q" "c' \<noteq> c"
  then have "q \<noteq> p" using assms unfolding gw_inv_def by metis
  then show "gHeap (removeUdpSession c st) ! q = gHeap st ! q"
    using assms(2) by (simp add: removeUdpSession_def closeStream_def split: option.splits)
qed

context id_tree
begin

lemma expire_one:
  assumes "gw_inv st" "ids_ok elems st" "idMin B (gIds st) = Some (t, c)" "idle_limit \<le> gNow st - t"
  defines "st' \<equiv> removeUdpSession c (st\<lparr>gIds := idDelete B (t, c) (gIds st)\<rparr>)"
  shows "gw_inv st' \<and> ids_ok elems st' \<and> expires st st' \<and> gTable st' c = None \<and> (\<exists>p. gTable st c = Some p \<and> idle st p)"
proof -
  let ?s = "st\<lparr>gIds := idDelete B (t, c) (gIds st)\<rparr>"
  obtain p where p: "gTable st c = Some p" "usActive (gHeap st ! p) = Some t"
    using min_some [OF assms(3)] assms(2) by (auto simp: ids_ok_def)
  have i: "gw_inv ?s" using assms(1) by (simp add: gw_inv_def)
  have pl: "p < length (gHeap st)" using assms(1) p(1) by (simp add: gw_inv_def)
  have w: "works_on p ?s st'" unfolding st'_def by (rule works_on_remove)
  then have inv: "gw_inv st'" using i pl by (auto intro: works_on_inv)
  note fr = remove_frame [OF i, of c p, simplified, OF p(1)]
  have tab: "gTable st' c' = (if c' = c then None else gTable st c')" for c'
    unfolding st'_def using fr(1) by (simp add: map_delete_def)
  have hp: "gTable st c' = Some q \<Longrightarrow> c' \<noteq> c \<Longrightarrow> gHeap st' ! q = gHeap st ! q" for c' q
    unfolding st'_def using fr(4) [of c' q] by simp
  have ids: "elems (gIds st') = elems (gIds st) - {(t, c)}" unfolding st'_def using fr(2) elems_delete by simp
  have "ids_ok elems st'"
    unfolding ids_ok_def ids tab using assms(2) p hp by (auto simp: ids_ok_def split: if_splits)
  moreover have "idle st p" using p(2) assms(4) by (simp add: idle_def)
  moreover have "gNow st' = gNow st" unfolding st'_def using fr(3) by simp
  ultimately show ?thesis using inv p tab hp by (auto simp: expires_def)
qed

lemma expire_loop_spec:
  "gw_inv st \<Longrightarrow> ids_ok elems st \<Longrightarrow>
   gw_inv (expire_loop B n st) \<and> ids_ok elems (expire_loop B n st) \<and> expires st (expire_loop B n st)"
proof (induction n arbitrary: st)
  case (Suc n)
  show ?case
  proof (cases "idMin B (gIds st)")
    case (Some k)
    obtain t c where k: "k = (t, c)" by fastforce
    show ?thesis
    proof (cases "idle_limit \<le> gNow st - t")
      case True
      from expire_one [OF Suc.prems Some [unfolded k] True] Suc.IH show ?thesis
        using Some k True by (auto intro: expires_trans)
    qed (use Suc.prems Some k in simp)
  qed (use Suc in simp)
qed simp

text \<open>If no more than \<open>n\<close> sessions are idle, \<open>n\<close> rounds remove them all.\<close>

lemma expire_loop_complete:
  "gw_inv st \<Longrightarrow> ids_ok elems st \<Longrightarrow> finite (dom (gTable st)) \<Longrightarrow>
   card {c. \<exists>p. gTable st c = Some p \<and> idle st p} \<le> n \<Longrightarrow> gTable st c = Some p \<Longrightarrow> idle st p \<Longrightarrow>
   gTable (expire_loop B n st) c = None"
proof (induction n arbitrary: st)
  case 0
  have "finite {c. \<exists>p. gTable st c = Some p \<and> idle st p}" by (rule finite_subset [OF _ 0(3)]) auto
  with 0 show ?case by auto
next
  case (Suc n)
  obtain t where t: "usActive (gHeap st ! p) = Some t" "idle_limit \<le> gNow st - t" using Suc.prems(6) by (auto simp: idle_def)
  have el: "(t, c) \<in> elems (gIds st)" using Suc.prems(2,5) t(1) by (auto simp: ids_ok_def)
  obtain a d where m: "idMin B (gIds st) = Some (a, d)" using min_none el by (cases "idMin B (gIds st)") auto
  have ad: "idle_limit \<le> gNow st - a" using min_earliest [OF m el] t(2) by linarith
  let ?s = "removeUdpSession d (st\<lparr>gIds := idDelete B (a, d) (gIds st)\<rparr>)"
  from expire_one [OF Suc.prems(1,2) m ad]
  have s: "gw_inv ?s" "ids_ok elems ?s" "expires st ?s" "gTable ?s d = None" "\<exists>p. gTable st d = Some p \<and> idle st p" by auto
  have step: "expire_loop B (Suc n) st = expire_loop B n ?s" using m ad by simp
  let ?I = "\<lambda>st. {c. \<exists>p. gTable st c = Some p \<and> idle st p}"
  have fin: "finite (?I st)" by (rule finite_subset [OF _ Suc.prems(3)]) auto
  have sub: "?I ?s \<subseteq> ?I st - {d}"
  proof
    fix x assume "x \<in> ?I ?s"
    then obtain q where q: "gTable ?s x = Some q" "idle ?s q" by auto
    then have "x \<noteq> d" using s(4) by auto
    moreover have "gTable st x = Some q \<and> gHeap ?s ! q = gHeap st ! q"
      using expiresD(1,3) [OF s(3), of x] q(1) by (cases "gTable st x") auto
    moreover have "gNow ?s = gNow st" using s(3) by (simp add: expires_def)
    ultimately show "x \<in> ?I st - {d}" using q(2) by (auto simp: idle_def)
  qed
  have card: "card (?I ?s) \<le> n"
  proof -
    have "card (?I ?s) \<le> card (?I st - {d})" by (rule card_mono) (use fin sub in auto)
    also have "\<dots> < card (?I st)" by (rule card_Diff1_less) (use fin s(5) in auto)
    finally show ?thesis using Suc.prems(4) by simp
  qed
  have dom: "finite (dom (gTable ?s))"
    by (rule finite_subset [OF _ Suc.prems(3)]) (use expiresD(3) [OF s(3)] in \<open>metis domIff subsetI\<close>)
  show ?case
  proof (cases "gTable ?s c")
    case None
    then show ?thesis
      using expire_loop_spec [OF s(1,2), of n] unfolding step by (simp add: expires_def)
  next
    case (Some q)
    then have "q = p" "gHeap ?s ! p = gHeap st ! p" "gNow ?s = gNow st"
      using expiresD(1,4) [OF s(3)] Suc.prems(5) by auto
    then have "idle ?s p" using t by (simp add: idle_def)
    with Suc.IH [OF s(1,2) dom card] Some \<open>q = p\<close> show ?thesis unfolding step by simp
  qed
qed

end

section \<open>Runs without a stop and without overtaking\<close>

text \<open>A packet's session is looked up and touched in one step, and handled while it is still in the table.\<close>

inductive gw_quiet :: "'t id_ops \<Rightarrow> 't gw \<Rightarrow> 't gw \<Rightarrow> bool" for B where
  q_receive: "gw_quiet B st (snd (gw_receive B conn pkt st))"
| q_handle: "gTable st (usId (gHeap st ! p)) = Some p \<Longrightarrow> gw_quiet B st (snd (handlePacket B e p pkt st))"
| q_begin: "gw_quiet B st (reader_begin p st)"
| q_end: "gw_quiet B st (reader_end ok p s b err st)"
| q_tick: "gw_quiet B st (removeExpiredSession B st)"
| q_wait: "gw_quiet B st (st\<lparr>gNow := gNow st + d\<rparr>)"

definition same_times :: "'t gw \<Rightarrow> 't gw \<Rightarrow> bool" where
  "same_times st st' \<longleftrightarrow> gTable st' = gTable st \<and> gIds st' = gIds st \<and> gNow st' = gNow st \<and>
     length (gHeap st') = length (gHeap st) \<and>
     (\<forall>q. usActive (gHeap st' ! q) = usActive (gHeap st ! q) \<and> usId (gHeap st' ! q) = usId (gHeap st ! q))"

lemma same_times_refl [simp]: "same_times st st"
  by (simp add: same_times_def)

lemma same_times_trans: "same_times a b \<Longrightarrow> same_times b c \<Longrightarrow> same_times a c"
  by (simp add: same_times_def)

lemma same_times_ids: "same_times st st' \<Longrightarrow> ids_ok elems st \<Longrightarrow> ids_ok elems st'"
  by (simp add: same_times_def ids_ok_def)

lemma same_times_closeStream: "same_times st (closeStream q st)"
  by (simp add: same_times_def closeStream_def nth_upd_self [of _ _ "\<lambda>u. u\<lparr>usStream := None\<rparr>"] split: option.splits)

lemma same_times_fields:
  "same_times st (st\<lparr>gHosts := h, gHeap := (gHeap st)[p := (gHeap st ! p)\<lparr>usChannel := c\<rparr>]\<rparr>)"
  "same_times st (st\<lparr>gHosts := h\<rparr>)" "same_times st (st\<lparr>gPanic := b\<rparr>)" "same_times st (st\<lparr>gOut := os\<rparr>)"
  "same_times st (us_Write p b' (st\<lparr>gHosts := h\<rparr>))" "same_times st (us_Write p b' st)"
  by (simp_all add: same_times_def us_Write_def Let_def nth_upd_self [of _ _ "\<lambda>u. u\<lparr>usChannel := c\<rparr>"])

lemma same_times_open: "same_times st (snd (open_stream e p pkt chan r st))"
  by (auto simp: same_times_def open_stream_def Let_def nth_upd_self [of _ _ "\<lambda>u. u\<lparr>usStream := Some _\<rparr>"]
      split: prod.splits option.splits got.splits)

lemma same_times_choose: "same_times st (snd (choose_channel e p pkt r st))"
  unfolding choose_channel_def Let_def
  by (auto intro!: same_times_fields same_times_trans [OF _ same_times_open] same_times_trans [OF _ same_times_closeStream]
      split: prod.splits option.splits)

lemma handle_times:
  "\<exists>st0. same_times st st0 \<and> (snd (handlePacket B e p pkt st) = st0 \<or> snd (handlePacket B e p pkt st) = us_close B p st0)"
proof -
  have c: "same_times st (snd (choose_channel e p pkt r (st\<lparr>gHosts := h, gHeap := (gHeap st)[p := (gHeap st ! p)\<lparr>usChannel := ch\<rparr>]\<rparr>)))" for r h ch
    by (rule same_times_trans [OF same_times_fields(1) same_times_choose])
  show ?thesis
    unfolding handlePacket_def Let_def
    by (cases "usStream (gHeap st ! p)"; cases "gaPort (gpAddr pkt) = 53"; cases "geDns e (gpContent pkt)")
       (auto split: prod.splits option.splits simp del: same_times_def
          intro: same_times_fields same_times_choose c)
qed

context id_tree
begin

lemma ids_ok_active: "ids_ok elems st \<Longrightarrow> gTable st c = Some p \<Longrightarrow> \<exists>t. usActive (gHeap st ! p) = Some t"
  unfolding ids_ok_def by blast

lemma ids_ok_time: "ids_ok elems st \<Longrightarrow> gTable st c = Some p \<Longrightarrow> (t, c) \<in> elems (gIds st) \<longleftrightarrow> usActive (gHeap st ! p) = Some t"
  by (simp add: ids_ok_def)

lemma us_close_ok:
  assumes "ids_ok elems st" "gTable st (usId (gHeap st ! p)) = Some p"
  shows "ids_ok elems (us_close B p st)"
proof -
  let ?c = "usId (gHeap st ! p)" and ?s = "closeStream p st"
  let ?r = "removeUdpSession ?c ?s"
  have s: "same_times st ?s" by (rule same_times_closeStream)
  have t: "gTable ?s ?c = Some p" using s assms(2) by (simp add: same_times_def)
  obtain a where a: "usActive (gHeap st ! p) = Some a" using ids_ok_active [OF assms] by blast
  have "?r = (closeStream p ?s)\<lparr>gTable := map_delete (gTable st) ?c\<rparr>"
    using t s by (simp add: removeUdpSession_def same_times_def)
  moreover have "same_times st (closeStream p ?s)" by (rule same_times_trans [OF s same_times_closeStream])
  ultimately have r: "gTable ?r = map_delete (gTable st) ?c" "gIds ?r = gIds st"
    "\<And>q. usActive (gHeap ?r ! q) = usActive (gHeap st ! q) \<and> usId (gHeap ?r ! q) = usId (gHeap st ! q)"
    by (simp_all add: same_times_def)
  have "us_close B p st = ?r\<lparr>gIds := idDelete B (a, ?c) (gIds st)\<rparr>"
    by (simp add: us_close_def updateUdpSession_def Let_def r a)
  moreover have "ids_ok elems (?r\<lparr>gIds := idDelete B (a, ?c) (gIds st)\<rparr>)"
    using assms a by (auto simp: ids_ok_def r elems_delete map_delete_def)
  ultimately show ?thesis by simp
qed

lemma receive_ok:
  assumes i: "gw_inv st" and o: "ids_ok elems st"
  shows "ids_ok elems (snd (gw_receive B conn pkt st))"
proof (cases "gpContent pkt = []")
  case False
  let ?c = "gpConid pkt"
  let ?upd = "\<lambda>hp tab ids p. st\<lparr>gHeap := hp[p := (hp ! p)\<lparr>usAddr := gpAddr pkt, usActive := Some (gNow st)\<rparr>], gTable := tab,
     gIds := idInsert B (gNow st, ?c) ids\<rparr>"
  show ?thesis
  proof (cases "gTable st ?c")
    case (Some p)
    then have p: "p < length (gHeap st)" "usId (gHeap st ! p) = ?c" using i by (simp_all add: gw_inv_def)
    obtain a where a: "usActive (gHeap st ! p) = Some a" using ids_ok_active [OF o Some] by blast
    have e: "snd (gw_receive B conn pkt st) = ?upd (gHeap st) (gTable st) (idDelete B (a, ?c) (gIds st)) p"
      using False Some p a by (simp add: gw_receive_def getUDPSession_def updateUdpSession_def set_addr_def Let_def)
    have other: "gTable st c = Some q \<Longrightarrow> c \<noteq> ?c \<Longrightarrow> q \<noteq> p" for c q using i p(2) by (auto simp: gw_inv_def)
    let ?h = "(gHeap st)[p := (gHeap st ! p)\<lparr>usAddr := gpAddr pkt, usActive := Some (gNow st)\<rparr>]"
    have act: "gTable st c = Some q \<Longrightarrow> usActive (?h ! q) = (if c = ?c then Some (gNow st) else usActive (gHeap st ! q))" for c q
      using p Some other [of c q] by (auto simp: nth_list_update)
    have "(t, c) \<in> insert (gNow st, ?c) (elems (gIds st) - {(a, ?c)}) \<longleftrightarrow> (\<exists>q. gTable st c = Some q \<and> usActive (?h ! q) = Some t)" for t c
    proof (cases "c = ?c")
      case True
      then show ?thesis using act [OF Some] ids_ok_time [OF o Some, of t] Some a by auto
    next
      case False
      then show ?thesis using act [of c] o by (cases "gTable st c") (auto simp: ids_ok_def)
    qed
    moreover have "gTable st c = Some q \<Longrightarrow> usActive (?h ! q) \<noteq> None" for c q
      using act ids_ok_active [OF o] by (cases "c = ?c") auto
    ultimately show ?thesis unfolding e ids_ok_def by (simp add: elems_insert elems_delete)
  next
    case None
    have nin: "(t, ?c) \<notin> elems (gIds st)" for t using o None by (auto simp: ids_ok_def)
    have e: "snd (gw_receive B conn pkt st) =
        ?upd (gHeap st @ [new_usession ?c conn]) ((gTable st)(?c \<mapsto> length (gHeap st))) (gIds st) (length (gHeap st))"
      using False None by (simp add: gw_receive_def getUDPSession_def updateUdpSession_def set_addr_def Let_def new_usession_def)
    have q: "gTable st c = Some q \<Longrightarrow> q < length (gHeap st)" for c q using i by (auto simp: gw_inv_def)
    let ?p = "length (gHeap st)"
    let ?h = "(gHeap st @ [new_usession ?c conn])[?p := (new_usession ?c conn)\<lparr>usAddr := gpAddr pkt, usActive := Some (gNow st)\<rparr>]"
    have act: "((gTable st)(?c \<mapsto> ?p)) c = Some q \<Longrightarrow>
       usActive (?h ! q) = (if c = ?c then Some (gNow st) else usActive (gHeap st ! q))" for c q
      using q [of c] by (auto simp: nth_append split: if_splits)
    have "(t, c) \<in> insert (gNow st, ?c) (elems (gIds st)) \<longleftrightarrow>
       (\<exists>q. ((gTable st)(?c \<mapsto> ?p)) c = Some q \<and> usActive (?h ! q) = Some t)" for t c
    proof (cases "c = ?c")
      case True
      then show ?thesis using act [of ?c ?p] nin by auto
    next
      case False
      then show ?thesis using act [of c] o by (cases "gTable st c") (auto simp: ids_ok_def)
    qed
    moreover have "((gTable st)(?c \<mapsto> ?p)) c = Some q \<Longrightarrow> usActive (?h ! q) \<noteq> None" for c q
      using act [of c q] ids_ok_active [OF o, of c q] by (cases "c = ?c") auto
    ultimately show ?thesis unfolding e ids_ok_def by (simp add: elems_insert)
  qed
qed (use o in \<open>simp add: gw_receive_def\<close>)

definition quiet_inv where
  "quiet_inv st \<longleftrightarrow> gw_inv st \<and> ids_ok elems st \<and> finite (dom (gTable st))"

lemma gw_inv_receive: "gw_inv st \<Longrightarrow> gw_inv (snd (gw_receive B conn pkt st))"
proof -
  assume i: "gw_inv st"
  obtain p st1 where g: "getUDPSession (gpConid pkt) conn True st = (Some p, st1)"
    by (cases "gTable st (gpConid pkt)") (auto simp: getUDPSession_def)
  have "gw_inv st1" using gw_inv_get [OF i, of "gpConid pkt" conn True] g by simp
  moreover have "p < length (gHeap st1)" using g i by (auto simp: getUDPSession_def gw_inv_def split: option.splits)
  ultimately have "gw_inv (gw_step B (gw_step B st (GGet (gpConid pkt) conn)) (GTouch p (gpAddr pkt)))"
    by (intro gw_step_inv) (simp add: i)
  then show ?thesis using g i \<open>p < length (gHeap st1)\<close> by (simp add: gw_receive_def)
qed

lemma quiet_inv_works:
  assumes "works_on p st st'" "p < length (gHeap st)" "ids_ok elems st'" "quiet_inv st"
  shows "quiet_inv st'"
proof -
  have "dom (gTable st') \<subseteq> dom (gTable st)" using assms(1) by (simp add: works_on_def map_le_implies_dom_le)
  then show ?thesis using assms works_on_inv [OF assms(1,2)] by (auto simp: quiet_inv_def intro: finite_subset)
qed

lemma quiet_step:
  assumes "gw_quiet B st st'" and q: "quiet_inv st"
  shows "quiet_inv st'"
  using assms(1)
proof cases
  case (q_receive conn pkt)
  have "finite (dom (gTable (snd (gw_receive B conn pkt st))))"
    using q by (auto simp: quiet_inv_def gw_receive_def getUDPSession_def updateUdpSession_def set_addr_def Let_def split: option.splits)
  with q_receive q show ?thesis by (simp add: quiet_inv_def gw_inv_receive receive_ok)
next
  case (q_handle p e pkt)
  have p: "p < length (gHeap st)" using q q_handle(2) by (auto simp: quiet_inv_def gw_inv_def)
  obtain st0 where st0: "same_times st st0" "st' = st0 \<or> st' = us_close B p st0"
    using handle_times [of st B e p pkt] q_handle(1) by auto
  have "ids_ok elems (us_close B p st0)"
    by (rule us_close_ok) (use st0(1) q q_handle(2) same_times_ids in \<open>auto simp: same_times_def quiet_inv_def\<close>)
  then have "ids_ok elems st'" using st0 q same_times_ids by (auto simp: quiet_inv_def)
  then show ?thesis using quiet_inv_works [OF works_on_handle [of p st B e pkt] p] q q_handle(1) by simp
next
  case (q_begin p)
  then show ?thesis using q gw_step_inv [of st B "GBegin p"]
    by (auto simp: quiet_inv_def ids_ok_def reader_begin_def split: option.splits)
next
  case (q_end ok p s b err)
  then show ?thesis using q gw_step_inv [of st B "GEnd ok p s b err"]
    by (auto simp: quiet_inv_def ids_ok_def reader_end_def us_Write_def Let_def)
next
  case q_tick
  have "dom (gTable st') \<subseteq> dom (gTable st)" using expire_loop_spec [of st 5] q q_tick
    by (auto simp: quiet_inv_def removeExpiredSession_def expires_def)
  then show ?thesis using expire_loop_spec [of st 5] q q_tick
    by (auto simp: quiet_inv_def removeExpiredSession_def intro: finite_subset)
next
  case (q_wait d)
  then show ?thesis using q by (simp add: quiet_inv_def gw_inv_def ids_ok_def)
qed

end

sublocale id_tree \<subseteq> quiet: invariant_machine "\<lambda>st. \<exists>ids h. elems ids = {} \<and> st = gw_init ids h" "gw_quiet B" quiet_inv
proof unfold_locales
  fix st assume "\<exists>ids h. elems ids = {} \<and> st = gw_init ids h"
  then show "quiet_inv st" by (auto simp: quiet_inv_def gw_init_def gw_inv_def ids_ok_def)
qed (rule quiet_step)

context id_tree
begin

lemma reachable_quiet_inv: "elems ids = {} \<Longrightarrow> (gw_quiet B)\<^sup>*\<^sup>* (gw_init ids h) st \<Longrightarrow> quiet_inv st"
  by (rule quiet.inv_reachable) auto

lemma tick_of_quiet:
  assumes "quiet_inv st" "gTable st c = Some p"
  shows "\<not> idle st p \<Longrightarrow> gTable (removeExpiredSession B st) c = Some p \<and> gHeap (removeExpiredSession B st) ! p = gHeap st ! p"
    "idle st p \<Longrightarrow> card {c. \<exists>p. gTable st c = Some p \<and> idle st p} \<le> 5 \<Longrightarrow> gTable (removeExpiredSession B st) c = None"
  using assms expire_loop_spec [of st 5] expire_loop_complete [of st 5 c p]
  by (auto simp: quiet_inv_def expires_def removeExpiredSession_def)

end

section \<open>An ordered set as a list\<close>

definition list_ids :: "udpSessionId list id_ops" where
  "list_ids = \<lparr>idMin = (\<lambda>xs. case xs of [] \<Rightarrow> None | x # xs \<Rightarrow> Some (foldl (\<lambda>m y. if udp_Less y m then y else m) x xs)),
     idDelete = removeAll, idInsert = List.insert\<rparr>"

lemma udp_Less_total: "x = y \<or> udp_Less x y \<or> udp_Less y x"
  by (cases x; cases y) (auto simp: udp_Less_def)

lemma udp_Less_trans: "udp_Less x y \<Longrightarrow> udp_Less y z \<Longrightarrow> udp_Less x z"
  by (auto simp: udp_Less_def split: if_splits)

lemma udp_Less_asym: "udp_Less x y \<Longrightarrow> \<not> udp_Less y x"
  by (auto simp: udp_Less_def split: if_splits)

lemma foldl_min:
  "foldl (\<lambda>m y. if udp_Less y m then y else m) x xs \<in> insert x (set xs) \<and>
   (\<forall>k \<in> insert x (set xs). k = foldl (\<lambda>m y. if udp_Less y m then y else m) x xs \<or>
      udp_Less (foldl (\<lambda>m y. if udp_Less y m then y else m) x xs) k)"
proof (induction xs arbitrary: x)
  case (Cons y ys)
  show ?case
  proof (cases "udp_Less y x")
    case True
    define m where "m = foldl (\<lambda>m y. if udp_Less y m then y else m) y ys"
    have m: "m \<in> insert y (set ys)" "\<forall>k \<in> insert y (set ys). k = m \<or> udp_Less m k" using Cons [of y] unfolding m_def by auto
    then have "udp_Less m x" using True udp_Less_trans [of m y x] by auto
    then show ?thesis using m True unfolding m_def by auto
  next
    case False
    define m where "m = foldl (\<lambda>m y. if udp_Less y m then y else m) x ys"
    have m: "m \<in> insert x (set ys)" "\<forall>k \<in> insert x (set ys). k = m \<or> udp_Less m k" using Cons [of x] unfolding m_def by auto
    have "x = y \<or> udp_Less x y" using False udp_Less_total [of x y] by blast
    then have "y = m \<or> udp_Less m y" using m(2) udp_Less_trans [of m x y] by auto
    then show ?thesis using m False unfolding m_def by auto
  qed
qed simp

interpretation list_ids: id_tree list_ids set
proof unfold_locales
  fix t :: "udpSessionId list" and k
  show "idMin list_ids t = Some k \<Longrightarrow> k \<in> set t \<and> (\<forall>k' \<in> set t. k' = k \<or> udp_Less k k')"
    using foldl_min [of "List.hd t" "tl t"] by (cases t) (auto simp: list_ids_def)
qed (auto simp: list_ids_def split: list.splits)

lemma expire_loop_closed:
  "gTable st c = None \<Longrightarrow> s \<in> gClosed st \<Longrightarrow> gTable (expire_loop B n st) c = None \<and> s \<in> gClosed (expire_loop B n st)"
proof (induction n arbitrary: st)
  case (Suc n)
  then show ?case
    by (auto simp: removeUdpSession_def closeStream_def map_delete_def split: option.splits)
qed simp

section \<open>Properties of the gateway\<close>

text \<open>C29: in a run in which a packet's session is looked up and touched in one step and handled while it is in
  the table, and the gateway is not stopped, a tick of the expiry task leaves every session alone that has had a
  packet within 30 seconds, and removes all others if there are at most five of them.\<close>

theorem tick_expires_exactly_idle:
  assumes "id_tree B elems" "elems ids = {}" "(gw_quiet B)\<^sup>*\<^sup>* (gw_init ids h) st" "gTable st c = Some p"
  shows "(\<not> idle st p \<longrightarrow> gTable (removeExpiredSession B st) c = Some p \<and> gHeap (removeExpiredSession B st) ! p = gHeap st ! p) \<and>
    (idle st p \<and> card {c. \<exists>p. gTable st c = Some p \<and> idle st p} \<le> 5 \<longrightarrow> gTable (removeExpiredSession B st) c = None)"
  using id_tree.tick_of_quiet [OF assms(1) id_tree.reachable_quiet_inv [OF assms(1-3)] assms(4)] by blast

definition one_session :: "udpSessionId list gw" where
  "one_session = snd (gw_receive list_ids 0 example_packet (gw_init [] no_hosts))"

lemma one_session_simps:
  "gTable one_session = [7 \<mapsto> 0]" "gHeap one_session = [(new_usession 7 0)\<lparr>usAddr := gpAddr example_packet, usActive := Some 1\<rparr>]"
  "gNow one_session = 1" "gIds one_session = [(1, 7)]" "gReaders one_session = []" "gOut one_session = []"
  by (simp_all add: one_session_def gw_receive_def example_packet_def getUDPSession_def gw_init_def updateUdpSession_def set_addr_def
      new_usession_def list_ids_def Let_def)

lemma tick_expires_exactly_idle_witness:
  "gTable (removeExpiredSession list_ids one_session) 7 = Some 0"
proof -
  have "(gw_quiet list_ids)\<^sup>*\<^sup>* (gw_init [] no_hosts) one_session"
    unfolding one_session_def by (intro r_into_rtranclp gw_quiet.q_receive)
  from tick_expires_exactly_idle [OF list_ids.id_tree_axioms _ this, of 7 0] show ?thesis
    by (simp add: one_session_simps idle_def idle_limit_def new_usession_def)
qed

text \<open>stopping the local servers empties the table of sessions and leaves their times in the ordered set. When
  such a time is 30 seconds old, the session that has the same connection id by then is removed and its
  stream closed, however recent its packets are.\<close>

theorem stale_time_closes_live_session:
  assumes "id_tree B elems" "(t, c) \<in> elems (gIds st)" "\<forall>k \<in> elems (gIds st). k = (t, c) \<or> udp_Less (t, c) k"
    and "idle_limit \<le> gNow st - t" "gTable st c = Some p" "usStream (gHeap st ! p) = Some s"
  shows "gTable (removeExpiredSession B st) c = None \<and> s \<in> gClosed (removeExpiredSession B st)"
proof -
  obtain k where k: "idMin B (gIds st) = Some k"
    using id_tree.min_none [OF assms(1), of "gIds st"] assms(2) by (cases "idMin B (gIds st)") auto
  have kk: "k \<in> elems (gIds st)" "(t, c) = k \<or> udp_Less k (t, c)"
    using id_tree.min_some [OF assms(1) k] assms(2) by simp_all
  have "k = (t, c)"
    using kk(2) udp_Less_asym [of k "(t, c)"] bspec [OF assms(3) kk(1)] by argo
  have five: "(5 :: nat) = Suc 4" by simp
  define r where "r = removeUdpSession c (st\<lparr>gIds := idDelete B (t, c) (gIds st)\<rparr>)"
  have "removeExpiredSession B st = expire_loop B 4 r"
    unfolding removeExpiredSession_def five expire_loop.simps(2) k \<open>k = (t, c)\<close> r_def using assms(4) by simp
  moreover have "gTable r c = None" "s \<in> gClosed r"
    unfolding r_def using assms(5,6) by (simp_all add: removeUdpSession_def closeStream_def map_delete_def)
  ultimately show ?thesis using expire_loop_closed [of r c s B 4] by simp
qed

text \<open>The run: a packet, a stop, 25 seconds, a packet of the same id on another connection, which opens a stream,
  5 seconds.\<close>

definition open_env :: gw_env where
  "open_env = \<lparr>geV = plain_env, geCfg = pac_proxy [any_pac ''r''], geDns = (\<lambda>_. None), geConnOk = (\<lambda>_. True), geTrusted = [],
     geOpen = (\<lambda>_. (Got 3, Some zero_channel)), geConnect = (\<lambda>_. True)\<rparr>"

definition web_packet :: udpgwPacket where
  "web_packet = example_packet\<lparr>gpAddr := \<lparr>gaIP = [8, 8, 4, 4], gaPort = 443\<rparr>\<rparr>"

definition restarted :: "udpSessionId list gw" where
  "restarted = foldl (gw_step list_ids) (gw_init [] no_hosts)
     [GGet 7 0, GTouch 0 (gpAddr web_packet), GStop [0], GWait 25000, GGet 7 1, GTouch 1 (gpAddr web_packet),
      GHandle open_env 1 web_packet, GWait 5000]"

lemma find_any_pac: "findProxyChannelByRequest plain_env (pac_proxy [any_pac r]) proto ip None h = (Some r, h)"
  by (simp add: findProxyChannelByRequest_def pac_proxy_def any_pac_def pac_Match_def matchRules_def matchProtocol_def)

lemma restarted_simps:
  "gTable restarted = [7 \<mapsto> 1]" "gNow restarted = 30001" "set (gIds restarted) = {(1, 7), (25001, 7)}"
  "usActive (gHeap restarted ! 1) = Some 25001" "usStream (gHeap restarted ! 1) = Some 3"
  by (simp_all add: restarted_def gw_init_def getUDPSession_def updateUdpSession_def set_addr_def new_usession_def list_ids_def Let_def
      web_packet_def example_packet_def closeAllUDPSession_def closeStream_def handlePacket_def choose_channel_def open_stream_def
      open_env_def find_any_pac nth_append insert_commute)

lemma stale_time_closes_live_session_witness:
  "usActive (gHeap restarted ! 1) = Some 25001 \<and> gNow restarted = 30001 \<and>
   gTable (removeExpiredSession list_ids restarted) 7 = None \<and> 3 \<in> gClosed (removeExpiredSession list_ids restarted)"
  using stale_time_closes_live_session [OF list_ids.id_tree_axioms, of 1 7 restarted 1 3]
  by (simp add: restarted_simps restarted_simps(5) [unfolded One_nat_def] restarted_simps(4) [unfolded One_nat_def] udp_Less_def idle_limit_def)

section \<open>Replies\<close>

text \<open>Events that do not close the stream of session \<open>p\<close>: packets (handled by this session), reads, and time.\<close>

fun ordinary :: "nat \<Rightarrow> gw_event \<Rightarrow> bool" where
  "ordinary p (GHandle e q pkt) \<longleftrightarrow> q = p"
| "ordinary p GTick \<longleftrightarrow> False"
| "ordinary p (GStop ord) \<longleftrightarrow> False"
| "ordinary p ev \<longleftrightarrow> True"

definition unread :: "nat \<Rightarrow> nat \<Rightarrow> 't gw \<Rightarrow> bool" where
  "unread p s st \<longleftrightarrow> p < length (gHeap st) \<and> usStream (gHeap st ! p) = Some s \<and> p \<notin> fst ` set (gReaders st)"

lemma unread_step:
  assumes "unread p s st" "ordinary p ev"
  shows "unread p s (gw_step B st ev) \<and> set (gOut st) \<subseteq> set (gOut (gw_step B st ev)) \<and>
    (\<forall>e pkt. ev = GHandle e p pkt \<longrightarrow> ToStream s (gpContent pkt) \<in> set (gOut (gw_step B st ev)))"
proof (cases ev)
  case (GGet c conn)
  then show ?thesis using assms(1) by (auto simp: unread_def getUDPSession_def nth_append split: option.splits)
next
  case (GTouch q a)
  then show ?thesis using assms(1)
    by (auto simp: unread_def updateUdpSession_def set_addr_def Let_def nth_list_update)
next
  case (GHandle e q pkt)
  then show ?thesis using assms by (auto simp: unread_def handlePacket_def)
next
  case (GBegin q)
  then show ?thesis using assms(1)
    by (force simp: unread_def reader_begin_def dest!: set_remove1_subset [THEN subsetD] split: option.splits)
next
  case (GEnd ok q s' b err)
  then show ?thesis using assms(1)
    by (force simp: unread_def reader_end_def us_Write_def Let_def dest!: set_remove1_subset [THEN subsetD])
qed (use assms in \<open>auto simp: unread_def\<close>)

text \<open>when the remote side of a session has been silent for the read timeout, the goroutine of the replies ends and
  leaves the stream in place: as long as the session lives, its packets are written to the stream, and nothing ever
  reads the stream again.\<close>

theorem no_reply_after_read_timeout:
  assumes "p < length (gHeap st)" "usStream (gHeap st ! p) = Some s" "filter (\<lambda>r. fst r = p) (gReaders st) = [(p, Some s)]"
    and "list_all (ordinary p) evs"
  shows "unread p s (foldl (gw_step B) st (GEnd ok p s [] True # evs)) \<and>
    (\<forall>e pkt. GHandle e p pkt \<in> set evs \<longrightarrow> ToStream s (gpContent pkt) \<in> set (gOut (foldl (gw_step B) st (GEnd ok p s [] True # evs))))"
proof -
  have "filter (\<lambda>r. fst r = p) (remove1 (p, Some s) (gReaders st)) = []"
    using assms(3) by (simp add: filter_remove1)
  moreover have "(p, Some s) \<in> set (gReaders st)" using arg_cong [OF assms(3), of set] by auto
  ultimately have u: "unread p s (reader_end ok p s [] True st)"
    using assms(1,2) by (auto simp: unread_def reader_end_def filter_empty_conv)
  have "unread p s st' \<Longrightarrow> list_all (ordinary p) evs \<Longrightarrow> unread p s (foldl (gw_step B) st' evs) \<and>
     set (gOut st') \<subseteq> set (gOut (foldl (gw_step B) st' evs)) \<and>
     (\<forall>e pkt. GHandle e p pkt \<in> set evs \<longrightarrow> ToStream s (gpContent pkt) \<in> set (gOut (foldl (gw_step B) st' evs)))" for st'
  proof (induction evs arbitrary: st')
    case (Cons ev evs)
    define st1 where "st1 = gw_step B st' ev"
    have o: "ordinary p ev" using Cons.prems(2) by simp
    have a: "unread p s st1" "set (gOut st') \<subseteq> set (gOut st1)"
      "\<forall>e pkt. ev = GHandle e p pkt \<longrightarrow> ToStream s (gpContent pkt) \<in> set (gOut st1)"
      using unread_step [OF Cons.prems(1) o, of B] unfolding st1_def by blast+
    have "foldl (gw_step B) st' (ev # evs) = foldl (gw_step B) st1 evs" by (simp add: st1_def)
    then show ?case using a(2,3) Cons.IH [OF a(1)] Cons.prems(2) by (simp del: foldl_Cons) blast
  qed simp
  from this [OF u assms(4)] show ?thesis by simp
qed

definition reading :: "udpSessionId list gw" where
  "reading = gw_step list_ids restarted (GBegin 1)"

lemma reading_simps:
  "length (gHeap reading) = 2" "usStream (gHeap reading ! 1) = Some 3" "gReaders reading = [(1, Some 3)]"
proof -
  have "gReaders restarted = [(1, None)]" "length (gHeap restarted) = 2"
    by (simp_all add: restarted_def gw_init_def getUDPSession_def updateUdpSession_def set_addr_def new_usession_def list_ids_def Let_def
      web_packet_def example_packet_def closeAllUDPSession_def closeStream_def handlePacket_def choose_channel_def open_stream_def
      open_env_def find_any_pac nth_append)
  then show "length (gHeap reading) = 2" "usStream (gHeap reading ! 1) = Some 3" "gReaders reading = [(1, Some 3)]"
    by (simp_all add: reading_def reader_begin_def restarted_simps restarted_simps(5) [unfolded One_nat_def])
qed

lemma no_reply_after_read_timeout_witness:
  "unread 1 3 (foldl (gw_step list_ids) reading [GEnd (\<lambda>_. True) 1 3 [] True, GWait 1, GTouch 1 (gpAddr web_packet), GHandle open_env 1 web_packet])"
  using no_reply_after_read_timeout [of 1 reading 3 "[GWait 1, GTouch 1 (gpAddr web_packet), GHandle open_env 1 web_packet]" list_ids "\<lambda>_. True"]
  by (simp add: reading_simps reading_simps(2) [unfolded One_nat_def])

text \<open>a goroutine that is at the head of its loop when the stream is closed dereferences the cleared field.\<close>

lemma reader_after_close_panics:
  "(p, None) \<in> set (gReaders st) \<Longrightarrow> usStream (gHeap st ! p) = None \<Longrightarrow> gPanic (reader_begin p st)"
  by (simp add: reader_begin_def)

section \<open>Further faults of the gateway\<close>

text \<open>a connection id is one session for all connections of the gateway: a packet of another connection
  gets the session of the first, and its reply goes there.\<close>

lemma id_shared_by_connections:
  assumes "gTable st (gpConid pkt) = Some p" "p < length (gHeap st)" "gpContent pkt \<noteq> []" "gw_receive B conn pkt st = (r, st')"
  shows "r = Some p \<and> usConn (gHeap st' ! p) = usConn (gHeap st ! p)"
  using assms by (auto simp: gw_receive_def getUDPSession_def updateUdpSession_def set_addr_def Let_def)

text \<open>an IPv6 destination is sent without brackets, so that the other side cannot split it.\<close>

lemma plain_itoa: "plain_host (itoa n)"
  by (auto simp: plain_host_def)

lemma ipv6_address_unsplittable:
  assumes "CHR '':'' \<in> set (packet_ip u)" "CHR ''['' \<notin> set (packet_ip u)"
  shows "SplitHostPort (udpgw_address u) = None"
  using SplitHostPort_two_colons [OF assms plain_itoa] by (simp add: udpgw_address_def packet_ip_def Let_def)

text \<open>a channel that is not in the table: \<open>GetMuxStreamByChannel\<close> returns no configuration, which is dereferenced
  before the error is looked at.\<close>

lemma missing_channel_panics:
  assumes "fst tw chan = None" "\<And>n. geOpen e n = (case GetMuxStreamByChannel p2pOpen es n tw of (g, conf, _) \<Rightarrow> (g, conf))"
  shows "fst (open_stream e p pkt chan r st) = GwPanic \<and> gPanic (snd (open_stream e p pkt chan r st))"
  using assms by (cases tw) (simp add: open_stream_def GetMuxStreamByChannel_def)

end
