(* ===== verification/LocalServer.thy ===== *)
theory LocalServer
  imports UdpGw TlsSni Socks
begin

text \<open>
  One connection of the local proxy (\<open>local/local_server.go\<close>): what \<open>serveProxyConn\<close> makes of the
  first bytes (SOCKS, a TLS server name, an HTTP request), the channel and the stream it connects,
  and how it passes on bytes or requests until it returns.

  What the function does to the outside is a list of actions; its deferred calls are the last of
  them. HTTP requests are read by \<open>net/http\<close> (\<open>seReadReq\<close>, and the outcomes \<open>seReads\<close> of the
  reads that wait for further requests); TLS, the streams' outcomes and the copying of bytes are
  parameters too.
\<close>

section \<open>Requests and actions\<close>

record http_req =
  lrMethod :: string
  lrHost :: string
  lrHeader :: "(string \<times> string) list"
  lrRest :: bytes

datatype req_read = RdReq http_req | RdTimeout bool | RdEnd
  \<comment> \<open>the flag of a timeout: the stream has moved bytes within the idle time\<close>

datatype lact =
    CountUp | CountDown | LocalClose
  | LocalWrite bytes
  | MakeTLS string
  | ServeUdpgw
  | SConnect nat string StreamOptions
  | SDump nat
  | Register nat | Unregister nat      \<comment> \<open>\<open>activeStreams\<close>, by the number of the round\<close>
  | CopyBack nat                       \<comment> \<open>the goroutine that copies from the stream to the client\<close>
  | WriteReq nat http_req
  | CopyUp nat
  | SClose nat
  | WClose nat                         \<comment> \<open>the close of a compressing writer, which leaves the stream open\<close>
  | DumpClose nat                      \<comment> \<open>the close of the HTTP dump, which leaves the stream open\<close>

record serve_env =
  seV :: pac_env
  seCfg :: ProxyConfig
  seBadURL :: "string \<Rightarrow> bool"
  seUdpgwAddr :: string
  seSNI :: "(string \<times> string) list"
  seStreamIdle :: int
  seTlsOk :: "string \<Rightarrow> bool"
  seTls :: "bufr \<Rightarrow> bufr"
  seReadReq :: "bufr \<Rightarrow> http_req option \<times> bufr"
  seOpen :: "nat \<Rightarrow> string \<Rightarrow> nat got \<times> ProxyChannelConfig option"
  seConnect :: "nat \<Rightarrow> bool"
  seWriteOk :: "http_req \<Rightarrow> bool"
  seCopies :: "(bool \<times> bool) list"   \<comment> \<open>each copy from the client: timed out, and the stream was active\<close>
  seBackEnds :: "nat \<Rightarrow> bool"            \<comment> \<open>whether the copy to the client ends although the stream stays open\<close>

section \<open>What the connection asks for\<close>

record target =
  tgHost :: string
  tgPort :: string
  tgProto :: string
  tgSocks :: bool
  tgHttps :: bool
  tgTransparent :: bool
  tgMitm :: bool
  tgReq :: "http_req option"
  tgRd :: bufr

datatype sniff = Stop "lact list" | Panics "lact list" | Start "lact list" target

definition zero_addr :: bytes where "zero_addr = IPv4 0 0 0 0"

text \<open>The SOCKS negotiation, and the connection it leaves: after a successful one nothing is buffered; if it
  is not SOCKS the peeked bytes stay in the reader.\<close>

definition socks_stage :: "serve_env \<Rightarrow> string \<Rightarrow> string \<Rightarrow> rw \<Rightarrow> sniff" where
  "socks_stage e host port s =
     (let t = \<lparr>tgHost = host, tgPort = port, tgProto = ''tcp'', tgSocks = False, tgHttps = False,
               tgTransparent = host \<noteq> [], tgMitm = False, tgReq = None, tgRd = rd s\<rparr>
      in if host \<noteq> [] then Start [] t
         else case NewSocksConn s of
           (Inr c, s') \<Rightarrow>
             (let acts = map LocalWrite (sent (snd (Grant c zero_addr 0 s')))
              in if Target (Req c) = seUdpgwAddr e then Stop (acts @ [ServeUdpgw])
                 else case SplitHostPort (Target (Req c)) of
                   None \<Rightarrow> Stop acts
                 | Some (h, p) \<Rightarrow> Start acts (t\<lparr>tgHost := h, tgPort := p, tgSocks := True, tgRd := rd s'\<rparr>))
         | (Inl (er, False), s') \<Rightarrow> Stop (map LocalWrite (sent s') @ [LocalClose])
         | (Inl (er, True), s') \<Rightarrow> Start (map LocalWrite (sent s')) (t\<lparr>tgRd := rd s'\<rparr>))"

definition try_sniff :: "string \<Rightarrow> bool" where
  "try_sniff host \<longleftrightarrow> host = [] \<or> (ParseIP host \<noteq> None \<and> \<not> IsPrivateIP host)"

text \<open>The server name replaces an address that is not private; the result says whether it was found.\<close>

definition sni_stage :: "serve_env \<Rightarrow> target \<Rightarrow> (target \<times> bool) option" where
  "sni_stage e t =
     (if (tgSocks t \<or> tgTransparent t) \<and> try_sniff (tgHost t) then
        (case PeekTLSServerName (tgRd t) of
           (Inl Panic, r) \<Rightarrow> None
         | (Inl _, r) \<Rightarrow> Some (t\<lparr>tgRd := r\<rparr>, False)
         | (Inr sni, r) \<Rightarrow> Some (t\<lparr>tgRd := r, tgHost := (case redirect (seSNI e) sni of (x, True) \<Rightarrow> x | (_, False) \<Rightarrow> sni)\<rparr>, True))
      else Some (t, False))"

text \<open>\<open>buildMITMConn\<close>: from here on the bytes of the connection are those of the TLS connection.\<close>

definition build_mitm :: "serve_env \<Rightarrow> target \<Rightarrow> (lact \<times> target) option" where
  "build_mitm e t =
     (if seTlsOk e (tgHost t) then Some (MakeTLS (tgHost t), t\<lparr>tgRd := seTls e (tgRd t), tgMitm := True\<rparr>) else None)"

definition http_methods :: "string list" where
  "http_methods = [''GET'', ''POS'', ''HEA'', ''PUT'', ''DEL'', ''CON'', ''OPT'', ''TRAC'', ''PAT'']"

definition established :: bytes where
  "established = bytes_of_str (''HTTP/1.0 200 Connection established'' @ [CHR 0x0D, CHR 0x0A, CHR 0x0D, CHR 0x0A])"

text \<open>The host and port of the first request.\<close>

definition req_target :: "http_req \<Rightarrow> string \<times> string" where
  "req_target q =
     (if Contains (lrHost q) '':'' then (case SplitHostPort (lrHost q) of Some hp \<Rightarrow> hp | None \<Rightarrow> ([], []))
      else (lrHost q, if EqualFold (lrMethod q) ''CONNECT'' then ''443'' else ''80''))"

definition http_stage :: "serve_env \<Rightarrow> target \<Rightarrow> sniff" where
  "http_stage e t =
     (case Peek 3 (tgRd t) of (head, er, r) \<Rightarrow>
        let t = t\<lparr>tgRd := r\<rparr> in
        if length head \<noteq> 3 then (if er = Some EOF then Stop [] else Start [] t)
        else if str_of_bytes head \<in> set http_methods then
          (case seReadReq e r of
             (None, _) \<Rightarrow> Stop []
           | (Some q, r) \<Rightarrow>
               (let (h, p) = req_target q;
                    t = t\<lparr>tgRd := r, tgHost := h, tgPort := p, tgReq := Some q\<rparr>
                in if EqualFold (lrMethod q) ''CONNECT'' then
                     (let t = t\<lparr>tgProto := ''https''\<rparr> in
                      if tgSocks t then Start [] t
                      else let t = t\<lparr>tgHttps := True, tgReq := None\<rparr> in
                        if pxMITM (seCfg e) then
                          (case build_mitm e t of None \<Rightarrow> Stop [LocalWrite established]
                           | Some (a, t) \<Rightarrow> Start [LocalWrite established, a] t)
                        else Start [LocalWrite established] t)
                   else Start [] (t\<lparr>tgProto := ''http''\<rparr>)))
        else if \<not> tgSocks t \<and> \<not> tgTransparent t then Stop []
        else Start [] t)"

fun add_acts :: "lact list \<Rightarrow> sniff \<Rightarrow> sniff" where
  "add_acts a (Stop b) = Stop (a @ b)"
| "add_acts a (Panics b) = Panics (a @ b)"
| "add_acts a (Start b t) = Start (a @ b) t"

text \<open>After the server name: TLS with the client if the proxy is to read it, then the first HTTP request.\<close>

definition sniff_rest :: "serve_env \<Rightarrow> bool \<Rightarrow> target \<Rightarrow> bool \<Rightarrow> sniff" where
  "sniff_rest e try t found =
     (let try = try \<and> \<not> found;
          mitm = pxMITM (seCfg e) \<and> ((found \<and> tgHost t \<noteq> []) \<or> (tgSocks t \<and> \<not> try \<and> tgPort t = ''443''))
      in if mitm then
           (case build_mitm e t of
              None \<Rightarrow> Stop []
            | Some (m, t) \<Rightarrow> add_acts [m] (if try then http_stage e t else Start [] t))
         else if try then http_stage e t else Start [] t)"

text \<open>The part of \<open>serveProxyConn\<close> before the label \<open>START\<close>.\<close>

definition sniff_all :: "serve_env \<Rightarrow> string \<Rightarrow> string \<Rightarrow> rw \<Rightarrow> sniff" where
  "sniff_all e host port s =
     (let (host, port) = (if pxForward (seCfg e) \<noteq> [] then (case SplitHostPort (pxForward (seCfg e)) of Some hp \<Rightarrow> hp | None \<Rightarrow> ([], []))
                          else (host, port))
      in case socks_stage e host port s of
           Stop a \<Rightarrow> Stop a
         | Panics a \<Rightarrow> Panics a
         | Start a t \<Rightarrow>
             (case sni_stage e t of
                None \<Rightarrow> Panics a
              | Some (t', found) \<Rightarrow> add_acts a (sniff_rest e (try_sniff (tgHost t)) t' found)))"

section \<open>From START\<close>

definition idle_secs :: "int \<Rightarrow> int" where
  "idle_secs cfg = (if cfg < 0 then 86400 else if cfg = 0 then 10 else cfg)"

text \<open>One pass from \<open>START\<close> to the connected stream: the stream, its configuration and the host, which a
  remote SNI proxy may have replaced; otherwise the actions before the return, and whether a stream had been taken.\<close>

datatype connected = NoRound "lact list" "nat option" | RoundPanics | Round nat ProxyChannelConfig string "lact list"

definition connect_round :: "serve_env \<Rightarrow> nat \<Rightarrow> string \<Rightarrow> string \<Rightarrow> string \<Rightarrow> hosts \<Rightarrow> connected \<times> hosts" where
  "connect_round e k proto host port h =
     (if host = [] \<or> port = [] then (NoRound [] None, h)
      else case getProxyChannelByHost (seBadURL e) (seV e) (seCfg e) proto host h of
        (None, h) \<Rightarrow> (RoundPanics, h)
      | (Some chan, h) \<Rightarrow>
          if chan = [] then (NoRound [] None, h)
          else case seOpen e k chan of
            (Got s, Some conf) \<Rightarrow>
              (let opt = \<lparr>soDialTimeout = RemoteDialMSTimeout conf, soReadTimeout = idle_secs (seStreamIdle e) * 1000, soHops = Hops conf\<rparr>;
                   rsni = (if port = ''443'' \<and> ParseIP host = None then GetRemoteSNI conf host else []);
                   (host', h) = (if rsni \<noteq> [] then GetHost (pvRx (seV e)) (pvOrd (seV e)) (pvFuel (seV e)) rsni h else (Some host, h))
               in case host' of
                    None \<Rightarrow> (RoundPanics, h)
                  | Some host \<Rightarrow>
                      (let a = SConnect s (JoinHostPort host port) opt
                       in if seConnect e s
                          then (Round s conf host ([a] @ (if MatchDomain (pxDumpDomain (seCfg e)) host then [SDump s] else []) @ [Register k, CopyBack s]), h)
                          else (NoRound [a] (Some s), h)))
          | (GotPanic, _) \<Rightarrow> (RoundPanics, h)
          | _ \<Rightarrow> (NoRound [] None, h))"

text \<open>The headers a proxy does not pass on.\<close>

definition strip_proxy :: "http_req \<Rightarrow> http_req" where
  "strip_proxy q = q\<lparr>lrHeader := filter (\<lambda>kv. fst kv \<noteq> ''Proxy-Connection'' \<and> fst kv \<noteq> ''Proxy-Authorization'') (lrHeader q)\<rparr>"

datatype loop_end = WriteFailed | ReadEnded | HostChanged | Waiting

fun http_loop :: "serve_env \<Rightarrow> nat \<Rightarrow> http_req option \<Rightarrow> req_read list \<Rightarrow> lact list \<times> loop_end \<times> req_read list" where
  "http_loop e s prev [] = ([], Waiting, [])"
| "http_loop e s prev (RdTimeout active # rs) = (if active then http_loop e s prev rs else ([], ReadEnded, rs))"
| "http_loop e s prev (RdEnd # rs) = ([], ReadEnded, rs)"
| "http_loop e s prev (RdReq q # rs) =
     (if prev \<noteq> None \<and> lrHost (the prev) \<noteq> lrHost q then ([SClose s], HostChanged, rs)
      else if \<not> seWriteOk e q then ([WriteReq s (strip_proxy q)], WriteFailed, rs)
      else case http_loop e s (Some (strip_proxy q)) rs of (a, x, rs) \<Rightarrow> (WriteReq s (strip_proxy q) # a, x, rs))"

definition http_mode :: "serve_env \<Rightarrow> nat \<Rightarrow> http_req option \<Rightarrow> req_read list \<Rightarrow> lact list \<times> loop_end \<times> req_read list" where
  "http_mode e s req rs =
     (case req of None \<Rightarrow> http_loop e s None rs
      | Some q \<Rightarrow>
          if \<not> seWriteOk e q then ([WriteReq s (strip_proxy q)], WriteFailed, rs)
          else case http_loop e s (Some (strip_proxy q)) rs of (a, x, rs) \<Rightarrow> (WriteReq s (strip_proxy q) # a, x, rs))"

text \<open>The copies from the client: a timeout with a stream that is still active starts another one.\<close>

fun copy_up :: "(bool \<times> bool) list \<Rightarrow> bool" where
  "copy_up [] = False"
| "copy_up ((timeout, active) # cs) = (if timeout \<and> active then copy_up cs else True)"

text \<open>What the close of \<open>streamWriter\<close> closes at the end of the copy from the client: the dump, the compressing writer, or
  the stream (also through the TLS client of a connection that is read).\<close>

definition dumped :: "serve_env \<Rightarrow> string \<Rightarrow> bool" where
  "dumped e host = MatchDomain (pxDumpDomain (seCfg e)) host"

definition writer_close :: "serve_env \<Rightarrow> ProxyChannelConfig \<Rightarrow> string \<Rightarrow> nat \<Rightarrow> lact" where
  "writer_close e conf host s =
     (if dumped e host then DumpClose s else if Compressor conf = SnappyCompressor then WClose s else SClose s)"

text \<open>The deferred calls of a round, and all of them: in the reverse order of the rounds, then the counter, the connection.\<close>

definition round_defers :: "serve_env \<Rightarrow> string \<Rightarrow> nat \<Rightarrow> lact list" where
  "round_defers e host s = SClose s # (if dumped e host then [DumpClose s] else [])"

definition deferred :: "lact list \<Rightarrow> lact list" where
  "deferred ds = rev ds @ [CountDown, LocalClose]"

datatype served = Returned "lact list" | Waits "lact list" | Crashed "lact list"

fun before :: "lact list \<Rightarrow> served \<Rightarrow> served" where
  "before a (Returned b) = Returned (a @ b)"
| "before a (Waits b) = Waits (a @ b)"
| "before a (Crashed b) = Crashed (a @ b)"

lemma http_loop_shorter: "http_loop e s prev rs = (a, HostChanged, rs') \<Longrightarrow> length rs' < length rs"
proof (induction e s prev rs arbitrary: a rs' rule: http_loop.induct)
  case (2 e s prev active rs)
  then show ?case by (fastforce split: if_splits)
next
  case (4 e s prev q rs)
  show ?case
  proof (cases "(prev \<noteq> None \<and> lrHost (the prev) \<noteq> lrHost q) \<or> \<not> seWriteOk e q")
    case True
    then show ?thesis using "4.prems" by (auto split: if_splits)
  next
    case False
    obtain b x rs1 where b: "http_loop e s (Some (strip_proxy q)) rs = (b, x, rs1)" by (cases "http_loop e s (Some (strip_proxy q)) rs")
    then show ?thesis using "4.IH" [of b rs1] "4.prems" False by (auto split: if_splits)
  qed
qed simp_all

lemma http_mode_shorter: "http_mode e s req rs = (a, HostChanged, rs') \<Longrightarrow> length rs' < length rs"
  using http_loop_shorter [of e s None rs] http_loop_shorter [of e s "Some (strip_proxy (the req))" rs]
  by (auto simp: http_mode_def split: option.splits if_splits prod.splits)

text \<open>The rounds from \<open>START\<close>; \<open>host\<close> and \<open>req\<close> are the variables of the function, \<open>ds\<close> the deferred calls.
  Behind the copy from the client the function waits for the copy to it, whose end follows the close of the stream; a stream
  that is not closed keeps the function waiting until the other side ends it or the client no longer takes its bytes.\<close>

function rounds :: "serve_env \<Rightarrow> target \<Rightarrow> nat \<Rightarrow> string \<Rightarrow> http_req option \<Rightarrow> req_read list \<Rightarrow> lact list \<Rightarrow> hosts \<Rightarrow> served \<times> hosts" where
  "rounds e t k host req rs ds h =
     (case connect_round e k (tgProto t) host (tgPort t) h of
        (RoundPanics, h) \<Rightarrow> (Crashed [], h)
      | (NoRound a None, h) \<Rightarrow> (Returned (a @ deferred ds), h)
      | (NoRound a (Some s), h) \<Rightarrow> (Returned (a @ deferred (ds @ [SClose s])), h)
      | (Round s conf host a, h) \<Rightarrow>
          (let ds' = ds @ round_defers e host s; w = writer_close e conf host s in
           if (tgSocks t \<or> tgHttps t \<or> tgTransparent t) \<and> req = None then
             (if \<not> copy_up (seCopies e) then (Waits (a @ [CopyUp s]), h)
              else if w = SClose s \<or> seBackEnds e s then (Returned (a @ [CopyUp s, w, Unregister k] @ deferred ds'), h)
              else (Waits (a @ [CopyUp s, w]), h))
           else (case http_mode e s req rs of
                   (b, HostChanged, rs) \<Rightarrow> (case rounds e t (Suc k) host None rs ds' h of (r, h) \<Rightarrow> (before (a @ b) r, h))
                 | (b, Waiting, _) \<Rightarrow> (Waits (a @ b), h)
                 | (b, _, _) \<Rightarrow> (Returned (a @ b @ deferred ds'), h))))"
  by pat_completeness auto
termination
  by (relation "measure (\<lambda>(e, t, k, host, req, rs, ds, h). length rs)") (auto dest: sym [THEN http_mode_shorter])

declare rounds.simps [simp del]

definition serveProxyConn :: "serve_env \<Rightarrow> string \<Rightarrow> string \<Rightarrow> rw \<Rightarrow> req_read list \<Rightarrow> hosts \<Rightarrow> served \<times> hosts" where
  "serveProxyConn e host port s rs h =
     (case sniff_all e host port s of
        Stop a \<Rightarrow> (Returned (CountUp # a @ deferred []), h)
      | Panics a \<Rightarrow> (Crashed (CountUp # a), h)
      | Start a t \<Rightarrow> (case rounds e t 0 (tgHost t) (tgReq t) rs [] h of (r, h) \<Rightarrow> (before (CountUp # a) r, h)))"

section \<open>What a round and the loop do\<close>

lemma connect_round_Round:
  assumes "connect_round e k proto host port h = (Round s conf host' a, h')"
  shows "\<exists>opt d. a = [SConnect s (JoinHostPort host' port) opt] @ d @ [Register k, CopyBack s] \<and> set d \<subseteq> {SDump s}"
  using assms
  by (auto simp: connect_round_def Let_def split: if_splits option.splits prod.splits got.splits)

lemma connect_round_NoRound:
  assumes "connect_round e k proto host port h = (NoRound a x, h')"
  shows "(a = [] \<and> x = None) \<or> (\<exists>s addr opt. a = [SConnect s addr opt] \<and> x = Some s)"
  using assms
  by (auto simp: connect_round_def Let_def split: if_splits option.splits prod.splits got.splits)

lemma http_loop_acts: "http_loop e s prev rs = (a, x, rs') \<Longrightarrow> set a \<subseteq> insert (SClose s) (range (WriteReq s))"
proof (induction e s prev rs arbitrary: a x rs' rule: http_loop.induct)
  case (4 e s prev q rs)
  obtain b y rs1 where b: "http_loop e s (Some (strip_proxy q)) rs = (b, y, rs1)"
    by (cases "http_loop e s (Some (strip_proxy q)) rs")
  show ?case
  proof (cases "(prev \<noteq> None \<and> lrHost (the prev) \<noteq> lrHost q) \<or> \<not> seWriteOk e q")
    case True
    then show ?thesis using "4.prems" by (auto split: if_splits)
  next
    case False
    then have "set b \<subseteq> insert (SClose s) (range (WriteReq s))" using "4.IH" [OF _ _ b] by auto
    moreover have "a = WriteReq s (strip_proxy q) # b" using "4.prems" False b by (auto split: if_splits)
    ultimately show ?thesis by simp
  qed
qed (auto split: if_splits)

lemma http_mode_acts: "http_mode e s req rs = (a, x, rs') \<Longrightarrow> set a \<subseteq> insert (SClose s) (range (WriteReq s))"
  by (auto simp: http_mode_def split: option.splits if_splits prod.splits dest!: http_loop_acts)

lemma before_Returned: "before a r = Returned b \<longleftrightarrow> (\<exists>c. r = Returned c \<and> b = a @ c)"
  by (cases r) auto

text \<open>The outcome of the rounds: the deferred calls come last, and every stream that was connected is closed.\<close>

definition tidy :: "lact list \<Rightarrow> lact list \<Rightarrow> bool" where
  "tidy ds acts \<longleftrightarrow> (\<exists>b. acts = b @ [CountDown, LocalClose] \<and> CountUp \<notin> set b \<and> CountDown \<notin> set b) \<and>
     set ds \<subseteq> set acts \<and> (\<forall>s addr opt. SConnect s addr opt \<in> set acts \<longrightarrow> SClose s \<in> set acts)"

definition closing :: "lact list \<Rightarrow> bool" where
  "closing ds \<longleftrightarrow> set ds \<subseteq> range SClose \<union> range DumpClose"

lemma closing_more [simp]:
  "closing []" "closing (ds @ [SClose s]) = closing ds" "closing (ds @ round_defers e host s) = closing ds"
  by (auto simp: closing_def round_defers_def)

lemma closing_no:
  assumes "closing ds"
  shows "CountUp \<notin> set ds" "CountDown \<notin> set ds" "SConnect s addr opt \<notin> set ds" "Unregister k \<notin> set ds"
  using assms by (auto simp: closing_def)

lemma round_defers_close [simp]: "SClose s \<in> set (round_defers e host s)"
  by (simp add: round_defers_def)

definition round_acts :: "nat \<Rightarrow> nat \<Rightarrow> lact set" where
  "round_acts s k = {SDump s, Register k, CopyBack s, CopyUp s, SClose s, WClose s, DumpClose s, Unregister k} \<union> range (WriteReq s) \<union>
     {SConnect s addr opt | addr opt. True}"

lemma tidy_deferred:
  assumes "set a \<subseteq> round_acts s k" "closing ds" "SClose s \<in> set ds"
  shows "tidy ds (a @ deferred ds)"
proof -
  have "a @ deferred ds = (a @ rev ds) @ [CountDown, LocalClose]" by (simp add: deferred_def)
  moreover have "CountUp \<notin> set (a @ rev ds)" "CountDown \<notin> set (a @ rev ds)" using assms(1,2) by (auto simp: round_acts_def closing_def)
  moreover have "set ds \<subseteq> set (a @ deferred ds)" by (auto simp: deferred_def)
  moreover have "SConnect s' addr opt \<in> set (a @ deferred ds) \<Longrightarrow> s' = s" for s' addr opt
    using assms(1,2) by (auto simp: deferred_def round_acts_def closing_def)
  ultimately show ?thesis unfolding tidy_def using assms(3) by (metis subsetD)
qed

lemma tidy_append:
  assumes "tidy ds' acts" "set ds \<subseteq> set ds'" "SClose s \<in> set ds'" "set a \<subseteq> round_acts s k"
  shows "tidy ds (a @ acts)"
proof -
  obtain b where b: "acts = b @ [CountDown, LocalClose]" "CountUp \<notin> set b" "CountDown \<notin> set b" using assms(1) by (auto simp: tidy_def)
  then have "a @ acts = (a @ b) @ [CountDown, LocalClose]" "CountUp \<notin> set (a @ b)" "CountDown \<notin> set (a @ b)"
    using assms(4) by (auto simp: round_acts_def)
  moreover have "s' = s" if "SConnect s' addr opt \<in> set a" for s' addr opt using that assms(4) by (auto simp: round_acts_def)
  ultimately show ?thesis using assms(1-3) unfolding tidy_def by (metis (no_types, lifting) Un_iff set_append subset_iff)
qed

lemma writer_close_acts [simp]: "writer_close e conf host s \<in> round_acts s k"
  by (simp add: writer_close_def round_acts_def)

lemma rounds_tidy:
  "rounds e t k host req rs ds h = (Returned acts, h') \<Longrightarrow> closing ds \<Longrightarrow> tidy ds acts"
proof (induction e t k host req rs ds h arbitrary: acts h' rule: rounds.induct)
  case (1 e t k host req rs ds h)
  obtain c h1 where c: "connect_round e k (tgProto t) host (tgPort t) h = (c, h1)" by fastforce
  note simp = rounds.simps [of e t k host req rs ds h, unfolded c]
  show ?case
  proof (cases c)
    case (NoRound a x)
    then show ?thesis using "1.prems" connect_round_NoRound [of e k "tgProto t" host "tgPort t" h a x h1] c simp
      by (auto simp: tidy_def deferred_def closing_no)
  next
    case RoundPanics
    then show ?thesis using "1.prems" simp by simp
  next
    case (Round s conf host' a)
    let ?ds = "ds @ round_defers e host' s"
    have a: "set a \<subseteq> round_acts s k" using connect_round_Round [OF c [unfolded Round]] by (fastforce simp: round_acts_def)
    show ?thesis
    proof (cases "(tgSocks t \<or> tgHttps t \<or> tgTransparent t) \<and> req = None")
      case True
      then have "acts = (a @ [CopyUp s, writer_close e conf host' s, Unregister k]) @ deferred ?ds"
        using "1.prems" simp Round by (auto simp: Let_def split: if_splits)
      moreover have "tidy ?ds ((a @ [CopyUp s, writer_close e conf host' s, Unregister k]) @ deferred ?ds)"
        by (rule tidy_deferred [where s = s and k = k]) (use a "1.prems"(2) in \<open>simp_all, simp add: round_acts_def\<close>)
      ultimately show ?thesis by (simp add: tidy_def)
    next
      case False
      obtain b x rs1 where b: "http_mode e s req rs = (b, x, rs1)" by (cases "http_mode e s req rs")
      have bb: "set b \<subseteq> round_acts s k" using http_mode_acts [OF b] by (auto simp: round_acts_def)
      show ?thesis
      proof (cases "x = HostChanged")
        case True
        obtain r h2 where r: "rounds e t (Suc k) host' None rs1 ?ds h1 = (r, h2)" by fastforce
        then obtain acts1 where acts1: "r = Returned acts1" "acts = (a @ b) @ acts1"
          using "1.prems" simp Round False b True by (auto simp: before_Returned Let_def)
        have "tidy ?ds acts1"
          using "1.IH" [OF c [symmetric] Round refl refl] False b True r acts1(1) "1.prems"(2) by auto
        then show ?thesis unfolding acts1(2) by (rule tidy_append [where s = s and k = k]) (use a bb in auto)
      next
        case nx: False
        then have "acts = (a @ b) @ deferred ?ds"
          using "1.prems" simp Round False b by (cases x) (auto simp: Let_def)
        moreover have "tidy ?ds ((a @ b) @ deferred ?ds)"
          by (rule tidy_deferred [where s = s and k = k]) (use a bb "1.prems"(2) in auto)
        ultimately show ?thesis by (simp add: tidy_def)
      qed
    qed
  qed
qed

definition sniff_acts :: "lact set" where
  "sniff_acts = range LocalWrite \<union> range MakeTLS \<union> {LocalClose, ServeUdpgw}"

fun acts_of :: "sniff \<Rightarrow> lact list" where
  "acts_of (Stop a) = a" | "acts_of (Panics a) = a" | "acts_of (Start a t) = a"

lemma acts_of_add [simp]: "acts_of (add_acts a x) = a @ acts_of x"
  by (cases x) auto

lemma socks_stage_acts: "set (acts_of (socks_stage e host port s)) \<subseteq> sniff_acts"
  by (auto simp: socks_stage_def Let_def sniff_acts_def split: prod.splits sum.splits option.splits bool.splits)

lemma build_mitm_acts: "build_mitm e t = Some (m, t') \<Longrightarrow> m \<in> sniff_acts"
  by (auto simp: build_mitm_def sniff_acts_def split: if_splits)

lemma http_stage_acts: "set (acts_of (http_stage e t)) \<subseteq> sniff_acts"
  using build_mitm_acts [of e]
  by (auto simp: http_stage_def Let_def sniff_acts_def split: prod.splits option.splits)

lemma sniff_rest_acts: "set (acts_of (sniff_rest e try t found)) \<subseteq> sniff_acts"
  using http_stage_acts [of e] build_mitm_acts [of e t]
  by (auto simp: sniff_rest_def Let_def split: option.splits)

lemma sniff_all_acts: "set (acts_of (sniff_all e host port s)) \<subseteq> sniff_acts"
proof -
  define hp where "hp = (if pxForward (seCfg e) \<noteq> [] then (case SplitHostPort (pxForward (seCfg e)) of Some hp \<Rightarrow> hp | None \<Rightarrow> ([], [])) else (host, port))"
  obtain h p where hp': "hp = (h, p)" by fastforce
  show ?thesis
  proof (cases "socks_stage e h p s")
    case (Start a t)
    have "set a \<subseteq> sniff_acts" using socks_stage_acts [of e h p s] Start by simp
    then show ?thesis using sniff_rest_acts [of e]
      by (auto simp: sniff_all_def hp_def [symmetric] hp' Start split: option.splits)
  qed (use socks_stage_acts [of e h p s] in \<open>simp_all add: sniff_all_def hp_def [symmetric] hp'\<close>)
qed

section \<open>Properties\<close>

text \<open>C6: whenever \<open>serveProxyConn\<close> returns, the count of running connections is what it was, the client's
  connection is closed, and every stream it has asked a channel for and connected is closed.\<close>

theorem served_connection_cleaned:
  assumes "serveProxyConn e host port s rs h = (Returned acts, h')"
  shows "(\<exists>b. acts = CountUp # b @ [CountDown, LocalClose] \<and> CountUp \<notin> set b \<and> CountDown \<notin> set b) \<and>
    (\<forall>st addr opt. SConnect st addr opt \<in> set acts \<longrightarrow> SClose st \<in> set acts)"
proof (cases "sniff_all e host port s")
  case (Stop a)
  then show ?thesis using assms sniff_all_acts [of e host port s]
    by (auto simp: serveProxyConn_def deferred_def sniff_acts_def)
next
  case (Start a t)
  obtain r h1 where r: "rounds e t 0 (tgHost t) (tgReq t) rs [] h = (r, h1)" by fastforce
  then obtain b where b: "r = Returned b" "acts = CountUp # a @ b"
    using assms Start by (auto simp: serveProxyConn_def before_Returned)
  have "tidy [] b" using rounds_tidy [OF r [unfolded b(1)]] by simp
  moreover have "set a \<subseteq> sniff_acts" using sniff_all_acts [of e host port s] Start by simp
  ultimately show ?thesis unfolding b(2) tidy_def sniff_acts_def by fastforce
qed (use assms in \<open>simp add: serveProxyConn_def\<close>)

text \<open>An environment for examples: one channel for everything, whose streams can be connected.\<close>

definition web_env :: serve_env where
  "web_env = \<lparr>seV = plain_env, seCfg = pac_proxy [any_pac ''r''], seBadURL = (\<lambda>_. False), seUdpgwAddr = ''20.20.20.20:1111'',
     seSNI = [], seStreamIdle = 0, seTlsOk = (\<lambda>_. True), seTls = id,
     seReadReq = (\<lambda>r. (Some \<lparr>lrMethod = ''GET'', lrHost = ''a.b'', lrHeader = [(''Proxy-Connection'', ''close'')], lrRest = []\<rparr>, r)),
     seOpen = (\<lambda>k _. (Got k, Some zero_channel)), seConnect = (\<lambda>_. True), seWriteOk = (\<lambda>_. True), seCopies = [(False, False)], seBackEnds = (\<lambda>_. False)\<rparr>"

lemma find_any_pac_req: "findProxyChannelByRequest plain_env (pac_proxy [any_pac r]) proto ip q h = (Some r, h)"
  by (cases q) (simp_all add: findProxyChannelByRequest_def pac_proxy_def any_pac_def pac_Match_def matchRules_def matchProtocol_def MatchPatterns_def)

lemma web_env_round:
  assumes "host \<noteq> []" "port \<noteq> []"
  shows "connect_round web_env k proto host port h =
    (Round k zero_channel host [SConnect k (JoinHostPort host port) \<lparr>soDialTimeout = 0, soReadTimeout = 10000, soHops = []\<rparr>, Register k, CopyBack k], h)"
  using assms
  by (simp add: connect_round_def web_env_def getProxyChannelByHost_def find_any_pac_req Let_def zero_channel_def GetRemoteSNI_def idle_secs_def
      MatchDomain_def pac_proxy_def [of "[any_pac ''r'']"] find_any_pac_req [unfolded pac_proxy_def])

lemma open_handshake:
  assumes "concat sg = greeting methods" "length methods < 256"
    and "socksAuthUsernamePassword \<notin> set methods" "socksAuthNoneRequired \<in> set methods"
    and "concat sc = connect_msg d port" "dest_ok d" "port < 65536"
  shows "\<exists>s'. NewSocksConn (new_rw (sg @ sc @ t) e True) =
      (Inr \<lparr>Req = \<lparr>Target = dest_host d @ '':'' @ itoa port, Username = [], Password = [], ReqArgs = []\<rparr>,
            socksVersion = socks5Version\<rparr>, s') \<and>
    sent (snd (Grant \<lparr>Req = \<lparr>Target = dest_host d @ '':'' @ itoa port, Username = [], Password = [], ReqArgs = []\<rparr>,
            socksVersion = socks5Version\<rparr> zero_addr 0 s')) = [[socks5Version, socksAuthNoneRequired], socks5_resp socksRepSucceeded] \<and>
    rest_of (rd s') = concat t"
proof -
  have l: "live (new_rw (sg @ sc @ t) e True) (socks5Version # of_nat (length methods) # methods) (sc @ t) []"
    using live_new [of sg "sc @ t" e] assms(1) by (simp add: greeting_def)
  show ?thesis
    using NewSocksConn_5 [OF l sat_handshake_none [where methods = methods]] assms
    by (fastforce simp: greeting_def live_def Grant_def socks_consts sendSocks5Response_def conn_Write_def dest: win_rest)
qed

text \<open>a client that asks over SOCKS5, in whatever segments, for a name or a private address gets, if the
  proxy does not read TLS and its channel gives a stream without compression: the two replies of SOCKS, one stream connected to exactly the
  host and port it asked for with the configured timeouts and hops, copies in both directions, and at the end the
  close of the stream and of its connection.\<close>

theorem socks5_connects_requested:
  assumes "concat sg = greeting methods" "length methods < 256"
    and "socksAuthUsernamePassword \<notin> set methods" "socksAuthNoneRequired \<in> set methods"
    and "concat sc = connect_msg d port" "dest_ok d" "port < 65536"
    and "plain_host (dest_host d)" "dest_host d \<noteq> []" "\<not> try_sniff (dest_host d)" "dest_host d @ '':'' @ itoa port \<noteq> seUdpgwAddr e"
    and "pxForward (seCfg e) = []" "\<not> pxMITM (seCfg e)" "\<not> MatchDomain (pxDumpDomain (seCfg e)) (dest_host d)"
    and "getProxyChannelByHost (seBadURL e) (seV e) (seCfg e) ''tcp'' (dest_host d) h = (Some chan, h')" "chan \<noteq> []"
    and "seOpen e 0 chan = (Got st, Some conf)" "seConnect e st" "GetRemoteSNI conf (dest_host d) = []" "copy_up (seCopies e)"
    and "Compressor conf \<noteq> SnappyCompressor"
  shows "serveProxyConn e [] [] (new_rw (sg @ sc @ t) er True) rs h =
    (Returned [CountUp, LocalWrite [socks5Version, socksAuthNoneRequired], LocalWrite (socks5_resp socksRepSucceeded),
       SConnect st (JoinHostPort (dest_host d) (itoa port))
         \<lparr>soDialTimeout = RemoteDialMSTimeout conf, soReadTimeout = idle_secs (seStreamIdle e) * 1000, soHops = Hops conf\<rparr>,
       Register 0, CopyBack st, CopyUp st, SClose st, Unregister 0, SClose st, CountDown, LocalClose], h')"
proof -
  have sp: "SplitHostPort (dest_host d @ '':'' @ itoa port) = Some (dest_host d, itoa port)"
    using SplitHostPort_plain [OF assms(8) plain_itoa] by simp
  obtain s' where s': "NewSocksConn (new_rw (sg @ sc @ t) er True) =
      (Inr \<lparr>Req = \<lparr>Target = dest_host d @ '':'' @ itoa port, Username = [], Password = [], ReqArgs = []\<rparr>,
            socksVersion = socks5Version\<rparr>, s')"
    "sent (snd (Grant \<lparr>Req = \<lparr>Target = dest_host d @ '':'' @ itoa port, Username = [], Password = [], ReqArgs = []\<rparr>,
            socksVersion = socks5Version\<rparr> zero_addr 0 s')) = [[socks5Version, socksAuthNoneRequired], socks5_resp socksRepSucceeded]"
    using open_handshake [OF assms(1-7), of t er] by blast
  let ?t = "\<lparr>tgHost = dest_host d, tgPort = itoa port, tgProto = ''tcp'', tgSocks = True, tgHttps = False,
       tgTransparent = False, tgMitm = False, tgReq = None, tgRd = rd s'\<rparr>"
  have "sniff_all e [] [] (new_rw (sg @ sc @ t) er True) =
      Start [LocalWrite [socks5Version, socksAuthNoneRequired], LocalWrite (socks5_resp socksRepSucceeded)] ?t"
    using assms(10-13) by (simp add: sniff_all_def socks_stage_def s' [unfolded append_Cons append_Nil] sp [simplified] sni_stage_def sniff_rest_def Let_def)
  moreover have "connect_round e 0 ''tcp'' (dest_host d) (itoa port) h = (Round st conf (dest_host d)
      [SConnect st (JoinHostPort (dest_host d) (itoa port))
         \<lparr>soDialTimeout = RemoteDialMSTimeout conf, soReadTimeout = idle_secs (seStreamIdle e) * 1000, soHops = Hops conf\<rparr>,
       Register 0, CopyBack st], h')"
    using assms(9,14-19) by (simp add: connect_round_def Let_def)
  ultimately show ?thesis
    using assms(14,20,21) by (simp add: serveProxyConn_def rounds.simps [of e] Let_def deferred_def round_defers_def writer_close_def dumped_def)
qed

lemma socks5_connects_requested_witness:
  "fst (serveProxyConn web_env [] [] (new_rw ([[5, 1, 0]] @ [[5, 1], [0, 3, 1, 97, 1, 187]] @ [[22, 3]]) EOF True) [] no_hosts) =
    Returned [CountUp, LocalWrite [5, 0], LocalWrite [5, 0, 0, 1, 0, 0, 0, 0, 0, 0],
       SConnect 0 ''a:443'' \<lparr>soDialTimeout = 0, soReadTimeout = 10000, soHops = []\<rparr>,
       Register 0, CopyBack 0, CopyUp 0, SClose 0, Unregister 0, SClose 0, CountDown, LocalClose]"
proof -
  have "serveProxyConn web_env [] [] (new_rw ([[5, 1, 0]] @ [[5, 1], [0, 3, 1, 97, 1, 187]] @ [[22, 3]]) EOF True) [] no_hosts =
    (Returned [CountUp, LocalWrite [socks5Version, socksAuthNoneRequired], LocalWrite (socks5_resp socksRepSucceeded),
       SConnect 0 (JoinHostPort (dest_host (DomainDest ''a'')) (itoa 443))
         \<lparr>soDialTimeout = RemoteDialMSTimeout zero_channel, soReadTimeout = idle_secs (seStreamIdle web_env) * 1000, soHops = Hops zero_channel\<rparr>,
       Register 0, CopyBack 0, CopyUp 0, SClose 0, Unregister 0, SClose 0, CountDown, LocalClose], no_hosts)"
    by (rule socks5_connects_requested [where methods = "[0]" and chan = "''r''"])
       (simp_all add: greeting_def connect_msg_def socks_consts be16_bytes_def bytes_of_str_def byte_of_char_def plain_host_def try_sniff_def
         ParseIP_def web_env_def pac_proxy_def [of "[any_pac ''r'']"] MatchDomain_def getProxyChannelByHost_def find_any_pac_req [unfolded pac_proxy_def]
         zero_channel_def GetRemoteSNI_def SnappyCompressor_def)
  moreover have "itoa 443 = ''443''" by (simp add: itoa.simps [of 443] itoa.simps [of 44] itoa.simps [of 4] digit_char_def char_of_eq_iff)
  ultimately show ?thesis by (simp add: socks5_resp_def socks_consts zero_channel_def web_env_def idle_secs_def JoinHostPort_def)
qed

text \<open>A plain HTTP proxy connection: neither SOCKS nor \<open>CONNECT\<close> nor redirected, with its first request read.\<close>

definition plain_http :: "target \<Rightarrow> http_req \<Rightarrow> bool" where
  "plain_http t q \<longleftrightarrow> \<not> tgSocks t \<and> \<not> tgHttps t \<and> \<not> tgTransparent t \<and> tgReq t = Some q"

lemma strip_host [simp]: "lrHost (strip_proxy q) = lrHost q"
  by (simp add: strip_proxy_def)

lemma http_loop_same_host:
  "list_all (\<lambda>q. lrHost q = lrHost p \<and> seWriteOk e q) qs \<Longrightarrow>
   http_loop e s (Some p) (map RdReq qs @ RdEnd # rs) = (map (\<lambda>q. WriteReq s (strip_proxy q)) qs, ReadEnded, rs)"
  by (induction qs arbitrary: p) (simp_all add: list_all_iff)

text \<open>requests of one connection that name the same host are all written to the one stream, in their order and
  without the headers meant for the proxy.\<close>

theorem same_host_requests_in_order:
  assumes "sniff_all e host port s = Start a t" "plain_http t q0"
    and "connect_round e 0 (tgProto t) (tgHost t) (tgPort t) h = (Round st conf host' b, h')"
    and "list_all (\<lambda>q. lrHost q = lrHost q0 \<and> seWriteOk e q) qs" "seWriteOk e q0"
  shows "serveProxyConn e host port s (map RdReq qs @ [RdEnd]) h =
    (Returned ([CountUp] @ a @ b @ map (\<lambda>q. WriteReq st (strip_proxy q)) (q0 # qs) @ deferred (round_defers e host' st)), h')"
proof -
  have l: "http_loop e st (Some (strip_proxy q0)) (map RdReq qs @ [RdEnd]) = (map (\<lambda>q. WriteReq st (strip_proxy q)) qs, ReadEnded, [])"
    by (rule http_loop_same_host) (use assms(4) in simp)
  show ?thesis
    using assms(1-3,5) l by (simp add: serveProxyConn_def rounds.simps [of e] plain_http_def http_mode_def Let_def)
qed

text \<open>a request for another host on the same connection is not sent anywhere: the stream is closed, and a second stream
  is connected to the host of the first request, which gets only what is read after the request that asked for the change.\<close>

theorem host_change_loses_request:
  assumes "sniff_all e host port s = Start a t" "plain_http t q0" "tgPort t \<noteq> ''443''"
    and "connect_round e 0 (tgProto t) (tgHost t) (tgPort t) h = (Round st0 conf0 host0 b0, h0)"
    and "connect_round e 1 (tgProto t) (tgHost t) (tgPort t) h0 = (Round st1 conf1 host1 b1, h1)"
    and "seWriteOk e q0" "lrHost q \<noteq> lrHost q0" "http_loop e st1 None rs = (c, ReadEnded, rs')"
  shows "serveProxyConn e host port s (RdReq q # rs) h =
      (Returned ([CountUp] @ a @ b0 @ [WriteReq st0 (strip_proxy q0), SClose st0] @ b1 @ c @
        deferred (round_defers e (tgHost t) st0 @ round_defers e (tgHost t) st1)), h1) \<and>
    (\<exists>opt d. b1 = SConnect st1 (JoinHostPort (tgHost t) (tgPort t)) opt # d)"
proof -
  have same: "host' = hst" if "connect_round e k p hst (tgPort t) hh = (Round st conf host' b, hh')" for k p hst hh st conf host' b hh'
    using that assms(3) by (auto simp: connect_round_def Let_def split: if_splits option.splits prod.splits got.splits)
  have h0: "host0 = tgHost t" and h1: "host1 = tgHost t" by (rule same [OF assms(4)], rule same [OF assms(5)])
  have "\<exists>opt d. b1 = SConnect st1 (JoinHostPort (tgHost t) (tgPort t)) opt # d"
    using connect_round_Round [OF assms(5)] h1 by auto
  moreover have "rounds e t (Suc 0) (tgHost t) None rs (round_defers e (tgHost t) st0) h0 =
      (Returned (b1 @ c @ deferred (round_defers e (tgHost t) st0 @ round_defers e (tgHost t) st1)), h1)"
    using assms(2,5,8) h1 by (simp add: rounds.simps [of e] plain_http_def http_mode_def Let_def)
  then have "serveProxyConn e host port s (RdReq q # rs) h =
      (Returned ([CountUp] @ a @ b0 @ [WriteReq st0 (strip_proxy q0), SClose st0] @ b1 @ c @
        deferred (round_defers e (tgHost t) st0 @ round_defers e (tgHost t) st1)), h1)"
    using assms(1,2,4,6,7) h0 by (simp add: serveProxyConn_def rounds.simps [of e t 0] plain_http_def http_mode_def Let_def)
  ultimately show ?thesis by simp
qed

lemma rounds_unregister:
  "rounds e t j hst req rs ds h = (Returned acts, h') \<Longrightarrow> \<not> (tgSocks t \<or> tgHttps t \<or> tgTransparent t) \<Longrightarrow> closing ds \<Longrightarrow>
   Unregister k \<notin> set acts"
proof (induction e t j hst req rs ds h arbitrary: acts h' rule: rounds.induct)
  case (1 e t j hst req rs ds h)
  obtain c h1 where c: "connect_round e j (tgProto t) hst (tgPort t) h = (c, h1)" by fastforce
  note simp = rounds.simps [of e t j hst req rs ds h, unfolded c]
  show ?case
  proof (cases c)
    case (NoRound a x)
    then show ?thesis using "1.prems" connect_round_NoRound [of e j "tgProto t" hst "tgPort t" h a x h1] c simp
      by (auto simp: deferred_def closing_no)
  next
    case RoundPanics
    then show ?thesis using "1.prems" simp by simp
  next
    case (Round s conf host' a)
    have a: "Unregister k \<notin> set a" using connect_round_Round [OF c [unfolded Round]] by fastforce
    obtain b x rs1 where b: "http_mode e s req rs = (b, x, rs1)" by (cases "http_mode e s req rs")
    have bb: "Unregister k \<notin> set b" using http_mode_acts [OF b] by auto
    show ?thesis
    proof (cases "x = HostChanged")
      case True
      obtain r h2 where r: "rounds e t (Suc j) host' None rs1 (ds @ round_defers e host' s) h1 = (r, h2)" by fastforce
      then obtain acts1 where acts1: "r = Returned acts1" "acts = (a @ b) @ acts1"
        using "1.prems" simp Round b True by (auto simp: before_Returned Let_def)
      have "Unregister k \<notin> set acts1"
        using "1.IH" [OF c [symmetric] Round refl refl] "1.prems"(2,3) b True r acts1(1) by auto
      then show ?thesis using a bb unfolding acts1(2) by simp
    next
      case False
      then show ?thesis using "1.prems" simp Round b a bb closing_no [of "ds @ round_defers e host' s"]
        by (cases x) (auto simp: deferred_def Let_def)
    qed
  qed
qed

text \<open>the entry of a stream in the table of active streams is removed at the end of a connection whose bytes are copied,
  and never for one whose requests are read, so that the table grows with every HTTP proxy connection.\<close>

theorem http_streams_stay_registered:
  assumes "sniff_all e host port s = Start a t" "serveProxyConn e host port s rs h = (Returned acts, h')"
    and "\<not> tgSocks t" "\<not> tgHttps t" "\<not> tgTransparent t"
  shows "Unregister k \<notin> set acts"
proof -
  obtain r h1 where r: "rounds e t 0 (tgHost t) (tgReq t) rs [] h = (r, h1)" by fastforce
  then obtain b where b: "r = Returned b" "acts = CountUp # a @ b"
    using assms(1,2) by (auto simp: serveProxyConn_def before_Returned)
  have "Unregister k \<notin> set b" using rounds_unregister [OF r [unfolded b(1)]] assms(3-5) by simp
  moreover have "Unregister k \<notin> set a" using sniff_all_acts [of e host port s] assms(1) by (auto simp: sniff_acts_def)
  ultimately show ?thesis unfolding b(2) by simp
qed

section \<open>An example connection\<close>

definition get_req :: "string \<Rightarrow> http_req" where
  "get_req host = \<lparr>lrMethod = ''GET'', lrHost = host, lrHeader = [(''Proxy-Connection'', ''close'')], lrRest = []\<rparr>"

definition get_conn :: rw where
  "get_conn = new_rw [bytes_of_str ''GET http'', bytes_of_str ''://a.b/''] EOF True"

definition get_target :: target where
  "get_target = \<lparr>tgHost = ''a.b'', tgPort = ''80'', tgProto = ''http'', tgSocks = False, tgHttps = False, tgTransparent = False,
     tgMitm = False, tgReq = Some (get_req ''a.b''), tgRd = \<lparr>bbuf = bytes_of_str ''GET http'', bsrc = [bytes_of_str ''://a.b/''], berr = EOF\<rparr>\<rparr>"

lemma get_conn_sniff: "sniff_all web_env [] [] get_conn = Start [] get_target"
proof -
  let ?r = "\<lparr>bbuf = bytes_of_str ''GET http'', bsrc = [bytes_of_str ''://a.b/''], berr = EOF\<rparr>"
  have p: "Peek 1 (rd get_conn) = ([71], None, ?r)"
    using Peek_load [of "rd get_conn" 71 "[69, 84, 32, 104, 116, 116, 112]" "[bytes_of_str ''://a.b/'']"]
    by (simp add: get_conn_def new_rw_def new_reader_def bytes_of_str_def byte_of_char_def bufsize_def)
  have "fillto 3 ?r = (None, ?r)" by (rule fillto_buffered) (simp add: bytes_of_str_def)
  then have q: "Peek 3 ?r = (bytes_of_str ''GET'', None, ?r)"
    by (simp add: Peek_def bufsize_def bytes_of_str_def)
  have n: "NewSocksConn get_conn = (Inl (ErrVersion 71, True), get_conn\<lparr>rd := ?r\<rparr>)"
    using p by (simp add: NewSocksConn_def socksPeekByte_def socks_consts)
  have m: "str_of_bytes (bytes_of_str ''GET'') = ''GET''" by simp
  have l: "length (bytes_of_str ''GET'') = 3" "sent get_conn = []" by (simp_all add: bytes_of_str_def get_conn_def new_rw_def)
  show ?thesis
    by (simp add: sniff_all_def socks_stage_def n l Let_def sni_stage_def sniff_rest_def try_sniff_def http_stage_def q m http_methods_def
        web_env_def pac_proxy_def get_target_def get_req_def req_target_def Contains_single EqualFold_def ToLower_def lower_def)
qed

lemma get_target_plain: "plain_http get_target (get_req ''a.b'')"
  by (simp add: plain_http_def get_target_def)

lemma get_target_round:
  "connect_round web_env k (tgProto get_target) (tgHost get_target) (tgPort get_target) h =
    (Round k zero_channel ''a.b'' [SConnect k ''a.b:80'' \<lparr>soDialTimeout = 0, soReadTimeout = 10000, soHops = []\<rparr>, Register k, CopyBack k], h)"
  using web_env_round [of "''a.b''" "''80''"] by (simp add: get_target_def JoinHostPort_def)

lemma web_env_writes [simp]: "seWriteOk web_env q"
  by (simp add: web_env_def)

lemma web_env_defers [simp]: "round_defers web_env host s = [SClose s]"
  by (simp add: round_defers_def dumped_def web_env_def pac_proxy_def MatchDomain_def)

lemma same_host_requests_in_order_witness:
  "fst (serveProxyConn web_env [] [] get_conn [RdReq (get_req ''a.b''), RdEnd] no_hosts) =
    Returned [CountUp, SConnect 0 ''a.b:80'' \<lparr>soDialTimeout = 0, soReadTimeout = 10000, soHops = []\<rparr>, Register 0, CopyBack 0,
      WriteReq 0 ((get_req ''a.b'')\<lparr>lrHeader := []\<rparr>), WriteReq 0 ((get_req ''a.b'')\<lparr>lrHeader := []\<rparr>), SClose 0, CountDown, LocalClose]"
  using same_host_requests_in_order [OF get_conn_sniff get_target_plain get_target_round [of 0 no_hosts], of "[get_req ''a.b'']"]
  by (simp add: strip_proxy_def get_req_def deferred_def)

lemma host_change_loses_request_witness:
  "fst (serveProxyConn web_env [] [] get_conn [RdReq (get_req ''c.d''), RdEnd] no_hosts) =
    Returned [CountUp, SConnect 0 ''a.b:80'' \<lparr>soDialTimeout = 0, soReadTimeout = 10000, soHops = []\<rparr>, Register 0, CopyBack 0,
      WriteReq 0 ((get_req ''a.b'')\<lparr>lrHeader := []\<rparr>), SClose 0,
      SConnect 1 ''a.b:80'' \<lparr>soDialTimeout = 0, soReadTimeout = 10000, soHops = []\<rparr>, Register 1, CopyBack 1,
      SClose 1, SClose 0, CountDown, LocalClose]"
  using host_change_loses_request [OF get_conn_sniff get_target_plain _ get_target_round [of 0 no_hosts] get_target_round [of 1 no_hosts],
      of "get_req ''c.d''" "[RdEnd]" "[]" "[]"]
  by (simp add: strip_proxy_def get_req_def get_target_def deferred_def)

lemma get_conn_served:
  "serveProxyConn web_env [] [] get_conn [RdEnd] no_hosts =
    (Returned [CountUp, SConnect 0 ''a.b:80'' \<lparr>soDialTimeout = 0, soReadTimeout = 10000, soHops = []\<rparr>, Register 0, CopyBack 0,
      WriteReq 0 ((get_req ''a.b'')\<lparr>lrHeader := []\<rparr>), SClose 0, CountDown, LocalClose], no_hosts)"
  using get_target_round [of 0 no_hosts]
  by (simp add: serveProxyConn_def get_conn_sniff rounds.simps [of web_env] http_mode_def deferred_def Let_def)
     (simp add: get_target_def http_mode_def strip_proxy_def get_req_def deferred_def)

lemma http_streams_stay_registered_witness:
  "Unregister 0 \<notin> set [CountUp, SConnect 0 ''a.b:80'' \<lparr>soDialTimeout = 0, soReadTimeout = 10000, soHops = []\<rparr>, Register 0, CopyBack 0,
      WriteReq 0 ((get_req ''a.b'')\<lparr>lrHeader := []\<rparr>), SClose 0, CountDown, LocalClose]"
  by (rule http_streams_stay_registered [OF get_conn_sniff get_conn_served]) (simp_all add: get_target_def)

lemma served_connection_cleaned_witness:
  "\<exists>b. [CountUp, SConnect 0 ''a.b:80'' \<lparr>soDialTimeout = 0, soReadTimeout = 10000, soHops = []\<rparr>, Register 0, CopyBack 0,
      WriteReq 0 ((get_req ''a.b'')\<lparr>lrHeader := []\<rparr>), SClose 0, CountDown, LocalClose] = CountUp # b @ [CountDown, LocalClose]"
  using served_connection_cleaned [OF get_conn_served] by blast

section \<open>Compressed and dumped streams\<close>

text \<open>when a client that copies through a compressed or dumped stream ends its connection, the close of the writer does not
  reach the stream: as long as the other side does not end it, the function keeps waiting, and neither the stream nor the
  client's connection is closed.\<close>

theorem compressed_stream_left_open:
  assumes "sniff_all e host port s = Start a t" "tgSocks t \<or> tgHttps t \<or> tgTransparent t" "tgReq t = None"
    and "connect_round e 0 (tgProto t) (tgHost t) (tgPort t) h = (Round st conf host' b, h')"
    and "Compressor conf = SnappyCompressor \<or> dumped e host'" "copy_up (seCopies e)" "\<not> seBackEnds e st"
  shows "\<exists>w. serveProxyConn e host port s rs h = (Waits ([CountUp] @ a @ b @ [CopyUp st, w]), h') \<and> w \<in> {WClose st, DumpClose st} \<and>
    SClose st \<notin> set b \<and> LocalClose \<notin> set b"
proof -
  have "writer_close e conf host' st \<in> {WClose st, DumpClose st}" using assms(5) by (auto simp: writer_close_def)
  moreover have "SClose st \<notin> set b \<and> LocalClose \<notin> set b" using connect_round_Round [OF assms(4)] by fastforce
  ultimately show ?thesis
    using assms(1-4,6,7) by (auto simp: serveProxyConn_def rounds.simps [of e] Let_def)
qed

definition snappy_env :: serve_env where
  "snappy_env = web_env\<lparr>seOpen := (\<lambda>k _. (Got k, Some (zero_channel\<lparr>Compressor := SnappyCompressor\<rparr>)))\<rparr>"

lemma compressed_stream_left_open_witness:
  "\<exists>acts. fst (serveProxyConn snappy_env ''a'' ''22'' (new_rw [[7]] EOF True) [] no_hosts) = Waits acts \<and> SClose 0 \<notin> set acts \<and> LocalClose \<notin> set acts"
proof -
  let ?t = "\<lparr>tgHost = ''a'', tgPort = ''22'', tgProto = ''tcp'', tgSocks = False, tgHttps = False, tgTransparent = True, tgMitm = False,
      tgReq = None, tgRd = rd (new_rw [[7]] EOF True)\<rparr>"
  have 1: "sniff_all snappy_env ''a'' ''22'' (new_rw [[7]] EOF True) = Start [] ?t"
    by (simp add: sniff_all_def snappy_env_def web_env_def pac_proxy_def socks_stage_def sni_stage_def sniff_rest_def try_sniff_def ParseIP_def Let_def)
  have 2: "connect_round snappy_env 0 ''tcp'' ''a'' ''22'' no_hosts = (Round 0 (zero_channel\<lparr>Compressor := SnappyCompressor\<rparr>) ''a''
      [SConnect 0 (JoinHostPort ''a'' ''22'') \<lparr>soDialTimeout = 0, soReadTimeout = 10000, soHops = []\<rparr>, Register 0, CopyBack 0], no_hosts)"
    by (simp add: connect_round_def snappy_env_def web_env_def getProxyChannelByHost_def Let_def zero_channel_def idle_secs_def MatchDomain_def
        pac_proxy_def [of "[any_pac ''r'']"] find_any_pac_req [unfolded pac_proxy_def] find_any_pac_req)
  from compressed_stream_left_open [OF 1, of no_hosts 0 "zero_channel\<lparr>Compressor := SnappyCompressor\<rparr>" "''a''" _ no_hosts "[]"] 2
  show ?thesis by (auto simp: snappy_env_def web_env_def)
qed

section \<open>Methods the sniffing misses\<close>

text \<open>three bytes are compared with four letters: a connection whose first request is \<open>TRACE\<close> is not taken for
  HTTP, and refused by a proxy port.\<close>

lemma trace_not_recognised:
  assumes "Peek 3 (tgRd t) = (bytes_of_str ''TRA'', er, r)" "\<not> tgSocks t" "\<not> tgTransparent t"
  shows "http_stage e t = Stop []"
  using assms by (simp add: http_stage_def Let_def http_methods_def)

section \<open>Listening, stopping\<close>

text \<open>The servers of the process: whether they run, a listener for each proxy that has one, the connections in
  \<open>activeStreams\<close>, and what has been closed. A fatal log entry ends the process (\<open>None\<close>).\<close>

record 't servers =
  svRunning :: bool
  svListeners :: "nat option list"
  svActive :: "nat list"
  svClosedConns :: "nat set"
  svClosedListeners :: "nat set"
  svGw :: "'t gw"

text \<open>\<open>startLocalProxyServer\<close>: the listener, if its address resolves and it can listen.\<close>

definition startLocalProxyServer :: "(nat \<Rightarrow> bool) \<Rightarrow> (nat \<Rightarrow> nat option) \<Rightarrow> nat \<Rightarrow> 't servers \<Rightarrow> 't servers option" where
  "startLocalProxyServer resolves listens i sv =
     (if \<not> resolves i then None
      else case listens i of None \<Rightarrow> None | Some l \<Rightarrow> Some (sv\<lparr>svListeners := (svListeners sv)[i := Some l]\<rparr>))"

fun start_each :: "(nat \<Rightarrow> bool) \<Rightarrow> (nat \<Rightarrow> nat option) \<Rightarrow> nat list \<Rightarrow> 't servers \<Rightarrow> 't servers option" where
  "start_each resolves listens [] sv = Some sv"
| "start_each resolves listens (i # is) sv =
     (case startLocalProxyServer resolves listens i sv of None \<Rightarrow> None | Some sv \<Rightarrow> start_each resolves listens is sv)"

definition startLocalServers :: "(nat \<Rightarrow> bool) \<Rightarrow> (nat \<Rightarrow> nat option) \<Rightarrow> nat \<Rightarrow> 't servers \<Rightarrow> 't servers option" where
  "startLocalServers resolves listens proxies sv =
     start_each resolves listens [0..<proxies] (sv\<lparr>svRunning := True, svListeners := replicate proxies None\<rparr>)"

definition stopLocalServers :: "nat list \<Rightarrow> 't servers \<Rightarrow> 't servers" where
  "stopLocalServers ord sv =
     sv\<lparr>svRunning := False, svClosedListeners := svClosedListeners sv \<union> {l. Some l \<in> set (svListeners sv)},
        svGw := closeAllUDPSession ord (svGw sv),
        svClosedConns := svClosedConns sv \<union> set (svActive sv), svActive := []\<rparr>"

text \<open>The loop that accepts: at each turn whether the servers run and, if so, what \<open>AcceptTCP\<close> gives. The result is
  the connections taken, and whether the loop has ended (and closed its listener).\<close>

fun accept_loop :: "(bool \<times> nat option) list \<Rightarrow> nat list \<times> bool" where
  "accept_loop [] = ([], False)"
| "accept_loop ((running, c) # xs) =
     (if \<not> running then ([], True)
      else case accept_loop xs of (cs, ended) \<Rightarrow> ((case c of None \<Rightarrow> cs | Some x \<Rightarrow> x # cs), ended))"

text \<open>The host and port for \<open>serveProxyConn\<close>: those a redirected connection was meant for, if the peer is not the
  machine itself; \<open>None\<close> is a connection that is dropped (and not closed).\<close>

definition accept_target :: "ProxyConfig \<Rightarrow> bool \<Rightarrow> string set \<Rightarrow> bytes option \<Rightarrow> (bytes \<times> nat) option \<Rightarrow> (string \<times> string) option" where
  "accept_target cfg supported localIPs peer orig =
     (let transparent = pxTransparent cfg \<and> supported \<and> (case peer of None \<Rightarrow> False | Some ip \<Rightarrow> IPString ip \<notin> localIPs)
      in if transparent then (case orig of None \<Rightarrow> None | Some (ip, port) \<Rightarrow> Some (IPString ip, itoa port))
         else Some ([], []))"

text \<open>after a successful start every proxy has its listener.\<close>

lemma start_each_listeners:
  "start_each resolves listens is sv = Some sv' \<Longrightarrow> distinct is \<Longrightarrow> \<forall>i \<in> set is. i < length (svListeners sv) \<Longrightarrow>
   length (svListeners sv') = length (svListeners sv) \<and> svRunning sv' = svRunning sv \<and>
   (\<forall>i < length (svListeners sv). svListeners sv' ! i = (if i \<in> set is then listens i else svListeners sv ! i)) \<and>
   (\<forall>i \<in> set is. listens i \<noteq> None)"
proof (induction "is" arbitrary: sv)
  case (Cons i "is")
  obtain sv1 where sv1: "startLocalProxyServer resolves listens i sv = Some sv1" "start_each resolves listens is sv1 = Some sv'"
    using Cons.prems(1) by (auto split: option.splits)
  then obtain l where l: "listens i = Some l" "sv1 = sv\<lparr>svListeners := (svListeners sv)[i := Some l]\<rparr>"
    by (auto simp: startLocalProxyServer_def split: if_splits option.splits)
  show ?case using Cons.IH [OF sv1(2)] Cons.prems(2,3) l by (auto simp: nth_list_update)
qed simp

lemma started_all_listen:
  assumes "startLocalServers resolves listens n sv = Some sv'"
  shows "svRunning sv' \<and> length (svListeners sv') = n \<and> (\<forall>i < n. svListeners sv' ! i \<noteq> None)"
  using start_each_listeners [OF assms [unfolded startLocalServers_def]] by auto

text \<open>an accept loop that has not been seen to stop, because the servers were started again before it looked, runs on a closed
  listener without end.\<close>

lemma restarted_accept_loop_spins: "accept_loop (replicate n (True, None)) = ([], False)"
  by (induction n) simp_all

end
