(* ===== verification/P2PClient.thy ===== *)
theory P2PClient
  imports ServerSession ChannelTable GoNet
begin

text \<open>
  The client side of peer-to-peer channels (\<open>common/channel/local_p2p.go\<close>): a tunnel session to the server,
  over which the peer's addresses are asked for, the choice of a role, the attempts to reach the peer,
  and the handshake on a connection between the peers. Sockets, the UPNP gateway, the session
  to the server and the passing of time are arguments.
\<close>

section \<open>UPNP\<close>

record upnp =
  upInited :: bool
  upIGD :: bool
  upPort :: int          \<comment> \<open>\<open>upnpMappingPort\<close>, -1 when there is none\<close>
  upIP :: string

definition upnp_init :: upnp where
  "upnp_init = \<lparr>upInited = False, upIGD = False, upPort = -1, upIP = []\<rparr>"

text \<open>The first component is the absence of an error.\<close>

definition initUDNP :: "bool \<Rightarrow> upnp \<Rightarrow> bool \<times> upnp" where
  "initUDNP discovered u =
     (if upInited u then (True, u)
      else if discovered then (True, u\<lparr>upInited := True, upIGD := True\<rparr>) else (False, u\<lparr>upInited := True\<rparr>))"

definition startUPNPServer :: "bool \<Rightarrow> string option \<Rightarrow> nat option \<Rightarrow> bool \<Rightarrow> upnp \<Rightarrow> bool \<times> upnp" where
  "startUPNPServer discovered extIP listens forwards u =
     (case initUDNP discovered u of (ok, u) \<Rightarrow>
        if \<not> upIGD u then (ok, u)
        else if upIP u \<noteq> [] then (True, u)
        else case extIP of None \<Rightarrow> (False, u)
        | Some ip \<Rightarrow> (case listens of None \<Rightarrow> (False, u)
          | Some port \<Rightarrow> if forwards then (True, u\<lparr>upPort := int port, upIP := ip\<rparr>) else (False, u\<lparr>upPort := -1\<rparr>)))"

section \<open>The addresses of the two sides\<close>

record tunnel =
  tuPri :: string        \<comment> \<open>\<open>priLocalAddr\<close>\<close>
  tuPub :: string        \<comment> \<open>\<open>pubLocalAddr\<close>\<close>
  tuPeerPri :: string
  tuPeerPub :: string

text \<open>The addresses offered first: those of the session, or of the UPNP mapping.\<close>

definition tunnel_start :: "upnp \<Rightarrow> string \<Rightarrow> tunnel" where
  "tunnel_start u local =
     (if upPort u > 0 then
        (let host = (case SplitHostPort local of Some (h, _) \<Rightarrow> h | None \<Rightarrow> []); port = itoa (nat (upPort u))
         in \<lparr>tuPri = host @ '':'' @ port, tuPub = upIP u @ '':'' @ port, tuPeerPri = [], tuPeerPub = []\<rparr>)
      else \<lparr>tuPri = local, tuPub = [], tuPeerPri = [], tuPeerPub = []\<rparr>)"

text \<open>What one authentication over the session gives: the private address that was sent and the response.\<close>

datatype auth_round = AuthFails | AuthGot string AuthResponse

definition tunnel_update :: "string \<Rightarrow> AuthResponse \<Rightarrow> tunnel \<Rightarrow> tunnel" where
  "tunnel_update pri res tu = tu\<lparr>tuPri := pri, tuPeerPri := PeerPriAddr res, tuPeerPub := PeerPubAddr res,
     tuPub := (if PubAddr res \<noteq> [] then PubAddr res else tuPub tu)\<rparr>"

text \<open>The addresses of a peer that could not be reached the last time are not tried again.\<close>

definition failed_before :: "string \<times> string \<Rightarrow> tunnel \<Rightarrow> bool" where
  "failed_before lf tu \<longleftrightarrow> fst lf \<noteq> [] \<and> HasPrefix (tuPeerPri tu) (fst lf @ '':'') \<and> HasPrefix (tuPeerPub tu) (snd lf @ '':'')"

datatype auth_end = AuthPending | AuthBroken | AuthDone

fun auth_rounds :: "string \<times> string \<Rightarrow> tunnel \<Rightarrow> auth_round list \<Rightarrow> auth_end \<times> tunnel" where
  "auth_rounds lf tu [] = (if tuPeerPri tu \<noteq> [] then AuthDone else AuthPending, tu)"
| "auth_rounds lf tu (x # xs) =
     (if tuPeerPri tu \<noteq> [] then (AuthDone, tu)
      else case x of
        AuthFails \<Rightarrow> (AuthBroken, tu)
      | AuthGot pri res \<Rightarrow>
          (let tu = tunnel_update pri res tu
           in if tuPeerPub tu = [] then auth_rounds lf tu xs
              else if failed_before lf tu then auth_rounds lf (tu\<lparr>tuPeerPri := [], tuPeerPub := []\<rparr>) xs
              else auth_rounds lf tu xs))"

section \<open>Roles\<close>

datatype role = UnknownRole | P2PClientRole | P2PServerRole

text \<open>\<open>strings.Compare(a, b) < 0\<close>.\<close>

fun str_less :: "string \<Rightarrow> string \<Rightarrow> bool" where
  "str_less xs [] = False"
| "str_less [] (y # ys) = True"
| "str_less (x # xs) (y # ys) =
     (if (of_char x :: nat) < of_char y then True else if x = y then str_less xs ys else False)"

definition choose_role :: "tunnel \<Rightarrow> role" where
  "choose_role tu = (if str_less (tuPub tu) (tuPeerPub tu) then P2PClientRole else P2PServerRole)"

section \<open>The handshake between the peers\<close>

text \<open>\<open>p2pHandshakeCtxTable\<close> by the host of the peer; a context is the channel it belongs to.\<close>

type_synonym ctx_table = "string \<rightharpoonup> nat"

text \<open>A connection that was accepted on the UPNP port waits for a context: each look at the table, and whether
  ten seconds have passed.\<close>

fun wait_ctx :: "string \<Rightarrow> (ctx_table \<times> bool) list \<Rightarrow> nat option option" where
  "wait_ctx rhost [] = None"
| "wait_ctx rhost ((t, late) # xs) =
     (case t rhost of Some c \<Rightarrow> Some (Some c) | None \<Rightarrow> if late then Some None else wait_ctx rhost xs)"

datatype hs_err = NoContext | ClientAuthFailed | ServerSessionFailed | ServerAuthFailed

text \<open>The end of \<open>handleP2PConn\<close> once the role is known: the session and the request the peers have agreed on, or the
  error, after which the connection is closed. \<open>clientRes\<close> and \<open>serverRes\<close> are the results of
  \<open>clientAuthConn\<close> and of \<open>serverAuthSession\<close>.\<close>

definition handleP2PConn :: "role \<Rightarrow> (AuthRequest \<times> nat) option \<Rightarrow> nat option \<Rightarrow> serv_err + AuthRequest \<Rightarrow> hs_err + (nat \<times> AuthRequest)" where
  "handleP2PConn r clientRes pmuxServer serverRes =
     (if r = P2PClientRole then (case clientRes of None \<Rightarrow> Inl ClientAuthFailed | Some (q, s) \<Rightarrow> Inr (s, q))
      else case pmuxServer of None \<Rightarrow> Inl ServerSessionFailed
        | Some s \<Rightarrow> (case serverRes of Inl _ \<Rightarrow> Inl ServerAuthFailed | Inr q \<Rightarrow> Inr (s, q)))"

definition p2p_connected :: "role \<Rightarrow> (AuthRequest \<times> nat) option \<Rightarrow> nat option \<Rightarrow> serv_err + AuthRequest \<Rightarrow> bool \<Rightarrow> channel \<times> world \<Rightarrow> channel \<times> world" where
  "p2p_connected r clientRes pmuxServer serverRes limited cw =
     (case handleP2PConn r clientRes pmuxServer serverRes of Inl _ \<Rightarrow> cw | Inr (s, q) \<Rightarrow> setP2PSession s limited cw)"

text \<open>\<open>servTCP\<close> over what \<open>Accept\<close> gives: a connection and whether its handshake returns (it waits for the context and then,
  without a limit, for the role), or an error, which ends the loop. The result are the connections it has taken.\<close>

fun servTCP :: "(nat \<times> bool) option list \<Rightarrow> nat list" where
  "servTCP [] = []"
| "servTCP (None # xs) = []"
| "servTCP (Some (c, returns) # xs) = c # (if returns then servTCP xs else [])"

text \<open>\<open>startP2PServer\<close>: the listener, whose connections are served from then on.\<close>

definition startP2PServer :: "nat option \<Rightarrow> (nat \<times> bool) option list \<Rightarrow> nat option \<times> nat list" where
  "startP2PServer listen accepts = (case listen of None \<Rightarrow> (None, []) | Some l \<Rightarrow> (Some l, servTCP accepts))"

lemma servTCP_all: "servTCP (map (\<lambda>c. Some (c, True)) cs @ [None]) = cs"
  by (induction cs) simp_all

text \<open>The listener of UPNP is shared by the channels: a handshake that waits for its role keeps the peers of all of them waiting.\<close>

lemma waiting_handshake_blocks_peers: "servTCP (map (\<lambda>c. Some (c, True)) cs @ Some (c, False) # xs) = cs @ [c]"
  by (induction cs) simp_all

section \<open>One attempt\<close>

definition maxRetry :: nat where "maxRetry = 10"

text \<open>\<open>connFunc\<close>: before each attempt whether a session is established by then, whether the dial succeeds, and
  whether the handshake does. The result is the number of dials.\<close>

fun conn_func :: "nat \<Rightarrow> (bool \<times> bool \<times> bool) list \<Rightarrow> nat" where
  "conn_func 0 xs = 0"
| "conn_func (Suc n) [] = 0"
| "conn_func (Suc n) ((established, dials, handshakes) # xs) =
     (if established then 0 else if dials \<and> handshakes then 1 else Suc (conn_func n xs))"

record p2p_env =
  peEstablished :: bool                  \<comment> \<open>before the attempt\<close>
  peSession :: bool                      \<comment> \<open>\<open>CreateMuxSession\<close>\<close>
  peLocal :: string
  peUpnp :: upnp
  peAuth :: "auth_round list"
  peProxy :: string                      \<comment> \<open>\<open>ch.Conf.Proxy\<close>: the peer is dialled through it, from no chosen address\<close>
  peReusePort :: bool
  peListens :: bool
  peDialPri :: "(bool \<times> bool \<times> bool) list"
  peDialPub :: "(bool \<times> bool \<times> bool) list"
  peEstablishedAfter :: bool

datatype p2p_act =
    CloseSession
  | StoreCtx string
  | ListenOn string
  | DialPeer string string bool nat    \<comment> \<open>address, local address, reuse of the port, number of dials\<close>
  | CloseListener

record p2p_state =
  psRole :: role
  psLastFail :: "string \<times> string"
  psCtx :: ctx_table

definition host_of :: "string \<Rightarrow> string" where
  "host_of a = (case SplitHostPort a of Some (h, _) \<Rightarrow> h | None \<Rightarrow> [])"

text \<open>One turn of the loop of \<open>startP2PSession\<close> for channel \<open>ch\<close>: what it does in order, the state after it, and the
  role it has had during the dials. A session that does not answer any more leaves it waiting.\<close>

definition p2p_turn :: "nat \<Rightarrow> p2p_env \<Rightarrow> p2p_state \<Rightarrow> p2p_act list \<times> role \<times> p2p_state" where
  "p2p_turn ch e st =
     (if peEstablished e \<or> \<not> peSession e then ([], UnknownRole, st)
      else case auth_rounds (psLastFail st) (tunnel_start (peUpnp e) (peLocal e)) (peAuth e) of
        (AuthPending, tu) \<Rightarrow> ([], UnknownRole, st)
      | (x, tu) \<Rightarrow>
          (let closed = (if x = AuthBroken then [CloseSession] else []) in
           if tuPeerPub tu = [] then (closed @ [CloseSession], UnknownRole, st)
           else
             (let r = choose_role tu;
                  ctx = (psCtx st)(host_of (tuPeerPub tu) \<mapsto> ch, host_of (tuPeerPri tu) \<mapsto> ch);
                  stores = [StoreCtx (host_of (tuPeerPub tu)), StoreCtx (host_of (tuPeerPri tu))];
                  own = peReusePort e \<and> upPort (peUpnp e) \<le> 0
              in if own \<and> \<not> peListens e then (closed @ stores @ [CloseSession], r, st\<lparr>psRole := r, psCtx := ctx\<rparr>)
                 else
                   (let direct = (own \<and> peProxy e = []); laddr = (if direct then tuPri tu else []);
                        dials = [DialPeer (tuPeerPri tu) laddr direct (conn_func maxRetry (peDialPri e)),
                                 DialPeer (tuPeerPub tu) laddr direct (conn_func maxRetry (peDialPub e))]
                    in (closed @ stores @ (if own then [ListenOn (tuPri tu)] else []) @ dials @
                          (if own then [CloseListener] else []) @ [CloseSession], r,
                        \<lparr>psRole = UnknownRole,
                         psLastFail = (if peEstablishedAfter e then psLastFail st else (host_of (tuPeerPri tu), host_of (tuPeerPub tu))),
                         psCtx = ctx\<rparr>)))))"

section \<open>Lemmas\<close>

lemma str_less_irrefl: "\<not> str_less x x"
  by (induction x) auto

lemma str_less_total: "x \<noteq> y \<Longrightarrow> str_less x y \<longleftrightarrow> \<not> str_less y x"
proof (induction x y rule: str_less.induct)
  case (3 x xs y ys)
  have "x = y \<or> (of_char x :: nat) \<noteq> of_char y" by (simp add: of_char_eq_iff)
  with 3 show ?case by auto
next
  case (1 xs)
  then show ?case by (cases xs) auto
qed auto

lemma auth_rounds_done:
  "auth_rounds lf tu xs = (AuthDone, tu') \<Longrightarrow> \<not> failed_before lf tu \<or> tuPeerPri tu = [] \<Longrightarrow> tuPeerPri tu' \<noteq> [] \<and> (tuPeerPub tu' = [] \<or> \<not> failed_before lf tu')"
proof (induction lf tu xs rule: auth_rounds.induct)
  case (2 lf tu x xs)
  show ?case
  proof (cases "tuPeerPri tu = []")
    case False
    then show ?thesis using 2 by auto
  next
    case True
    then obtain pri res where x: "x = AuthGot pri res" using "2.prems" by (cases x) auto
    let ?u = "tunnel_update pri res tu"
    consider "tuPeerPub ?u = []" | "tuPeerPub ?u \<noteq> []" "failed_before lf ?u" | "tuPeerPub ?u \<noteq> []" "\<not> failed_before lf ?u" by blast
    then show ?thesis
    proof cases
      case 1
      have "\<not> failed_before lf ?u" using 1 by (simp add: failed_before_def HasPrefix_def)
      then show ?thesis using "2.IH" (1) [OF _ x refl] True x 1 "2.prems" by simp
    next
      case a: 2
      then show ?thesis using "2.IH" (2) [OF _ x refl] True x "2.prems" by simp
    next
      case 3
      then show ?thesis using "2.IH" (3) [OF _ x refl] True x "2.prems" by simp
    qed
  qed
qed (auto split: if_splits)

lemma conn_func_bound: "conn_func n xs \<le> n"
  by (induction n xs rule: conn_func.induct) auto

lemma find_other:
  assumes "cb \<in> set ord" "ca \<noteq> cb" "m cb = Some n" "\<And>c. c \<noteq> ca \<Longrightarrow> m c \<noteq> None \<Longrightarrow> c = cb"
  shows "other_member ord ca m = Some (cb, n)"
proof -
  have "find (\<lambda>c. c \<noteq> ca \<and> m c \<noteq> None) ord = Some cb"
    using assms(1)
  proof (induction ord)
    case (Cons x xs)
    show ?case
    proof (cases "x \<noteq> ca \<and> m x \<noteq> None")
      case True
      then show ?thesis using assms(4) by auto
    next
      case False
      then have "x \<noteq> cb" using assms(2,3) by auto
      with False Cons show ?thesis by auto
    qed
  qed simp
  then show ?thesis using assms(3) by (simp add: other_member_def)
qed

text \<open>A request for the addresses of a peer: a tunnel session of a room that offers a private address only.\<close>

definition tunnel_request :: "string \<Rightarrow> AuthRequest \<Rightarrow> bool" where
  "tunnel_request tok q \<longleftrightarrow> arP2PToken q = tok \<and> arP2PPriAddr q \<noteq> [] \<and> arP2PPubAddr q = []"

lemma tunnel_join:
  assumes "tunnel_request tok q" "m = (case t tok of Some m \<Rightarrow> m | None \<Rightarrow> Map.empty)" "m (arP2PConnID q) = None" "room_size m < 2"
  shows "snd (addP2PSession q s a t) = t(tok \<mapsto> m(arP2PConnID q \<mapsto> new_node\<lparr>peerPriAddr := arP2PPriAddr q, peerPubAddr := a\<rparr>))"
  using assms by (simp add: addP2PSession_def tunnel_request_def Let_def)

section \<open>Properties\<close>

text \<open>C22: two peers that join an empty room with tunnel sessions get from the server each other's private and public
  addresses, and, as their public addresses differ, choose opposite roles: exactly one of them authenticates itself to
  the other.\<close>

theorem p2p_roles_opposite:
  assumes "tunnel_request tok qa" "tunnel_request tok qb" "arP2PConnID qa \<noteq> arP2PConnID qb" "t tok = None"
    and "a \<noteq> []" "b \<noteq> []" "a \<noteq> b"
    and "t2 = snd (addP2PSession qb sb b (snd (addP2PSession qa sa a t)))"
    and "arP2PConnID qb \<in> set orda" "arP2PConnID qa \<in> set ordb"
    and "tua' = tunnel_update pa (auth_response qa (getPeerAddr orda qa t2) (Some a)) tua"
    and "tub' = tunnel_update pb (auth_response qb (getPeerAddr ordb qb t2) (Some b)) tub"
  shows "(tuPeerPri tua', tuPeerPub tua') = (arP2PPriAddr qb, b) \<and> (tuPeerPri tub', tuPeerPub tub') = (arP2PPriAddr qa, a) \<and>
    (choose_role tua' = P2PClientRole \<longleftrightarrow> choose_role tub' = P2PServerRole)"
proof -
  let ?na = "new_node\<lparr>peerPriAddr := arP2PPriAddr qa, peerPubAddr := a\<rparr>"
  let ?nb = "new_node\<lparr>peerPriAddr := arP2PPriAddr qb, peerPubAddr := b\<rparr>"
  let ?m = "[arP2PConnID qa \<mapsto> ?na, arP2PConnID qb \<mapsto> ?nb]"
  have "snd (addP2PSession qa sa a t) = t(tok \<mapsto> [arP2PConnID qa \<mapsto> ?na])"
    using assms(1,4) by (simp add: tunnel_join [where tok = tok] room_size_def)
  moreover have "snd (addP2PSession qb sb b (t(tok \<mapsto> [arP2PConnID qa \<mapsto> ?na]))) = t(tok \<mapsto> ?m)"
    using assms(2,3) by (simp add: tunnel_join [where tok = tok] room_size_def)
  ultimately have t2: "t2 = t(tok \<mapsto> ?m)" using assms(8) by simp
  have oa: "other_member orda (arP2PConnID qa) ?m = Some (arP2PConnID qb, ?nb)"
    by (rule find_other) (use assms(3,9) in \<open>auto split: if_splits\<close>)
  have ob: "other_member ordb (arP2PConnID qb) ?m = Some (arP2PConnID qa, ?na)"
    by (rule find_other) (use assms(3,10) in \<open>auto split: if_splits\<close>)
  have pa: "getPeerAddr orda qa t2 = (arP2PPriAddr qb, b)" using assms(1) t2 oa by (simp add: getPeerAddr_def tunnel_request_def)
  have pb: "getPeerAddr ordb qb t2 = (arP2PPriAddr qa, a)" using assms(2) t2 ob by (simp add: getPeerAddr_def tunnel_request_def)
  have tua: "tuPub tua' = a" "tuPeerPub tua' = b" "tuPeerPri tua' = arP2PPriAddr qb"
    using assms(1,2,5,11) pa by (simp_all add: tunnel_update_def auth_response_def tunnel_request_def Let_def)
  have tub: "tuPub tub' = b" "tuPeerPub tub' = a" "tuPeerPri tub' = arP2PPriAddr qa"
    using assms(1,2,6,12) pb by (simp_all add: tunnel_update_def auth_response_def tunnel_request_def Let_def)
  show ?thesis using tua tub str_less_total [OF assms(7)] by (simp add: choose_role_def)
qed

definition peer_request :: "string \<Rightarrow> string \<Rightarrow> AuthRequest" where
  "peer_request cid pri = empty_auth\<lparr>arP2PToken := ''t'', arP2PConnID := cid, arP2PPriAddr := pri\<rparr>"

definition no_tunnel :: tunnel where
  "no_tunnel = \<lparr>tuPri = [], tuPub = [], tuPeerPri = [], tuPeerPub = []\<rparr>"

lemma p2p_roles_opposite_witness:
  "choose_role (tunnel_update ''p'' (auth_response (peer_request ''1'' ''p'')
      (getPeerAddr [''1'', ''2''] (peer_request ''1'' ''p'') (snd (addP2PSession (peer_request ''2'' ''q'') 1 ''b'' (snd (addP2PSession (peer_request ''1'' ''p'') 0 ''a'' Map.empty))))) (Some ''a'')) no_tunnel)
     = P2PClientRole \<longleftrightarrow>
   choose_role (tunnel_update ''q'' (auth_response (peer_request ''2'' ''q'')
      (getPeerAddr [''1'', ''2''] (peer_request ''2'' ''q'') (snd (addP2PSession (peer_request ''2'' ''q'') 1 ''b'' (snd (addP2PSession (peer_request ''1'' ''p'') 0 ''a'' Map.empty))))) (Some ''b'')) no_tunnel)
     = P2PServerRole"
  by (rule p2p_roles_opposite [of "''t''" _ _ Map.empty "''a''" "''b''" _ 1 0 "[''1'', ''2'']" "[''1'', ''2'']", THEN conjunct2, THEN conjunct2, OF _ _ _ _ _ _ _ refl _ _ refl refl])
     (simp_all add: tunnel_request_def peer_request_def empty_auth_def)

text \<open>A response of the server has both addresses of the peer, or none.\<close>

definition both_or_none :: "auth_round \<Rightarrow> bool" where
  "both_or_none x = (case x of AuthFails \<Rightarrow> True | AuthGot pri res \<Rightarrow> (PeerPriAddr res = []) = (PeerPubAddr res = []))"

lemma auth_rounds_both:
  "list_all both_or_none xs \<Longrightarrow> (tuPeerPri tu = []) = (tuPeerPub tu = []) \<Longrightarrow> auth_rounds lf tu xs = (x, tu') \<Longrightarrow>
   (tuPeerPri tu' = []) = (tuPeerPub tu' = []) \<and> (x = AuthBroken \<longrightarrow> tuPeerPub tu' = [])"
proof (induction lf tu xs rule: auth_rounds.induct)
  case (2 lf tu y xs)
  show ?case
  proof (cases "tuPeerPri tu = [] \<and> y \<noteq> AuthFails")
    case True
    then obtain pri res where y: "y = AuthGot pri res" by (cases y) auto
    have b: "(tuPeerPri (tunnel_update pri res tu) = []) = (tuPeerPub (tunnel_update pri res tu) = [])"
      using "2.prems"(1) by (simp add: y both_or_none_def tunnel_update_def)
    show ?thesis
      using "2.IH" [OF _ y refl] "2.prems" True b by (auto simp: y Let_def split: if_splits)
  next
    case False
    then show ?thesis using "2.prems" by auto
  qed
qed (auto split: if_splits)

fun is_dial :: "p2p_act \<Rightarrow> bool" where
  "is_dial (DialPeer _ _ _ _) = True" | "is_dial _ = False"


definition dial_env :: p2p_env where
  "dial_env = \<lparr>peEstablished = False, peSession = True, peLocal = ''10.0.0.2:5'', peUpnp = upnp_init,
     peAuth = [AuthGot ''10.0.0.2:5'' \<lparr>Code = AuthOK, PeerPriAddr = ''10.0.0.3:7'', PeerPubAddr = ''2.2.2.2:7'', PubAddr = ''1.1.1.1:5''\<rparr>],
     peProxy = [], peReusePort = True, peListens = True, peDialPri = replicate 20 (False, False, False), peDialPub = [(False, True, True)],
     peEstablishedAfter = True\<rparr>"

definition first_turn :: p2p_state where
  "first_turn = \<lparr>psRole = UnknownRole, psLastFail = ([], []), psCtx = Map.empty\<rparr>"


text \<open>two peers that offer the same public address both take the part of the server, and wait for each other.\<close>

lemma same_address_two_servers: "tuPub tu = tuPeerPub tu \<Longrightarrow> choose_role tu = P2PServerRole"
  by (simp add: choose_role_def str_less_irrefl)

end
