(* ===== verification/Transparent.thy ===== *)
theory Transparent
  imports UdpGw Protector
begin

text \<open>
  Transparent redirection (\<open>local/transparent_unix.go\<close>): the original destination of a TCP
  connection, and the sessions of redirected UDP packets. The outcomes of the system calls are
  arguments; descriptors are counted as in \<open>Protector\<close>.
\<close>

section \<open>The original destination of a connection\<close>

text \<open>The two socket options: the address of an IPv6 connection, or the raw \<open>sockaddr_in\<close> that the code reads out of an
  \<open>IPv6Mreq\<close>. The result is the destination, or an error, with what has become of the two descriptors: that of the connection
  (closed as soon as it is duplicated) and the duplicate.\<close>

datatype od_end = OdErr | Od bytes nat

record od_fds =
  odConnClosed :: bool
  odFileClosed :: bool
  odNewConn :: bool

definition be_port :: "byte \<Rightarrow> byte \<Rightarrow> u16" where
  "be_port a b = push_bit 8 (ucast a) + ucast b"

text \<open>The port of a raw IPv6 address is read as the machine stores it (little-endian), without conversion.\<close>

definition raw_port :: "byte \<Rightarrow> byte \<Rightarrow> nat" where
  "raw_port a b = be16 b a"

definition getOrinalTCPRemoteAddr :: "bool \<Rightarrow> bool \<Rightarrow> (bytes \<times> byte \<times> byte) option \<Rightarrow> bytes option \<Rightarrow> bool \<Rightarrow> od_end \<times> od_fds" where
  "getOrinalTCPRemoteAddr isTCP file ipv6 ipv4 fileConn =
     (let fds = \<lparr>odConnClosed = False, odFileClosed = False, odNewConn = False\<rparr> in
      if \<not> isTCP then (OdErr, fds)
      else if \<not> file then (OdErr, fds)
      else let fds = fds\<lparr>odConnClosed := True\<rparr> in
        case (case ipv6 of Some (addr, p0, p1) \<Rightarrow> Some (take 16 addr, raw_port p0 p1)
              | None \<Rightarrow> (case ipv4 of None \<Rightarrow> None
                   | Some m \<Rightarrow> Some (IPv4 (m ! 4) (m ! 5) (m ! 6) (m ! 7), unat (be_port (m ! 2) (m ! 3))))) of
          None \<Rightarrow> (OdErr, fds\<lparr>odFileClosed := True\<rparr>)
        | Some (ip, port) \<Rightarrow>
            if fileConn then (Od ip port, fds\<lparr>odNewConn := True\<rparr>) else (OdErr, fds\<lparr>odFileClosed := True\<rparr>))"

section \<open>Sessions of UDP packets\<close>

record sockaddr =
  saIP :: bytes
  saPort :: nat

record tudp =
  tuLocal :: sockaddr
  tuRemote :: sockaddr
  tuStream :: "nat option"
  tuKey :: string

text \<open>Sessions by pointer, and the table by key.\<close>

record tstate =
  tsHeap :: "tudp list"
  tsTable :: "string \<rightharpoonup> nat"
  tsClosed :: "nat set"
  tsReaders :: "(nat \<times> nat \<times> bool) list"    \<comment> \<open>session, stream, and whether it is a DNS query\<close>
  tsHosts :: hosts
  tsOut :: "gw_act list"
  tsBack :: "(bytes \<times> sockaddr \<times> sockaddr) list"
  tsPanic :: bool

definition tudp_key :: "sockaddr \<Rightarrow> sockaddr \<Rightarrow> string" where
  "tudp_key l r = IPString (saIP l) @ '':'' @ itoa (saPort l) @ ''->'' @ IPString (saIP r) @ '':'' @ itoa (saPort r)"

text \<open>\<open>LoadOrStore\<close>: the session of the key, or the new one.\<close>

definition getTUDPSession :: "sockaddr \<Rightarrow> sockaddr \<Rightarrow> tstate \<Rightarrow> nat \<times> tstate" where
  "getTUDPSession l r st =
     (case tsTable st (tudp_key l r) of
        Some p \<Rightarrow> (p, st)
      | None \<Rightarrow> (length (tsHeap st),
          st\<lparr>tsHeap := tsHeap st @ [\<lparr>tuLocal = l, tuRemote = r, tuStream = None, tuKey = tudp_key l r\<rparr>],
             tsTable := (tsTable st)(tudp_key l r \<mapsto> length (tsHeap st))\<rparr>))"

text \<open>\<open>close\<close> leaves the field \<open>stream\<close> set.\<close>

definition tudp_close :: "nat \<Rightarrow> tstate \<Rightarrow> tstate" where
  "tudp_close p st =
     (let u = tsHeap st ! p in
      st\<lparr>tsClosed := (case tuStream u of None \<Rightarrow> tsClosed st | Some s \<Rightarrow> insert s (tsClosed st)),
         tsTable := map_delete (tsTable st) (tuKey u)\<rparr>)"

text \<open>\<open>handle\<close>: the environment is that of the UDP gateway's packets, with the URL parser's answer for the host.\<close>

definition IsMulticast :: "bytes \<Rightarrow> bool" where
  "IsMulticast ip =
     (case To4 ip of Some q \<Rightarrow> q ! 0 AND 0xF0 = 0xE0 | None \<Rightarrow> length ip = 16 \<and> ip ! 0 = 0xFF)"

definition tudp_handle :: "(string \<Rightarrow> bool) \<Rightarrow> gw_env \<Rightarrow> nat \<Rightarrow> bytes \<Rightarrow> tstate \<Rightarrow> tstate" where
  "tudp_handle badURL e p data st =
     (let u = tsHeap st ! p in
      case tuStream u of
        Some s \<Rightarrow> st\<lparr>tsOut := tsOut st @ [ToStream s data]\<rparr>
      | None \<Rightarrow>
          if IsMulticast (saIP (tuRemote u)) then tudp_close p st
          else
            (let isDNS = saPort (tuRemote u) = 53; host = IPString (saIP (tuRemote u))
             in case getProxyChannelByHost badURL (geV e) (geCfg e) (if isDNS then ''dns'' else ''udp'') host (tsHosts st) of
                  (None, h) \<Rightarrow> st\<lparr>tsHosts := h, tsPanic := True\<rparr>
                | (Some chan, h) \<Rightarrow>
                    (let st = st\<lparr>tsHosts := h\<rparr> in
                     if chan = [] then tudp_close p st
                     else case geOpen e chan of
                       (Got s, Some conf) \<Rightarrow>
                         (let opt = \<lparr>soDialTimeout = RemoteDialMSTimeout conf, soReadTimeout = RemoteDNSReadMSTimeout conf, soHops = []\<rparr>;
                              conn = StreamConnect s (JoinHostPort host (itoa (saPort (tuRemote u)))) opt
                          in if geConnect e s then
                               st\<lparr>tsHeap := (tsHeap st)[p := u\<lparr>tuStream := Some s\<rparr>],
                                  tsReaders := tsReaders st @ [(p, s, isDNS)],
                                  tsOut := tsOut st @ [conn, ToStream s data]\<rparr>
                             else tudp_close p (st\<lparr>tsOut := tsOut st @ [conn]\<rparr>))
                     | (GotPanic, _) \<Rightarrow> st\<lparr>tsPanic := True\<rparr>
                     | _ \<Rightarrow> tudp_close p st)))"

text \<open>One turn of the goroutine of the replies: bytes are written back from the remote to the local address, and their
  outcome replaces the error; a DNS session ends after one turn.\<close>

definition tudp_read :: "(nat \<Rightarrow> bool) \<Rightarrow> nat \<Rightarrow> nat \<Rightarrow> bool \<Rightarrow> bytes \<Rightarrow> bool \<Rightarrow> tstate \<Rightarrow> tstate" where
  "tudp_read writeOk p s isDNS b err st =
     (if (p, s, isDNS) \<in> set (tsReaders st) then
        (let u = tsHeap st ! p;
             st = (if b \<noteq> [] then st\<lparr>tsBack := tsBack st @ [(b, tuLocal u, tuRemote u)]\<rparr> else st);
             stop = (if b \<noteq> [] then \<not> writeOk p else err)
         in if stop \<or> isDNS then tudp_close p (st\<lparr>tsReaders := remove1 (p, s, isDNS) (tsReaders st)\<rparr>) else st)
      else st)"

datatype tudp_event =
    TPacket "string \<Rightarrow> bool" gw_env sockaddr sockaddr bytes
  | TRead "nat \<Rightarrow> bool" nat nat bool bytes bool

fun tudp_step :: "tstate \<Rightarrow> tudp_event \<Rightarrow> tstate" where
  "tudp_step st (TPacket badURL e l r data) = (case getTUDPSession l r st of (p, st) \<Rightarrow> tudp_handle badURL e p data st)"
| "tudp_step st (TRead ok p s d b err) = tudp_read ok p s d b err st"

definition tudp_init :: "hosts \<Rightarrow> tstate" where
  "tudp_init h = \<lparr>tsHeap = [], tsTable = Map.empty, tsClosed = {}, tsReaders = [], tsHosts = h, tsOut = [], tsBack = [], tsPanic = False\<rparr>"

section \<open>The listening socket\<close>

text \<open>\<open>startTransparentUDProxy\<close> up to its loop, as the outcomes of its calls; the result is the address and port the socket is
  bound to (a host that is no address binds the unspecified IPv6 address) and whether a descriptor is open.\<close>

datatype tl_end = TlFailed | TlListening bytes int

definition startTransparentUDProxy :: "string \<Rightarrow> bool \<Rightarrow> bool \<Rightarrow> bool \<Rightarrow> bool \<Rightarrow> tl_end \<times> bool" where
  "startTransparentUDProxy addr socket transparent recvorig bind =
     (case SplitHostPort addr of None \<Rightarrow> (TlFailed, False)
      | Some (lhost, lport) \<Rightarrow>
          (case Atoi lport of None \<Rightarrow> (TlFailed, False)
           | Some port \<Rightarrow>
               (let ip = (if lhost \<noteq> [] then (case ParseIP lhost of Some x \<Rightarrow> (case To4 x of Some q \<Rightarrow> q | None \<Rightarrow> x) | None \<Rightarrow> replicate 16 0)
                     else [0, 0, 0, 0])
                in if \<not> socket then (TlFailed, False)
                   else if transparent \<and> recvorig \<and> bind then (TlListening ip port, True) else (TlFailed, True))))"

text \<open>The control messages of a packet: the original destination is in the first that carries one.\<close>

record cmsg =
  cmIPv6 :: bool
  cmOrig :: bool
  cmData :: bytes

fun recv_remote :: "cmsg list \<Rightarrow> sockaddr option" where
  "recv_remote [] = None"
| "recv_remote (c # cs) =
     (if \<not> cmOrig c then recv_remote cs
      else let port = be16 (cmData c ! 2) (cmData c ! 3)
        in Some \<lparr>saIP = (if cmIPv6 c then take 16 (drop 8 (cmData c)) else take 4 (drop 4 (cmData c))), saPort = port\<rparr>)"

text \<open>\<open>writeBackUDPData\<close>: whether the data is sent; the socket is closed on every path.\<close>

definition writeBackUDPData :: "bool \<Rightarrow> bool \<Rightarrow> bool \<Rightarrow> bool \<Rightarrow> bool" where
  "writeBackUDPData socket transparent bind sendto \<longleftrightarrow> socket \<and> transparent \<and> bind \<and> sendto"

section \<open>Properties\<close>

text \<open>The sessions of the table are entered under their keys, and those that have a stream have a goroutine that returns
  the replies; goroutines belong to sessions.\<close>

definition tudp_inv :: "tstate \<Rightarrow> bool" where
  "tudp_inv st \<longleftrightarrow> (\<forall>k p. tsTable st k = Some p \<longrightarrow> p < length (tsHeap st) \<and> tuKey (tsHeap st ! p) = k \<and>
        (\<forall>s. tuStream (tsHeap st ! p) = Some s \<longrightarrow> (\<exists>d. (p, s, d) \<in> set (tsReaders st)))) \<and>
     (\<forall>p s d. (p, s, d) \<in> set (tsReaders st) \<longrightarrow> p < length (tsHeap st))"

lemma tudp_inv_close:
  assumes "tudp_inv st" shows "tudp_inv (tudp_close p st)"
  using assms by (auto simp: tudp_inv_def tudp_close_def map_delete_def Let_def split: if_splits)

lemma tudp_inv_fields:
  "tudp_inv st \<Longrightarrow> tudp_inv (st\<lparr>tsHosts := h\<rparr>)" "tudp_inv st \<Longrightarrow> tudp_inv (st\<lparr>tsOut := out\<rparr>)"
  "tudp_inv st \<Longrightarrow> tudp_inv (st\<lparr>tsPanic := b\<rparr>)" "tudp_inv st \<Longrightarrow> tudp_inv (st\<lparr>tsBack := bk\<rparr>)"
  "tudp_inv st \<Longrightarrow> tudp_inv (st\<lparr>tsHosts := h, tsPanic := b\<rparr>)"
  by (simp_all add: tudp_inv_def)

lemma tudp_inv_open:
  assumes "tudp_inv st" "p < length (tsHeap st)"
  shows "tudp_inv (st\<lparr>tsHosts := h, tsHeap := (tsHeap st)[p := (tsHeap st ! p)\<lparr>tuStream := Some s\<rparr>],
     tsReaders := tsReaders st @ [(p, s, d)], tsOut := out\<rparr>)"
  unfolding tudp_inv_def
proof (intro conjI allI impI)
  fix k q assume "tsTable (st\<lparr>tsHosts := h, tsHeap := (tsHeap st)[p := (tsHeap st ! p)\<lparr>tuStream := Some s\<rparr>],
     tsReaders := tsReaders st @ [(p, s, d)], tsOut := out\<rparr>) k = Some q"
  then have "tsTable st k = Some q" by simp
  then have q: "q < length (tsHeap st)" "tuKey (tsHeap st ! q) = k" "\<And>s. tuStream (tsHeap st ! q) = Some s \<Longrightarrow> \<exists>d. (q, s, d) \<in> set (tsReaders st)"
    using assms(1) unfolding tudp_inv_def by blast+
  show "q < length (tsHeap (st\<lparr>tsHosts := h, tsHeap := (tsHeap st)[p := (tsHeap st ! p)\<lparr>tuStream := Some s\<rparr>],
     tsReaders := tsReaders st @ [(p, s, d)], tsOut := out\<rparr>))"
    "tuKey (tsHeap (st\<lparr>tsHosts := h, tsHeap := (tsHeap st)[p := (tsHeap st ! p)\<lparr>tuStream := Some s\<rparr>],
     tsReaders := tsReaders st @ [(p, s, d)], tsOut := out\<rparr>) ! q) = k"
    using q(1,2) by (auto simp: nth_upd_self [of _ _ "\<lambda>u. u\<lparr>tuStream := Some s\<rparr>"])
  fix s' assume "tuStream (tsHeap (st\<lparr>tsHosts := h, tsHeap := (tsHeap st)[p := (tsHeap st ! p)\<lparr>tuStream := Some s\<rparr>],
     tsReaders := tsReaders st @ [(p, s, d)], tsOut := out\<rparr>) ! q) = Some s'"
  then show "\<exists>d'. (q, s', d') \<in> set (tsReaders (st\<lparr>tsHosts := h, tsHeap := (tsHeap st)[p := (tsHeap st ! p)\<lparr>tuStream := Some s\<rparr>],
     tsReaders := tsReaders st @ [(p, s, d)], tsOut := out\<rparr>))"
    using q(1,3) assms(2) by (auto simp: nth_upd_self [of _ _ "\<lambda>u. u\<lparr>tuStream := Some s\<rparr>"] split: if_splits)
qed (use assms in \<open>fastforce simp: tudp_inv_def\<close>)

lemma tudp_inv_handle:
  assumes "tudp_inv st" "p < length (tsHeap st)"
  shows "tudp_inv (tudp_handle badURL e p data st)"
  unfolding tudp_handle_def Let_def
  using assms tudp_inv_open [OF assms]
  by (auto split: option.splits prod.splits got.splits intro!: tudp_inv_close tudp_inv_fields)

lemma tudp_inv_get:
  assumes "tudp_inv st" "getTUDPSession l r st = (p, st')"
  shows "tudp_inv st' \<and> p < length (tsHeap st')"
proof (cases "tsTable st (tudp_key l r)")
  case None
  then have e: "p = length (tsHeap st)" "st' = st\<lparr>tsHeap := tsHeap st @ [\<lparr>tuLocal = l, tuRemote = r, tuStream = None, tuKey = tudp_key l r\<rparr>],
     tsTable := (tsTable st)(tudp_key l r \<mapsto> length (tsHeap st))\<rparr>" using assms(2) by (auto simp: getTUDPSession_def)
  have "tsTable st k = Some q \<Longrightarrow> q < length (tsHeap st)" for k q using assms(1) unfolding tudp_inv_def by blast
  then show ?thesis using assms(1) unfolding e tudp_inv_def
    by (auto simp: nth_append less_SucI)
next
  case (Some q)
  then show ?thesis using assms by (auto simp: getTUDPSession_def tudp_inv_def)
qed

lemma tudp_inv_end:
  assumes "tudp_inv st"
  shows "tudp_inv (tudp_close p (st\<lparr>tsReaders := remove1 (p, s, d) (tsReaders st)\<rparr>))"
proof -
  have "q \<noteq> p" if "map_delete (tsTable st) (tuKey (tsHeap st ! p)) k = Some q" for k q
    using that assms unfolding tudp_inv_def map_delete_def by (auto split: if_splits)
  then show ?thesis using assms
    unfolding tudp_inv_def tudp_close_def Let_def
    by (auto simp: map_delete_def in_set_remove1 split: if_splits dest!: set_remove1_subset [THEN subsetD])
       (metis in_set_remove1 prod.inject)+
qed

lemma tudp_inv_read:
  assumes "tudp_inv st"
  shows "tudp_inv (tudp_read ok p s d b err st)"
  using tudp_inv_end [OF assms] tudp_inv_end [OF tudp_inv_fields(4) [OF assms]] tudp_inv_fields(4) [OF assms] assms
  by (auto simp: tudp_read_def Let_def)

lemma tudp_step_inv: "tudp_inv st \<Longrightarrow> tudp_inv (tudp_step st ev)"
  by (cases ev) (auto split: prod.splits dest: tudp_inv_get intro: tudp_inv_handle tudp_inv_read)

interpretation redirected: event_machine tudp_step tudp_inv
  by unfold_locales (rule tudp_step_inv)

text \<open>C23: whatever packets are redirected and however the replies arrive, a session that a packet finds in the table and that
  has a stream has a goroutine that reads the stream and writes the replies back.\<close>

theorem redirected_sessions_answered:
  assumes "st = foldl tudp_step (tudp_init h) evs" "tsTable st (tudp_key l r) = Some p" "tuStream (tsHeap st ! p) = Some s"
  shows "\<exists>d. (p, s, d) \<in> set (tsReaders st)"
proof -
  have "tudp_inv (tudp_init h)" by (simp add: tudp_inv_def tudp_init_def)
  then have "tudp_inv st" unfolding assms(1) by (rule redirected.run_inv)
  then show ?thesis using assms(2,3) unfolding tudp_inv_def by blast
qed

definition addr4 :: "nat \<Rightarrow> sockaddr" where
  "addr4 port = \<lparr>saIP = [8, 8, 4, 4], saPort = port\<rparr>"

definition one_redirected :: tstate where
  "one_redirected = foldl tudp_step (tudp_init no_hosts) [TPacket (\<lambda>_. False) open_env (addr4 5) (addr4 443) [1]]"

lemma one_redirected_simps: "tsTable one_redirected (tudp_key (addr4 5) (addr4 443)) = Some 0" "tuStream (tsHeap one_redirected ! 0) = Some 3"
proof -
  have i: "IPString [8, 8, 4, 4] = ''8.8.4.4''" by code_simp
  show "tsTable one_redirected (tudp_key (addr4 5) (addr4 443)) = Some 0" "tuStream (tsHeap one_redirected ! 0) = Some 3"
    by (simp_all add: one_redirected_def tudp_init_def getTUDPSession_def tudp_handle_def addr4_def open_env_def IsMulticast_def To4_def i
      getProxyChannelByHost_def connect_request_def Let_def findProxyChannelByRequest_def pac_proxy_def any_pac_def pac_Match_def matchRules_def
      matchProtocol_def MatchPatterns_def)
qed

lemma redirected_sessions_answered_witness:
  "\<exists>d. (0, 3, d) \<in> set (tsReaders one_redirected)"
  using redirected_sessions_answered [OF one_redirected_def one_redirected_simps] .

text \<open>the duplicate of the descriptor stays open when the new connection is made of it.\<close>

lemma original_dst_leaks_file:
  "getOrinalTCPRemoteAddr isTCP file v6 v4 fc = (Od ip port, fds) \<Longrightarrow> odConnClosed fds \<and> \<not> odFileClosed fds \<and> odNewConn fds"
  by (auto simp: getOrinalTCPRemoteAddr_def Let_def split: if_splits option.splits)

text \<open>the port of a redirected IPv6 connection has its bytes swapped.\<close>

lemma ipv6_port_swapped:
  "getOrinalTCPRemoteAddr True True (Some (addr, p0, p1)) v4 True = (Od ip port, fds) \<Longrightarrow> port = be16 p1 p0"
  by (simp add: getOrinalTCPRemoteAddr_def raw_port_def Let_def)

text \<open>the socket of a transparent listener that cannot be set up is not closed.\<close>

lemma failed_listener_leaks:
  "SplitHostPort addr = Some (h, p) \<Longrightarrow> Atoi p \<noteq> None \<Longrightarrow> \<not> (transparent \<and> recvorig \<and> bind) \<Longrightarrow>
   startTransparentUDProxy addr True transparent recvorig bind = (TlFailed, True)"
  by (auto simp: startTransparentUDProxy_def Let_def)

end
