(* ===== verification/LocalStart.thy ===== *)
theory LocalStart
  imports ChannelTable LocalPac LocalServer HelperText
begin

text \<open>
  The life of a client process (\<open>local/proxy.go\<close>): loading and watching the configuration, fetching the list of
  blocked sites, the order in which \<open>Start\<close> brings up channels and servers, and \<open>Stop\<close>. The decoder of
  the configuration, the HTTP client, the library that keeps the list and the transports are arguments.
\<close>

section \<open>The configuration of a client\<close>

record gfw_conf =
  gcURL :: string
  gcUserRule :: "string list"
  gcProxy :: string
  gcPeriod :: int         \<comment> \<open>\<open>RefershPeriodMiniutes\<close>\<close>

record client_conf = LocalConfig +
  ccLog :: "string list"
  ccMux :: MuxConfig
  ccLimit :: ProxyLimitConfig
  ccUPNP :: int
  ccAdmin :: string
  ccGFW :: gfw_conf
  ccMark :: int
  ccProxy :: "ProxyConfig list"

definition zero_cipher :: CipherConfig where
  "zero_cipher = \<lparr>User = [], CMethod = [], CKey = [], allowedUser = []\<rparr>"

definition zero_mux :: MuxConfig where
  "zero_mux = \<lparr>MaxStreamWindow = [], StreamMinRefresh = [], StreamIdleTimeout = 0, SessionIdleTimeout = 0,
     UpBufferSize = 0, DownBufferSize = 0\<rparr>"

definition no_limit :: ProxyLimitConfig where
  "no_limit = \<lparr>WhiteList = [], BlackList = []\<rparr>"

definition zero_conf :: client_conf where
  "zero_conf = \<lparr>lcCipher = zero_cipher, lcUserAgent = [], lcChannel = [], ccLog = [], ccMux = zero_mux,
     ccLimit = no_limit, ccUPNP = 0, ccAdmin = [], ccGFW = \<lparr>gcURL = [], gcUserRule = [], gcProxy = [], gcPeriod = 0\<rparr>,
     ccMark = 0, ccProxy = []\<rparr>"

text \<open>\<open>loadClientConf\<close>: the errors of reading and of decoding are logged only. \<open>json\<close> is what the decoder makes of a text and the
  zero configuration, with or without an error; without a text it changes nothing. The first component is the
  absence of an error.\<close>

definition loadClientConf :: "cipher_names \<Rightarrow> string \<Rightarrow> (string \<Rightarrow> client_conf \<Rightarrow> client_conf) \<Rightarrow> string option \<Rightarrow> bool \<times> client_conf" where
  "loadClientConf nm arch json file =
     (True, LocalConfig_init nm arch
        (case ReadWithoutComment file ''//'' of None \<Rightarrow> zero_conf | Some data \<Rightarrow> json data zero_conf))"

text \<open>One event of \<open>watchConf\<close>: a write (with the file as it is then), another event, or an error.\<close>

datatype watch_event = WatchWrite "string option" | WatchOther | WatchError

definition watchConf :: "cipher_names \<Rightarrow> string \<Rightarrow> (string \<Rightarrow> client_conf \<Rightarrow> client_conf) \<Rightarrow> client_conf \<Rightarrow> watch_event \<Rightarrow> client_conf" where
  "watchConf nm arch json conf ev =
     (case ev of WatchWrite file \<Rightarrow> snd (loadClientConf nm arch json file) | _ \<Rightarrow> conf)"

section \<open>The list of blocked sites\<close>

text \<open>The answer to a request for the list: no answer, or a status and a body, if it can be read.\<close>

datatype gfw_answer = GetFails | GetResp int "string option"

text \<open>\<open>new\<close> and \<open>add\<close> are \<open>NewFromString\<close> and \<open>Add\<close> of the library. A status other than 200 returns the error of the
  request, which is nil there.\<close>

definition loadGFWList :: "(string \<Rightarrow> 'g option) \<Rightarrow> (string \<Rightarrow> 'g \<Rightarrow> 'g) \<Rightarrow> gfw_conf \<Rightarrow> gfw_answer \<Rightarrow> 'g option \<Rightarrow> bool \<times> 'g option" where
  "loadGFWList new add gc f cur =
     (case f of
        GetFails \<Rightarrow> (False, cur)
      | GetResp status body \<Rightarrow>
          if status \<noteq> 200 then (True, cur)
          else case body of None \<Rightarrow> (False, cur)
          | Some b \<Rightarrow> (case new b of None \<Rightarrow> (False, cur) | Some g \<Rightarrow> (True, Some (fold add (gcUserRule gc) g))))"

text \<open>The loop of \<open>initGFWList\<close> over the answers it gets: the pauses in seconds, and the list in the end.\<close>

definition gfw_period :: "bool \<Rightarrow> gfw_conf \<Rightarrow> gfw_conf" where
  "gfw_period ok gc = (if ok \<and> gcPeriod gc \<le> 0 then gc\<lparr>gcPeriod := 1440\<rparr> else gc)"

fun gfw_rounds :: "(string \<Rightarrow> 'g option) \<Rightarrow> (string \<Rightarrow> 'g \<Rightarrow> 'g) \<Rightarrow> gfw_conf \<Rightarrow> gfw_answer list \<Rightarrow> 'g option \<Rightarrow> int list \<times> 'g option" where
  "gfw_rounds new add gc [] cur = ([], cur)"
| "gfw_rounds new add gc (f # fs) cur =
     (case loadGFWList new add gc f cur of (ok, cur) \<Rightarrow>
        let gc = gfw_period ok gc; wait = (if ok then gcPeriod gc * 60 else 5)
        in case gfw_rounds new add gc fs cur of (waits, cur) \<Rightarrow> (wait # waits, cur))"

text \<open>\<open>initGFWList\<close>: whether it runs already, and whether it does now.\<close>

definition initGFWList :: "bool \<Rightarrow> (string \<Rightarrow> 'g option) \<Rightarrow> (string \<Rightarrow> 'g \<Rightarrow> 'g) \<Rightarrow> gfw_conf \<Rightarrow> gfw_answer list \<Rightarrow> 'g option \<Rightarrow> bool \<times> int list \<times> 'g option" where
  "initGFWList running new add gc fs cur =
     (if running \<or> gcURL gc = [] then (True, [], cur)
      else case gfw_rounds new add gc fs cur of (waits, cur) \<Rightarrow> (True, waits, cur))"

section \<open>Starting and stopping\<close>

record 't client =
  clConf :: client_conf             \<comment> \<open>\<open>GConf\<close>\<close>
  clTable :: ctable
  clWorld :: world
  clHosts :: hosts
  clServers :: "'t servers"
  clMux :: MuxConfig                \<comment> \<open>\<open>defaultMuxConfig\<close>\<close>
  clLimit :: ProxyLimitConfig       \<comment> \<open>\<open>defaultProxyLimitConfig\<close>\<close>
  clUPNP :: int
  clMark :: int                     \<comment> \<open>\<open>protector.SocketMark\<close>\<close>
  clListFetching :: bool
  clAdmin :: bool

text \<open>The outcomes of what the start asks for: which server URLs have a known scheme, what a channel's transport does, in which
  order the channels come up, which listeners can be made.\<close>

record start_env =
  seKnown :: "string \<Rightarrow> bool"
  seTransport :: "ProxyChannelConfig \<Rightarrow> string \<Rightarrow> nat \<Rightarrow> env"
  seOrder :: "ProxyChannelConfig list \<Rightarrow> ProxyChannelConfig list"
  seResolves :: "nat \<Rightarrow> bool"
  seListens :: "nat \<Rightarrow> nat option"
  seMarkable :: bool                \<comment> \<open>\<open>supportTransparentProxy\<close>\<close>

definition limited :: "ProxyLimitConfig \<Rightarrow> bool" where
  "limited l \<longleftrightarrow> BlackList l \<noteq> [] \<or> WhiteList l \<noteq> []"

definition transport :: "start_env \<Rightarrow> ProxyLimitConfig \<Rightarrow> ProxyChannelConfig \<Rightarrow> string \<Rightarrow> nat \<Rightarrow> env" where
  "transport e l c server i = (seTransport e c server i)\<lparr>eLimited := limited l\<rparr>"

text \<open>The channels, in the order they come up; None is a panic.\<close>

fun init_channels :: "start_env \<Rightarrow> ProxyLimitConfig \<Rightarrow> ProxyChannelConfig list \<Rightarrow> ctable \<times> world \<Rightarrow> (ctable \<times> world) option" where
  "init_channels e l [] tw = Some tw"
| "init_channels e l (c # cs) tw =
     (case channel_Init (seKnown e) (transport e l c) (NewProxyChannel c) tw of
        (None, _, _) \<Rightarrow> None
      | (Some ok, _, tw) \<Rightarrow> init_channels e l cs tw)"

text \<open>\<open>StartProxy\<close>: the channels come up before the servers listen. None is the end of the process: a panic, or a server that cannot
  listen (\<open>logger.Fatal\<close>).\<close>

definition StartProxy :: "cipher_names \<Rightarrow> string \<Rightarrow> start_env \<Rightarrow> 't client \<Rightarrow> (bool \<times> 't client) option" where
  "StartProxy nm arch e cl =
     (let conf = LocalConfig_init nm arch (clConf cl);
          cl = cl\<lparr>clConf := conf, clMux := ccMux conf, clUPNP := ccUPNP conf,
                  clMark := (if ccMark conf > 0 \<and> seMarkable e then ccMark conf else clMark cl), clListFetching := True\<rparr>
      in case init_channels e (clLimit cl) (seOrder e (filter Enable (lcChannel conf))) (clTable cl, clWorld cl) of
           None \<Rightarrow> None
         | Some (t, w) \<Rightarrow>
             (case startLocalServers (seResolves e) (seListens e) (length (ccProxy conf)) (clServers cl) of
                None \<Rightarrow> None
              | Some sv \<Rightarrow> Some (True, cl\<lparr>clTable := t, clWorld := w, clAdmin := clAdmin cl \<or> ccAdmin conf \<noteq> [], clServers := sv\<rparr>)))"

record options =
  opConfig :: string
  opWatch :: bool

text \<open>\<open>Start\<close>: \<open>watcher\<close> is whether the watcher can be made (the process ends without it); \<open>hostsFile\<close> is the loading of the hosts table, whose error is
  ignored.\<close>

definition Start :: "cipher_names \<Rightarrow> string \<Rightarrow> (string \<Rightarrow> client_conf \<Rightarrow> client_conf) \<Rightarrow> bool \<Rightarrow> string option \<Rightarrow>
    (hosts \<Rightarrow> bool \<times> hosts) \<Rightarrow> start_env \<Rightarrow> options \<Rightarrow> 't client \<Rightarrow> (bool \<times> 't client) option" where
  "Start nm arch json watcher file hostsFile e op cl =
     (if opWatch op \<and> \<not> watcher then None
      else let (ok, conf) = (if opConfig op \<noteq> [] then loadClientConf nm arch json file else (True, clConf cl));
               cl = cl\<lparr>clConf := conf\<rparr>
        in if \<not> ok then Some (False, cl)
           else let cl = cl\<lparr>clLimit := ccLimit conf\<rparr>; cl = cl\<lparr>clHosts := snd (hostsFile (clHosts cl))\<rparr>
             in StartProxy nm arch e cl)"

definition Stop :: "nat list \<Rightarrow> string list \<Rightarrow> 't client \<Rightarrow> bool \<times> 't client" where
  "Stop gwOrd keys cl =
     (let (t, w) = StopLocalChannels keys (clTable cl, clWorld cl)
      in (True, cl\<lparr>clServers := stopLocalServers gwOrd (clServers cl), clTable := t, clWorld := w, clHosts := Clear (clHosts cl)\<rparr>))"

text \<open>\<open>DumpLoaclChannelStat\<close>, which the page \<open>/stat\<close> calls: it also closes retired sessions, of the channels that are not direct. \<open>keys\<close> is
  the order of the iteration.\<close>

fun dump_holders :: "holder list \<Rightarrow> world \<Rightarrow> holder list \<times> world" where
  "dump_holders [] w = ([], w)"
| "dump_holders (h # hs) w =
     (case dumpStat (h, w) of (h', w') \<Rightarrow> (case dump_holders hs w' of (hs', w'') \<Rightarrow> (h' # hs', w'')))"

definition dump_channel :: "ctable \<times> world \<Rightarrow> string \<Rightarrow> ctable \<times> world" where
  "dump_channel tw key =
     (case tw of (t, w) \<Rightarrow>
       (case t key of None \<Rightarrow> (t, w)
        | Some ch \<Rightarrow>
            if pcName (chConf ch) = DirectChannelName then (t, w)
            else (case dump_holders (sessions ch) w of (hs, w') \<Rightarrow> (t(key \<mapsto> ch\<lparr>sessions := hs\<rparr>), w'))))"

definition DumpLoaclChannelStat :: "string list \<Rightarrow> ctable \<times> world \<Rightarrow> ctable \<times> world" where
  "DumpLoaclChannelStat keys tw = foldl dump_channel tw keys"

lemma dump_holders_use: "map muxSession (fst (dump_holders hs w)) = map muxSession hs"
  by (induction hs arbitrary: w) (simp_all add: dumpStat_def tryCloseRetiredSessions_def Let_def case_prod_unfold)

text \<open>Looking at the statistics takes no channel and no session that is in use.\<close>

lemma dump_keeps_channels:
  "dom (fst (DumpLoaclChannelStat keys tw)) = dom (fst tw) \<and>
   (\<forall>k. map_option (\<lambda>ch. map muxSession (sessions ch)) (fst (DumpLoaclChannelStat keys tw) k) = map_option (\<lambda>ch. map muxSession (sessions ch)) (fst tw k))"
proof -
  have 1: "dom (fst (dump_channel tw key)) = dom (fst tw) \<and>
    (\<forall>k. map_option (\<lambda>ch. map muxSession (sessions ch)) (fst (dump_channel tw key) k) = map_option (\<lambda>ch. map muxSession (sessions ch)) (fst tw k))" for tw key
  proof -
    obtain t w where tw: "tw = (t, w)" by (rule prod.exhaust)
    show ?thesis
    proof (cases "t key")
      case (Some ch)
      obtain hs w' where d: "dump_holders (sessions ch) w = (hs, w')" by (rule prod.exhaust)
      have "map muxSession hs = map muxSession (sessions ch)" using dump_holders_use [of "sessions ch" w] d by simp
      with Some d show ?thesis by (auto simp: dump_channel_def tw)
    qed (simp add: dump_channel_def tw)
  qed
  show ?thesis unfolding DumpLoaclChannelStat_def
  proof (induction keys arbitrary: tw)
    case (Cons key keys)
    with 1 [of tw key] show ?case by simp
  qed simp
qed

section \<open>Which channels come up\<close>

text \<open>The first connection to a server is always made at once, so a channel comes up when one of its servers has a known
  scheme and accepts a connection.\<close>

definition channel_up :: "(string \<Rightarrow> bool) \<Rightarrow> (string \<Rightarrow> nat \<Rightarrow> env) \<Rightarrow> ProxyChannelConfig \<Rightarrow> bool" where
  "channel_up known es c \<longleftrightarrow>
     0 < ConnsPerServer c \<and> (\<exists>s \<in> set (ServerList c). known s \<and> eCreate (es s 0) \<and> eAuth (es s 0))"

lemma create_conf [frame_simps]: "createMuxSessionByProxy server i e cw = (r, cw') \<Longrightarrow> chConf (fst cw') = chConf (fst cw)"
  by (cases cw) (auto simp: createMuxSessionByProxy_def split: init_result.splits prod.splits)

lemma create_result:
  "createMuxSessionByProxy server i e cw = (r, cw') \<Longrightarrow> r \<noteq> InitPanic \<Longrightarrow> r = InitOk \<longleftrightarrow> (i \<longrightarrow> eCreate e \<and> eAuth e)"
  by (cases cw) (auto simp: createMuxSessionByProxy_def holder_init_def new_holder_def Let_def split: if_splits init_result.splits prod.splits option.splits)

lemma close_last_conf [frame_simps]: "chConf (fst (close_last cw)) = chConf (fst cw)"
  by (cases cw) (simp add: close_last_def split: prod.splits)

lemma conns_loop_success:
  assumes "conns_loop server es k i si success cw = (Some b, cw')"
  shows "chConf (fst cw') = chConf (fst cw) \<and> (b \<longleftrightarrow> success \<or> (k > 0 \<and> (si \<or> i = 0 \<longrightarrow> eCreate (es i) \<and> eAuth (es i))))"
  using assms
proof (induction k arbitrary: i si success cw)
  case (Suc k)
  obtain r cw1 where 1: "createMuxSessionByProxy server (si \<or> i = 0) (es i) cw = (r, cw1)" by (rule prod.exhaust)
  show ?case
  proof (cases r)
    case InitOk
    let ?cw = "if P2PToken (chConf (fst cw1)) \<noteq> [] \<and> \<not> P2S2PEnable (chConf (fst cw1)) then close_last cw1 else cw1"
    have "conns_loop server es k (i + 1) (si \<or> i = 0) True ?cw = (Some b, cw')"
      using Suc.prems 1 InitOk by (simp add: Let_def)
    from Suc.IH [OF this] show ?thesis
      using create_conf [OF 1] create_result [OF 1] InitOk by (auto simp: close_last_conf split: if_splits)
  next
    case InitErr
    then show ?thesis using Suc.prems 1 create_conf [OF 1] create_result [OF 1] by (auto simp: Let_def)
  next
    case InitPanic
    then show ?thesis using Suc.prems 1 by (simp add: Let_def)
  qed
qed simp

text \<open>What \<open>Init\<close> does not change of a configuration.\<close>

definition same_servers :: "ProxyChannelConfig \<Rightarrow> ProxyChannelConfig \<Rightarrow> bool" where
  "same_servers c d \<longleftrightarrow> pcName c = pcName d \<and> ConnsPerServer c = ConnsPerServer d"

definition p2s2p :: "ProxyChannelConfig \<Rightarrow> bool" where
  "p2s2p c \<longleftrightarrow> P2S2PEnable c \<and> P2PToken c \<noteq> []"

definition p2s2p_conf :: "ProxyChannelConfig \<Rightarrow> ProxyChannelConfig" where
  "p2s2p_conf c =
     (if p2s2p c then c\<lparr>lazyConnect := False,
        HeartBeatPeriod := (if HeartBeatPeriod c \<le> 0 \<or> HeartBeatPeriod c \<ge> 10 then 3 else HeartBeatPeriod c)\<rparr> else c)"

definition note_p2p :: "ProxyChannelConfig \<Rightarrow> string \<Rightarrow> bool \<Rightarrow> channel \<Rightarrow> channel" where
  "note_p2p conf server ok ch =
     (if ok \<and> P2PToken conf \<noteq> [] \<and> \<not> P2S2PEnable conf then ch\<lparr>p2pStarted := p2pStarted ch @ [server]\<rparr> else ch)"

lemma init_servers_Cons:
  "init_servers known es (server # servers) success (ch, w) =
     (if \<not> known server then init_servers known es servers success (ch, w)
      else (case conns_loop server (es server) (nat (ConnsPerServer (p2s2p_conf (chConf ch)))) 0 (p2s2p (chConf ch)) success
              (ch\<lparr>chConf := p2s2p_conf (chConf ch)\<rparr>, w) of
              (None, cw') \<Rightarrow> (None, cw')
            | (Some success', (ch', w')) \<Rightarrow>
                init_servers known es servers success' (note_p2p (p2s2p_conf (chConf ch)) server success' ch', w')))"
  by (simp only: init_servers.simps Let_def p2s2p_conf_def [symmetric] p2s2p_def [symmetric] note_p2p_def [symmetric])

lemma p2s2p_conf_same: "same_servers (p2s2p_conf c) c"
  by (simp add: same_servers_def p2s2p_conf_def)

lemma note_p2p_conf [frame_simps]: "chConf (note_p2p conf server ok ch) = chConf ch"
  by (simp add: note_p2p_def)

lemma same_servers_trans: "same_servers a b \<Longrightarrow> same_servers b c \<Longrightarrow> same_servers a c"
  by (simp add: same_servers_def)

lemma init_servers_success:
  "init_servers known es servers success (ch, w) = (Some b, (ch', w')) \<Longrightarrow>
   same_servers (chConf ch') (chConf ch) \<and>
    (b \<longleftrightarrow> success \<or> (0 < ConnsPerServer (chConf ch) \<and> (\<exists>s \<in> set servers. known s \<and> eCreate (es s 0) \<and> eAuth (es s 0))))"
proof (induction servers arbitrary: success ch w)
  case Nil
  then show ?case by (simp add: same_servers_def)
next
  case (Cons server servers)
  show ?case
  proof (cases "known server")
    case False
    then show ?thesis using Cons by simp
  next
    case True
    let ?conf = "p2s2p_conf (chConf ch)"
    obtain r ch1 w1 where 1: "conns_loop server (es server) (nat (ConnsPerServer ?conf)) 0 (p2s2p (chConf ch)) success
        (ch\<lparr>chConf := ?conf\<rparr>, w) = (r, (ch1, w1))" by (rule prod_cases3)
    obtain b1 where r: "r = Some b1" using Cons.prems True 1 by (cases r) (simp_all only: init_servers_Cons, simp_all)
    have nxt: "init_servers known es servers b1 (note_p2p ?conf server b1 ch1, w1) = (Some b, (ch', w'))"
      using Cons.prems True 1 r by (simp only: init_servers_Cons) simp
    from conns_loop_success [OF 1 [unfolded r]]
    have c1: "chConf ch1 = ?conf"
      and b1: "b1 \<longleftrightarrow> success \<or> (0 < ConnsPerServer ?conf \<and> eCreate (es server 0) \<and> eAuth (es server 0))" by auto
    have s: "same_servers (chConf (note_p2p ?conf server b1 ch1)) (chConf ch)"
      using p2s2p_conf_same c1 by (simp add: note_p2p_conf)
    have n: "ConnsPerServer ?conf = ConnsPerServer (chConf ch)" using p2s2p_conf_same by (simp add: same_servers_def)
    from Cons.IH [OF nxt] have ih: "same_servers (chConf ch') (chConf (note_p2p ?conf server b1 ch1))"
      "b \<longleftrightarrow> b1 \<or> (0 < ConnsPerServer (chConf ch) \<and> (\<exists>s \<in> set servers. known s \<and> eCreate (es s 0) \<and> eAuth (es s 0)))"
      using s by (simp_all add: same_servers_def)
    show ?thesis using same_servers_trans [OF ih(1) s] ih(2) b1 n True by auto
  qed
qed

lemma channel_Init_up:
  assumes "channel_Init known es (NewProxyChannel c) (t, w) = (Some b, ch, (t', w'))"
  shows "(b \<longleftrightarrow> channel_up known es c) \<and> dom t' = (if channel_up known es c then insert (pcName c) (dom t) else dom t)"
proof -
  obtain r ch1 w1 where 1: "init_servers known es (ServerList c) False (NewProxyChannel c, w) = (r, (ch1, w1))"
    by (metis prod_cases3)
  have "r = Some b" using assms 1 by (auto simp: channel_Init_def NewProxyChannel_def split: option.splits)
  with init_servers_success [of known es "ServerList c" False "NewProxyChannel c" w b ch1 w1] 1 assms show ?thesis
    by (auto simp: channel_Init_def channel_up_def same_servers_def NewProxyChannel_def split: if_splits)
qed

lemma init_channels_dom:
  "init_channels e l cs (t, w) = Some (t', w') \<Longrightarrow>
   dom t' = dom t \<union> pcName ` {c \<in> set cs. channel_up (seKnown e) (transport e l c) c}"
proof (induction cs arbitrary: t w)
  case (Cons c cs)
  obtain r ch t1 w1 where 1: "channel_Init (seKnown e) (transport e l c) (NewProxyChannel c) (t, w) = (r, ch, (t1, w1))"
    by (metis prod_cases4)
  obtain b where r: "r = Some b" using Cons.prems 1 by (cases r) auto
  with Cons.prems 1 have "init_channels e l cs (t1, w1) = Some (t', w')" by simp
  from Cons.IH [OF this] channel_Init_up [OF 1 [unfolded r]] show ?case by (cases "channel_up (seKnown e) (transport e l c) c") auto
qed simp

lemma transport_up [simp]: "channel_up known (transport e l c) d = channel_up known (seTransport e c) d"
  by (simp add: channel_up_def transport_def)

section \<open>Properties\<close>

text \<open>C19: when a client has been started, its table holds exactly the enabled channels of the completed configuration for which
  one server accepts the first connection, whatever the order in which the channels come up, and every proxy has its listener.\<close>

theorem started_channels_exact:
  assumes "StartProxy nm arch e cl = Some (ok, cl')" "clTable cl = Map.empty"
    and "\<And>cs. set (seOrder e cs) = set cs"
  shows "ok \<and> dom (clTable cl') = pcName ` {c \<in> set (lcChannel (LocalConfig_init nm arch (clConf cl))).
        Enable c \<and> channel_up (seKnown e) (seTransport e c) c} \<and>
    svRunning (clServers cl') \<and> length (svListeners (clServers cl')) = length (ccProxy (clConf cl)) \<and>
    (\<forall>i < length (ccProxy (clConf cl)). svListeners (clServers cl') ! i \<noteq> None)"
proof -
  let ?conf = "LocalConfig_init nm arch (clConf cl)"
  have p: "ccProxy ?conf = ccProxy (clConf cl)" by (simp add: LocalConfig_init_def Let_def)
  obtain t w sv where 1: "init_channels e (clLimit cl) (seOrder e (filter Enable (lcChannel ?conf))) (Map.empty, clWorld cl) = Some (t, w)"
    and 2: "startLocalServers (seResolves e) (seListens e) (length (ccProxy (clConf cl))) (clServers cl) = Some sv"
    and 3: "ok" "clTable cl' = t" "clServers cl' = sv"
    using assms(1,2) p by (auto simp: StartProxy_def Let_def split: option.splits)
  from init_channels_dom [OF 1] assms(3) have "dom t = pcName ` {c \<in> set (lcChannel ?conf). Enable c \<and> channel_up (seKnown e) (seTransport e c) c}"
    by auto
  with started_all_listen [OF 2] 3 show ?thesis by simp
qed

definition plain_start :: start_env where
  "plain_start = \<lparr>seKnown = (\<lambda>s. s = ''direct://0.0.0.0:0''), seTransport = (\<lambda>_ _ _. good_env), seOrder = (\<lambda>cs. cs),
     seResolves = (\<lambda>_. True), seListens = Some, seMarkable = False\<rparr>"

definition fresh_client :: "client_conf \<Rightarrow> udpSessionId list client" where
  "fresh_client conf = \<lparr>clConf = conf, clTable = Map.empty, clWorld = no_sessions, clHosts = no_hosts,
     clServers = \<lparr>svRunning = False, svListeners = [], svActive = [], svClosedConns = {}, svClosedListeners = {}, svGw = gw_init [] no_hosts\<rparr>,
     clMux = zero_mux, clLimit = no_limit, clUPNP = 0, clMark = 0, clListFetching = False, clAdmin = False\<rparr>"

lemma plain_start_simps [simp]:
  "seKnown plain_start = (\<lambda>s. s = ''direct://0.0.0.0:0'')" "seTransport plain_start = (\<lambda>_ _ _. good_env)" "seOrder plain_start = (\<lambda>cs. cs)"
  "seResolves plain_start = (\<lambda>_. True)" "seListens plain_start = Some"
  by (simp_all add: plain_start_def)

lemma start_each_all: "\<exists>sv'. start_each (\<lambda>_. True) Some is sv = Some sv'"
  by (induction "is" arbitrary: sv) (simp_all add: startLocalProxyServer_def)

lemma started_channels_exact_witness:
  "\<exists>cl'. StartProxy example_names ''amd64'' plain_start (fresh_client zero_conf) = Some (True, cl') \<and> dom (clTable cl') = {''direct''}"
proof -
  let ?c = "LocalConfig_init example_names ''amd64'' zero_conf"
  have c: "lcChannel ?c = [default_direct]" by (simp add: LocalConfig_init_def zero_conf_def)
  have "\<exists>tw. init_channels plain_start l [default_direct] tw0 = Some tw" for l tw0
    by (cases tw0) (simp add: channel_Init_def default_direct_def zero_channel_def NewProxyChannel_def direct_server_def transport_def good_env_def
      Let_def createMuxSessionByProxy_def holder_init_def new_holder_def split: prod.splits)
  then obtain t w where i: "init_channels plain_start (clLimit (fresh_client zero_conf)) [default_direct] (Map.empty, no_sessions) = Some (t, w)"
    by (metis surj_pair)
  have e: "Enable default_direct" by (simp add: default_direct_def)
  obtain sv where "startLocalServers (\<lambda>_. True) Some (length (ccProxy ?c)) (clServers (fresh_client zero_conf)) = Some sv"
    using start_each_all by (auto simp: startLocalServers_def)
  then have "\<exists>cl'. StartProxy example_names ''amd64'' plain_start (fresh_client zero_conf) = Some (True, cl')"
    using i c e by (simp add: StartProxy_def fresh_client_def Let_def)
  then obtain cl' where s: "StartProxy example_names ''amd64'' plain_start (fresh_client zero_conf) = Some (True, cl')" by blast
  have conf: "clConf (fresh_client zero_conf) = zero_conf" "clTable (fresh_client zero_conf) = Map.empty" by (simp_all add: fresh_client_def)
  have "channel_up (seKnown plain_start) (\<lambda>_ _. good_env) default_direct" "pcName default_direct = ''direct''"
    by (simp_all add: channel_up_def default_direct_def direct_server_def DirectChannelName_def good_env_def)
  with started_channels_exact [OF s conf(2)] e have "dom (clTable cl') = {''direct''}"
    by (simp add: conf c) blast
  with s show ?thesis by blast
qed


definition one_channel :: "udpSessionId list client" where
  "one_channel = (fresh_client zero_conf)\<lparr>clTable := [''a'' \<mapsto> (NewProxyChannel zero_channel)\<lparr>sessions := [(new_holder ''s'')\<lparr>muxSession := Some 4\<rparr>]\<rparr>]\<rparr>"


text \<open>the list is installed by the first answer that can be used, after a pause of five seconds for each failure before.\<close>

lemma list_first_good_fetch:
  assumes "new b = Some g"
  shows "gfw_rounds new add gc (replicate n GetFails @ [GetResp 200 (Some b)]) cur =
    (replicate n 5 @ [(if gcPeriod gc \<le> 0 then 1440 else gcPeriod gc) * 60], Some (fold add (gcUserRule gc) g))"
  by (induction n) (simp_all add: loadGFWList_def gfw_period_def assms Let_def)

text \<open>an answer that refuses the list counts as a success: the next try is made after the whole period, a day by default.\<close>

lemma refused_list_counts_as_success:
  assumes "status \<noteq> 200"
  shows "gfw_rounds new add gc [GetResp status body] cur = ([(if gcPeriod gc \<le> 0 then 1440 else gcPeriod gc) * 60], cur)"
  by (simp add: loadGFWList_def gfw_period_def assms Let_def)

text \<open>a configuration that cannot be read is not reported: the client starts with the direct channel and no proxy.\<close>

lemma unreadable_config_starts:
  "loadClientConf nm arch json None = (True, zero_conf\<lparr>lcChannel := [default_direct]\<rparr>)"
  by (simp add: loadClientConf_def ReadWithoutComment_def LocalConfig_init_def zero_conf_def)

end
