(* ===== verification/Startup.thy ===== *)
theory Startup
  imports LocalStart ServerSession
begin

text \<open>
  The two kinds of process: \<open>main.go\<close> (flags, the choice between client and server, the configurations that are built
  from flags or read from a file), \<open>remote/config.go\<close> and \<open>remote/proxy.go\<close> (the listeners of a server).
\<close>

section \<open>Flags\<close>

record flags =
  fVersion :: bool
  fCmd :: bool
  fClient :: bool
  fServer :: bool
  fConf :: string
  fKey :: string
  fLog :: string
  fWindow :: string
  fWindowRefresh :: string
  fPingInterval :: int
  fStreamIdle :: int
  fUser :: string
  fWhite :: "string list"
  fBlack :: "string list"
  fAdmin :: string
  fMitm :: bool
  fDumpFilters :: "string list"
  fHops :: "string list"            \<comment> \<open>\<open>-remote\<close>\<close>
  fForwards :: "string list"
  fListens :: "string list"
  fP2P :: string
  fServable :: bool
  fProxy :: string
  fUpnp :: int
  fP2s2p :: bool
  fTlsKey :: string
  fTlsCert :: string

text \<open>The defaults of the flags.\<close>

definition no_flags :: flags where
  "no_flags = \<lparr>fVersion = False, fCmd = False, fClient = False, fServer = False, fConf = [],
     fKey = ''809240d3a021449f6e67aa73221d42df942a308a'', fLog = ''color,gsnova.log'', fWindow = [], fWindowRefresh = [],
     fPingInterval = 30, fStreamIdle = 10, fUser = ''gsnova'', fWhite = [], fBlack = [], fAdmin = [], fMitm = False,
     fDumpFilters = [], fHops = [], fForwards = [], fListens = [], fP2P = [], fServable = False, fProxy = [], fUpnp = 0,
     fP2s2p = False, fTlsKey = [], fTlsCert = []\<rparr>"

datatype run_mode = PrintVersion | AsClient | AsServer | BothModes

definition choose_mode :: "flags \<Rightarrow> run_mode" where
  "choose_mode f =
     (if fVersion f then PrintVersion
      else if \<not> fServer f \<and> \<not> fClient f then AsClient
      else if fClient f \<noteq> fServer f then (if fClient f then AsClient else AsServer)
      else BothModes)"

section \<open>A server's configuration\<close>

record listen_conf =
  liListen :: string
  liCert :: string
  liKey :: string
  liKCP :: KCPBaseConfig

record server_conf =
  svCipher :: CipherConfig
  svRate :: "(string \<rightharpoonup> string) option"
  svLimit :: ProxyLimitConfig
  svMux :: MuxConfig
  svLog :: "string list"
  svServer :: "listen_conf list"

definition zero_server :: server_conf where
  "zero_server = \<lparr>svCipher = zero_cipher, svRate = None, svLimit = no_limit, svMux = zero_mux, svLog = [], svServer = []\<rparr>"

text \<open>\<open>InitDefaultConf\<close> of package \<open>remote\<close>: its loop completes copies of the listeners.\<close>

definition remote_InitDefaultConf :: "server_conf \<Rightarrow> server_conf" where
  "remote_InitDefaultConf sc = sc\<lparr>svMux := (svMux sc)\<lparr>StreamIdleTimeout := 10, SessionIdleTimeout := 300\<rparr>\<rparr>"

section \<open>A client from flags\<close>

definition local_proxy :: "flags \<Rightarrow> string \<Rightarrow> string \<Rightarrow> ProxyConfig" where
  "local_proxy f channelName lis =
     \<lparr>pxLocal = lis, pxForward = [], pxMITM = fMitm f, pxTransparent = False, pxDumpDomain = fDumpFilters f,
      pxPAC = [\<lparr>pacMethod = [], pacHost = [], pacURL = [], pacRule = [], pacProtocol = [], pacRemote = channelName\<rparr>]\<rparr>"

text \<open>The forwards go to the proxies with the same number, if there are as many.\<close>

fun set_forwards :: "nat \<Rightarrow> string list \<Rightarrow> ProxyConfig list \<Rightarrow> ProxyConfig list" where
  "set_forwards i [] ps = ps"
| "set_forwards i (fw # fws) ps = set_forwards (i + 1) fws (if length ps > i then ps[i := (ps ! i)\<lparr>pxForward := fw\<rparr>] else ps)"

definition default_channel :: "flags \<Rightarrow> ProxyChannelConfig" where
  "default_channel f = zero_channel\<lparr>Enable := True, pcName := ''default'', ConnsPerServer := 3, HeartBeatPeriod := fPingInterval f,
     ServerList := [hd (fHops f)], Hops := tl (fHops f), P2PToken := fP2P f, P2S2PEnable := fP2s2p f, pcProxy := fProxy f\<rparr>"

definition is_direct_hop :: "flags \<Rightarrow> bool" where
  "is_direct_hop f \<longleftrightarrow> EqualFold (hd (fHops f)) DirectChannelName"

text \<open>The configuration of a client that is started without a configuration file; None is the message about a missing
  argument. \<open>base\<close> is \<open>GConf\<close> before.\<close>

definition client_from_flags :: "flags \<Rightarrow> client_conf \<Rightarrow> client_conf option" where
  "client_from_flags f base =
     (if fHops f = [] then None
      else if fListens f = [] \<and> (fP2P f = [] \<or> \<not> fServable f) then None
      else
        (let channelName = (if is_direct_hop f then DirectChannelName else ''default'');
             conf = base\<lparr>ccUPNP := fUpnp f, ccAdmin := fAdmin f,
               ccMux := (ccMux base)\<lparr>MaxStreamWindow := fWindow f, StreamMinRefresh := fWindowRefresh f, StreamIdleTimeout := fStreamIdle f\<rparr>,
               lcCipher := (lcCipher base)\<lparr>CKey := fKey f, CMethod := ''auto'', User := fUser f\<rparr>,
               ccLog := Split (fLog f) CHR '','',
               ccProxy := set_forwards 0 (fForwards f) (ccProxy base @ map (local_proxy f channelName) (fListens f))\<rparr>;
             conf = (if is_direct_hop f then conf else conf\<lparr>lcChannel := [default_channel f]\<rparr>)
         in Some (conf\<lparr>ccLimit := \<lparr>WhiteList = (if fWhite f = [] \<and> fBlack f = [] \<and> fServable f then [''*''] else fWhite f), BlackList = fBlack f\<rparr>\<rparr>)))"

text \<open>The cipher the client uses as a server for its peers.\<close>

definition peer_cipher :: "client_conf \<Rightarrow> CipherConfig" where
  "peer_cipher conf = AllowUsers (User (lcCipher conf)) (lcCipher conf)"

section \<open>A server process\<close>

text \<open>A listener from flags; its mode is that of the defaults.\<close>

definition listen_from_flags :: "flags \<Rightarrow> string \<Rightarrow> listen_conf" where
  "listen_from_flags f lis =
     (let both = fTlsCert f \<noteq> [] \<and> fTlsKey f \<noteq> []
      in \<lparr>liListen = lis, liCert = (if both then fTlsCert f else []), liKey = (if both then fTlsKey f else []),
          liKCP = adjustByMode (InitDefaultConf zero_kcp)\<rparr>)"

definition server_from_flags :: "flags \<Rightarrow> server_conf \<Rightarrow> server_conf option" where
  "server_from_flags f sc =
     (if fListens f = [] then None
      else
        (let sc = sc\<lparr>svServer := svServer sc @ map (listen_from_flags f) (fListens f)\<rparr>;
             sc = (if fKey f \<noteq> [] then sc\<lparr>svCipher := (svCipher sc)\<lparr>CKey := fKey f\<rparr>\<rparr> else sc);
             sc = (if fUser f \<noteq> [] then sc\<lparr>svCipher := (svCipher sc)\<lparr>User := fUser f\<rparr>\<rparr> else sc);
             sc = (if fLog f \<noteq> [] then sc\<lparr>svLog := Split (fLog f) CHR '',''\<rparr> else sc);
             sc = (if fWindow f \<noteq> [] then sc\<lparr>svMux := (svMux sc)\<lparr>MaxStreamWindow := fWindow f\<rparr>\<rparr> else sc)
         in Some (if fWindowRefresh f \<noteq> [] then sc\<lparr>svMux := (svMux sc)\<lparr>StreamMinRefresh := fWindowRefresh f\<rparr>\<rparr> else sc)))"

text \<open>A configuration file: \<open>exists\<close> is whether there is one; what the decoder makes of it, or its error.\<close>

definition server_from_file :: "(string \<Rightarrow> server_conf \<Rightarrow> server_conf option) \<Rightarrow> bool \<Rightarrow> string option \<Rightarrow> server_conf \<Rightarrow> server_conf option" where
  "server_from_file json exists file sc =
     (if \<not> exists then Some sc
      else case ReadWithoutComment file ''//'' of None \<Rightarrow> None | Some data \<Rightarrow> json data sc)"

text \<open>The globals of package \<open>channel\<close> that a server process sets, and the rest of them.\<close>

record server_globals =
  sgRate :: "(string \<rightharpoonup> string) option"      \<comment> \<open>\<open>DefaultServerRateLimit\<close>\<close>
  sgMux :: MuxConfig                        \<comment> \<open>\<open>defaultMuxConfig\<close>\<close>
  sgCipher :: CipherConfig                  \<comment> \<open>\<open>DefaultServerCipher\<close>\<close>
  sgLimit :: ProxyLimitConfig               \<comment> \<open>\<open>defaultProxyLimitConfig\<close>\<close>

definition server_globals_init :: server_globals where
  "server_globals_init = \<lparr>sgRate = None, sgMux = zero_mux, sgCipher = zero_cipher, sgLimit = no_limit\<rparr>"

definition start_server :: "(string \<Rightarrow> server_conf \<Rightarrow> server_conf option) \<Rightarrow> bool \<Rightarrow> string option \<Rightarrow> string \<Rightarrow> flags \<Rightarrow> server_globals \<Rightarrow>
    (server_conf \<times> server_globals) option" where
  "start_server json exists file envKey f g =
     (let sc = remote_InitDefaultConf zero_server in
      case (if fCmd f then server_from_flags f sc else server_from_file json exists file sc) of
        None \<Rightarrow> None
      | Some sc \<Rightarrow>
          (let sc = (if envKey \<noteq> [] then sc\<lparr>svCipher := (svCipher sc)\<lparr>CKey := envKey\<rparr>\<rparr> else sc);
               sc = sc\<lparr>svCipher := AllowUsers (User (svCipher sc)) (svCipher sc)\<rparr>
           in Some (sc, g\<lparr>sgRate := svRate sc, sgMux := svMux sc, sgCipher := svCipher sc\<rparr>)))"

section \<open>The listeners of a server\<close>

text \<open>What is started for a listener: its kind, host, and the settings it runs with.\<close>

datatype tls_choice = OwnCert string string | GeneratedCert

datatype served =
    ServeQuic string tls_choice
  | ServeKCP string KCPBaseConfig
  | ServeTCP string
  | ServeTLS string tls_choice
  | ServeHTTP string string string       \<comment> \<open>host, certificate and key; no certificate is plain HTTP\<close>
  | ServeHTTP2 string tls_choice

text \<open>\<open>loads\<close> is whether the certificate and the key can be loaded.\<close>

definition generateTLSConfig :: "(string \<Rightarrow> string \<Rightarrow> bool) \<Rightarrow> string \<Rightarrow> string \<Rightarrow> tls_choice option" where
  "generateTLSConfig loads cert key =
     (if cert \<noteq> [] then (if loads cert key then Some (OwnCert cert key) else None) else Some GeneratedCert)"

text \<open>One turn of the loop. The functions that are started as goroutines refer to the loop's variable: they find in it
  \<open>seen\<close>, the listener the loop has come to by the time they look; what is computed in the turn itself uses \<open>lis\<close>.\<close>

definition start_listener :: "(string \<Rightarrow> URL option) \<Rightarrow> (string \<Rightarrow> string \<Rightarrow> bool) \<Rightarrow> listen_conf \<Rightarrow> listen_conf \<Rightarrow> served option" where
  "start_listener parse loads seen lis =
     (case parse (liListen lis) of None \<Rightarrow> None
      | Some u \<Rightarrow>
          (if Scheme u = ''quic'' then map_option (ServeQuic (uHost u)) (generateTLSConfig loads (liCert lis) (liKey lis))
           else if Scheme u = ''kcp'' then Some (ServeKCP (uHost u) (liKCP seen))
           else if Scheme u = ''tcp'' then Some (ServeTCP (uHost u))
           else if Scheme u = ''tls'' then map_option (ServeTLS (uHost u)) (generateTLSConfig loads (liCert lis) (liKey lis))
           else if Scheme u = ''http'' then Some (ServeHTTP (uHost u) [] [])
           else if Scheme u = ''https'' then Some (ServeHTTP (uHost u) (liCert seen) (liKey seen))
           else if Scheme u = ''http2'' then map_option (ServeHTTP2 (uHost u)) (generateTLSConfig loads (liCert lis) (liKey lis))
           else None))"

text \<open>\<open>seen i\<close> is how far the loop is when the goroutine of turn \<open>i\<close> looks: at turn \<open>i\<close> or later.\<close>

definition StartRemoteProxy :: "(string \<Rightarrow> URL option) \<Rightarrow> (string \<Rightarrow> string \<Rightarrow> bool) \<Rightarrow> (nat \<Rightarrow> nat) \<Rightarrow> listen_conf list \<Rightarrow> served option list" where
  "StartRemoteProxy parse loads seen ls = map (\<lambda>i. start_listener parse loads (ls ! seen i) (ls ! i)) [0..<length ls]"

definition loop_order :: "(nat \<Rightarrow> nat) \<Rightarrow> listen_conf list \<Rightarrow> bool" where
  "loop_order seen ls \<longleftrightarrow> (\<forall>i < length ls. i \<le> seen i \<and> seen i < length ls)"

section \<open>The process\<close>

text \<open>\<open>main\<close> after the flags have been read: it ends with a message, or a client (and whether its start has failed) or a
  server runs; None is the end of a client by a panic or a fatal log entry.\<close>

datatype 't process = Quits | ClientRuns bool "'t client" | ServerRuns server_conf server_globals "served option list"

record 't outside =
  osNames :: cipher_names
  osArch :: string
  osClientJson :: "string \<Rightarrow> client_conf \<Rightarrow> client_conf"
  osServerJson :: "string \<Rightarrow> server_conf \<Rightarrow> server_conf option"
  osFile :: "string \<Rightarrow> string option"
  osExists :: "string \<Rightarrow> bool"
  osWatcher :: bool
  osHosts :: "hosts \<Rightarrow> bool \<times> hosts"
  osStart :: start_env
  osEnvKey :: string
  osClient :: "'t client"                  \<comment> \<open>the globals of a client before the start\<close>
  osParse :: "string \<Rightarrow> URL option"
  osLoads :: "string \<Rightarrow> string \<Rightarrow> bool"
  osSeen :: "nat \<Rightarrow> nat"

definition conf_file :: "string \<Rightarrow> flags \<Rightarrow> string" where
  "conf_file std f = (if fConf f = [] then std else fConf f)"

definition run_client :: "'t outside \<Rightarrow> flags \<Rightarrow> 't process option" where
  "run_client os f =
     (let start = (\<lambda>op cl. map_option (\<lambda>(ok, cl). ClientRuns ok cl)
            (Start (osNames os) (osArch os) (osClientJson os) (osWatcher os) (osFile os (opConfig op)) (osHosts os) (osStart os) op cl));
          cl = (osClient os)\<lparr>clConf := (clConf (osClient os))\<lparr>ccUPNP := fUpnp f\<rparr>\<rparr>
      in if fCmd f then
           (case client_from_flags f (clConf cl) of None \<Rightarrow> Some Quits
            | Some conf \<Rightarrow> start \<lparr>opConfig = [], opWatch = False\<rparr> (cl\<lparr>clConf := conf\<rparr>))
         else start \<lparr>opConfig = conf_file ''./client.json'' f, opWatch = True\<rparr> cl)"

definition run_server :: "'t outside \<Rightarrow> flags \<Rightarrow> 't process" where
  "run_server os f =
     (let path = conf_file ''./server.json'' f in
      case start_server (osServerJson os) (osExists os path) (osFile os path) (osEnvKey os) f server_globals_init of
        None \<Rightarrow> Quits
      | Some (sc, g) \<Rightarrow> ServerRuns sc g (StartRemoteProxy (osParse os) (osLoads os) (osSeen os) (svServer sc)))"

definition gsnova_main :: "'t outside \<Rightarrow> flags \<Rightarrow> 't process option" where
  "gsnova_main os f =
     (case choose_mode f of
        AsClient \<Rightarrow> run_client os f
      | AsServer \<Rightarrow> Some (run_server os f)
      | _ \<Rightarrow> Some Quits)"

section \<open>Properties\<close>

lemma map_forward: "(\<And>p. g (p\<lparr>pxForward := fw\<rparr>) = g p) \<Longrightarrow> map g (ps[i := (ps ! i)\<lparr>pxForward := fw\<rparr>]) = map g ps"
  by (cases "i < length ps") (simp_all add: map_update list_update_same_conv list_update_beyond)

lemma set_forwards_pac: "map pxPAC (set_forwards i fws ps) = map pxPAC ps \<and> map pxLocal (set_forwards i fws ps) = map pxLocal ps"
  by (induction i fws ps rule: set_forwards.induct) (simp_all add: map_forward)

lemma Adjust_frame:
  "pcName (Adjust nm arch c) = pcName c" "Enable (Adjust nm arch c) = Enable c" "ServerList (Adjust nm arch c) = ServerList c"
  "Hops (Adjust nm arch c) = Hops c" "P2PToken (Adjust nm arch c) = P2PToken c" "User (Cipher (Adjust nm arch c)) = User (Cipher c)"
  "CKey (Cipher (Adjust nm arch c)) = CKey (Cipher c)"
  by (simp_all add: Adjust_def Adjust_defaults_def Let_def cipher_Adjust_method)

lemma Adjust_compressor: "IsValidCompressor (Compressor (Adjust nm arch c))"
  by (simp add: Adjust_def Adjust_defaults_def Let_def adjust_simps)

lemma init_channel_frame:
  assumes "pcName c \<noteq> DirectChannelName"
  shows "pcName (init_channel nm arch cfg c) = pcName c" "Enable (init_channel nm arch cfg c) = Enable c"
    "ServerList (init_channel nm arch cfg c) = ServerList c" "Hops (init_channel nm arch cfg c) = Hops c"
    "P2PToken (init_channel nm arch cfg c) = P2PToken c"
    "User (Cipher (init_channel nm arch cfg c)) = (if CKey (Cipher c) = [] then User (lcCipher cfg) else User (Cipher c))"
    "CKey (Cipher (init_channel nm arch cfg c)) = (if CKey (Cipher c) = [] then CKey (lcCipher cfg) else CKey (Cipher c))"
  using assms by (simp_all add: init_channel_def Let_def Adjust_frame is_direct_def)

lemma default_channel_simps:
  "pcName (default_channel f) \<noteq> DirectChannelName" "pcName (default_channel f) = ''default''" "Enable (default_channel f)"
  "ServerList (default_channel f) = [hd (fHops f)]" "Hops (default_channel f) = tl (fHops f)" "P2PToken (default_channel f) = fP2P f"
  "CKey (Cipher (default_channel f)) = []"
  by (simp_all add: default_channel_def zero_channel_def DirectChannelName_def)

text \<open>C18: a client started from flags listens on the addresses of its flags and sends every request of every one of them to one channel:
  an enabled channel of its configuration, which has the first of the servers named as its only server and the others as
  its further hops, or is the direct channel when the first is called \<open>direct\<close>.\<close>

theorem flags_select_channel:
  assumes "client_from_flags f zero_conf = Some conf0" "conf = LocalConfig_init nm arch conf0" "px \<in> set (ccProxy conf)"
  shows "map pxLocal (ccProxy conf) = fListens f \<and>
    (\<exists>c \<in> set (lcChannel conf). Enable c \<and> findProxyChannelByRequest v px proto ip (Some q) h = (Some (pcName c), h) \<and>
       (if is_direct_hop f then ServerList c = direct_server else ServerList c = [hd (fHops f)] \<and> Hops c = tl (fHops f)))"
proof -
  let ?n = "if is_direct_hop f then DirectChannelName else ''default''"
  let ?ps = "map (local_proxy f ?n) (fListens f)"
  have conf0: "ccProxy conf0 = set_forwards 0 (fForwards f) ?ps"
    "lcChannel conf0 = (if is_direct_hop f then [] else [default_channel f])"
    using assms(1) by (auto simp: client_from_flags_def Let_def zero_conf_def split: if_splits)
  have px: "ccProxy conf = ccProxy conf0" by (simp add: assms(2) LocalConfig_init_def Let_def)
  have loc: "map pxLocal (ccProxy conf) = fListens f" using set_forwards_pac [of 0 "fForwards f" ?ps] by (simp add: px conf0 local_proxy_def comp_def)
  have "pxPAC px \<in> set (map pxPAC ?ps)"
    using assms(3) set_forwards_pac [of 0 "fForwards f" ?ps] by (metis conf0(1) image_eqI px set_map)
  then have pac: "pxPAC px = [any_pac ?n]" by (auto simp: local_proxy_def any_pac_def)
  have find: "findProxyChannelByRequest v px proto ip (Some q) h = (Some ?n, h)"
    using find_pac_static [of "pxPAC px" v proto ip q h]
    by (simp add: findProxyChannelByRequest_def pac static_match_def any_pac_def matchProtocol_def MatchPatterns_def)
  have c: "\<exists>c \<in> set (lcChannel conf). Enable c \<and> pcName c = ?n \<and>
      (if is_direct_hop f then ServerList c = direct_server else ServerList c = [hd (fHops f)] \<and> Hops c = tl (fHops f))"
  proof (cases "is_direct_hop f")
    case True
    then have "default_direct \<in> set (lcChannel conf)" by (simp add: assms(2) conf0 LocalConfig_init_def)
    with True show ?thesis by (force simp: default_direct_def)
  next
    case False
    let ?c = "init_channel nm arch conf0 (default_channel f)"
    have "?c \<in> set (lcChannel conf)" using False by (simp add: assms(2) conf0 LocalConfig_init_def Let_def)
    moreover have "Enable ?c \<and> pcName ?c = ''default'' \<and> ServerList ?c = [hd (fHops f)] \<and> Hops ?c = tl (fHops f)"
      using default_channel_simps (2-) by (simp add: init_channel_frame [OF default_channel_simps(1)])
    ultimately show ?thesis using False by auto
  qed
  from c obtain c where "c \<in> set (lcChannel conf)" "Enable c" "pcName c = ?n"
    "if is_direct_hop f then ServerList c = direct_server else ServerList c = [hd (fHops f)] \<and> Hops c = tl (fHops f)"
    by (elim bexE conjE)
  with loc find show ?thesis by (intro conjI bexI [of _ c]) (simp_all only:)
qed

definition two_hop_flags :: flags where
  "two_hop_flags = no_flags\<lparr>fCmd := True, fHops := [''tcp://a:1'', ''tcp://b:2''], fListens := ['':48100'']\<rparr>"

lemma flags_select_channel_witness:
  "map pxLocal (ccProxy (LocalConfig_init example_names ''amd64'' (the (client_from_flags two_hop_flags zero_conf)))) = ['':48100'']"
proof -
  have s: "client_from_flags two_hop_flags zero_conf = Some (the (client_from_flags two_hop_flags zero_conf))"
    by (simp add: client_from_flags_def two_hop_flags_def no_flags_def Let_def)
  have "local_proxy two_hop_flags ''default'' '':48100'' \<in> set (ccProxy (LocalConfig_init example_names ''amd64'' (the (client_from_flags two_hop_flags zero_conf))))"
    by (simp add: client_from_flags_def two_hop_flags_def no_flags_def Let_def LocalConfig_init_def zero_conf_def is_direct_hop_def EqualFold_def
      ToLower_def lower_def DirectChannelName_def char_of_eq_iff)
  from flags_select_channel [OF s refl this, of plain_env "''https''" "[]" example_req no_hosts]
  show ?thesis by (simp add: two_hop_flags_def)
qed

lemma server_from_flags_cipher:
  assumes "server_from_flags f sc = Some sc'" "fKey f \<noteq> []" "fUser f \<noteq> []"
  shows "svCipher sc' = (svCipher sc)\<lparr>CKey := fKey f, User := fUser f\<rparr>"
proof -
  have "fListens f \<noteq> []" using assms(1) by (auto simp: server_from_flags_def)
  then have "svCipher (the (server_from_flags f sc)) = (svCipher sc)\<lparr>CKey := fKey f, User := fUser f\<rparr>"
    using assms(2,3) by (simp add: server_from_flags_def Let_def if_distrib [of svCipher] if_distribR)
  then show ?thesis using assms(1) by simp
qed

text \<open>C17: a client and a server that are started from flags with the same key and the same user understand each other: both
  encrypt with the same key from the start, and the server accepts the client's authentication, whatever the two tell each
  other about multiplexing.\<close>

theorem flags_peers_authenticate:
  assumes "client_from_flags fc zero_conf = Some conf0" "\<not> is_direct_hop fc" "fP2P fc = []"
    and "start_server json exists file [] fs g = Some (sc, g')" "fCmd fs"
    and "fKey fc = fKey fs" "fKey fs \<noteq> []" "fUser fc = fUser fs" "fUser fs \<noteq> []" "CHR '','' \<notin> set (fUser fs)"
  shows "\<exists>c \<in> set (lcChannel (LocalConfig_init nm arch conf0)). pcName c = ''default'' \<and>
    pmCipherKey (InitialPMuxConfig rnd pm m (Cipher c)) = pmCipherKey (InitialPMuxConfig rnd pm m' (sgCipher g')) \<and>
    (\<exists>eff. serverAuthSession (sgCipher g') order session raddr isFirst isPmux (Inr (client_auth_request c connID meth pri pub False)) rooms =
       (Inr (client_auth_request c connID meth pri pub False), eff))"
proof -
  let ?c = "init_channel nm arch conf0 (default_channel fc)"
  have conf0: "lcChannel conf0 = [default_channel fc]" "CKey (lcCipher conf0) = fKey fc" "User (lcCipher conf0) = fUser fc"
    using assms(1,2) by (auto simp: client_from_flags_def Let_def split: if_splits)
  have mem: "?c \<in> set (lcChannel (LocalConfig_init nm arch conf0))" by (simp add: conf0 LocalConfig_init_def Let_def)
  have name: "pcName ?c = ''default''" using default_channel_simps(2) by (simp add: init_channel_frame [OF default_channel_simps(1)])
  have key: "CKey (Cipher ?c) = fKey fc" "User (Cipher ?c) = fUser fc" "P2PToken ?c = []"
    using default_channel_simps conf0 assms(3) by (simp_all add: init_channel_frame [OF default_channel_simps(1)])
  have srv: "CKey (sgCipher g') = fKey fs" "allowedUser (sgCipher g') = Split (fUser fs) CHR '',''"
    using assms(4,5,9) server_from_flags_cipher [of fs "remote_InitDefaultConf zero_server", OF _ assms(7,9)]
    by (auto simp: start_server_def Let_def AllowUsers_def split: option.splits)
  have "Split (fUser fs) CHR '','' = [fUser fs]" using Split_Join [of "[fUser fs]" "CHR '',''"] assms(10) by simp
  then have v: "VerifyUser (sgCipher g') (fUser fs)" by (simp add: VerifyUser_def srv)
  have comp: "IsValidCompressor (Compressor ?c)"
    by (simp add: init_channel_def Let_def Adjust_compressor)
  have "\<exists>eff. serverAuthSession (sgCipher g') order session raddr isFirst isPmux (Inr (client_auth_request ?c connID meth pri pub False)) rooms =
       (Inr (client_auth_request ?c connID meth pri pub False), eff)"
    using v comp key assms(8) by (simp add: serverAuthSession_def client_auth_request_def no_raddr_panic_def Let_def)
  moreover have "pmCipherKey (InitialPMuxConfig rnd pm m (Cipher ?c)) = pmCipherKey (InitialPMuxConfig rnd pm m' (sgCipher g'))"
    using key srv assms(6) by (simp add: InitialPMuxConfig_def)
  ultimately show ?thesis using mem name by blast
qed

definition one_listener_flags :: flags where
  "one_listener_flags = no_flags\<lparr>fCmd := True, fServer := True, fListens := [''tcp://:48100'']\<rparr>"

lemma server_flags_start:
  "start_server (\<lambda>_ _. None) False None [] one_listener_flags server_globals_init =
     Some (the (start_server (\<lambda>_ _. None) False None [] one_listener_flags server_globals_init))"
  by (simp add: start_server_def server_from_flags_def one_listener_flags_def no_flags_def Let_def)

lemma flags_peers_authenticate_witness:
  "\<exists>c \<in> set (lcChannel (LocalConfig_init example_names ''amd64'' (the (client_from_flags two_hop_flags zero_conf)))). pcName c = ''default''"
proof -
  have s: "client_from_flags two_hop_flags zero_conf = Some (the (client_from_flags two_hop_flags zero_conf))"
    by (simp add: client_from_flags_def two_hop_flags_def no_flags_def Let_def)
  have d: "\<not> is_direct_hop two_hop_flags"
    by (simp add: two_hop_flags_def no_flags_def is_direct_hop_def EqualFold_def ToLower_def lower_def DirectChannelName_def char_of_eq_iff)
  obtain sc g' where srv: "start_server (\<lambda>_ _. None) False None [] one_listener_flags server_globals_init = Some (sc, g')"
    using server_flags_start by (metis surj_pair)
  have f: "fP2P two_hop_flags = []" "fCmd one_listener_flags" "fKey two_hop_flags = fKey one_listener_flags" "fKey one_listener_flags \<noteq> []"
    "fUser two_hop_flags = fUser one_listener_flags" "fUser one_listener_flags \<noteq> []" "CHR '','' \<notin> set (fUser one_listener_flags)"
    by (simp_all add: two_hop_flags_def one_listener_flags_def no_flags_def)
  from flags_peers_authenticate [OF s d f(1) srv f(2-), of example_names "''amd64''"] show ?thesis by blast
qed

text \<open>no configuration of a server limits what its clients may connect to: neither the section \<open>ProxyLimit\<close> of its file nor the
  flags \<open>-whitelist\<close> and \<open>-blackList\<close> reach the limit that is applied.\<close>

theorem server_limits_ineffective:
  assumes "start_server json exists file envKey f server_globals_init = Some (sc, g)"
  shows "Allowed (sgLimit g) host"
proof -
  have "sgLimit g = no_limit" using assms by (auto simp: start_server_def server_globals_init_def Let_def split: option.splits)
  then show ?thesis by (simp add: Allowed_def no_limit_def)
qed

lemma server_limits_ineffective_witness:
  "Allowed (sgLimit (snd (the (start_server (\<lambda>_ sc. Some (sc\<lparr>svLimit := \<lparr>WhiteList = [], BlackList = [''*'']\<rparr>\<rparr>)) True (Some []) []
     (no_flags\<lparr>fServer := True\<rparr>) server_globals_init)))) ''h:80''"
proof -
  obtain sc g where s: "start_server (\<lambda>_ sc. Some (sc\<lparr>svLimit := \<lparr>WhiteList = [], BlackList = [''*'']\<rparr>\<rparr>)) True (Some []) []
     (no_flags\<lparr>fServer := True\<rparr>) server_globals_init = Some (sc, g)"
    by (auto simp: start_server_def server_from_file_def no_flags_def ReadWithoutComment_def Let_def)
  from server_limits_ineffective [OF s] show ?thesis by (simp add: s)
qed

text \<open>listeners whose goroutines look at once, or that stand alone, run with their own settings.\<close>

lemma single_listener_own_settings:
  assumes "loop_order seen [lis]"
  shows "StartRemoteProxy parse loads seen [lis] = [start_listener parse loads lis lis]"
proof -
  have "seen 0 = 0" using assms by (simp add: loop_order_def)
  then show ?thesis by (simp add: StartRemoteProxy_def)
qed

text \<open>an \<open>https\<close> listener that is followed by a listener without a certificate serves plain HTTP, and a \<open>kcp\<close> listener runs with the
  parameters of the last listener, when their goroutines look after the loop has ended.\<close>

theorem late_goroutine_last_settings:
  assumes "ls \<noteq> []" "i < length ls" "seen i = length ls - 1" "parse (liListen (ls ! i)) = Some u"
  shows "(Scheme u = ''https'' \<longrightarrow> StartRemoteProxy parse loads seen ls ! i = Some (ServeHTTP (uHost u) (liCert (last ls)) (liKey (last ls)))) \<and>
    (Scheme u = ''kcp'' \<longrightarrow> StartRemoteProxy parse loads seen ls ! i = Some (ServeKCP (uHost u) (liKCP (last ls))))"
  using assms by (simp add: StartRemoteProxy_def start_listener_def last_conv_nth)

definition secure_then_plain :: "listen_conf list" where
  "secure_then_plain = [\<lparr>liListen = ''https'', liCert = ''c'', liKey = ''k'', liKCP = zero_kcp\<rparr>, \<lparr>liListen = ''tcp'', liCert = [], liKey = [], liKCP = zero_kcp\<rparr>]"

definition scheme_only :: "string \<Rightarrow> URL option" where
  "scheme_only s = Some \<lparr>Scheme = s, uHost = '':1'', uUser = None, uPath = [], uRawQuery = []\<rparr>"

lemma late_goroutine_last_settings_witness:
  "StartRemoteProxy scheme_only (\<lambda>_ _. True) (\<lambda>_. 1) secure_then_plain ! 0 = Some (ServeHTTP '':1'' [] [])"
  using late_goroutine_last_settings [of secure_then_plain 0 "\<lambda>_. 1" scheme_only "\<lparr>Scheme = ''https'', uHost = '':1'', uUser = None, uPath = [], uRawQuery = []\<rparr>" "\<lambda>_ _. True"]
  by (simp add: secure_then_plain_def scheme_only_def)

text \<open>a \<open>kcp\<close> listener of a file without the section \<open>KCParams\<close> has no parameters at all: the defaults are given to copies, before
  the file is read.\<close>

lemma kcp_without_defaults:
  "svServer (remote_InitDefaultConf sc) = svServer sc"
  by (simp add: remote_InitDefaultConf_def)

end
