(* ===== verification/Transports.thy ===== *)
theory Transports
  imports Startup DirectSsh HelperIO MuxSessions
begin

text \<open>
  The transports between client and server: the table of channel types (\<open>common/channel/common\<close> and the \<open>init\<close>
  functions), how TCP, KCP, QUIC, HTTP/2 and WebSocket sessions are made (\<open>common/channel/*/local.go\<close>) and
  accepted (\<open>common/channel/*/remote.go\<close>), and the HTTP handlers of a server (\<open>remote/web.go\<close>). The
  protocols themselves are third-party packages; their outcomes are arguments.
\<close>

section \<open>Channel types\<close>

text \<open>The \<open>init\<close> functions in the order of the imports.\<close>

definition registered_types :: "(string \<times> string) list" where
  "registered_types =
     fold (\<lambda>(scheme, t). RegisterLocalChannelType scheme t)
       [(''http'', ''HTTPProxy''), (''https'', ''HTTPProxy''), (''http2'', ''HTTP2Proxy''), (''kcp'', ''KCPProxy''), (''quic'', ''QUICProxy''),
        (''ssh'', ''SSHProxy''), (''tcp'', ''TcpProxy''), (''tls'', ''TcpProxy''), (''ws'', ''WebsocketProxy''), (''wss'', ''WebsocketProxy'')]
       (direct_types [])"

record FeatureSet =
  AutoExpire :: bool
  Pingable :: bool

text \<open>What each type tells of itself.\<close>

definition direct_Features :: FeatureSet where "direct_Features = \<lparr>AutoExpire = False, Pingable = False\<rparr>"
definition ssh_Features :: FeatureSet where "ssh_Features = \<lparr>AutoExpire = True, Pingable = True\<rparr>"
definition http_Features :: FeatureSet where "http_Features = \<lparr>AutoExpire = False, Pingable = True\<rparr>"
definition http2_Features :: FeatureSet where "http2_Features = \<lparr>AutoExpire = True, Pingable = True\<rparr>"
definition kcp_Features :: FeatureSet where "kcp_Features = \<lparr>AutoExpire = True, Pingable = True\<rparr>"
definition quic_Features :: FeatureSet where "quic_Features = \<lparr>AutoExpire = True, Pingable = False\<rparr>"
definition tcp_Features :: FeatureSet where "tcp_Features = \<lparr>AutoExpire = True, Pingable = True\<rparr>"
definition ws_Features :: FeatureSet where "ws_Features = \<lparr>AutoExpire = True, Pingable = True\<rparr>"

definition Features :: "string \<Rightarrow> FeatureSet" where
  "Features t =
     (if t = ''DirectProxy'' then direct_Features
      else if t = ''SSHProxy'' then ssh_Features
      else if t = ''HTTPProxy'' then http_Features
      else if t = ''HTTP2Proxy'' then http2_Features
      else if t = ''KCPProxy'' then kcp_Features
      else if t = ''QUICProxy'' then quic_Features
      else if t = ''WebsocketProxy'' then ws_Features
      else tcp_Features)"

section \<open>Making a session\<close>

text \<open>Whether there is a session, and what has been opened and is left without an owner.\<close>

record created =
  crOk :: bool
  crLeaked :: "string list"

definition tcp_CreateMuxSession :: "(server_dial_err \<times> bool) + string option \<Rightarrow> bool \<Rightarrow> created" where
  "tcp_CreateMuxSession outcome pmux =
     (case outcome of
        Inl (_, left) \<Rightarrow> \<lparr>crOk = False, crLeaked = (if left then [''conn''] else [])\<rparr>
      | Inr _ \<Rightarrow> if pmux then \<lparr>crOk = True, crLeaked = []\<rparr> else \<lparr>crOk = False, crLeaked = [''conn'']\<rparr>)"

text \<open>Host and port of a KCP or QUIC server; a name is resolved first. Without a port, host and port are empty, and the
  empty name is resolved.\<close>

definition udp_hostport :: "(string \<Rightarrow> URL option) \<Rightarrow> (string \<Rightarrow> string option) \<Rightarrow> string \<Rightarrow> string option" where
  "udp_hostport parse dns server =
     (case parse server of None \<Rightarrow> None
      | Some u \<Rightarrow>
          (let (h, p) = (case SplitHostPort (uHost u) of Some hp \<Rightarrow> hp | None \<Rightarrow> ([], [])) in
           if ParseIP h = None then map_option (\<lambda>ip. JoinHostPort ip p) (dns h) else Some (uHost u)))"

datatype kcp_act =
    SetStreamMode bool
  | SetWriteDelay bool
  | SetNoDelay int int int int
  | SetWindowSize int int
  | SetMtu int
  | SetACKNoDelay bool
  | SetDSCP int
  | SetReadBuffer int
  | SetWriteBuffer int

definition kcp_no_delay :: "KCPBaseConfig \<Rightarrow> kcp_act" where
  "kcp_no_delay k = SetNoDelay (kNoDelay k) (kInterval k) (kResend k) (kNoCongestion k)"

text \<open>The shards a KCP connection is made with, and its settings.\<close>

definition kcp_client :: "KCPBaseConfig \<Rightarrow> (int \<times> int) \<times> kcp_act list" where
  "kcp_client k = ((kDataShard k, kParityShard k),
     [SetStreamMode True, SetWriteDelay True, kcp_no_delay k, SetWindowSize (kSndWnd k) (kRcvWnd k), SetMtu (kMTU k), SetACKNoDelay (kAckNodelay k),
      SetDSCP (kDSCP k), SetReadBuffer (kSockBuf k), SetWriteBuffer (kSockBuf k)])"

text \<open>\<open>resolve\<close>, \<open>dial\<close>, \<open>newConn\<close> and \<open>pmux\<close> are the outcomes of the steps.\<close>

definition kcp_CreateMuxSession :: "string option \<Rightarrow> (string \<Rightarrow> bool) \<Rightarrow> bool \<Rightarrow> bool \<Rightarrow> bool \<Rightarrow> KCPBaseConfig \<Rightarrow> created \<times> kcp_act list" where
  "kcp_CreateMuxSession hostport resolve dial newConn pmux k =
     (case hostport of None \<Rightarrow> (\<lparr>crOk = False, crLeaked = []\<rparr>, [])
      | Some hp \<Rightarrow>
          if \<not> resolve hp \<or> \<not> dial then (\<lparr>crOk = False, crLeaked = []\<rparr>, [])
          else if \<not> newConn then (\<lparr>crOk = False, crLeaked = [''udpconn'']\<rparr>, [])
          else (if pmux then \<lparr>crOk = True, crLeaked = []\<rparr> else \<lparr>crOk = False, crLeaked = [''kcpconn'']\<rparr>, snd (kcp_client k)))"

definition quic_CreateMuxSession :: "string option \<Rightarrow> (string \<Rightarrow> bool) \<Rightarrow> bool \<Rightarrow> bool \<Rightarrow> created" where
  "quic_CreateMuxSession hostport resolve listen dial =
     (case hostport of None \<Rightarrow> \<lparr>crOk = False, crLeaked = []\<rparr>
      | Some hp \<Rightarrow>
          if \<not> resolve hp \<or> \<not> listen then \<lparr>crOk = False, crLeaked = []\<rparr>
          else if dial then \<lparr>crOk = True, crLeaked = []\<rparr> else \<lparr>crOk = False, crLeaked = [''udpConn'']\<rparr>)"

definition http2_CreateMuxSession :: "bool \<Rightarrow> (server_dial_err \<times> bool) + string option \<Rightarrow> bool \<Rightarrow> created \<times> h2sess option" where
  "http2_CreateMuxSession urlOk outcome transportOk =
     (if \<not> urlOk then (\<lparr>crOk = False, crLeaked = []\<rparr>, None)
      else case outcome of
        Inl (_, left) \<Rightarrow> (\<lparr>crOk = False, crLeaked = (if left then [''conn''] else [])\<rparr>, None)
      | Inr _ \<Rightarrow>
          (case NewHTTP2ClientMuxSession transportOk of
             None \<Rightarrow> (\<lparr>crOk = False, crLeaked = [''conn'']\<rparr>, None)
           | Some s \<Rightarrow> (\<lparr>crOk = True, crLeaked = []\<rparr>, Some s)))"

text \<open>A WebSocket session: the path of the server's URL is replaced; \<open>dial\<close> is asked with the URL.\<close>

definition ws_url :: "URL \<Rightarrow> URL" where
  "ws_url u = u\<lparr>uPath := ''/ws''\<rparr>"

definition ws_CreateMuxSession :: "URL option \<Rightarrow> (URL \<Rightarrow> bool) \<Rightarrow> bool \<Rightarrow> created" where
  "ws_CreateMuxSession u dial pmux =
     (case u of None \<Rightarrow> \<lparr>crOk = False, crLeaked = []\<rparr>
      | Some u \<Rightarrow>
          if \<not> dial (ws_url u) then \<lparr>crOk = False, crLeaked = []\<rparr>
          else if pmux then \<lparr>crOk = True, crLeaked = []\<rparr> else \<lparr>crOk = False, crLeaked = [''websocket'']\<rparr>)"

section \<open>Accepting\<close>

text \<open>What a server makes of the connections it accepts: those handed to \<open>ServProxyMuxSession\<close> with whether their remote address is
  passed on and whether they are closed after it, and those left open without an owner. An accept that fails is tried
  again.\<close>

record accepted =
  acServed :: "nat list"
  acLeaked :: "nat list"

fun serv_conns :: "(nat \<times> bool) option list \<Rightarrow> accepted" where
  "serv_conns [] = \<lparr>acServed = [], acLeaked = []\<rparr>"
| "serv_conns (None # xs) = serv_conns xs"
| "serv_conns (Some (c, pmux) # xs) =
     (let r = serv_conns xs in
      if pmux then r\<lparr>acServed := c # acServed r\<rparr> else r\<lparr>acLeaked := c # acLeaked r\<rparr>)"

text \<open>Of a transport: whether its sessions know the address of their peer, and whether the connection is closed when the session
  has ended.\<close>

definition serv_raddr :: "string \<Rightarrow> string \<Rightarrow> string option" where
  "serv_raddr scheme addr = (if scheme = ''tcp'' \<or> scheme = ''tls'' then Some addr else None)"

definition serv_closes :: "string \<Rightarrow> bool" where
  "serv_closes scheme \<longleftrightarrow> scheme = ''tcp'' \<or> scheme = ''tls''"

definition kcp_listen :: "KCPBaseConfig \<Rightarrow> (int \<times> int) \<times> kcp_act list" where
  "kcp_listen k = ((kDataShard k, kParityShard k), [SetDSCP (kDSCP k), SetReadBuffer (kSockBuf k), SetWriteBuffer (kSockBuf k)])"

definition kcp_accept :: "KCPBaseConfig \<Rightarrow> kcp_act list" where
  "kcp_accept k = [SetStreamMode True, SetWriteDelay True, kcp_no_delay k, SetMtu (kMTU k), SetWindowSize (kSndWnd k) (kRcvWnd k),
     SetACKNoDelay (kAckNodelay k)]"

text \<open>\<open>servQUIC\<close>: every session accepted is served.\<close>

fun servQUIC :: "nat option list \<Rightarrow> nat list" where
  "servQUIC [] = []"
| "servQUIC (None # xs) = servQUIC xs"
| "servQUIC (Some s # xs) = s # servQUIC xs"

text \<open>The starts of the servers: None is an address that cannot be listened on, the only error there is. TLS lies between the
  listener and the multiplexer: an accept gives the connection before its handshake, so the sessions are made as over TCP.\<close>

definition StartTcpProxyServer :: "bool \<Rightarrow> (nat \<times> bool) option list \<Rightarrow> accepted option" where
  "StartTcpProxyServer listens conns = (if listens then Some (serv_conns conns) else None)"

definition StartTLSProxyServer :: "bool \<Rightarrow> (nat \<times> bool) option list \<Rightarrow> accepted option" where
  "StartTLSProxyServer listens conns = (if listens then Some (serv_conns conns) else None)"

definition StartQuicProxyServer :: "bool \<Rightarrow> nat option list \<Rightarrow> nat list option" where
  "StartQuicProxyServer listens sess = (if listens then Some (servQUIC sess) else None)"

text \<open>\<open>WriteTo\<close> of the connection a KCP client uses: the address is dropped when the connection can write to its own peer.
  \<open>write\<close> is \<open>Write\<close>, if the connection has it.\<close>

definition connectedUDPConn_WriteTo :: "(bytes \<Rightarrow> 'r) option \<Rightarrow> (bytes \<Rightarrow> 'a \<Rightarrow> 'r) \<Rightarrow> bytes \<Rightarrow> 'a \<Rightarrow> 'r" where
  "connectedUDPConn_WriteTo write writeTo b addr = (case write of Some w \<Rightarrow> w b | None \<Rightarrow> writeTo b addr)"

text \<open>A connection of \<open>servHTTP2\<close>: the session is served at once, beside the TLS handshake and the HTTP/2 server, after which it
  is closed.\<close>

definition servHTTP2_conn :: "bool \<Rightarrow> h2sess \<Rightarrow> bool \<times> h2sess" where
  "servHTTP2_conn handshake s = (handshake, h2_Close True [] s)"

datatype ws_end = WsStatus int | WsLeaked | WsServed

definition WebsocketInvoke :: "string \<Rightarrow> bool \<Rightarrow> bool \<Rightarrow> ws_end" where
  "WebsocketInvoke httpMethod upgrade pmux =
     (if httpMethod \<noteq> ''GET'' then WsStatus 405
      else if \<not> upgrade then WsStatus 400
      else if \<not> pmux then WsLeaked else WsServed)"

section \<open>Streams of an HTTP/2 server\<close>

text \<open>An \<open>http2Stream\<close>: its writer is there until \<open>Close\<close> has taken it away. \<open>Close\<close> is three steps: it notifies the handler, closes the
  body, and takes the writer; the handler returns when it has been notified.\<close>

record h2srv =
  hsRw :: bool
  hsBody :: bool            \<comment> \<open>the body of the request is open\<close>
  hsCh :: "unit chan"
  hsReturned :: bool
  hsPc :: nat               \<comment> \<open>the steps \<open>Close\<close> has made\<close>
  hsLate :: nat             \<comment> \<open>writes to the response after the handler has returned\<close>

definition h2srv_new :: h2srv where
  "h2srv_new = \<lparr>hsRw = True, hsBody = True, hsCh = \<lparr>chbuf = [], chcap = 1, chwait = 0\<rparr>, hsReturned = False, hsPc = 0, hsLate = 0\<rparr>"

definition h2srv_Read :: "io_err + bytes \<Rightarrow> h2srv \<Rightarrow> io_err + bytes" where
  "h2srv_Read body s = (if hsBody s then body else Inl ConnErr)"

definition h2srv_Write :: "bytes \<Rightarrow> (nat \<times> io_err option) \<Rightarrow> h2srv \<Rightarrow> (nat \<times> io_err option) \<times> h2srv" where
  "h2srv_Write b rw s =
     (if \<not> hsRw s then ((0, Some EOF), s)
      else (rw, if hsReturned s then s\<lparr>hsLate := hsLate s + 1\<rparr> else s))"

definition h2srv_close_step :: "h2srv \<Rightarrow> h2srv" where
  "h2srv_close_step s =
     (if hsPc s = 0 then s\<lparr>hsPc := 1, hsCh := AsyncNotify (hsCh s)\<rparr>
      else if hsPc s = 1 then s\<lparr>hsPc := 2, hsBody := False\<rparr>
      else s\<lparr>hsPc := 3, hsRw := False\<rparr>)"

datatype h2srv_event = HsWrite bytes "nat \<times> io_err option" | HsCloseStep | HsReturn

definition h2srv_step :: "h2srv \<Rightarrow> h2srv_event \<Rightarrow> h2srv" where
  "h2srv_step s ev =
     (case ev of
        HsWrite b rw \<Rightarrow> snd (h2srv_Write b rw s)
      | HsCloseStep \<Rightarrow> h2srv_close_step s
      | HsReturn \<Rightarrow> if chbuf (hsCh s) \<noteq> [] \<and> \<not> hsReturned s then s\<lparr>hsCh := (hsCh s)\<lparr>chbuf := tl (chbuf (hsCh s))\<rparr>, hsReturned := True\<rparr> else s)"

section \<open>The handlers of an HTTP server\<close>

datatype handler = IndexPage | StatPage | StackDump | WsHandler | HTTPInvokeHandler | HttpTestHandler

definition http_patterns :: "(string \<times> handler) list" where
  "http_patterns = [(''/stat'', StatPage), (''/stackdump'', StackDump), (''/ws'', WsHandler), (''/http/pull'', HTTPInvokeHandler),
     (''/http/push'', HTTPInvokeHandler), (''/http/test'', HttpTestHandler)]"

text \<open>A pattern without a final slash is that path only; \<open>/\<close> is every other.\<close>

definition http_route :: "string \<Rightarrow> handler" where
  "http_route path = (case map_of http_patterns path of Some h \<Rightarrow> h | None \<Rightarrow> IndexPage)"

definition HttpTest :: bytes where "HttpTest = bytes_of_str ''OK''"

text \<open>The path of a request of the HTTP channel: the server's URL with the operation appended to it.\<close>

definition http_channel_path :: "URL \<Rightarrow> string \<Rightarrow> string" where
  "http_channel_path u operation = uPath u @ ''/http/'' @ operation"

section \<open>Properties\<close>

lemma registered_simps:
  "map_of registered_types = [''wss'' \<mapsto> ''WebsocketProxy'', ''ws'' \<mapsto> ''WebsocketProxy'', ''tls'' \<mapsto> ''TcpProxy'', ''tcp'' \<mapsto> ''TcpProxy'', ''ssh'' \<mapsto> ''SSHProxy'', 
     ''quic'' \<mapsto> ''QUICProxy'', ''kcp'' \<mapsto> ''KCPProxy'', ''http2'' \<mapsto> ''HTTP2Proxy'', ''https'' \<mapsto> ''HTTPProxy'', ''http'' \<mapsto> ''HTTPProxy'', 
     ''http_proxy'' \<mapsto> ''DirectProxy'', ''socks5'' \<mapsto> ''DirectProxy'', ''socks4'' \<mapsto> ''DirectProxy'', ''socks'' \<mapsto> ''DirectProxy'', ''direct'' \<mapsto> ''DirectProxy'']"
  by (simp add: registered_types_def direct_types_def RegisterLocalChannelType_def DirectChannelName_def)

text \<open>every listener a server starts has a scheme under which the clients have a transport that speaks its protocol, and an HTTP listener
  routes the paths that transport uses to the handlers of the WebSocket and of the HTTP channel.\<close>

theorem listeners_have_clients:
  assumes "start_listener parse loads seen lis = Some srv" "parse (liListen lis) = Some u"
  shows "\<exists>t. map_of registered_types (Scheme u) = Some t \<and>
    (case srv of
       ServeQuic host tls \<Rightarrow> t = ''QUICProxy''
     | ServeKCP host k \<Rightarrow> t = ''KCPProxy''
     | ServeTCP host \<Rightarrow> t = ''TcpProxy''
     | ServeTLS host tls \<Rightarrow> t = ''TcpProxy''
     | ServeHTTP2 host tls \<Rightarrow> t = ''HTTP2Proxy''
     | ServeHTTP host cert key \<Rightarrow> t = ''HTTPProxy'' \<and> http_route (uPath (ws_url u)) = WsHandler \<and>
         (uPath u = [] \<longrightarrow> http_route (http_channel_path u ''push'') = HTTPInvokeHandler \<and> http_route (http_channel_path u ''pull'') = HTTPInvokeHandler \<and>
            http_route (http_channel_path u ''test'') = HttpTestHandler))"
  using assms
  by (auto simp: start_listener_def registered_simps http_route_def http_patterns_def ws_url_def http_channel_path_def split: if_splits)

lemma listeners_have_clients_witness:
  "\<exists>t. map_of registered_types ''https'' = Some t \<and> t = ''HTTPProxy'' \<and> http_route ''/ws'' = WsHandler"
  using listeners_have_clients [of scheme_only "\<lambda>_ _. True" "hd secure_then_plain" "hd secure_then_plain" "ServeHTTP '':1'' ''c'' ''k''"
      "\<lparr>Scheme = ''https'', uHost = '':1'', uUser = None, uPath = [], uRawQuery = []\<rparr>"]
  by (simp add: start_listener_def scheme_only_def secure_then_plain_def ws_url_def)

text \<open>C37: the two ends of a KCP connection are set up alike when client and server are started from flags: the shards of the error
  correction and every setting of the connection agree.\<close>

theorem flags_kcp_ends_agree:
  assumes "client_from_flags fc zero_conf = Some conf0" "\<not> is_direct_hop fc"
    and "kl = liKCP (listen_from_flags fs lis)"
  shows "\<exists>c \<in> set (lcChannel (LocalConfig_init nm arch conf0)). pcName c = ''default'' \<and>
    fst (kcp_client (KCP c)) = fst (kcp_listen kl) \<and> set (snd (kcp_client (KCP c))) = set (snd (kcp_listen kl)) \<union> set (kcp_accept kl)"
proof -
  let ?c = "init_channel nm arch conf0 (default_channel fc)"
  have conf0: "lcChannel conf0 = [default_channel fc]"
    using assms(1,2) by (auto simp: client_from_flags_def Let_def split: if_splits)
  have mem: "?c \<in> set (lcChannel (LocalConfig_init nm arch conf0))" by (simp add: conf0 LocalConfig_init_def Let_def)
  have name: "pcName ?c = ''default''" using default_channel_simps(2) by (simp add: init_channel_frame [OF default_channel_simps(1)])
  have "KCP (Adjust nm arch c) = kcp_Adjust (KCP c)" for c by (simp add: Adjust_def Adjust_defaults_def Let_def)
  then have "KCP ?c = kcp_Adjust (KCP (default_channel fc))" by (simp add: init_channel_def Let_def)
  also have "\<dots> = kl" by (simp add: default_channel_def zero_channel_def zero_kcp_def kcp_Adjust_def assms(3) listen_from_flags_def Let_def)
  finally have "KCP ?c = kl" .
  then show ?thesis using mem name by (intro bexI [of _ ?c]) (auto simp: kcp_client_def kcp_listen_def kcp_accept_def)
qed

lemma flags_kcp_ends_agree_witness:
  "\<exists>c \<in> set (lcChannel (LocalConfig_init example_names ''amd64'' (the (client_from_flags two_hop_flags zero_conf)))). pcName c = ''default'' \<and>
    fst (kcp_client (KCP c)) = (10, 3)"
proof -
  have s: "client_from_flags two_hop_flags zero_conf = Some (the (client_from_flags two_hop_flags zero_conf))"
    by (simp add: client_from_flags_def two_hop_flags_def no_flags_def Let_def)
  have d: "\<not> is_direct_hop two_hop_flags"
    by (simp add: two_hop_flags_def no_flags_def is_direct_hop_def EqualFold_def ToLower_def lower_def DirectChannelName_def char_of_eq_iff)
  have k: "fst (kcp_listen (liKCP (listen_from_flags no_flags ''kcp://:1''))) = (10, 3)"
    by (simp add: kcp_listen_def listen_from_flags_def adjustByMode_def InitDefaultConf_def Let_def)
  from flags_kcp_ends_agree [OF s d refl, of example_names "''amd64''" no_flags "''kcp://:1''"] show ?thesis unfolding k by auto
qed

text \<open>the server of a file without \<open>KCParams\<close> has no shards, the client's default channel ten and three.\<close>

lemma file_kcp_ends_differ: "fst (kcp_client (kcp_Adjust zero_kcp)) \<noteq> fst (kcp_listen zero_kcp)"
  by (simp add: kcp_client_def kcp_listen_def kcp_Adjust_def adjustByMode_def InitDefaultConf_def zero_kcp_def)

text \<open>a connection whose multiplexer cannot be started is left open on both sides.\<close>

lemma failed_pmux_leaks:
  "crLeaked (tcp_CreateMuxSession (Inr n) False) = [''conn'']" "acLeaked (serv_conns [Some (c, False)]) = [c]"
  "WebsocketInvoke ''GET'' True False = WsLeaked"
  by (simp_all add: tcp_CreateMuxSession_def WebsocketInvoke_def Let_def)

lemma serv_conns_all: "set (acServed (serv_conns xs)) \<union> set (acLeaked (serv_conns xs)) = fst ` {x. Some x \<in> set xs}"
  by (induction xs rule: serv_conns.induct) (auto simp: Let_def image_iff)

text \<open>a KCP or QUIC server without a port in its URL is not reached: the empty name is resolved.\<close>

lemma udp_server_needs_port:
  "parse server = Some u \<Longrightarrow> SplitHostPort (uHost u) = None \<Longrightarrow> udp_hostport parse dns server = map_option (\<lambda>ip. JoinHostPort ip []) (dns [])"
  by (simp add: udp_hostport_def ParseIP_def parseIPv4_def octet_def is_digit_def)

text \<open>What the steps of a stream of an HTTP/2 server keep: once \<open>Close\<close> is complete the writer is gone, and the handler only returns after
  the notification.\<close>

definition h2srv_inv :: "h2srv \<Rightarrow> bool" where
  "h2srv_inv s \<longleftrightarrow> (hsRw s \<longleftrightarrow> hsPc s < 3) \<and> (hsBody s \<longleftrightarrow> hsPc s < 2) \<and> (hsReturned s \<longrightarrow> hsPc s \<ge> 1) \<and> (chbuf (hsCh s) \<noteq> [] \<longrightarrow> hsPc s \<ge> 1) \<and>
     hsPc s \<le> 3 \<and> chwait (hsCh s) = 0"

lemma h2srv_step_inv: "h2srv_inv s \<Longrightarrow> h2srv_inv (h2srv_step s ev)"
  by (cases ev) (auto simp: h2srv_inv_def h2srv_step_def h2srv_Write_def h2srv_close_step_def AsyncNotify_def try_send_def)

interpretation h2srv: event_machine h2srv_step h2srv_inv
  by unfold_locales (rule h2srv_step_inv)

lemma h2srv_closed_no_write:
  assumes "s = foldl h2srv_step h2srv_new evs" "hsPc s = 3"
  shows "h2srv_Write b rw s = ((0, Some EOF), s)"
proof -
  have "h2srv_inv h2srv_new" by (simp add: h2srv_inv_def h2srv_new_def)
  then have "h2srv_inv s" unfolding assms(1) by (rule h2srv.run_inv)
  then show ?thesis using assms(2) by (simp add: h2srv_inv_def h2srv_Write_def)
qed

text \<open>the handler is notified before the writer is taken away, so a write can reach the response after the handler has
  returned, which the HTTP/2 server does not allow.\<close>

lemma h2srv_late_write:
  "hsLate (foldl h2srv_step h2srv_new [HsCloseStep, HsReturn, HsWrite b rw]) = 1"
  by (simp add: h2srv_step_def h2srv_close_step_def h2srv_Write_def h2srv_new_def AsyncNotify_def try_send_def)

end
