(* ===== verification/Dump.thy ===== *)
theory Dump
  imports GoStrings GoBufio Interfaces
begin

text \<open>
  The dump of HTTP traffic (\<open>common/dump/http.go\<close>): a reader and a writer that copy what passes through them
  into two pipes, and the goroutine that parses requests and responses from the pipes and writes them to a
  destination. The parsers of package \<open>net/http\<close> and the decompressors are arguments.
\<close>

section \<open>What is dumped\<close>

definition refused_types :: "string list" where
  "refused_types = [''image'', ''binary'', ''video'', ''octet-stream'']"

text \<open>\<open>t\<close> is the header \<open>Content-Type\<close>.\<close>

definition shouldDumpBody :: "string list \<Rightarrow> string list \<Rightarrow> string \<Rightarrow> bool" where
  "shouldDumpBody excludeBody includeBody t =
     (if list_ex (Contains t) refused_types then False
      else if list_ex (Contains t) excludeBody then False
      else if includeBody \<noteq> [] then list_ex (Contains t) includeBody
      else True)"

text \<open>How a body is read: as it is, or through a decompressor. A body that is not gzip after all is read on behind what the
  decompressor has taken.\<close>

datatype body_reader = RawBody | GzipBody | RestAfterGzip | DeflateBody | BrotliBody

definition decompressReader :: "bool \<Rightarrow> string \<Rightarrow> body_reader" where
  "decompressReader gzipOk encoding =
     (if encoding = ''gzip'' then (if gzipOk then GzipBody else RestAfterGzip)
      else if encoding = ''deflate'' then DeflateBody
      else if encoding = ''br'' then BrotliBody
      else RawBody)"

text \<open>The address of a recorded request.\<close>

definition record_uri :: "bool \<Rightarrow> string \<Rightarrow> string \<Rightarrow> string" where
  "record_uri isTLS host uri =
     (if Contains uri ''://'' then uri else (if isTLS then ''https://'' else ''http://'') @ host @ uri)"

text \<open>\<open>dumpRecord\<close> as the texts that are written: \<open>dumpReq\<close> and \<open>dumpRes\<close> are what \<open>httputil\<close> makes of the message, with or without
  the body.\<close>

definition dumpRecord :: "(bool \<Rightarrow> string) option \<Rightarrow> bool \<Rightarrow> (bool \<Rightarrow> string) option \<Rightarrow> bool \<Rightarrow> string" where
  "dumpRecord req reqBody res resBody =
     (case req of None \<Rightarrow> [] | Some f \<Rightarrow> f reqBody) @
     (case res of None \<Rightarrow> [] | Some f \<Rightarrow> ''->'' @ [CHR 0x0A] @ f resBody) @ [CHR 0x0A]"

section \<open>Destinations\<close>

datatype dump_dst = DstStdout | DstPost string | DstFile nat

text \<open>\<open>getDumpFile\<close>: one writer for a file name, made at its first use.\<close>

definition getDumpFile :: "string \<Rightarrow> (string \<rightharpoonup> nat) \<times> nat \<Rightarrow> nat \<times> ((string \<rightharpoonup> nat) \<times> nat)" where
  "getDumpFile file st = (case st of (files, fresh) \<Rightarrow>
     (case files file of Some f \<Rightarrow> (f, (files, fresh)) | None \<Rightarrow> (fresh, (files(file \<mapsto> fresh), fresh + 1))))"

definition dump_destination :: "string \<Rightarrow> (string \<rightharpoonup> nat) \<times> nat \<Rightarrow> dump_dst \<times> ((string \<rightharpoonup> nat) \<times> nat)" where
  "dump_destination dst st =
     (if dst = [] then (DstStdout, st)
      else if HasPrefix dst ''http://'' \<or> HasPrefix dst ''https://'' then (DstPost dst, st)
      else case getDumpFile dst st of (f, st) \<Rightarrow> (DstFile f, st))"

section \<open>The pipes\<close>

text \<open>One direction: the bytes of the write that is in progress and has not been taken yet (\<open>io.Pipe\<close> has no buffer of its own), the
  buffer of the reader, and whether the pipe is open.\<close>

record side =
  sdPend :: bytes
  sdBuf :: bytes
  sdOpen :: bool

definition side_new :: side where
  "side_new = \<lparr>sdPend = [], sdBuf = [], sdOpen = True\<rparr>"

definition side_fill :: "side \<Rightarrow> side" where
  "side_fill s = s\<lparr>sdBuf := sdBuf s @ take bufsize (sdPend s), sdPend := drop bufsize (sdPend s)\<rparr>"

definition side_close :: "side \<Rightarrow> side" where
  "side_close s = s\<lparr>sdPend := [], sdOpen := False\<rparr>"

text \<open>What the parser says to the bytes of a header: it wants more, it fails, or the header has this length.\<close>

datatype parsed = More | Bad | Header nat

text \<open>The parsers, the length of the body a header announces, whether that body is dumped, and, when it is not, how much of it is
  read nevertheless: the decompressor of a gzip body reads ahead when it is made.\<close>

record protocol =
  prReq :: "bytes \<Rightarrow> parsed"
  prRes :: "bytes \<Rightarrow> parsed"
  prReqBody :: "bytes \<Rightarrow> nat"
  prResBody :: "bytes \<Rightarrow> nat"
  prDumpReq :: "bytes \<Rightarrow> bool"
  prDumpRes :: "bytes \<Rightarrow> bool"
  prAhead :: "bytes \<Rightarrow> nat"

definition body_read :: "protocol \<Rightarrow> (bytes \<Rightarrow> bool) \<Rightarrow> (bytes \<Rightarrow> nat) \<Rightarrow> bytes \<Rightarrow> nat" where
  "body_read pr dumps len h = (if dumps h then len h else min (prAhead pr h) (len h))"

text \<open>Where the goroutine is: waiting for a request, for the response to a request, reading the bodies (with what is left of
  them), or gone.\<close>

datatype phase = NeedRequest | NeedResponse bytes | Recording bytes "bytes option" nat nat | Stopped

record dumper =
  dpPhase :: phase
  dpReq :: side
  dpRes :: side
  dpSent :: bytes
  dpGot :: bytes
  dpRecords :: "(bytes \<times> bytes option) list"

definition NewHttpDumpReadWriter :: dumper where
  "NewHttpDumpReadWriter = \<lparr>dpPhase = NeedRequest, dpReq = side_new, dpRes = side_new, dpSent = [], dpGot = [], dpRecords = []\<rparr>"

text \<open>\<open>Close\<close>: writes to the pipes return at once from then on, and those in progress too. What the readers have buffered stays with
  the goroutine, which ends when it finds no more.\<close>

definition dump_Close :: "dumper \<Rightarrow> dumper" where
  "dump_Close s = s\<lparr>dpReq := side_close (dpReq s), dpRes := side_close (dpRes s)\<rparr>"

text \<open>The goroutine calls \<open>closeReader\<close> and returns.\<close>

definition dump_stop :: "dumper \<Rightarrow> dumper" where
  "dump_stop s = (dump_Close s)\<lparr>dpPhase := Stopped\<rparr>"

text \<open>A parser on a side: on a pipe that is closed it cannot get more.\<close>

definition side_parse :: "(bytes \<Rightarrow> parsed) \<Rightarrow> side \<Rightarrow> parsed" where
  "side_parse f s = (case f (sdBuf s) of More \<Rightarrow> (if sdOpen s then More else Bad) | r \<Rightarrow> r)"

text \<open>Reading of a body of \<open>n\<close> more bytes: what is left after one step, and the side. A closed pipe ends the body.\<close>

definition side_body :: "nat \<Rightarrow> side \<Rightarrow> nat \<times> side" where
  "side_body n s =
     (if sdBuf s \<noteq> [] then (n - length (sdBuf s), s\<lparr>sdBuf := drop n (sdBuf s)\<rparr>)
      else if sdOpen s then (n, side_fill s)
      else (0, s))"

text \<open>A step of the goroutine of \<open>dump\<close>. Nothing changes while it waits. A body that is not dumped is not read to its end.\<close>

definition dump_step :: "protocol \<Rightarrow> dumper \<Rightarrow> dumper" where
  "dump_step pr s =
     (case dpPhase s of
        NeedRequest \<Rightarrow>
          (case side_parse (prReq pr) (dpReq s) of
             More \<Rightarrow> s\<lparr>dpReq := side_fill (dpReq s)\<rparr>
           | Bad \<Rightarrow> dump_stop s
           | Header n \<Rightarrow> s\<lparr>dpPhase := NeedResponse (take n (sdBuf (dpReq s))), dpReq := (dpReq s)\<lparr>sdBuf := drop n (sdBuf (dpReq s))\<rparr>\<rparr>)
      | NeedResponse q \<Rightarrow>
          (let nq = body_read pr (prDumpReq pr) (prReqBody pr) q in
           case side_parse (prRes pr) (dpRes s) of
             More \<Rightarrow> s\<lparr>dpRes := side_fill (dpRes s)\<rparr>
           | Bad \<Rightarrow> s\<lparr>dpPhase := Recording q None nq 0\<rparr>
           | Header n \<Rightarrow>
               (let r = take n (sdBuf (dpRes s)) in
                s\<lparr>dpPhase := Recording q (Some r) nq (body_read pr (prDumpRes pr) (prResBody pr) r),
                  dpRes := (dpRes s)\<lparr>sdBuf := drop n (sdBuf (dpRes s))\<rparr>\<rparr>))
      | Recording q r nq nr \<Rightarrow>
          (if nq > 0 then (case side_body nq (dpReq s) of (k, sd) \<Rightarrow> s\<lparr>dpPhase := Recording q r k nr, dpReq := sd\<rparr>)
           else if nr > 0 then (case side_body nr (dpRes s) of (k, sd) \<Rightarrow> s\<lparr>dpPhase := Recording q r nq k, dpRes := sd\<rparr>)
           else let s = s\<lparr>dpRecords := dpRecords s @ [(q, r)]\<rparr> in if r = None then dump_stop s else s\<lparr>dpPhase := NeedRequest\<rparr>)
      | Stopped \<Rightarrow> s)"

text \<open>\<open>Write\<close> and \<open>Read\<close> of the connection: the bytes pass first, then they are handed to the pipe, and the call returns when all of
  them have been taken. A call that has not returned keeps its goroutine from the next one.\<close>

definition can_write :: "dumper \<Rightarrow> bool" where
  "can_write s \<longleftrightarrow> sdPend (dpReq s) = []"

definition can_read :: "dumper \<Rightarrow> bool" where
  "can_read s \<longleftrightarrow> sdPend (dpRes s) = []"

definition offer :: "bytes \<Rightarrow> side \<Rightarrow> side" where
  "offer p s = (if sdOpen s then s\<lparr>sdPend := p\<rparr> else s)"

definition dump_Write :: "bytes \<Rightarrow> dumper \<Rightarrow> dumper" where
  "dump_Write p s = (if can_write s then s\<lparr>dpSent := dpSent s @ p, dpReq := offer p (dpReq s)\<rparr> else s)"

definition dump_Read :: "bytes \<Rightarrow> dumper \<Rightarrow> dumper" where
  "dump_Read p s = (if can_read s then s\<lparr>dpGot := dpGot s @ p, dpRes := offer p (dpRes s)\<rparr> else s)"

datatype dump_event = DWrite bytes | DRead bytes | DStep | DClose

definition dump_ev :: "protocol \<Rightarrow> dumper \<Rightarrow> dump_event \<Rightarrow> dumper" where
  "dump_ev pr s ev =
     (case ev of DWrite p \<Rightarrow> dump_Write p s | DRead p \<Rightarrow> dump_Read p s | DStep \<Rightarrow> dump_step pr s | DClose \<Rightarrow> dump_Close s)"

section \<open>Lemmas\<close>

text \<open>A closed pipe holds no write; once the goroutine has gone, both are closed.\<close>

definition side_inv :: "side \<Rightarrow> bool" where
  "side_inv sd \<longleftrightarrow> (sdOpen sd \<or> sdPend sd = [])"

definition dump_inv :: "dumper \<Rightarrow> bool" where
  "dump_inv s \<longleftrightarrow> side_inv (dpReq s) \<and> side_inv (dpRes s) \<and> (dpPhase s = Stopped \<longrightarrow> \<not> sdOpen (dpReq s) \<and> \<not> sdOpen (dpRes s))"

lemma side_closed [simp]: "side_inv (side_close sd)" "\<not> sdOpen (side_close sd)"
  by (simp_all add: side_inv_def side_close_def)

lemma side_kept [simp]:
  "side_inv (sd\<lparr>sdBuf := b\<rparr>) = side_inv sd" "side_inv (offer p sd) = side_inv sd" "sdOpen (offer p sd) = sdOpen sd"
  "side_inv sd \<Longrightarrow> side_inv (side_fill sd)" "sdOpen (side_fill sd) = sdOpen sd"
  by (simp_all add: side_inv_def offer_def side_fill_def) (auto simp: side_fill_def)

lemma side_body_kept: "side_body n sd = (k, sd') \<Longrightarrow> side_inv sd' = side_inv sd \<and> sdOpen sd' = sdOpen sd"
  by (auto simp: side_body_def side_inv_def side_fill_def split: if_splits)

lemma dump_stop_inv: "dump_inv (dump_stop s)"
  by (simp add: dump_inv_def dump_stop_def dump_Close_def)

lemma dump_step_inv: "dump_inv s \<Longrightarrow> dump_inv (dump_step pr s)"
  by (auto simp: dump_step_def Let_def dump_stop_inv split: phase.splits parsed.splits prod.splits)
    (auto simp: dump_inv_def dest: side_body_kept)

lemma dump_ev_inv: "dump_inv s \<Longrightarrow> dump_inv (dump_ev pr s ev)"
proof (cases ev)
  case DStep
  then show "dump_inv s \<Longrightarrow> dump_inv (dump_ev pr s ev)" by (simp add: dump_ev_def dump_step_inv)
qed (auto simp: dump_ev_def dump_Write_def dump_Read_def dump_Close_def dump_inv_def)

interpretation dumping: event_machine "dump_ev pr" dump_inv for pr
  by unfold_locales (rule dump_ev_inv)

text \<open>A request waits for its response while the connection sends on.\<close>

definition waits_for_response :: "protocol \<Rightarrow> dumper \<Rightarrow> bool" where
  "waits_for_response pr s \<longleftrightarrow> (\<exists>q. dpPhase s = NeedResponse q) \<and> dpRes s = side_new \<and> prRes pr [] = More \<and> sdPend (dpReq s) \<noteq> []"

lemma waits_step:
  assumes "waits_for_response pr s" "ev = DStep \<or> (\<exists>p. ev = DWrite p)"
  shows "dump_ev pr s ev = s"
  using assms by (auto simp: waits_for_response_def dump_ev_def dump_step_def dump_Write_def can_write_def side_fill_def side_new_def
      side_parse_def Let_def)

lemma waits_run:
  "waits_for_response pr s \<Longrightarrow> list_all (\<lambda>ev. ev = DStep \<or> (\<exists>p. ev = DWrite p)) evs \<Longrightarrow> foldl (dump_ev pr) s evs = s"
  by (induction evs) (auto simp: waits_step)

section \<open>Properties\<close>

text \<open>an upload in more than two pieces stalls until the server answers: when the header of a request has been passed on, the piece
  after it is sent but keeps its writer waiting for the goroutine, which waits for the response; nothing is sent after
  it, however often the goroutine runs.\<close>

theorem dump_stalls_upload:
  assumes "prReq pr [] = More" "prReq pr hdr = Header (length hdr)" "hdr \<noteq> []" "length hdr \<le> bufsize" "prRes pr [] = More" "b \<noteq> []"
    and "list_all (\<lambda>ev. ev = DStep \<or> (\<exists>p. ev = DWrite p)) evs"
  shows "dpSent (foldl (dump_ev pr) NewHttpDumpReadWriter ([DWrite hdr, DStep, DStep, DWrite b] @ evs)) = hdr @ b"
proof -
  let ?s = "foldl (dump_ev pr) NewHttpDumpReadWriter [DWrite hdr, DStep, DStep, DWrite b]"
  have s: "?s = NewHttpDumpReadWriter\<lparr>dpPhase := NeedResponse hdr, dpSent := hdr @ b, dpReq := side_new\<lparr>sdPend := b\<rparr>\<rparr>"
    using assms(1-4) by (simp add: dump_ev_def dump_Write_def NewHttpDumpReadWriter_def can_write_def side_new_def offer_def dump_step_def side_fill_def
        side_parse_def)
  then have "waits_for_response pr ?s" using assms(5,6) by (simp add: waits_for_response_def NewHttpDumpReadWriter_def)
  from waits_run [OF this assms(7)] show ?thesis by (simp only: foldl_append) (simp only: s, simp)
qed

definition fixed_protocol :: protocol where
  "fixed_protocol = \<lparr>prReq = (\<lambda>b. if length b < 2 then More else Header 2), prRes = (\<lambda>b. if length b < 2 then More else Header 2),
     prReqBody = (\<lambda>_. 3), prResBody = (\<lambda>_. 0), prDumpReq = (\<lambda>_. True), prDumpRes = (\<lambda>_. True),
     prAhead = (\<lambda>_. 0)\<rparr>"

lemma dump_stalls_upload_witness:
  "dpSent (foldl (dump_ev fixed_protocol) NewHttpDumpReadWriter ([DWrite [1, 2], DStep, DStep, DWrite [3]] @ [DStep, DWrite [4], DStep])) = [1, 2] @ [3]"
  by (rule dump_stalls_upload) (simp_all add: fixed_protocol_def bufsize_def)

text \<open>when the goroutine has gone because a message could not be parsed, or the dump has been closed, the connection works as without
  a dump: no read or write waits for it.\<close>

lemma closed_run: "\<not> sdOpen (dpReq s) \<and> \<not> sdOpen (dpRes s) \<Longrightarrow> \<not> sdOpen (dpReq (dump_ev pr s ev)) \<and> \<not> sdOpen (dpRes (dump_ev pr s ev))"
proof (cases ev)
  case DStep
  then show "\<not> sdOpen (dpReq s) \<and> \<not> sdOpen (dpRes s) \<Longrightarrow> \<not> sdOpen (dpReq (dump_ev pr s ev)) \<and> \<not> sdOpen (dpRes (dump_ev pr s ev))"
    by (auto simp: dump_ev_def dump_step_def dump_stop_def dump_Close_def Let_def split: phase.splits parsed.splits prod.splits dest: side_body_kept)
qed (auto simp: dump_ev_def dump_Write_def dump_Read_def dump_Close_def)

lemma closed_for_good:
  "DClose \<in> set evs \<or> \<not> sdOpen (dpReq s) \<and> \<not> sdOpen (dpRes s) \<Longrightarrow>
   \<not> sdOpen (dpReq (foldl (dump_ev pr) s evs)) \<and> \<not> sdOpen (dpRes (foldl (dump_ev pr) s evs))"
proof (induction evs arbitrary: s)
  case (Cons ev evs)
  have "DClose \<in> set evs \<or> \<not> sdOpen (dpReq (dump_ev pr s ev)) \<and> \<not> sdOpen (dpRes (dump_ev pr s ev))"
    using Cons.prems closed_run [of s pr ev] by (auto simp: dump_ev_def dump_Close_def)
  from Cons.IH [OF this] show ?case by simp
qed simp

theorem stopped_dump_never_blocks:
  assumes "s = foldl (dump_ev pr) NewHttpDumpReadWriter evs" "dpPhase s = Stopped \<or> DClose \<in> set evs"
  shows "can_write s \<and> can_read s \<and> dpSent (dump_Write p s) = dpSent s @ p \<and> can_write (dump_Write p s) \<and> can_read (dump_Read p s)"
proof -
  have "dump_inv NewHttpDumpReadWriter" by (simp add: dump_inv_def side_inv_def NewHttpDumpReadWriter_def side_new_def)
  then have i: "dump_inv s" unfolding assms(1) by (rule dumping.run_inv)
  then have "\<not> sdOpen (dpReq s) \<and> \<not> sdOpen (dpRes s)"
    using assms(2) closed_for_good [of evs NewHttpDumpReadWriter pr] unfolding assms(1) dump_inv_def by blast
  with i show ?thesis by (simp add: dump_inv_def side_inv_def can_write_def can_read_def dump_Write_def dump_Read_def offer_def)
qed

lemma stopped_dump_never_blocks_witness:
  "can_write (foldl (dump_ev fixed_protocol) NewHttpDumpReadWriter [DWrite [1], DClose])"
  by (rule stopped_dump_never_blocks [OF refl, THEN conjunct1]) simp

text \<open>a body that is not dumped stays in the pipe: the next message is looked for in its bytes, and the dump ends when they are no
  message.\<close>

lemma excluded_body_ends_dump:
  assumes "dpPhase s = NeedResponse q" "prRes pr (sdBuf (dpRes s)) = Header n" "\<not> prDumpRes pr (take n (sdBuf (dpRes s)))" "\<not> prDumpReq pr q"
    and "prAhead pr = (\<lambda>_. 0)" "prReq pr (sdBuf (dpReq s)) = Header m" "prRes pr (drop n (sdBuf (dpRes s))) = Bad"
  shows "(\<exists>q'. dpPhase (foldl (dump_ev pr) s [DStep, DStep, DStep, DStep]) = Recording q' None (body_read pr (prDumpReq pr) (prReqBody pr) q') 0)"
  using assms by (auto simp: dump_ev_def dump_step_def side_parse_def body_read_def Let_def)

text \<open>a request that has been buffered is recorded after the close.\<close>

lemma recorded_after_close:
  "dpRecords (foldl (dump_ev fixed_protocol) NewHttpDumpReadWriter ([DWrite [1, 2, 3, 4, 5], DStep, DStep, DRead [6, 7], DStep, DClose] @ replicate 3 DStep)) =
     [([1, 2], Some [6, 7])]"
  by (simp add: dump_ev_def dump_step_def dump_Write_def dump_Read_def can_write_def can_read_def NewHttpDumpReadWriter_def side_new_def offer_def
      side_parse_def side_fill_def side_body_def side_close_def dump_Close_def fixed_protocol_def body_read_def bufsize_def numeral_3_eq_3 Let_def)

text \<open>one file name has one writer.\<close>

lemma getDumpFile_store:
  "getDumpFile file (files, fresh) = (snd (go_map.load_or_create files file fresh), (fst (go_map.load_or_create files file fresh),
     (case files file of Some _ \<Rightarrow> fresh | None \<Rightarrow> fresh + 1)))"
  by (simp add: getDumpFile_def go_map.load_or_create_def split: option.split)

lemma same_file_same_writer:
  "getDumpFile file st = (f, st') \<Longrightarrow> getDumpFile file st' = (f, st')"
  by (cases st) (auto simp: getDumpFile_def split: option.splits)

end
