(* ===== verification/Certificates.thy ===== *)
theory Certificates
  imports LocalPac
begin

text \<open>
  The certificates a proxy in the middle shows to its clients (\<open>common/helper/ca.go\<close>, and the older
  \<open>common/fakecert/fake.go\<close>): the name a certificate is made for, and the stores certificates are kept in.
  Package \<open>crypto\<close>, the store of \<open>easypki\<close> and the list of public suffixes are arguments.
\<close>

section \<open>The name of a certificate\<close>

text \<open>\<open>SlicePanic\<close> is the slice \<open>domain[0:-1]\<close> of a domain that is a public suffix itself.\<close>

datatype ca_name = NoSuffix | SlicePanic | CaName string

definition ca_bundle_name :: "(string \<Rightarrow> string) \<Rightarrow> string \<Rightarrow> ca_name" where
  "ca_bundle_name publicSuffix domain =
     (let pubsuffix = publicSuffix domain in
      if pubsuffix = [] then NoSuffix
      else if length domain < length pubsuffix + 1 then SlicePanic
      else
        (let rest = take (length domain - length pubsuffix - 1) domain; ss = Split rest CHR ''.'' in
         if length ss = 1 then CaName domain
         else CaName (''*.'' @ Join (tl ss) ''.'' @ ''.'' @ pubsuffix)))"

text \<open>The store: the bundles there are, by name. \<open>sign\<close> is whether the root certificate is there and signing succeeds.\<close>

record pki =
  pkInited :: bool
  pkBundles :: "string set"

datatype ca_res = CaErr | CaPanic | CaBundle string

definition getCAByDomain :: "(string \<Rightarrow> string) \<Rightarrow> (string \<Rightarrow> bool) \<Rightarrow> string \<Rightarrow> pki \<Rightarrow> ca_res \<times> pki" where
  "getCAByDomain publicSuffix sign domain st =
     (if \<not> pkInited st then (CaErr, st)
      else case ca_bundle_name publicSuffix domain of
        NoSuffix \<Rightarrow> (CaErr, st)
      | SlicePanic \<Rightarrow> (CaPanic, st)
      | CaName n \<Rightarrow>
          if n \<in> pkBundles st then (CaBundle n, st)
          else if \<not> sign n then (CaErr, st)
          else (CaBundle n, st\<lparr>pkBundles := insert n (pkBundles st)\<rparr>))"

definition TLSConfig :: "(string \<Rightarrow> string) \<Rightarrow> (string \<Rightarrow> bool) \<Rightarrow> string \<Rightarrow> pki \<Rightarrow> ca_res \<times> pki" where
  "TLSConfig publicSuffix sign domain st =
     getCAByDomain publicSuffix sign (if Contains domain '':'' then hd (Split domain CHR '':'') else domain) st"

text \<open>\<open>CreateRootCA\<close>: the store is used from then on, even if the root certificate cannot be made.\<close>

definition CreateRootCA :: "bool \<Rightarrow> bool \<Rightarrow> pki \<Rightarrow> bool \<times> pki" where
  "CreateRootCA haveRoot signs st = (haveRoot \<or> signs, st\<lparr>pkInited := True\<rparr>)"

section \<open>The older certificates\<close>

text \<open>\<open>getTLSCert\<close> keeps one certificate for each host; \<open>mk\<close> is the making of one, or its failure.\<close>

definition getTLSCert :: "(string \<Rightarrow> 'c option) \<Rightarrow> string \<Rightarrow> (string \<rightharpoonup> 'c) \<Rightarrow> 'c option \<times> (string \<rightharpoonup> 'c)" where
  "getTLSCert mk host certs =
     (case certs host of Some c \<Rightarrow> (Some c, certs)
      | None \<Rightarrow> (case mk host of None \<Rightarrow> (None, certs) | Some c \<Rightarrow> (Some c, certs(host \<mapsto> c))))"

definition fake_TLSConfig :: "(string \<Rightarrow> 'c option) \<Rightarrow> string \<Rightarrow> (string \<rightharpoonup> 'c) \<Rightarrow> 'c option \<times> (string \<rightharpoonup> 'c)" where
  "fake_TLSConfig mk host certs = getTLSCert mk (if Contains host '':'' then hd (Split host CHR '':'') else host) certs"

section \<open>The certificate of a server without one\<close>

text \<open>\<open>GenerateTLSConfig\<close> of \<open>common/helper/net.go\<close>: a key, a certificate it signs itself, and the pair of both; None is a panic.\<close>

definition GenerateTLSConfig :: "'k option \<Rightarrow> ('k \<Rightarrow> 'd option) \<Rightarrow> ('d \<Rightarrow> 'k \<Rightarrow> 'c option) \<Rightarrow> 'c option" where
  "GenerateTLSConfig key sign pair =
     (case key of None \<Rightarrow> None
      | Some k \<Rightarrow> (case sign k of None \<Rightarrow> None | Some der \<Rightarrow> pair der k))"

section \<open>Properties\<close>

lemma Split_append: "Split (a @ sep # b) sep = Split a sep @ Split b sep"
  by (induction a) (auto split: list.splits)

lemma Split_length_1: "length (Split s sep) = 1 \<longleftrightarrow> sep \<notin> set s"
proof
  assume "length (Split s sep) = 1"
  then obtain w where w: "Split s sep = [w]" by (auto simp: length_Suc_conv)
  then have "s = w" using Join_Split [of s sep] by simp
  then show "sep \<notin> set s" using Split_words_no_sep [of w s sep] w by simp
qed (simp add: Split_no_sep)

lemma match_parts_same: "match_parts False ps ps"
  by (induction ps) auto

text \<open>a certificate made for a domain below a public suffix carries a name that matches the domain: the domain itself directly below the
  suffix, and otherwise a wildcard for its first label.\<close>

theorem certificate_name_matches:
  assumes "publicSuffix domain = sfx" "sfx \<noteq> []" "domain = rest @ ''.'' @ sfx" "rest \<noteq> []" "last sfx \<noteq> CHR ''.''"
  shows "\<exists>n. ca_bundle_name publicSuffix domain = CaName n \<and> matchHostnames n domain"
proof -
  let ?ss = "Split rest CHR ''.''"
  have take: "take (length domain - length sfx - 1) domain = rest" by (simp add: assms(3))
  have len: "\<not> length domain < length sfx + 1" by (simp add: assms(3))
  have dom: "Split domain CHR ''.'' = ?ss @ Split sfx CHR ''.''" using Split_append [of rest "CHR ''.''" sfx] assms(3) by simp
  have trim: "TrimSuffix (x @ sfx) ''.'' = x @ sfx" for x
  proof -
    obtain i z where s: "sfx = i @ [z]" using assms(2) by (metis append_butlast_last_id)
    then show ?thesis using assms(5) snoc_suffix_snoc [of "[]" "CHR ''.''" "x @ i" z] by (simp add: TrimSuffix_def HasSuffix_def)
  qed
  have self: "match_parts True ps ps" for ps by (cases ps) (auto simp: match_parts_same)
  show ?thesis
  proof (cases "length ?ss = 1")
    case True
    then have "ca_bundle_name publicSuffix domain = CaName domain"
      using assms(1,2) take len by (simp add: ca_bundle_name_def Let_def)
    moreover have "matchHostnames domain domain"
      using trim [of "rest @ ''.''"] assms(2,3) self by (simp add: matchHostnames_def Let_def)
    ultimately show ?thesis by blast
  next
    case False
    then obtain w ws where ss: "?ss = w # ws" "ws \<noteq> []" using Split_not_Nil [of rest "CHR ''.''"] by (cases ?ss) auto
    let ?n = "''*.'' @ Join ws ''.'' @ ''.'' @ sfx"
    have n: "ca_bundle_name publicSuffix domain = CaName ?n"
      using assms(1,2) take len False ss by (simp add: ca_bundle_name_def Let_def)
    have "\<forall>w \<in> set ws. CHR ''.'' \<notin> set w" using Split_words_no_sep [of _ rest "CHR ''.''"] ss(1) by auto
    then have "Split (Join ws ''.'') CHR ''.'' = ws" using Split_Join [OF ss(2)] by simp
    then have "Split ?n CHR ''.'' = ''*'' # ws @ Split sfx CHR ''.''"
      using Split_append [of "''*''" "CHR ''.''" "Join ws ''.'' @ ''.'' @ sfx"] Split_append [of "Join ws ''.''" "CHR ''.''" sfx] by simp
    moreover have "TrimSuffix ?n ''.'' = ?n" using trim [of "''*.'' @ Join ws ''.'' @ ''.''"] by simp
    moreover have "TrimSuffix domain ''.'' = domain" using trim [of "rest @ ''.''"] assms(3) by simp
    ultimately have "matchHostnames ?n domain"
      using dom ss assms(2,3) by (simp add: matchHostnames_def Let_def match_parts_same)
    with n show ?thesis by blast
  qed
qed

lemma certificate_name_matches_witness:
  "\<exists>n. ca_bundle_name (\<lambda>_. ''com'') ''www.a.com'' = CaName n \<and> matchHostnames n ''www.a.com''"
  by (rule certificate_name_matches [where sfx = "''com''" and rest = "''www.a''"]) simp_all

text \<open>a domain that is a public suffix, as every single label is, ends the process.\<close>

lemma suffix_domain_panics:
  assumes "publicSuffix domain = domain" "domain \<noteq> []" "pkInited st"
  shows "getCAByDomain publicSuffix sign domain st = (CaPanic, st)"
  using assms by (simp add: getCAByDomain_def ca_bundle_name_def Let_def)

text \<open>the certificate of an IP address is made for a wildcard of its last three numbers.\<close>

lemma ip_certificate_name:
  assumes "publicSuffix ''10.1.2.3'' = ''3''"
  shows "ca_bundle_name publicSuffix ''10.1.2.3'' = CaName ''*.1.2.3''"
  using assms by (simp add: ca_bundle_name_def Let_def)

text \<open>a certificate that has been given once is given again.\<close>

lemma getCA_stable:
  "getCAByDomain publicSuffix sign domain st = (CaBundle n, st') \<Longrightarrow> getCAByDomain publicSuffix sign' domain st' = (CaBundle n, st')"
  by (auto simp: getCAByDomain_def split: if_splits ca_name.splits)

lemma getTLSCert_stable:
  "getTLSCert mk host certs = (Some c, certs') \<Longrightarrow> getTLSCert mk' host certs' = (Some c, certs')"
  by (auto simp: getTLSCert_def split: option.splits)

end
