(* ===== verification/Administration.thy ===== *)
theory Administration
  imports GoNet Prelude
begin

text \<open>
  Administration (\<open>local/admin.go\<close>): the pages of the administration server, the broadcast of its address with the local
  addresses of \<open>common/helper/net.go\<close>, and the synchronisation of configuration files from another instance. The HTTP
  client, the clock and the file system are arguments or explicit state.
\<close>

section \<open>Local addresses\<close>

text \<open>The addresses of the interfaces; an entry that is no network is \<open>None\<close>. A list that is not empty is kept.\<close>

definition is_loopback :: "bytes \<Rightarrow> bool" where
  "is_loopback ip = (case To4 ip of Some q \<Rightarrow> q ! 0 = 127 | None \<Rightarrow> ip = replicate 15 0 @ [1])"

definition GetLocalIPv4 :: "bytes option list option \<Rightarrow> string list \<Rightarrow> string list" where
  "GetLocalIPv4 addrs known =
     (if known \<noteq> [] then known
      else case addrs of None \<Rightarrow> known
      | Some xs \<Rightarrow> known @ map IPString (filter (\<lambda>ip. \<not> is_loopback ip \<and> To4 ip \<noteq> None) (List.map_filter id xs)))"

definition GetLocalIPSet :: "bytes option list option \<Rightarrow> string set \<Rightarrow> string set" where
  "GetLocalIPSet addrs known =
     (if known \<noteq> {} then known
      else case addrs of None \<Rightarrow> known | Some xs \<Rightarrow> known \<union> IPString ` set (List.map_filter id xs))"

section \<open>The administration server\<close>

datatype admin_page = Files string | ConfList | AdminStat | AdminStackDump | AdminGC | AdminMemDump | AdminHttpDump

text \<open>The start: nothing without an address; the directory of the files, the texts that are broadcast every three seconds, and the
  handlers by path (any other path is a file of the directory).\<close>

definition admin_dir :: "string \<Rightarrow> string" where
  "admin_dir configDir = (if configDir = [] then ''./'' else configDir)"

definition admin_broadcast :: "string \<Rightarrow> string \<Rightarrow> string list \<Rightarrow> string list" where
  "admin_broadcast broadcastAddr listen ips =
     (if broadcastAddr = [] then []
      else let port = (case SplitHostPort listen of Some (_, p) \<Rightarrow> p | None \<Rightarrow> []) in map (\<lambda>ip. JoinHostPort ip port) ips)"

text \<open>One tick of the broadcast: a connection is made for it, and not closed. The connections, and the texts sent.\<close>

definition admin_tick :: "string list \<Rightarrow> nat \<times> string list \<Rightarrow> bool \<Rightarrow> nat \<times> string list" where
  "admin_tick texts st dials = (case st of (conns, sent) \<Rightarrow> if dials then (conns + 1, sent @ texts) else (conns, sent))"

text \<open>\<open>startAdminServer\<close>: nothing without an address; else the directory that is served and the texts that are broadcast.\<close>

definition startAdminServer :: "string \<Rightarrow> string \<Rightarrow> string \<Rightarrow> string list \<Rightarrow> (string \<times> string list) option" where
  "startAdminServer listen configDir broadcastAddr ips =
     (if listen = [] then None else Some (admin_dir configDir, admin_broadcast broadcastAddr listen ips))"

definition admin_route :: "string \<Rightarrow> admin_page" where
  "admin_route path =
     (if path = ''/_conflist'' then ConfList
      else if path = ''/stat'' then AdminStat
      else if path = ''/stackdump'' then AdminStackDump
      else if path = ''/gc'' then AdminGC
      else if path = ''/memdump'' then AdminMemDump
      else if path = ''/httpdump'' then AdminHttpDump
      else Files path)"

text \<open>\<open>getConfigList\<close>: the directories of the directory.\<close>

definition getConfigList :: "(string \<times> bool) list \<Rightarrow> string list" where
  "getConfigList files = map fst (filter snd files)"

text \<open>\<open>httpDumpCallback\<close>: the body goes to the log, once the server has opened it.\<close>

definition httpDumpCallback :: "bytes option \<Rightarrow> bytes \<Rightarrow> bytes option" where
  "httpDumpCallback log body = map_option (\<lambda>l. l @ body) log"

section \<open>Synchronisation\<close>

text \<open>The other instance: the answer to \<open>HEAD\<close>, with the time of the header \<open>Last-Modified\<close> if it has a valid one, and to \<open>GET\<close>, with status
  and what could be read of the body. The files by path, with the times of their last writes.\<close>

record remote =
  rmHead :: "string \<Rightarrow> int option option"
  rmGet :: "string \<Rightarrow> (int \<times> bytes option) option"

type_synonym files = "string \<rightharpoonup> int \<times> bytes"

definition remote_path :: "string \<Rightarrow> string \<Rightarrow> string" where
  "remote_path dir name = dir @ ''/'' @ name"

definition local_path :: "string \<Rightarrow> string \<Rightarrow> string" where
  "local_path localDir p = localDir @ ''/'' @ p"

text \<open>\<open>syncConfigFile\<close>: None is an error. A time that cannot be parsed is before every other; \<open>writes\<close> is whether the file can be written,
  which is not looked at.\<close>

definition syncConfigFile :: "remote \<Rightarrow> (string \<Rightarrow> bool) \<Rightarrow> int \<Rightarrow> string \<Rightarrow> string \<Rightarrow> string \<Rightarrow> files \<Rightarrow> bool option \<times> files" where
  "syncConfigFile rm writes now localDir dir name fs =
     (let p = remote_path dir name; lp = local_path localDir p;
          get = (case rmGet rm p of None \<Rightarrow> (None, fs)
            | Some (status, body) \<Rightarrow>
                (case body of
                   None \<Rightarrow> ((if status = 404 then Some False else None), fs)
                 | Some data \<Rightarrow>
                     if status \<noteq> 200 then ((if status = 404 then Some False else None), fs)
                     else (Some True, (if writes lp then fs(lp \<mapsto> (now, data)) else fs))))
      in case fs lp of
           None \<Rightarrow> get
         | Some (modTime, _) \<Rightarrow>
             (case rmHead rm p of None \<Rightarrow> (None, fs)
              | Some None \<Rightarrow> (Some False, fs)
              | Some (Some lm) \<Rightarrow> if lm < modTime then (Some False, fs) else get))"

definition sync_names :: "string list" where
  "sync_names = [''client.json'', ''hosts.json'', ''cnipset.txt'']"

fun sync_all :: "remote \<Rightarrow> (string \<Rightarrow> bool) \<Rightarrow> int \<Rightarrow> string \<Rightarrow> (string \<times> string) list \<Rightarrow> bool \<Rightarrow> files \<Rightarrow> bool option \<times> files" where
  "sync_all rm writes now localDir [] update fs = (Some update, fs)"
| "sync_all rm writes now localDir ((dir, name) # ps) update fs =
     (case syncConfigFile rm writes now localDir dir name fs of
        (None, fs) \<Rightarrow> (None, fs)
      | (Some u, fs) \<Rightarrow> sync_all rm writes now localDir ps (update \<or> u) fs)"

text \<open>\<open>SyncConfig\<close>: \<open>confList\<close> is the decoded list of the other instance, if it answers (an answer that cannot be decoded is an empty
  list).\<close>

definition SyncConfig :: "remote \<Rightarrow> (string \<Rightarrow> bool) \<Rightarrow> int \<Rightarrow> string \<Rightarrow> string list option \<Rightarrow> files \<Rightarrow> bool option \<times> files" where
  "SyncConfig rm writes now localDir confList fs =
     (case confList of None \<Rightarrow> (None, fs)
      | Some confs \<Rightarrow> sync_all rm writes now localDir (concat (map (\<lambda>dir. map (Pair dir) sync_names) confs)) False fs)"

section \<open>Lemmas\<close>

text \<open>An instance that serves a table of files as \<open>http.FileServer\<close> does, without errors.\<close>

definition serves :: "remote \<Rightarrow> files \<Rightarrow> bool" where
  "serves rm sf \<longleftrightarrow> (\<forall>p. rmHead rm p = Some (map_option fst (sf p)) \<and>
     rmGet rm p = Some (case sf p of None \<Rightarrow> (404, Some []) | Some (_, data) \<Rightarrow> (200, Some data)))"

text \<open>A path that is in step with the server: nobody has the file, or the local one is newer.\<close>

definition in_step :: "files \<Rightarrow> string \<Rightarrow> files \<Rightarrow> string \<Rightarrow> bool" where
  "in_step sf localDir fs p \<longleftrightarrow>
     (case fs (local_path localDir p) of None \<Rightarrow> sf p = None
      | Some (t, _) \<Rightarrow> (case sf p of None \<Rightarrow> True | Some (lm, _) \<Rightarrow> lm < t))"

lemma sync_in_step:
  assumes "serves rm sf" "in_step sf localDir fs (remote_path dir name)"
  shows "syncConfigFile rm writes now localDir dir name fs = (Some False, fs)"
  using assms by (auto simp: syncConfigFile_def serves_def in_step_def Let_def split: option.splits)

lemma sync_makes_step:
  assumes "serves rm sf" "\<forall>p. writes p" "\<forall>p lm c. sf p = Some (lm, c) \<longrightarrow> lm < now"
    and "syncConfigFile rm writes now localDir dir name fs = (r, fs')"
  shows "r \<noteq> None \<and> in_step sf localDir fs' (remote_path dir name) \<and> (\<forall>p. in_step sf localDir fs p \<longrightarrow> in_step sf localDir fs' p)"
proof -
  let ?p = "remote_path dir name"
  have rm: "rmHead rm ?p = Some (map_option fst (sf ?p))"
    "rmGet rm ?p = Some (case sf ?p of None \<Rightarrow> (404, Some []) | Some (_, data) \<Rightarrow> (200, Some data))"
    using assms(1) by (simp_all add: serves_def)
  have w: "writes p" for p using assms(2) by simp
  have new: "in_step sf localDir (fs(local_path localDir ?p \<mapsto> (now, data))) q" if "in_step sf localDir fs q \<or> q = ?p" for q data
    using that assms(3) by (auto simp: in_step_def split: option.splits)
  show ?thesis
  proof (cases "sf ?p")
    case None
    then show ?thesis using assms(4) rm w
      by (cases "fs (local_path localDir ?p)") (auto simp: syncConfigFile_def in_step_def Let_def)
  next
    case (Some x)
    then obtain lm data where x: "sf ?p = Some (lm, data)" by (cases x) auto
    show ?thesis
    proof (cases "fs (local_path localDir ?p)")
      case None
      then show ?thesis using assms(4) rm w x new by (auto simp: syncConfigFile_def Let_def)
    next
      case (Some y)
      then obtain t c where y: "fs (local_path localDir ?p) = Some (t, c)" by (cases y) auto
      show ?thesis
      proof (cases "lm < t")
        case True
        then have "in_step sf localDir fs ?p" using x y by (simp add: in_step_def)
        then show ?thesis using sync_in_step [OF assms(1)] assms(4) by auto
      next
        case False
        then show ?thesis using assms(4) rm w x y new by (auto simp: syncConfigFile_def Let_def)
      qed
    qed
  qed
qed

lemma sync_all_steps:
  assumes "serves rm sf" "\<forall>p. writes p" "\<forall>p lm c. sf p = Some (lm, c) \<longrightarrow> lm < now"
  shows "sync_all rm writes now localDir ps update fs = (r, fs') \<Longrightarrow>
    r \<noteq> None \<and> (\<forall>(dir, name) \<in> set ps. in_step sf localDir fs' (remote_path dir name)) \<and> (\<forall>p. in_step sf localDir fs p \<longrightarrow> in_step sf localDir fs' p)"
proof (induction ps arbitrary: update fs)
  case (Cons q ps)
  obtain dir name where q: "q = (dir, name)" by (cases q)
  obtain u fs1 where 1: "syncConfigFile rm writes now localDir dir name fs = (u, fs1)" by (rule prod.exhaust)
  from sync_makes_step [OF assms 1] obtain b where u: "u = Some b"
    and s: "in_step sf localDir fs1 (remote_path dir name)" "\<And>p. in_step sf localDir fs p \<Longrightarrow> in_step sf localDir fs1 p" by auto
  from Cons.prems have "sync_all rm writes now localDir ps (update \<or> b) fs1 = (r, fs')" by (simp add: q 1 u)
  from Cons.IH [OF this] s show ?case by (auto simp: q)
qed auto

lemma sync_all_in_step:
  assumes "serves rm sf" "\<forall>(dir, name) \<in> set ps. in_step sf localDir fs (remote_path dir name)"
  shows "sync_all rm writes now localDir ps update fs = (Some update, fs)"
  using assms(2) by (induction ps arbitrary: update) (auto simp: sync_in_step [OF assms(1)])

section \<open>Properties\<close>

text \<open>a synchronisation with an instance that answers succeeds, and a second one finds nothing to do as long as the files of the
  other instance do not change.\<close>

theorem sync_twice:
  assumes "serves rm sf" "\<forall>p. writes p" "\<forall>p lm c. sf p = Some (lm, c) \<longrightarrow> lm < now"
    and "SyncConfig rm writes now localDir (Some confs) fs = (r, fs')"
  shows "r \<noteq> None \<and> SyncConfig rm writes now' localDir (Some confs) fs' = (Some False, fs')"
proof -
  let ?ps = "concat (map (\<lambda>dir. map (Pair dir) sync_names) confs)"
  have "sync_all rm writes now localDir ?ps False fs = (r, fs')" using assms(4) by (simp add: SyncConfig_def)
  from sync_all_steps [OF assms(1,2,3) this] have "r \<noteq> None" "\<forall>(dir, name) \<in> set ?ps. in_step sf localDir fs' (remote_path dir name)" by auto
  with sync_all_in_step [OF assms(1) this(2)] show ?thesis by (simp add: SyncConfig_def)
qed

definition one_file :: files where
  "one_file = [''a/client.json'' \<mapsto> (5, [1, 2])]"

definition file_server :: "files \<Rightarrow> remote" where
  "file_server sf = \<lparr>rmHead = (\<lambda>p. Some (map_option fst (sf p))),
     rmGet = (\<lambda>p. Some (case sf p of None \<Rightarrow> (404, Some []) | Some (_, data) \<Rightarrow> (200, Some data)))\<rparr>"

lemma sync_twice_witness:
  "SyncConfig (file_server one_file) (\<lambda>_. True) 7 ''l'' (Some [''a'']) (snd (SyncConfig (file_server one_file) (\<lambda>_. True) 6 ''l'' (Some [''a'']) Map.empty)) =
   (Some False, snd (SyncConfig (file_server one_file) (\<lambda>_. True) 6 ''l'' (Some [''a'']) Map.empty))"
  by (rule sync_twice [of "file_server one_file" one_file, THEN conjunct2, OF _ _ _ prod.collapse [symmetric]])
     (auto simp: serves_def file_server_def one_file_def split: if_splits)

text \<open>a file that could be read only in part is written as it is, and counts as newer than the server's from then on.\<close>

lemma partial_download_kept:
  assumes "fs (local_path l (remote_path d n)) = None" "rmGet rm (remote_path d n) = Some (200, Some part)" "writes (local_path l (remote_path d n))"
    and "rmHead rm (remote_path d n) = Some (Some lm)" "lm < now"
  shows "syncConfigFile rm writes now l d n fs = (Some True, fs(local_path l (remote_path d n) \<mapsto> (now, part))) \<and>
    syncConfigFile rm writes now' l d n (fs(local_path l (remote_path d n) \<mapsto> (now, part))) = (Some False, fs(local_path l (remote_path d n) \<mapsto> (now, part)))"
  using assms by (simp add: syncConfigFile_def Let_def)

text \<open>a file that cannot be written is reported as updated.\<close>

lemma failed_write_reported:
  assumes "fs (local_path l (remote_path d n)) = None" "rmGet rm (remote_path d n) = Some (200, Some data)" "\<not> writes (local_path l (remote_path d n))"
  shows "syncConfigFile rm writes now l d n fs = (Some True, fs)"
  using assms by (simp add: syncConfigFile_def Let_def)

text \<open>the names of the directories are those the other instance tells: one with dots leaves the local directory.\<close>

lemma told_directory_used:
  "rmGet rm ''../x/client.json'' = Some (200, Some data) \<Longrightarrow> fs ''l/../x/client.json'' = None \<Longrightarrow>
   snd (syncConfigFile rm (\<lambda>_. True) now ''l'' ''../x'' ''client.json'' fs) ''l/../x/client.json'' = Some (now, data)"
  by (simp add: syncConfigFile_def remote_path_def local_path_def)

text \<open>the addresses found first are kept: later changes of the interfaces are not seen.\<close>

lemma local_addresses_kept:
  "GetLocalIPv4 a [] \<noteq> [] \<Longrightarrow> GetLocalIPv4 b (GetLocalIPv4 a []) = GetLocalIPv4 a []"
  "GetLocalIPSet a {} \<noteq> {} \<Longrightarrow> GetLocalIPSet b (GetLocalIPSet a {}) = GetLocalIPSet a {}"
  by (simp_all add: GetLocalIPv4_def GetLocalIPSet_def)

lemma admin_tick_pair: "admin_tick texts (c, s) d = (if d then (c + 1, s @ texts) else (c, s))"
  by (simp add: admin_tick_def)

text \<open>every tick of the broadcast that reaches the network leaves one more connection open.\<close>

lemma broadcast_leaves_connections:
  "foldl (admin_tick texts) (0, []) ds = (length (filter id ds), concat (replicate (length (filter id ds)) texts))"
proof (induction ds rule: rev_induct)
  case (snoc d ds)
  have "concat (replicate n texts) @ texts = texts @ concat (replicate n texts)" for n by (induction n) simp_all
  with snoc show ?case by (simp add: admin_tick_pair)
qed simp

end
