(* ===== verification/Logging.thy ===== *)
theory Logging
  imports GoStrings Interfaces
begin

text \<open>
  The log (\<open>common/logger/log.go\<close>, \<open>ansi_color.go\<close>): where messages go after \<open>InitLogger\<close>, and the file writer, which starts a
  new file when the current one has become too long. The outcomes of the system calls are arguments.
\<close>

section \<open>Where messages go\<close>

datatype log_sink = SinkStdout | SinkFile string

record log_state =
  lgWithFile :: bool
  lgColor :: bool
  lgSinks :: "log_sink list"

definition log_start :: log_state where
  "log_start = \<lparr>lgWithFile = True, lgColor = False, lgSinks = [SinkStdout]\<rparr>"

definition log_sink_of :: "string \<Rightarrow> log_sink option" where
  "log_sink_of name =
     (if EqualFold name ''stdout'' \<or> EqualFold name ''console'' then Some SinkStdout
      else if EqualFold name ''color'' then None
      else Some (SinkFile name))"

text \<open>The console colours stay on once they are, and the sinks stay as they are when no new one is named.\<close>

definition InitLogger :: "string list \<Rightarrow> log_state \<Rightarrow> log_state" where
  "InitLogger output st =
     (let sinks = List.map_filter log_sink_of output in
      \<lparr>lgWithFile = (sinks \<noteq> []), lgColor = lgColor st \<or> list_ex (\<lambda>n. log_sink_of n = None) output,
       lgSinks = (if sinks \<noteq> [] then sinks else lgSinks st)\<rparr>)"

datatype level = Debug | Notice | Info | Error | Fatal

text \<open>The escape sequences around a message on the console.\<close>

definition esc :: "string \<Rightarrow> string" where
  "esc s = CHR 0x1B # s"

definition log_colour :: "level \<Rightarrow> string \<times> string" where
  "log_colour lv =
     (case lv of
        Debug \<Rightarrow> ([], [])
      | Notice \<Rightarrow> (esc ''[33m'', esc ''[0m'')
      | Info \<Rightarrow> (esc ''[1m'' @ esc ''[32m'', esc ''[21m'' @ esc ''[0m'')
      | _ \<Rightarrow> (esc ''[1m'' @ esc ''[31m'', esc ''[21m'' @ esc ''[0m''))"

text \<open>A message of a level: the sinks that get it, what the console gets, and whether the process ends after it.\<close>

definition log_message :: "level \<Rightarrow> string \<Rightarrow> log_state \<Rightarrow> log_sink list \<times> string \<times> bool" where
  "log_message lv msg st =
     (if lgWithFile st then lgSinks st else [], if lgColor st then fst (log_colour lv) @ msg @ snd (log_colour lv) else [], lv = Fatal)"

text \<open>The writer of the console puts its colours around what it is given, if it has any; debug messages are always made.\<close>

definition colorConsoleWriter_Write :: "string \<Rightarrow> string \<Rightarrow> string \<Rightarrow> string" where
  "colorConsoleWriter_Write pre post p = (if pre \<noteq> [] then pre @ p @ post else p)"

definition IsDebugEnable :: bool where "IsDebugEnable = True"

section \<open>The file writer\<close>

text \<open>The current file and the one before it (\<open>.1\<close>); None is a writer without a file.\<close>

record log_file =
  lfCur :: "string option"
  lfBackup :: string

definition max_log :: nat where "max_log = 1048576"

text \<open>\<open>ok\<close> and \<open>stat\<close> are the outcomes of writing and of \<open>Stat\<close>, \<open>reopens\<close> that of opening the new file.\<close>

definition log_file_Write :: "bool \<Rightarrow> bool \<Rightarrow> bool \<Rightarrow> string \<Rightarrow> log_file \<Rightarrow> log_file" where
  "log_file_Write ok stat reopens p f =
     (case lfCur f of None \<Rightarrow> f
      | Some cur \<Rightarrow>
          (let cur = (if ok then cur @ p else cur) in
           if stat \<and> max_log \<le> length cur then \<lparr>lfCur = (if reopens then Some [] else None), lfBackup = cur\<rparr>
           else f\<lparr>lfCur := Some cur\<rparr>))"

definition initLogWriter :: "string option \<Rightarrow> string \<Rightarrow> log_file" where
  "initLogWriter opened backup = \<lparr>lfCur = opened, lfBackup = backup\<rparr>"

text \<open>Messages that are all written.\<close>

definition log_all :: "string list \<Rightarrow> log_file \<Rightarrow> log_file" where
  "log_all ps f = foldl (\<lambda>f p. log_file_Write True True True p f) f ps"

section \<open>Properties\<close>

definition log_inv :: "nat \<Rightarrow> log_file \<Rightarrow> bool" where
  "log_inv n f \<longleftrightarrow> (\<exists>cur. lfCur f = Some cur \<and> length cur < max_log) \<and> length (lfBackup f) < max_log + n"

lemma log_write_inv: "log_inv n f \<Longrightarrow> length p \<le> n \<Longrightarrow> log_inv n (log_file_Write True True True p f)"
  by (auto simp: log_inv_def log_file_Write_def Let_def max_log_def)

lemma log_all_inv: "log_inv n f \<Longrightarrow> list_all (\<lambda>p. length p \<le> n) ps \<Longrightarrow> log_inv n (log_all ps f)"
  by (induction ps arbitrary: f) (simp_all add: log_all_def log_write_inv)

lemma log_write_suffix:
  "lfCur f = Some cur \<Longrightarrow> suffix (lfBackup f @ cur) old \<Longrightarrow>
   \<exists>c. lfCur (log_file_Write True True True p f) = Some c \<and> suffix (lfBackup (log_file_Write True True True p f) @ c) (old @ p)"
  by (auto simp: log_file_Write_def Let_def suffix_def)

lemma log_all_suffix:
  "lfCur f = Some cur \<Longrightarrow> suffix (lfBackup f @ cur) old \<Longrightarrow>
   \<exists>c. lfCur (log_all ps f) = Some c \<and> suffix (lfBackup (log_all ps f) @ c) (old @ concat ps)"
proof (induction ps arbitrary: f cur old)
  case (Cons p ps)
  obtain c where "lfCur (log_file_Write True True True p f) = Some c"
    "suffix (lfBackup (log_file_Write True True True p f) @ c) (old @ p)"
    using log_write_suffix [OF Cons.prems] by blast
  from Cons.IH [OF this] show ?case by (simp add: log_all_def)
qed (simp add: log_all_def)

text \<open>whatever is logged, the current file stays below one megabyte and the file before it below one megabyte and a message, and together
  they end with the messages written last.\<close>

theorem log_files_bounded:
  assumes "list_all (\<lambda>p. length p \<le> n) ps" "f = log_all ps (initLogWriter (Some []) [])"
  shows "\<exists>cur. lfCur f = Some cur \<and> length cur < max_log \<and> length (lfBackup f) < max_log + n \<and> suffix (lfBackup f @ cur) (concat ps)"
proof -
  have "log_inv n (initLogWriter (Some []) [])" by (simp add: log_inv_def initLogWriter_def max_log_def)
  then have "log_inv n f" unfolding assms(2) by (rule log_all_inv [OF _ assms(1)])
  moreover have "\<exists>c. lfCur f = Some c \<and> suffix (lfBackup f @ c) ([] @ concat ps)"
    unfolding assms(2) by (rule log_all_suffix [where cur = "[]"]) (simp_all add: initLogWriter_def)
  ultimately show ?thesis by (auto simp: log_inv_def)
qed

lemma log_files_bounded_witness:
  "\<exists>cur. lfCur (log_all [''a'', ''b''] (initLogWriter (Some []) [])) = Some cur \<and> suffix cur ''ab''"
  using log_files_bounded [of 1 "[''a'', ''b'']", OF _ refl] by (auto intro: suffix_appendD)

text \<open>with only \<open>color\<close> nothing goes to the sinks of the start any more.\<close>

lemma color_only: "fst (log_message lv msg (InitLogger [''color''] log_start)) = []"
  by (simp add: log_message_def InitLogger_def List.map_filter_def log_sink_of_def EqualFold_def ToLower_def lower_def char_of_eq_iff)

text \<open>when the new file cannot be opened, everything after it is lost.\<close>

lemma failed_rotation_loses:
  "lfCur f = Some cur \<Longrightarrow> max_log \<le> length (cur @ p) \<Longrightarrow>
   lfCur (foldl (\<lambda>f p. log_file_Write ok stat r p f) (log_file_Write True True False p f) ps) = None"
proof -
  assume a: "lfCur f = Some cur" "max_log \<le> length (cur @ p)"
  have "lfCur g = None \<Longrightarrow> lfCur (foldl (\<lambda>f p. log_file_Write ok stat r p f) g ps) = None" for g
    by (induction ps arbitrary: g) (simp_all add: log_file_Write_def)
  moreover have "lfCur (log_file_Write True True False p f) = None" using a by (simp add: log_file_Write_def Let_def)
  ultimately show ?thesis by blast
qed

end
