(* ===== verification/Relay.thy ===== *)
theory Relay
  imports ServerSession
begin

text \<open>
  The copying between two connections on the server: \<open>handleProxyStream\<close> of \<open>common/channel/remote.go\<close>
  (a stream and the connection that has been dialled for it) and \<open>handleP2PProxyStream\<close> of \<open>remote_p2p.go\<close> (a
  stream and a stream to the peer). The two goroutines of each and the two ends are one machine of interleaved events.
  The compressors pass the bytes on; the rate limiter delays them.
\<close>

section \<open>Ends and copying\<close>

text \<open>An end: the pieces that have arrived and are not read yet, whether the other side has ended its writing, whether this side has
  closed it, whether writes to it fail, and the bytes written to it.\<close>

record endpoint =
  epIn :: "bytes list"
  epEof :: bool
  epClosed :: bool
  epBroken :: bool
  epOut :: bytes

definition ep_new :: endpoint where
  "ep_new = \<lparr>epIn = [], epEof = False, epClosed = False, epBroken = False, epOut = []\<rparr>"

definition ep_close :: "endpoint \<Rightarrow> endpoint" where
  "ep_close e = e\<lparr>epClosed := True\<rparr>"

datatype copied = Blocked | Moved | CopyEnd

text \<open>One round of \<open>io.Copy\<close>: it waits, moves a piece, or ends, with a failed read, a failed write or the end of the source.\<close>

definition copy_step :: "endpoint \<Rightarrow> endpoint \<Rightarrow> copied \<times> endpoint \<times> endpoint" where
  "copy_step src dst =
     (if epClosed src then (CopyEnd, src, dst)
      else case epIn src of
        p # ps \<Rightarrow>
          (let src = src\<lparr>epIn := ps\<rparr> in
           if epClosed dst \<or> epBroken dst then (CopyEnd, src, dst) else (Moved, src, dst\<lparr>epOut := epOut dst @ p\<rparr>))
      | [] \<Rightarrow> (if epEof src then CopyEnd else Blocked, src, dst))"

section \<open>The machines\<close>

text \<open>The goroutine copies from the stream of the client (\<open>handleProxyStream\<close>) or to it (\<open>handleP2PProxyStream\<close>); the handler itself
  copies the other way, waits for the goroutine and returns.\<close>

datatype main_phase = Copying | AwaitsGo | HandlerDone

record relay =
  rlClient :: endpoint
  rlTarget :: endpoint
  rlGo :: bool
  rlMain :: main_phase

definition relay_new :: "endpoint \<Rightarrow> endpoint \<Rightarrow> relay" where
  "relay_new s c = \<lparr>rlClient = s, rlTarget = c, rlGo = True, rlMain = Copying\<rparr>"

definition close_both :: "relay \<Rightarrow> relay" where
  "close_both r = r\<lparr>rlClient := ep_close (rlClient r), rlTarget := ep_close (rlTarget r)\<rparr>"

text \<open>What happens: a goroutine runs, a read of the target times out with the stream idle for some milliseconds, an end gets
  a piece, its end of input, or breaks.\<close>

datatype relay_event = GoRuns | MainRuns | TargetTimeout int
  | ClientSends bytes | TargetSends bytes | ClientEnds | TargetEnds | ClientBreaks | TargetBreaks

definition ep_arrive :: "bytes \<Rightarrow> endpoint \<Rightarrow> endpoint" where
  "ep_arrive p e = (if epEof e then e else e\<lparr>epIn := epIn e @ [p]\<rparr>)"

definition outside :: "relay \<Rightarrow> relay_event \<Rightarrow> relay" where
  "outside r ev =
     (case ev of
        ClientSends p \<Rightarrow> r\<lparr>rlClient := ep_arrive p (rlClient r)\<rparr>
      | TargetSends p \<Rightarrow> r\<lparr>rlTarget := ep_arrive p (rlTarget r)\<rparr>
      | ClientEnds \<Rightarrow> r\<lparr>rlClient := (rlClient r)\<lparr>epEof := True\<rparr>\<rparr>
      | TargetEnds \<Rightarrow> r\<lparr>rlTarget := (rlTarget r)\<lparr>epEof := True\<rparr>\<rparr>
      | ClientBreaks \<Rightarrow> r\<lparr>rlClient := (rlClient r)\<lparr>epBroken := True\<rparr>\<rparr>
      | TargetBreaks \<Rightarrow> r\<lparr>rlTarget := (rlTarget r)\<lparr>epBroken := True\<rparr>\<rparr>
      | _ \<Rightarrow> r)"

text \<open>The handler of a proxied stream.\<close>

definition proxy_go :: "relay \<Rightarrow> relay" where
  "proxy_go r =
     (if rlGo r then
        (case copy_step (rlClient r) (rlTarget r) of (x, s, c) \<Rightarrow> r\<lparr>rlClient := s, rlTarget := c, rlGo := (x \<noteq> CopyEnd)\<rparr>)
      else r)"

definition proxy_main :: "relay \<Rightarrow> relay" where
  "proxy_main r =
     (case rlMain r of
        Copying \<Rightarrow>
          (case copy_step (rlTarget r) (rlClient r) of
             (x, c, s) \<Rightarrow>
               let r = r\<lparr>rlClient := s, rlTarget := c\<rparr> in if x = CopyEnd then (close_both r)\<lparr>rlMain := AwaitsGo\<rparr> else r)
      | AwaitsGo \<Rightarrow> if rlGo r then r else (close_both r)\<lparr>rlMain := HandlerDone\<rparr>
      | HandlerDone \<Rightarrow> r)"

definition proxy_timeout :: "int \<Rightarrow> int \<Rightarrow> relay \<Rightarrow> relay" where
  "proxy_timeout maxIdle idle r =
     (if rlMain r = Copying \<and> \<not> relay_continues True idle maxIdle then (close_both r)\<lparr>rlMain := AwaitsGo\<rparr> else r)"

definition proxy_ev :: "int \<Rightarrow> relay \<Rightarrow> relay_event \<Rightarrow> relay" where
  "proxy_ev maxIdle r ev =
     (case ev of GoRuns \<Rightarrow> proxy_go r | MainRuns \<Rightarrow> proxy_main r | TargetTimeout idle \<Rightarrow> proxy_timeout maxIdle idle r | _ \<Rightarrow> outside r ev)"

text \<open>The handler of a peer's stream: the goroutine copies to the client and closes its stream; nothing has a deadline.\<close>

definition p2p_go :: "relay \<Rightarrow> relay" where
  "p2p_go r =
     (if rlGo r then
        (case copy_step (rlTarget r) (rlClient r) of
           (x, c, s) \<Rightarrow> r\<lparr>rlClient := (if x = CopyEnd then ep_close s else s), rlTarget := c, rlGo := (x \<noteq> CopyEnd)\<rparr>)
      else r)"

definition p2p_main :: "relay \<Rightarrow> relay" where
  "p2p_main r =
     (case rlMain r of
        Copying \<Rightarrow> (case copy_step (rlClient r) (rlTarget r) of
            (x, s, c) \<Rightarrow> r\<lparr>rlClient := s, rlTarget := c, rlMain := (if x = CopyEnd then AwaitsGo else Copying)\<rparr>)
      | AwaitsGo \<Rightarrow> if rlGo r then r else (close_both r)\<lparr>rlMain := HandlerDone\<rparr>
      | HandlerDone \<Rightarrow> r)"

definition p2p_ev :: "relay \<Rightarrow> relay_event \<Rightarrow> relay" where
  "p2p_ev r ev = (case ev of GoRuns \<Rightarrow> p2p_go r | MainRuns \<Rightarrow> p2p_main r | _ \<Rightarrow> outside r ev)"

section \<open>The handlers\<close>

text \<open>\<open>dial\<close> is what dialling or the next hop gives. None is a handler that has closed the stream and returned.\<close>

definition handleProxyStream ::
    "ProxyLimitConfig \<Rightarrow> (route \<Rightarrow> endpoint option) \<Rightarrow> MuxConfig \<Rightarrow> mux_err option \<times> ConnectRequest \<Rightarrow> endpoint \<Rightarrow>
     relay_event list \<Rightarrow> endpoint \<times> relay option" where
  "handleProxyStream limit dial mc req stream evs =
     (case route_request limit req of
        BadRequest \<Rightarrow> (ep_close stream, None)
      | NotAllowed \<Rightarrow> (ep_close stream, None)
      | r \<Rightarrow> (case dial r of None \<Rightarrow> (ep_close stream, None)
               | Some c \<Rightarrow> (let q = foldl (proxy_ev (max_idle mc (snd req))) (relay_new stream c) evs in (rlClient q, Some q))))"

text \<open>\<open>peer\<close> is what \<open>openPeerStream\<close> gives.\<close>

definition handleP2PProxyStream :: "endpoint option \<Rightarrow> endpoint \<Rightarrow> relay_event list \<Rightarrow> endpoint \<times> relay option" where
  "handleP2PProxyStream peer stream evs =
     (case peer of None \<Rightarrow> (ep_close stream, None)
      | Some p \<Rightarrow> (let q = foldl p2p_ev (relay_new stream p) evs in (rlClient q, Some q)))"

section \<open>Lemmas\<close>

text \<open>What an end has sent before its end of input.\<close>

fun client_sent :: "relay_event list \<Rightarrow> bytes" where
  "client_sent [] = []"
| "client_sent (ClientSends p # evs) = p @ client_sent evs"
| "client_sent (ClientEnds # evs) = []"
| "client_sent (_ # evs) = client_sent evs"

fun target_sent :: "relay_event list \<Rightarrow> bytes" where
  "target_sent [] = []"
| "target_sent (TargetSends p # evs) = p @ target_sent evs"
| "target_sent (TargetEnds # evs) = []"
| "target_sent (_ # evs) = target_sent evs"

text \<open>\<open>X\<close> is what a source sends in all, \<open>rest\<close> what it sends from now on; \<open>b\<close> is whether the copy runs.\<close>

definition flow :: "bool \<Rightarrow> endpoint \<Rightarrow> endpoint \<Rightarrow> bytes \<Rightarrow> bytes \<Rightarrow> bool" where
  "flow b src dst rest X \<longleftrightarrow>
     prefix (epOut dst) X \<and> (b \<longrightarrow> X = epOut dst @ concat (epIn src) @ (if epEof src then [] else rest))"

lemma flow_prefix: "flow b src dst rest X \<Longrightarrow> prefix (epOut dst) X"
  by (simp add: flow_def)

lemma copy_step_flow:
  "copy_step src dst = (x, src', dst') \<Longrightarrow> flow True src dst rest X \<Longrightarrow> flow (x \<noteq> CopyEnd) src' dst' rest X"
  by (auto simp: copy_step_def flow_def Let_def split: if_splits list.splits)

lemma copy_step_frame:
  "copy_step src dst = (x, src', dst') \<Longrightarrow>
   epOut src' = epOut src \<and> epEof src' = epEof src \<and> epClosed src' = epClosed src \<and> epBroken src' = epBroken src \<and>
   epIn dst' = epIn dst \<and> epEof dst' = epEof dst \<and> epClosed dst' = epClosed dst \<and> epBroken dst' = epBroken dst"
  by (auto simp: copy_step_def Let_def split: if_splits list.splits)

text \<open>Without a failure a copy ends only behind the last piece of an ended source.\<close>

lemma copy_step_end:
  "copy_step src dst = (CopyEnd, src', dst') \<Longrightarrow> \<not> epClosed src \<Longrightarrow> \<not> epClosed dst \<Longrightarrow> \<not> epBroken dst \<Longrightarrow>
   epEof src \<and> epIn src = [] \<and> src' = src \<and> dst' = dst"
  by (auto simp: copy_step_def Let_def split: if_splits list.splits)

lemma copy_step_moves:
  "copy_step src dst = (x, src', dst') \<Longrightarrow> epEof src \<Longrightarrow> x = CopyEnd \<or> length (epIn src') < length (epIn src)"
  by (auto simp: copy_step_def Let_def split: if_splits list.splits)

lemma ep_close_sel [simp]:
  "epOut (ep_close e) = epOut e" "epIn (ep_close e) = epIn e" "epEof (ep_close e) = epEof e" "epClosed (ep_close e)" "epBroken (ep_close e) = epBroken e"
  by (simp_all add: ep_close_def)

text \<open>Both directions of a relay; the goroutine carries the bytes of the client.\<close>

definition proxy_flows :: "relay_event list \<Rightarrow> bytes \<Rightarrow> bytes \<Rightarrow> relay \<Rightarrow> bool" where
  "proxy_flows evs X Y r \<longleftrightarrow>
     flow (rlGo r) (rlClient r) (rlTarget r) (client_sent evs) X \<and>
     flow (rlMain r = Copying) (rlTarget r) (rlClient r) (target_sent evs) Y"

lemma outside_flows:
  assumes "proxy_flows (ev # evs) X Y r" "ev \<noteq> GoRuns" "ev \<noteq> MainRuns" "\<forall>i. ev \<noteq> TargetTimeout i"
  shows "proxy_flows evs X Y (outside r ev)"
  using assms by (cases ev) (auto simp: proxy_flows_def flow_def outside_def ep_arrive_def)

text \<open>Copying, ending a copy and closing both ends keep the flows, whichever end is the source.\<close>

lemma flows_copy:
  assumes "copy_step src dst = (x, src', dst')" "flow True src dst rest X" "flow b dst src rest' Y"
  shows "flow (x \<noteq> CopyEnd) src' dst' rest X \<and> flow b dst' src' rest' Y"
proof -
  have "flow b dst' src' rest' Y" using copy_step_frame [OF assms(1)] assms(3) by (simp add: flow_def)
  with copy_step_flow [OF assms(1,2)] show ?thesis by blast
qed

lemma flow_close [simp]: "flow b (ep_close src) (ep_close dst) rest X = flow b src dst rest X"
  by (simp add: flow_def)

lemma flow_off: "flow b src dst rest X \<Longrightarrow> flow False src dst rest' X"
  by (simp add: flow_def)

lemma proxy_step_flows:
  assumes "proxy_flows (ev # evs) X Y r"
  shows "proxy_flows evs X Y (proxy_ev m r ev)"
proof (cases ev)
  case GoRuns
  obtain x s c where x: "copy_step (rlClient r) (rlTarget r) = (x, s, c)" by (rule prod_cases3)
  show ?thesis
  proof (cases "rlGo r")
    case True
    with flows_copy [OF x, of "client_sent evs" X "rlMain r = Copying" "target_sent evs" Y] assms GoRuns show ?thesis by (simp add: proxy_ev_def proxy_go_def proxy_flows_def x)
  qed (use assms GoRuns in \<open>simp add: proxy_ev_def proxy_go_def proxy_flows_def\<close>)
next
  case MainRuns
  obtain x s c where x: "copy_step (rlTarget r) (rlClient r) = (x, c, s)" by (rule prod_cases3)
  show ?thesis
  proof (cases "rlMain r")
    case Copying
    with flows_copy [OF x, of "target_sent evs" Y "rlGo r" "client_sent evs" X] assms MainRuns show ?thesis
      by (auto simp: proxy_ev_def proxy_main_def proxy_flows_def close_both_def x Let_def)
  qed (use assms MainRuns in \<open>auto simp: proxy_ev_def proxy_main_def proxy_flows_def close_both_def\<close>)
next
  case (TargetTimeout i)
  with assms show ?thesis
    by (auto simp: proxy_ev_def proxy_timeout_def proxy_flows_def close_both_def intro: flow_off)
qed (use outside_flows [OF assms] in \<open>simp_all add: proxy_ev_def\<close>)

lemma proxy_run_flows: "proxy_flows evs X Y r \<Longrightarrow> proxy_flows [] X Y (foldl (proxy_ev m) r evs)"
  by (induction evs arbitrary: r) (auto dest: proxy_step_flows)

text \<open>The same of the handler of a peer's stream, where the goroutine carries the bytes of the peer.\<close>

definition p2p_flows :: "relay_event list \<Rightarrow> bytes \<Rightarrow> bytes \<Rightarrow> relay \<Rightarrow> bool" where
  "p2p_flows evs X Y r \<longleftrightarrow>
     flow (rlMain r = Copying) (rlClient r) (rlTarget r) (client_sent evs) X \<and>
     flow (rlGo r) (rlTarget r) (rlClient r) (target_sent evs) Y"

lemma p2p_step_flows:
  assumes "p2p_flows (ev # evs) X Y r"
  shows "p2p_flows evs X Y (p2p_ev r ev)"
proof (cases ev)
  case GoRuns
  obtain x s c where x: "copy_step (rlTarget r) (rlClient r) = (x, c, s)" by (rule prod_cases3)
  show ?thesis
  proof (cases "rlGo r")
    case True
    with flows_copy [OF x, of "target_sent evs" Y "rlMain r = Copying" "client_sent evs" X] assms GoRuns show ?thesis
      by (auto simp: p2p_ev_def p2p_go_def p2p_flows_def x flow_def)
  qed (use assms GoRuns in \<open>simp add: p2p_ev_def p2p_go_def p2p_flows_def\<close>)
next
  case MainRuns
  obtain x s c where x: "copy_step (rlClient r) (rlTarget r) = (x, s, c)" by (rule prod_cases3)
  show ?thesis
  proof (cases "rlMain r")
    case Copying
    with flows_copy [OF x, of "client_sent evs" X "rlGo r" "target_sent evs" Y] assms MainRuns show ?thesis
      by (auto simp: p2p_ev_def p2p_main_def p2p_flows_def x)
  qed (use assms MainRuns in \<open>auto simp: p2p_ev_def p2p_main_def p2p_flows_def close_both_def\<close>)
next
  case (TargetTimeout i)
  with assms show ?thesis by (simp add: p2p_ev_def p2p_flows_def outside_def)
qed (use assms in \<open>auto simp: p2p_ev_def p2p_flows_def flow_def outside_def ep_arrive_def\<close>)

lemma p2p_run_flows: "p2p_flows evs X Y r \<Longrightarrow> p2p_flows [] X Y (foldl p2p_ev r evs)"
  by (induction evs arbitrary: r) (auto dest: p2p_step_flows)

text \<open>While the target has not ended and no failure occurs, both ends stay open, whatever the client does.\<close>

definition held :: "relay \<Rightarrow> bool" where
  "held r \<longleftrightarrow> \<not> epClosed (rlClient r) \<and> \<not> epClosed (rlTarget r) \<and> \<not> epEof (rlTarget r) \<and> \<not> epBroken (rlClient r)"

definition no_failure :: "relay_event \<Rightarrow> bool" where
  "no_failure ev \<longleftrightarrow> ev \<noteq> ClientBreaks \<and> (\<forall>i. ev \<noteq> TargetTimeout i)"

lemma copy_step_held:
  "copy_step src dst = (x, src', dst') \<Longrightarrow> \<not> epClosed src \<Longrightarrow> \<not> epClosed dst \<Longrightarrow> \<not> epBroken dst \<Longrightarrow> \<not> epEof src \<Longrightarrow> x \<noteq> CopyEnd"
  using copy_step_end by blast

lemma outside_held: "held r \<Longrightarrow> no_failure ev \<Longrightarrow> ev \<noteq> TargetEnds \<Longrightarrow> held (outside r ev) \<and> rlMain (outside r ev) = rlMain r \<and> rlGo (outside r ev) = rlGo r"
  by (cases ev) (auto simp: held_def outside_def ep_arrive_def no_failure_def)

lemma proxy_held:
  assumes "held r \<and> rlMain r = Copying" "no_failure ev" "ev \<noteq> TargetEnds"
  shows "held (proxy_ev m r ev) \<and> rlMain (proxy_ev m r ev) = Copying"
proof (cases ev)
  case GoRuns
  obtain x s c where x: "copy_step (rlClient r) (rlTarget r) = (x, s, c)" by (rule prod_cases3)
  from assms GoRuns copy_step_frame [OF x] show ?thesis by (simp add: proxy_ev_def proxy_go_def held_def x)
next
  case MainRuns
  obtain x s c where x: "copy_step (rlTarget r) (rlClient r) = (x, c, s)" by (rule prod_cases3)
  from assms(1) have "x \<noteq> CopyEnd" using copy_step_held [OF x] by (simp add: held_def)
  with assms MainRuns copy_step_frame [OF x] show ?thesis by (simp add: proxy_ev_def proxy_main_def held_def x Let_def)
qed (use assms outside_held [of r ev] in \<open>auto simp: proxy_ev_def no_failure_def\<close>)

lemma p2p_held:
  assumes "held r \<and> rlGo r \<and> rlMain r \<noteq> HandlerDone" "no_failure ev" "ev \<noteq> TargetEnds"
  shows "held (p2p_ev r ev) \<and> rlGo (p2p_ev r ev) \<and> rlMain (p2p_ev r ev) \<noteq> HandlerDone"
proof (cases ev)
  case GoRuns
  obtain x s c where x: "copy_step (rlTarget r) (rlClient r) = (x, c, s)" by (rule prod_cases3)
  from assms(1) have "x \<noteq> CopyEnd" using copy_step_held [OF x] by (simp add: held_def)
  with assms GoRuns copy_step_frame [OF x] show ?thesis by (simp add: p2p_ev_def p2p_go_def held_def x)
next
  case MainRuns
  obtain x s c where x: "copy_step (rlClient r) (rlTarget r) = (x, s, c)" by (rule prod_cases3)
  from assms MainRuns copy_step_frame [OF x] show ?thesis
    by (simp add: p2p_ev_def p2p_main_def held_def x split: main_phase.splits)
qed (use assms outside_held [of r ev] in \<open>auto simp: p2p_ev_def no_failure_def\<close>)

lemma proxy_run_held:
  "held r \<and> rlMain r = Copying \<Longrightarrow> list_all (\<lambda>ev. no_failure ev \<and> ev \<noteq> TargetEnds) evs \<Longrightarrow>
   held (foldl (proxy_ev m) r evs) \<and> rlMain (foldl (proxy_ev m) r evs) = Copying"
  by (induction evs arbitrary: r) (simp_all add: proxy_held)

lemma p2p_run_held:
  "held r \<and> rlGo r \<and> rlMain r \<noteq> HandlerDone \<Longrightarrow> list_all (\<lambda>ev. no_failure ev \<and> ev \<noteq> TargetEnds) evs \<Longrightarrow>
   held (foldl p2p_ev r evs) \<and> rlGo (foldl p2p_ev r evs) \<and> rlMain (foldl p2p_ev r evs) \<noteq> HandlerDone"
  by (induction evs arbitrary: r) (simp_all add: p2p_held)

text \<open>The copy to the client ends without a failure only behind everything the target has sent.\<close>

definition answered :: "relay_event list \<Rightarrow> bytes \<Rightarrow> relay \<Rightarrow> bool" where
  "answered evs Y r \<longleftrightarrow>
     (rlMain r = Copying \<longrightarrow> \<not> epClosed (rlClient r) \<and> \<not> epClosed (rlTarget r) \<and> \<not> epBroken (rlClient r)) \<and>
     (rlMain r \<noteq> Copying \<longrightarrow> epOut (rlClient r) = Y)"

lemma proxy_step_answered:
  assumes "answered (ev # evs) Y r" "proxy_flows (ev # evs) X Y r" "no_failure ev"
  shows "answered evs Y (proxy_ev m r ev)"
proof (cases ev)
  case GoRuns
  obtain x s c where x: "copy_step (rlClient r) (rlTarget r) = (x, s, c)" by (rule prod_cases3)
  from assms GoRuns copy_step_frame [OF x] show ?thesis by (simp add: answered_def proxy_ev_def proxy_go_def x)
next
  case MainRuns
  obtain x s c where x: "copy_step (rlTarget r) (rlClient r) = (x, c, s)" by (rule prod_cases3)
  show ?thesis
  proof (cases "rlMain r = Copying \<and> x = CopyEnd")
    case True
    with assms(1) copy_step_end [of "rlTarget r" "rlClient r" c s] x
    have "epEof (rlTarget r)" "epIn (rlTarget r) = []" "s = rlClient r" by (auto simp: answered_def)
    with assms(2) True have "epOut s = Y" by (simp add: proxy_flows_def flow_def)
    with True MainRuns x show ?thesis by (simp add: answered_def proxy_ev_def proxy_main_def Let_def close_both_def)
  next
    case False
    with assms MainRuns copy_step_frame [OF x] show ?thesis
      by (auto simp: answered_def proxy_ev_def proxy_main_def close_both_def x Let_def split: main_phase.splits)
  qed
qed (use assms in \<open>auto simp: answered_def proxy_ev_def outside_def ep_arrive_def no_failure_def\<close>)

lemma proxy_run_answered:
  "answered evs Y r \<Longrightarrow> proxy_flows evs X Y r \<Longrightarrow> list_all no_failure evs \<Longrightarrow> answered [] Y (foldl (proxy_ev m) r evs)"
proof (induction evs arbitrary: r)
  case (Cons ev evs)
  from proxy_step_answered [OF Cons.prems(1,2)] proxy_step_flows [OF Cons.prems(2)] Cons.prems(3)
  show ?case by (simp add: Cons.IH)
qed simp

text \<open>When the target has ended, the pieces that wait are a bound for the copy to the client.\<close>

definition draining :: "nat \<Rightarrow> relay \<Rightarrow> bool" where
  "draining n r \<longleftrightarrow> (if rlMain r = Copying then epEof (rlTarget r) \<and> length (epIn (rlTarget r)) < n
     else epClosed (rlClient r) \<and> epClosed (rlTarget r))"

lemma proxy_draining:
  assumes "draining n r"
  shows "draining (if ev = MainRuns then n - 1 else n) (proxy_ev m r ev)"
proof (cases ev)
  case GoRuns
  obtain x s c where x: "copy_step (rlClient r) (rlTarget r) = (x, s, c)" by (rule prod_cases3)
  from assms GoRuns copy_step_frame [OF x] show ?thesis by (simp add: draining_def proxy_ev_def proxy_go_def x)
next
  case MainRuns
  obtain x s c where x: "copy_step (rlTarget r) (rlClient r) = (x, c, s)" by (rule prod_cases3)
  from assms MainRuns copy_step_frame [OF x] copy_step_moves [OF x] show ?thesis
    by (auto simp: draining_def proxy_ev_def proxy_main_def close_both_def x Let_def split: main_phase.splits if_splits)
qed (use assms in \<open>auto simp: draining_def proxy_ev_def outside_def ep_arrive_def proxy_timeout_def close_both_def split: if_splits\<close>)

lemma proxy_run_draining:
  "draining n r \<Longrightarrow> draining (n - length (filter (\<lambda>ev. ev = MainRuns) evs)) (foldl (proxy_ev m) r evs)"
proof (induction evs arbitrary: n r)
  case (Cons ev evs)
  from Cons.IH [OF proxy_draining [OF Cons.prems, of ev m]] show ?case by (cases "ev = MainRuns") simp_all
qed simp

lemma waiting_pieces:
  "length (epIn (rlTarget (foldl (proxy_ev m) r evs))) \<le> length (epIn (rlTarget r)) + length (filter (\<lambda>ev. \<exists>p. ev = TargetSends p) evs)"
proof (induction evs arbitrary: r)
  case (Cons ev evs)
  have "length (epIn (rlTarget (proxy_ev m r ev))) \<le> length (epIn (rlTarget r)) + (if \<exists>p. ev = TargetSends p then 1 else 0)"
    by (cases ev) (auto simp: proxy_ev_def outside_def ep_arrive_def proxy_go_def proxy_main_def proxy_timeout_def close_both_def copy_step_def Let_def
        split: list.splits main_phase.splits prod.splits if_splits)
  with Cons.IH [of "proxy_ev m r ev"] show ?case by (auto split: if_splits)
qed simp

text \<open>Once the handler has stopped copying, both ends are closed.\<close>

definition stopped_closed :: "relay \<Rightarrow> bool" where
  "stopped_closed r \<longleftrightarrow> (rlMain r \<noteq> Copying \<longrightarrow> epClosed (rlClient r) \<and> epClosed (rlTarget r))"

lemma proxy_stopped_closed: "stopped_closed r \<Longrightarrow> stopped_closed (proxy_ev m r ev)"
proof (cases ev)
  case GoRuns
  obtain x s c where x: "copy_step (rlClient r) (rlTarget r) = (x, s, c)" by (rule prod_cases3)
  show "stopped_closed r \<Longrightarrow> stopped_closed (proxy_ev m r ev)"
    using GoRuns copy_step_frame [OF x] by (simp add: stopped_closed_def proxy_ev_def proxy_go_def x)
next
  case MainRuns
  obtain x s c where x: "copy_step (rlTarget r) (rlClient r) = (x, c, s)" by (rule prod_cases3)
  show "stopped_closed r \<Longrightarrow> stopped_closed (proxy_ev m r ev)"
    using MainRuns copy_step_frame [OF x]
    by (auto simp: stopped_closed_def proxy_ev_def proxy_main_def close_both_def x Let_def split: main_phase.splits)
qed (auto simp: stopped_closed_def proxy_ev_def outside_def ep_arrive_def proxy_timeout_def close_both_def)

interpretation relaying: event_machine "proxy_ev m" stopped_closed for m
  by unfold_locales (rule proxy_stopped_closed)

lemma handleProxy_run:
  assumes "handleProxyStream limit (\<lambda>_. Some ep_new) mc req ep_new evs = (s, Some q)"
  shows "q = foldl (proxy_ev (max_idle mc (snd req))) (relay_new ep_new ep_new) evs \<and> s = rlClient q"
  using assms by (auto simp: handleProxyStream_def Let_def split: route.splits)

lemma handleP2P_run:
  "handleP2PProxyStream (Some ep_new) ep_new evs = (s, Some q) \<Longrightarrow> q = foldl p2p_ev (relay_new ep_new ep_new) evs \<and> s = rlClient q"
  by (auto simp: handleP2PProxyStream_def Let_def)

section \<open>Properties\<close>

text \<open>a proxied stream carries bytes exactly: in every interleaving of the two copies and of what the two ends do, what the
  target has got is the beginning of what the client has sent, what the client has got is the beginning of what the
  target has sent, and unless the client's stream breaks, the client gets all of it before the handler stops copying.\<close>

theorem proxied_bytes_exact:
  assumes "handleProxyStream limit (\<lambda>_. Some ep_new) mc req ep_new evs = (s, Some q)"
  shows "prefix (epOut (rlTarget q)) (client_sent evs) \<and> prefix (epOut s) (target_sent evs) \<and>
    (list_all no_failure evs \<and> rlMain q \<noteq> Copying \<longrightarrow> epOut s = target_sent evs)"
proof -
  let ?r = "relay_new ep_new ep_new"
  have f: "proxy_flows evs (client_sent evs) (target_sent evs) ?r"
    by (simp add: proxy_flows_def flow_def relay_new_def ep_new_def)
  have a: "answered evs (target_sent evs) ?r" by (simp add: answered_def relay_new_def ep_new_def)
  show ?thesis
    using handleProxy_run [OF assms] proxy_run_flows [OF f] proxy_run_answered [OF a f]
    by (auto simp: proxy_flows_def answered_def dest: flow_prefix)
qed

definition direct_request :: "mux_err option \<times> ConnectRequest" where
  "direct_request = (None, empty_connect\<lparr>crNetwork := ''tcp'', crAddr := ''h:1''\<rparr>)"

definition no_limit :: ProxyLimitConfig where
  "no_limit = \<lparr>WhiteList = [], BlackList = []\<rparr>"

definition no_mux :: MuxConfig where
  "no_mux = \<lparr>MaxStreamWindow = [], StreamMinRefresh = [], StreamIdleTimeout = 0, SessionIdleTimeout = 0, UpBufferSize = 0, DownBufferSize = 0\<rparr>"

definition sample_run :: "relay_event list" where
  "sample_run = [ClientSends [1, 2], GoRuns, TargetSends [3], TargetEnds, MainRuns, MainRuns, GoRuns, MainRuns]"

lemmas run_simps = proxy_ev_def proxy_go_def proxy_main_def p2p_ev_def p2p_go_def p2p_main_def outside_def ep_arrive_def copy_step_def
  close_both_def ep_close_def relay_new_def ep_new_def

lemma sample_dialled: "handleProxyStream no_limit (\<lambda>_. Some ep_new) no_mux direct_request ep_new evs =
    (rlClient (foldl (proxy_ev 10000) (relay_new ep_new ep_new) evs), Some (foldl (proxy_ev 10000) (relay_new ep_new ep_new) evs))"
  by (simp add: handleProxyStream_def direct_request_def no_limit_def no_mux_def route_request_def Allowed_def empty_connect_def max_idle_def Let_def)

lemma proxied_bytes_exact_witness:
  "prefix (epOut (rlTarget (foldl (proxy_ev 10000) (relay_new ep_new ep_new) sample_run))) [1, 2] \<and>
   epOut (rlClient (foldl (proxy_ev 10000) (relay_new ep_new ep_new) sample_run)) = [3]"
  using proxied_bytes_exact [OF sample_dialled, of sample_run]
  by (simp add: sample_run_def run_simps no_failure_def)

text \<open>C38: when the target ends, the handler returns with both ends closed: it needs one turn for each piece that waits, one for the end, one of
  the goroutine and one more, whatever the ends and the goroutine do between them.\<close>

theorem relay_ends_with_target:
  assumes "handleProxyStream limit (\<lambda>_. Some ep_new) mc req ep_new (evs @ TargetEnds # tail_evs @ [GoRuns, MainRuns]) = (s, Some q)"
    and "length (filter (\<lambda>ev. \<exists>p. ev = TargetSends p) evs) < length (filter (\<lambda>ev. ev = MainRuns) tail_evs)"
  shows "rlMain q = HandlerDone \<and> epClosed s \<and> epClosed (rlTarget q)"
proof -
  define m where "m = max_idle mc (snd req)"
  define r where "r = foldl (proxy_ev m) (relay_new ep_new ep_new) evs"
  define r1 where "r1 = foldl (proxy_ev m) (proxy_ev m r TargetEnds) tail_evs"
  have q: "q = proxy_ev m (proxy_ev m r1 GoRuns) MainRuns" and s: "s = rlClient q"
    using handleProxy_run [OF assms(1)] by (simp_all add: r1_def r_def m_def)
  have c: "stopped_closed r" unfolding r_def by (rule relaying.run_inv) (simp add: stopped_closed_def relay_new_def)
  let ?k = "length (filter (\<lambda>ev. \<exists>p. ev = TargetSends p) evs)"
  have "length (epIn (rlTarget r)) \<le> ?k"
    unfolding r_def using waiting_pieces [of m "relay_new ep_new ep_new" evs] by (simp add: relay_new_def ep_new_def)
  with c have "draining (Suc ?k) (proxy_ev m r TargetEnds)"
    by (auto simp: draining_def stopped_closed_def proxy_ev_def outside_def)
  from proxy_run_draining [OF this, of tail_evs m] assms(2) have "draining 0 r1" by (simp add: r1_def)
  then have "rlMain r1 \<noteq> Copying" "epClosed (rlClient r1)" "epClosed (rlTarget r1)" by (auto simp: draining_def split: if_splits)
  then show ?thesis
    by (cases "rlMain r1") (auto simp: q s proxy_ev_def proxy_go_def proxy_main_def copy_step_def close_both_def)
qed

lemma relay_ends_with_target_witness:
  "rlMain (foldl (proxy_ev 10000) (relay_new ep_new ep_new) ([TargetSends [1]] @ TargetEnds # [MainRuns, MainRuns] @ [GoRuns, MainRuns])) = HandlerDone"
  using relay_ends_with_target [OF sample_dialled, of "[TargetSends [1]]" "[MainRuns, MainRuns]"] by simp

text \<open>C39: the end of the client's stream is not passed on: as long as the target does not end, and no write to the client fails,
  neither a dialled connection nor the stream to a peer is closed, whatever the client has sent, even if it has ended.\<close>

theorem client_end_not_passed_on:
  assumes "list_all (\<lambda>ev. no_failure ev \<and> ev \<noteq> TargetEnds) evs"
    and "handleProxyStream limit (\<lambda>_. Some ep_new) mc req ep_new evs = (s, Some q)"
    and "handleP2PProxyStream (Some ep_new) ep_new evs = (s', Some q')"
  shows "\<not> epClosed (rlTarget q) \<and> rlMain q = Copying \<and> \<not> epClosed (rlTarget q') \<and> rlMain q' \<noteq> HandlerDone"
proof -
  have "held (relay_new ep_new ep_new)" "rlGo (relay_new ep_new ep_new)" "rlMain (relay_new ep_new ep_new) = Copying"
    by (simp_all add: held_def relay_new_def ep_new_def)
  with proxy_run_held [OF _ assms(1), of "relay_new ep_new ep_new" "max_idle mc (snd req)"] p2p_run_held [OF _ assms(1), of "relay_new ep_new ep_new"]
    handleProxy_run [OF assms(2)] handleP2P_run [OF assms(3)]
  show ?thesis by (simp add: held_def)
qed

lemma client_end_not_passed_on_witness:
  "\<not> epClosed (rlTarget (foldl (proxy_ev 10000) (relay_new ep_new ep_new) [ClientSends [1], ClientEnds, GoRuns, GoRuns, MainRuns]))"
  using client_end_not_passed_on [OF _ sample_dialled, of "[ClientSends [1], ClientEnds, GoRuns, GoRuns, MainRuns]"]
  by (simp add: handleP2PProxyStream_def no_failure_def Let_def)

text \<open>two peers' bytes are relayed exactly.\<close>

theorem peer_bytes_exact:
  assumes "handleP2PProxyStream (Some ep_new) ep_new evs = (s, Some q)"
  shows "prefix (epOut (rlTarget q)) (client_sent evs) \<and> prefix (epOut s) (target_sent evs)"
proof -
  have "p2p_flows evs (client_sent evs) (target_sent evs) (relay_new ep_new ep_new)"
    by (simp add: p2p_flows_def flow_def relay_new_def ep_new_def)
  from p2p_run_flows [OF this] handleP2P_run [OF assms] show ?thesis by (auto simp: p2p_flows_def dest: flow_prefix)
qed

lemma peer_bytes_exact_witness:
  "prefix (epOut (rlTarget (foldl p2p_ev (relay_new ep_new ep_new) [ClientSends [1], MainRuns]))) [1]"
  using peer_bytes_exact [of "[ClientSends [1], MainRuns]"] by (simp add: handleP2PProxyStream_def Let_def)

section \<open>Streams of a session\<close>

text \<open>The streams of a P2P session are not counted: the session is in the set of idle sessions while it relays, and the sweep takes it when
  it is older than the limit.\<close>

lemma p2p_session_swept:
  assumes "scAuth c = Some a" "\<not> scExchange c" "scP2P c" "scStreams c = 0"
    and "serv_round cipher order s raddr p (c, t) (EvStream recv) = (act, (c', t'))" "l0 > 0" "T - active i > l"
  shows "act = ToP2P \<and> i \<in> idle_sweep l0 l T active (\<lambda>_. c')"
  using assms by (auto simp: serv_round_def note_empty_def idle_sweep_def)

text \<open>A handler that ends puts the session into the set in a step of its own: when another begins in between, the session counts as idle
  with a stream.\<close>

lemma idle_with_stream:
  assumes "\<not> scClosed c" "scStreams c = 1" "stream_leaves c = (b, c1)"
  shows "scStreams (stream_stores b (stream_begins c1)) = 1 \<and> scEmpty (stream_stores b (stream_begins c1))"
  using assms by (auto simp: stream_leaves_def stream_stores_def stream_begins_def)

text \<open>Handlers that do not overlap keep the set right.\<close>

lemma stream_counted:
  "scStreams c = int n \<Longrightarrow> \<not> scClosed c \<Longrightarrow> scEmpty c = (n = 0) \<Longrightarrow>
   scStreams (stream_ends (stream_begins c)) = int n \<and> scEmpty (stream_ends (stream_begins c)) = (n = 0)"
  by (auto simp: stream_ends_def stream_begins_def stream_leaves_def stream_stores_def)

end
