(* ===== verification/HttpChunk.thy ===== *)
theory HttpChunk
  imports HttpDuplex
begin

text \<open>
  The chunked push of the channel over HTTP (\<open>common/channel/http/local.go\<close>): one long request whose body is fed by
  the push loop, restarted by a timer or after an error. The states of the body, the loop \<open>chunkPush\<close> and the push loop are
  one machine of interleaved events; the transport, which reads the body, and the server are its environment.
\<close>

section \<open>The body\<close>

text \<open>The body of the current request: its buffer with the counter, whether the transport waits in \<open>Read\<close>, whether the body has
  given its end. \<open>ckReq\<close> are the bytes the transport has read in the current request, \<open>ckGot\<close> those the server has taken from
  the requests before. \<open>ckTimer\<close> is whether the timer of the request is still to fire; \<open>ckStuck\<close> counts the goroutines that wait for
  a timer that has been stopped.\<close>

record chunk =
  ckBody :: "bytes \<times> nat"
  ckWaiting :: bool
  ckEnded :: bool
  ckOpen :: bool
  ckTimer :: bool
  ckStuck :: nat
  ckReq :: bytes
  ckGot :: bytes

definition list_read :: "nat \<Rightarrow> bytes option \<Rightarrow> bytes \<times> nat \<Rightarrow> (io_err + bytes) \<times> (bytes \<times> nat)" where
  "list_read = chunkedBody_Read length (\<lambda>c b. b @ c) (\<lambda>n b. (take n b, drop n b))"

definition newChunkedBody :: "bytes \<Rightarrow> chunk \<Rightarrow> chunk" where
  "newChunkedBody buf c = c\<lparr>ckBody := newChunkPushBody [] (Some (buf, 0)), ckWaiting := False, ckEnded := False\<rparr>"

text \<open>The loop starts a request, with a timer of its own.\<close>

definition start_request :: "chunk \<Rightarrow> chunk" where
  "start_request c = c\<lparr>ckOpen := True, ckTimer := True, ckReq := []\<rparr>"

definition chunk_new :: chunk where
  "chunk_new = start_request
     \<lparr>ckBody = ([], 0), ckWaiting = False, ckEnded = False, ckOpen = False, ckTimer = False, ckStuck = 0, ckReq = [], ckGot = []\<rparr>"

text \<open>The transport reads: from the buffer, or it waits for the channel. A read that has waited goes on with what the channel
  gives.\<close>

definition body_got :: "nat \<Rightarrow> bytes option \<Rightarrow> chunk \<Rightarrow> chunk" where
  "body_got n got c =
     (case list_read n got (ckBody c) of
        (Inl _, b) \<Rightarrow> c\<lparr>ckBody := b, ckWaiting := False, ckEnded := True\<rparr>
      | (Inr x, b) \<Rightarrow> c\<lparr>ckBody := b, ckWaiting := False, ckReq := ckReq c @ x\<rparr>)"

definition body_Read :: "nat \<Rightarrow> chunk \<Rightarrow> chunk" where
  "body_Read n c =
     (if \<not> ckOpen c \<or> ckEnded c \<or> ckWaiting c then c
      else if fst (ckBody c) = [] then c\<lparr>ckWaiting := True\<rparr>
      else body_got n None c)"

text \<open>\<open>Close\<close> and \<open>offer\<close> reach a read that waits, and no other: the channel has no buffer. \<open>offer\<close> gives up after 100 milliseconds,
  \<open>Close\<close> at once.\<close>

definition chunkedBody_Close :: "chunk \<Rightarrow> chunk" where
  "chunkedBody_Close c = (if ckWaiting c then body_got 0 None c else c)"

definition chunkedBody_offer :: "nat \<Rightarrow> bytes \<Rightarrow> chunk \<Rightarrow> bool \<times> chunk" where
  "chunkedBody_offer n p c = (if ckWaiting c then (True, body_got n (Some p) c) else (False, c))"

section \<open>The loop\<close>

text \<open>The timer of the request ends its body.\<close>

definition restart_timer :: "chunk \<Rightarrow> chunk" where
  "restart_timer c = (if ckTimer c then chunkedBody_Close (c\<lparr>ckTimer := False\<rparr>) else c)"

text \<open>\<open>Close\<close> of the connection.\<close>

definition hd_Close :: "hconn \<Rightarrow> chunk \<Rightarrow> hconn \<times> chunk" where
  "hd_Close h c = (if hcRunning h then (hc_Close h, chunkedBody_Close c) else (h, c))"

text \<open>The end of a request (no read waits for it any more), with its response and the number of its bytes the server has taken: refused for ever, or a new body
  with the buffer of the old, the timer stopped, and the next request.\<close>

definition chunkPush_end :: "response \<Rightarrow> nat \<Rightarrow> hconn \<times> chunk \<Rightarrow> hconn \<times> chunk" where
  "chunkPush_end r k hc =
     (case hc of (h, c) \<Rightarrow>
        if \<not> ckOpen c then (h, c)
        else
          (let c = c\<lparr>ckGot := ckGot c @ take k (ckReq c), ckReq := [], ckOpen := False, ckWaiting := False\<rparr> in
           if (\<exists>a. r = Some (401, a)) then hd_Close h c
           else
             (let c = newChunkedBody (fst (ckBody c)) c;
                  c = c\<lparr>ckTimer := False, ckStuck := ckStuck c + (if ckTimer c then 1 else 0)\<rparr>;
                  h = setAckId r h
              in (h, if hcRunning h then start_request c else c))))"

text \<open>A round of the push loop, which offers the frames to the body.\<close>

definition push_chunk :: "nat \<Rightarrow> hconn \<times> chunk \<Rightarrow> hconn \<times> chunk" where
  "push_chunk n hc =
     (case hc of (h, c) \<Rightarrow>
        (let h' = push_round (Offer (ckWaiting c)) h; p = drop (length (hcUp h)) (hcUp h')
         in (h', if p = [] then c else snd (chunkedBody_offer n p c))))"

section \<open>The machine\<close>

datatype chunk_event = CWrite nat bytes | CPush nat | CRead nat | CTimer | CDone response nat | CClose

definition chunk_ev :: "hconn \<times> chunk \<Rightarrow> chunk_event \<Rightarrow> hconn \<times> chunk" where
  "chunk_ev hc ev =
     (case hc of (h, c) \<Rightarrow>
       (case ev of
          CWrite i p \<Rightarrow> (snd (hc_enqueue (i, p) h), c)
        | CPush n \<Rightarrow> push_chunk n (h, c)
        | CRead n \<Rightarrow> (h, body_Read n c)
        | CTimer \<Rightarrow> (h, restart_timer c)
        | CDone r k \<Rightarrow> chunkPush_end r k (h, c)
        | CClose \<Rightarrow> hd_Close h c))"

text \<open>The bytes of the writes that \<open>sendCh\<close> has taken.\<close>

definition accepted :: "hconn \<Rightarrow> chunk_event \<Rightarrow> bytes" where
  "accepted h ev = (case ev of CWrite i p \<Rightarrow> (if fst (hc_enqueue (i, p) h) then p else []) | _ \<Rightarrow> [])"

fun written :: "hconn \<times> chunk \<Rightarrow> chunk_event list \<Rightarrow> bytes" where
  "written hc [] = []"
| "written hc (ev # evs) = accepted (fst hc) ev @ written (chunk_ev hc ev) evs"

text \<open>\<open>CreateMuxSession\<close> of the HTTP channel: the connection, then the multiplexer over it; the connection is not closed when the
  multiplexer fails. The first parse of the URL is not checked: \<open>None\<close> is the dereference of its nil result.\<close>

definition http_CreateMuxSession :: "(string \<Rightarrow> bool) \<Rightarrow> (nat \<Rightarrow> nat) \<Rightarrow> response \<Rightarrow> bool \<Rightarrow> string \<Rightarrow> (bool \<times> hconn option) option" where
  "http_CreateMuxSession parses rnd test pmuxOk server =
     (if \<not> parses server then None
      else Some (case hc_init parses rnd test server of None \<Rightarrow> (False, None) | Some h \<Rightarrow> (pmuxOk, Some h)))"

section \<open>Lemmas\<close>

text \<open>What is in a body and in its request.\<close>

definition in_chunk :: "chunk \<Rightarrow> bytes" where
  "in_chunk c = ckReq c @ fst (ckBody c)"

lemma list_read_some: "list_read n (Some p) ([], k) = (Inr (take n p), (drop n p, k + length (take n p)))"
  by (simp add: list_read_def chunkedBody_Read_def)

lemma list_read_buf: "b \<noteq> [] \<Longrightarrow> list_read n got (b, k) = (Inr (take n b), (drop n b, k + length (take n b)))"
  by (simp add: list_read_def chunkedBody_Read_def)

lemma list_read_nil: "list_read n None ([], k) = (Inl EOF, ([], k))"
  by (simp add: list_read_def chunkedBody_Read_def)

text \<open>A read waits only in front of an empty buffer, and only in an open request.\<close>

definition chunk_inv :: "chunk \<Rightarrow> bool" where
  "chunk_inv c \<longleftrightarrow> (ckWaiting c \<longrightarrow> fst (ckBody c) = [] \<and> ckOpen c) \<and> (\<not> ckOpen c \<longrightarrow> ckReq c = [])"

lemma body_Read_keeps: "chunk_inv c \<Longrightarrow> chunk_inv (body_Read n c) \<and> in_chunk (body_Read n c) = in_chunk c \<and> ckGot (body_Read n c) = ckGot c"
  by (cases "ckBody c") (auto simp: body_Read_def body_got_def list_read_buf chunk_inv_def in_chunk_def)

lemma Close_keeps: "chunk_inv c \<Longrightarrow> chunk_inv (chunkedBody_Close c) \<and> in_chunk (chunkedBody_Close c) = in_chunk c \<and> ckGot (chunkedBody_Close c) = ckGot c"
  by (cases "ckBody c") (auto simp: chunkedBody_Close_def body_got_def list_read_nil chunk_inv_def in_chunk_def)

lemma offer_adds:
  "chunk_inv c \<Longrightarrow> ckWaiting c \<Longrightarrow> chunkedBody_offer n p c = (True, c') \<Longrightarrow>
   chunk_inv c' \<and> in_chunk c' = in_chunk c @ p \<and> ckGot c' = ckGot c"
  by (cases "ckBody c") (auto simp: chunkedBody_offer_def body_got_def list_read_some chunk_inv_def in_chunk_def)

lemma timer_keeps: "chunk_inv c \<Longrightarrow> chunk_inv (restart_timer c) \<and> in_chunk (restart_timer c) = in_chunk c \<and> ckGot (restart_timer c) = ckGot c"
  using Close_keeps [of "c\<lparr>ckTimer := False\<rparr>"] by (auto simp: restart_timer_def chunk_inv_def in_chunk_def)

lemma hd_Close_keeps:
  "chunk_inv c \<Longrightarrow> hd_Close h c = (h', c') \<Longrightarrow> chunk_inv c' \<and> in_chunk c' = in_chunk c \<and> ckGot c' = ckGot c \<and> h' = hc_Close h"
  using Close_keeps [of c] by (auto simp: hd_Close_def hc_Close_def split: if_splits)

lemma hc_Close_pending [simp]: "pending (hc_Close h) = pending h"
  by (simp add: hc_Close_def pending_def)

lemma chunkPush_end_keeps:
  assumes "chunk_inv c" "chunkPush_end r k (h, c) = (h', c')"
  shows "chunk_inv c' \<and> hcUp h' = hcUp h \<and> hcChunk h' = hcChunk h \<and> hcPushing h' = hcPushing h \<and> (hcRunning h' \<longrightarrow> hcRunning h) \<and>
    pending h' = pending h \<and> ckGot c' = ckGot c @ take k (ckReq c) \<and> in_chunk c' = fst (ckBody c)"
proof (cases "ckOpen c \<and> (\<exists>a. r = Some (401, a))")
  case True
  then show ?thesis using assms
    by (auto simp: chunkPush_end_def Let_def hd_Close_def chunkedBody_Close_def chunk_inv_def in_chunk_def split: if_splits)
next
  case False
  then show ?thesis using assms
    by (auto simp: chunkPush_end_def Let_def start_request_def newChunkedBody_def newChunkPushBody_def chunk_inv_def in_chunk_def
        pending_def setAckId_def split: if_splits option.splits)
qed

text \<open>A round of the push loop with a chunked request.\<close>

lemma push_round_chunk:
  assumes "hcChunk h" "hcPushing h" "hcRunning h" "h' = push_round (Offer b) h"
  shows "hcChunk h' \<and> hcPushing h' \<and> hcRunning h' \<and> (\<exists>d. hcUp h' = hcUp h @ d \<and> pending h = d @ pending h' \<and> (\<not> b \<longrightarrow> d = []))"
proof -
  define h1 where "h1 = readFrames h"
  define d where "d = concat (map snd (hcFrs h1))"
  have h1: "hcChunk h1" "hcPushing h1" "hcRunning h1" "hcUp h1 = hcUp h" "pending h1 = pending h" using assms(1-3) by (simp_all add: h1_def)
  have r: "push_round (Offer b) h =
      (if d = [] then h1 else if b then notifyDone (h1\<lparr>hcUp := hcUp h1 @ d, hcErr := None\<rparr>) else h1\<lparr>hcErr := Some IoTimeout\<rparr>)"
    unfolding push_round_def Let_def h1_def [symmetric] d_def [symmetric] using assms(2,3) h1(1) by (simp add: push_taken_def)
  then show ?thesis using h1 unfolding assms(4) by (auto simp: pending_def d_def [symmetric])
qed

lemma push_round_stopped:
  "\<not> hcRunning h \<Longrightarrow> hcUp (push_round x h) = hcUp h \<and> hcChunk (push_round x h) = hcChunk h \<and> \<not> hcRunning (push_round x h)"
  by (simp add: push_round_def)

text \<open>What a round of the push loop does to both.\<close>

lemma push_chunk_moves:
  assumes "chunk_inv c" "hcChunk h" "hcRunning h \<longrightarrow> hcPushing h" "push_chunk n (h, c) = (h', c')"
  shows "chunk_inv c' \<and> hcChunk h' \<and> (hcRunning h' \<longrightarrow> hcRunning h \<and> hcPushing h') \<and> ckGot c' = ckGot c \<and>
    (\<exists>d. hcUp h' = hcUp h @ d \<and> in_chunk c' = in_chunk c @ d \<and> (hcRunning h \<longrightarrow> pending h = d @ pending h') \<and> (\<not> hcRunning h \<longrightarrow> d = []))"
proof (cases "hcRunning h")
  case True
  have h': "h' = push_round (Offer (ckWaiting c)) h" using assms(4) by (simp add: push_chunk_def Let_def)
  from push_round_chunk [OF assms(2) _ True h'] assms(3) True obtain d where d: "hcChunk h'" "hcPushing h'" "hcRunning h'"
    "hcUp h' = hcUp h @ d" "pending h = d @ pending h'" "\<not> ckWaiting c \<longrightarrow> d = []" by blast
  have c': "c' = (if d = [] then c else snd (chunkedBody_offer n d c))"
    using assms(4) d(4) h' by (auto simp: push_chunk_def Let_def)
  show ?thesis
  proof (cases "d = []")
    case False
    then have w: "ckWaiting c" using d(6) by blast
    then have "chunkedBody_offer n d c = (True, c')" using c' False by (simp add: chunkedBody_offer_def)
    from offer_adds [OF assms(1) w this] d True show ?thesis by auto
  qed (use d c' assms(1) True in auto)
next
  case False
  with assms(4) push_round_stopped [OF False, of "Offer (ckWaiting c)"] assms(1,2) show ?thesis by (auto simp: push_chunk_def Let_def)
qed

text \<open>Runs in which every request that ends has brought all of its bytes to the server.\<close>

fun clean :: "hconn \<times> chunk \<Rightarrow> chunk_event list \<Rightarrow> bool" where
  "clean hc [] = True"
| "clean hc (ev # evs) =
     ((case ev of CDone r k \<Rightarrow> length (ckReq (snd hc)) \<le> k | _ \<Rightarrow> True) \<and> clean (chunk_ev hc ev) evs)"

definition chunk_ready :: "hconn \<times> chunk \<Rightarrow> bool" where
  "chunk_ready hc \<longleftrightarrow> chunk_inv (snd hc) \<and> hcChunk (fst hc) \<and> (hcRunning (fst hc) \<longrightarrow> hcPushing (fst hc))"

definition carried :: "bytes \<Rightarrow> hconn \<times> chunk \<Rightarrow> bool" where
  "carried W hc \<longleftrightarrow> chunk_ready hc \<and> hcUp (fst hc) = ckGot (snd hc) @ in_chunk (snd hc) \<and> prefix (hcUp (fst hc)) W \<and>
     (hcRunning (fst hc) \<longrightarrow> W = hcUp (fst hc) @ pending (fst hc))"

definition lost :: "nat \<Rightarrow> hconn \<times> chunk \<Rightarrow> bool" where
  "lost m hc \<longleftrightarrow> chunk_ready hc \<and> length (ckGot (snd hc) @ in_chunk (snd hc)) + m \<le> length (hcUp (fst hc))"

text \<open>An event moves bytes that are pushed into the body, and takes bytes of an ended request.\<close>

lemma chunk_ev_moves:
  assumes "chunk_ready (h, c)" "chunk_ev (h, c) ev = (h', c')"
  shows "chunk_ready (h', c') \<and> (hcRunning h' \<longrightarrow> hcRunning h) \<and>
    (\<exists>d. hcUp h' = hcUp h @ d \<and> (\<not> hcRunning h \<longrightarrow> d = []) \<and> (hcRunning h \<longrightarrow> pending h @ accepted h ev = d @ pending h') \<and>
      (if (\<exists>r k. ev = CDone r k) then d = [] else ckGot c' @ in_chunk c' = ckGot c @ in_chunk c @ d))"
proof -
  have i: "chunk_inv c" "hcChunk h" "hcRunning h \<longrightarrow> hcPushing h" using assms(1) by (simp_all add: chunk_ready_def)
  show ?thesis
  proof (cases ev)
    case (CWrite j p)
    then show ?thesis using assms by (auto simp: chunk_ev_def chunk_ready_def hc_enqueue_def accepted_def pending_def split: if_splits)
  next
    case (CPush n)
    then have "push_chunk n (h, c) = (h', c')" using assms(2) by (simp add: chunk_ev_def)
    from push_chunk_moves [OF i this] CPush show ?thesis by (auto simp: chunk_ready_def accepted_def)
  next
    case (CDone r k)
    then have "chunkPush_end r k (h, c) = (h', c')" using assms(2) by (simp add: chunk_ev_def)
    from chunkPush_end_keeps [OF i(1) this] CDone i show ?thesis by (auto simp: chunk_ready_def accepted_def)
  next
    case CClose
    then have "hd_Close h c = (h', c')" using assms(2) by (simp add: chunk_ev_def)
    from hd_Close_keeps [OF i(1) this] CClose i show ?thesis by (auto simp: chunk_ready_def accepted_def)
  qed (use assms body_Read_keeps [OF i(1)] timer_keeps [OF i(1)] in \<open>auto simp: chunk_ev_def chunk_ready_def accepted_def\<close>)
qed

lemma chunk_done:
  assumes "chunk_ready (h, c)" "chunk_ev (h, c) (CDone r k) = (h', c')"
  shows "ckGot c' = ckGot c @ take k (ckReq c) \<and> in_chunk c' = fst (ckBody c)"
  using assms chunkPush_end_keeps [of c r k h h' c'] by (simp add: chunk_ev_def chunk_ready_def)

lemma carried_step:
  assumes "carried W hc" "clean hc [ev]"
  shows "carried (W @ accepted (fst hc) ev) (chunk_ev hc ev)"
proof -
  obtain h c where hc: "hc = (h, c)" by (rule prod.exhaust)
  obtain h' c' where e: "chunk_ev (h, c) ev = (h', c')" by (rule prod.exhaust)
  have r: "chunk_ready (h, c)" using assms(1) by (simp add: carried_def hc)
  from chunk_ev_moves [OF r e] obtain d where d: "chunk_ready (h', c')" "hcRunning h' \<longrightarrow> hcRunning h" "hcUp h' = hcUp h @ d"
    "\<not> hcRunning h \<longrightarrow> d = []" "hcRunning h \<longrightarrow> pending h @ accepted h ev = d @ pending h'"
    "if (\<exists>r k. ev = CDone r k) then d = [] else ckGot c' @ in_chunk c' = ckGot c @ in_chunk c @ d" by blast
  have "ckGot c' @ in_chunk c' = ckGot c @ in_chunk c @ d"
  proof (cases "\<exists>r k. ev = CDone r k")
    case True
    then obtain q k where q: "ev = CDone q k" by blast
    then have "take k (ckReq c) = ckReq c" using assms(2) by (simp add: hc)
    with chunk_done [OF r, of q k h' c'] e q d(6) show ?thesis by (simp add: in_chunk_def)
  qed (use d(6) in simp)
  moreover have "prefix (hcUp h') (W @ accepted h ev) \<and> (hcRunning h' \<longrightarrow> W @ accepted h ev = hcUp h' @ pending h')"
  proof (cases "hcRunning h")
    case True
    then have "W @ accepted h ev = hcUp h' @ pending h'" using assms(1) d(3,5) by (simp add: carried_def hc)
    then show ?thesis by simp
  next
    case False
    then have "hcUp h' = hcUp h" "\<not> hcRunning h'" using d(2-4) by simp_all
    moreover have "prefix (hcUp h) W" using assms(1) unfolding carried_def hc fst_conv snd_conv by blast
    ultimately show ?thesis by simp
  qed
  ultimately show ?thesis using d(1,3) assms(1) by (simp add: carried_def hc e)
qed

lemma carried_run: "carried W hc \<Longrightarrow> clean hc evs \<Longrightarrow> carried (W @ written hc evs) (foldl chunk_ev hc evs)"
proof (induction evs arbitrary: W hc)
  case (Cons ev evs)
  from carried_step [OF Cons.prems(1)] Cons.prems(2) have "carried (W @ accepted (fst hc) ev) (chunk_ev hc ev)" by simp
  from Cons.IH [OF this] Cons.prems(2) show ?case by simp
qed simp

lemma lost_step:
  assumes "lost m hc"
  shows "lost m (chunk_ev hc ev)"
proof -
  obtain h c where hc: "hc = (h, c)" by (rule prod.exhaust)
  obtain h' c' where e: "chunk_ev (h, c) ev = (h', c')" by (rule prod.exhaust)
  have r: "chunk_ready (h, c)" using assms by (simp add: lost_def hc)
  from chunk_ev_moves [OF r e] obtain d where d: "chunk_ready (h', c')" "hcUp h' = hcUp h @ d"
    "if (\<exists>r k. ev = CDone r k) then d = [] else ckGot c' @ in_chunk c' = ckGot c @ in_chunk c @ d" by blast
  have "length (ckGot c' @ in_chunk c') \<le> length (ckGot c @ in_chunk c) + length d"
  proof (cases "\<exists>r k. ev = CDone r k")
    case True
    then obtain q k where q: "ev = CDone q k" by blast
    with chunk_done [OF r, of q k h' c'] e show ?thesis by (simp add: in_chunk_def)
  next
    case False
    then have "ckGot c' @ in_chunk c' = (ckGot c @ in_chunk c) @ d" using d(3) by simp
    then show ?thesis by simp
  qed
  then show ?thesis using assms d(1,2) by (simp add: lost_def hc e)
qed

interpretation chunked: event_machine chunk_ev "lost m" for m
  by unfold_locales (rule lost_step)

section \<open>Properties\<close>

definition chunked_client :: "string \<Rightarrow> hconn" where
  "chunked_client i = (fresh_client i)\<lparr>hcChunk := True\<rparr>"

lemma chunked_start: "chunk_ready (chunked_client i, chunk_new)" "carried [] (chunked_client i, chunk_new)" "lost 0 (chunked_client i, chunk_new)"
  by (simp_all add: carried_def lost_def chunk_ready_def chunk_inv_def in_chunk_def chunked_client_def fresh_client_def chunk_new_def
      start_request_def pending_def)


definition sample_pushes :: "chunk_event list" where
  "sample_pushes = [CWrite 0 [1, 2, 3], CRead 2, CPush 2, CTimer, CRead 5, CRead 1, CDone None 3, CWrite 1 [4], CRead 9, CPush 9]"

lemma sample_pushes_run:
  "foldl chunk_ev (chunked_client ''x'', chunk_new) (take 6 sample_pushes) =
     ((chunked_client ''x'')\<lparr>hcUp := [1, 2, 3], hcDone := [(0, None)]\<rparr>,
      chunk_new\<lparr>ckBody := ([], 3), ckWaiting := True, ckTimer := False, ckReq := [1, 2, 3]\<rparr>)"
  by (simp add: sample_pushes_def chunk_ev_def push_chunk_def hc_enqueue_def body_Read_def restart_timer_def chunkedBody_offer_def chunkedBody_Close_def
      body_got_def list_read_def chunkedBody_Read_def chunked_client_def fresh_client_def chunk_new_def start_request_def push_round_def readFrames_def
      push_taken_def notifyDone_def Let_def)

lemmas chunk_run_simps = chunk_ev_def push_chunk_def hc_enqueue_def body_Read_def restart_timer_def chunkedBody_offer_def chunkedBody_Close_def
  body_got_def list_read_def chunkedBody_Read_def chunked_client_def fresh_client_def chunk_new_def start_request_def push_round_def readFrames_def
  push_taken_def notifyDone_def chunkPush_end_def newChunkedBody_def newChunkPushBody_def setAckId_def Let_def


text \<open>what a request that fails has not brought to the server is lost, although the writes were answered as successful: however the connection goes on, the
  server stays short of these bytes.\<close>

theorem failed_chunk_lost:
  assumes "foldl chunk_ev (chunked_client i, chunk_new) evs = (h, c)" "ckOpen c" "k \<le> length (ckReq c)"
    and "foldl chunk_ev (chunk_ev (h, c) (CDone r k)) evs' = (h', c')"
  shows "length (ckGot c') + (length (ckReq c) - k) \<le> length (hcUp h')"
proof -
  have l: "lost 0 (h, c)" using chunked.run_inv [OF chunked_start(3)] assms(1) by metis
  then have r: "chunk_ready (h, c)" by (simp add: lost_def)
  obtain h1 c1 where e: "chunk_ev (h, c) (CDone r k) = (h1, c1)" by (rule prod.exhaust)
  from chunk_ev_moves [OF r e] have "chunk_ready (h1, c1)" "hcUp h1 = hcUp h" by auto
  moreover have "length (ckGot c1 @ in_chunk c1) + (length (ckReq c) - k) \<le> length (hcUp h)"
    using chunk_done [OF r e] l assms(3) by (simp add: lost_def in_chunk_def)
  ultimately have "lost (length (ckReq c) - k) (h1, c1)" by (simp add: lost_def)
  from chunked.run_inv [OF this, of evs'] assms(4) e show ?thesis by (simp add: lost_def)
qed

lemma failed_chunk_lost_witness:
  "length (ckGot (snd (foldl chunk_ev (chunk_ev
     ((chunked_client ''x'')\<lparr>hcUp := [1, 2, 3], hcDone := [(0, None)]\<rparr>,
      chunk_new\<lparr>ckBody := ([], 3), ckWaiting := True, ckTimer := False, ckReq := [1, 2, 3]\<rparr>) (CDone None 1)) [CRead 9]))) + (3 - 1)
   \<le> length (hcUp (fst (foldl chunk_ev (chunk_ev
     ((chunked_client ''x'')\<lparr>hcUp := [1, 2, 3], hcDone := [(0, None)]\<rparr>,
      chunk_new\<lparr>ckBody := ([], 3), ckWaiting := True, ckTimer := False, ckReq := [1, 2, 3]\<rparr>) (CDone None 1)) [CRead 9])))"
  using failed_chunk_lost [OF sample_pushes_run _ _ prod.collapse [symmetric], of 1 None "[CRead 9]"]
  by (simp add: chunk_new_def start_request_def)

text \<open>a timer that fires while the transport does not wait for bytes ends nothing, and does not fire again: the request is not
  restarted.\<close>

lemma missed_restart:
  assumes "\<not> ckWaiting c" "ckTimer c"
  shows "restart_timer c = c\<lparr>ckTimer := False\<rparr>" "restart_timer (body_Read n (restart_timer c)) = body_Read n (restart_timer c)"
proof -
  show 1: "restart_timer c = c\<lparr>ckTimer := False\<rparr>" using assms by (simp add: restart_timer_def chunkedBody_Close_def)
  show "restart_timer (body_Read n (restart_timer c)) = body_Read n (restart_timer c)"
    unfolding 1 by (simp add: restart_timer_def body_Read_def body_got_def split: sum.split prod.split)
qed

text \<open>every request that ends before its timer leaves a goroutine that waits for ever.\<close>

lemma ended_request_leaves_goroutine:
  assumes "ckOpen c" "ckTimer c" "r = Some (200, a)" "chunkPush_end r k (h, c) = (h', c')"
  shows "ckStuck c' = Suc (ckStuck c)"
  using assms by (auto simp: chunkPush_end_def Let_def newChunkedBody_def start_request_def split: if_splits)

text \<open>when the multiplexer cannot be made, the connection with its goroutines runs on; an URL that cannot be parsed is a crash.\<close>

lemma failed_http_session_runs:
  "parses server \<Longrightarrow> \<exists>h. http_CreateMuxSession parses rnd test False server = Some (False, Some h) \<and> hcRunning h"
  "http_CreateMuxSession parses rnd test b server = None \<longleftrightarrow> \<not> parses server"
  by (simp_all add: http_CreateMuxSession_def hc_init_def)

end
