(* ===== verification/HttpDownload.thy ===== *)
theory HttpDownload
  imports HttpDuplex
begin

text \<open>
  The way from the server to the client in the channel over HTTP (\<open>common/channel/http/local.go\<close>,
  \<open>common/channel/http/remote.go\<close>): the client's loop \<open>pull\<close> and its \<open>Read\<close>, the requests the server
  answers with \<open>HTTPInvoke\<close>, and the writes of the server's multiplexer into the response of the
  current pull. One machine of interleaved events; the network between a response writer and the body
  the client reads is its environment and may break.
\<close>

section \<open>The state\<close>

text \<open>\<open>dlCur\<close> is the pull whose response the client waits for or reads, with the identifier its
  header acknowledges; \<open>dlEnded\<close> says that the server's handler of this pull has returned, \<open>dlWire\<close> what it has
  written and the client has not received. \<open>dlOld\<close> counts the handlers of broken pulls that still run.
  \<open>dlWritten\<close> are the bytes \<open>Write\<close> has reported as written, \<open>dlRead\<close> those \<open>Read\<close> has returned.\<close>

record download =
  dlC :: hconn
  dlTab :: stable
  dlCur :: "(nat \<times> string) option"
  dlNext :: nat
  dlEnded :: bool
  dlWire :: "bytes list"
  dlOld :: nat
  dlWritten :: bytes
  dlRead :: bytes

datatype dl_event =
    DlPull                     \<comment> \<open>the loop sends the next request, and the server takes it\<close>
  | DlPullFails                \<comment> \<open>a request fails before it reaches the server\<close>
  | DlAnswer                   \<comment> \<open>the header of the response arrives\<close>
  | DlArrive                   \<comment> \<open>bytes of the response arrive\<close>
  | DlWrite bytes              \<comment> \<open>the multiplexer of the server writes\<close>
  | DlWriteFails bytes nat nat \<comment> \<open>a write fails after some bytes, of which some go out\<close>
  | DlPeriod                   \<comment> \<open>the period of the current pull ends\<close>
  | DlStale bool               \<comment> \<open>the period of a broken pull ends, and whether the current one hears it\<close>
  | DlRead nat bool            \<comment> \<open>the multiplexer of the client reads\<close>
  | DlBreak                    \<comment> \<open>the connection of the response breaks\<close>

section \<open>The events\<close>

text \<open>The request of the loop: \<open>buildHTTPReq\<close> with the identifiers of the connection and the header of the period.\<close>

definition pull_req :: "int \<Rightarrow> hconn \<Rightarrow> sreq" where
  "pull_req period h = \<lparr>sqId = hcId h, sqAck = hcAck h, sqPath = ''/http/pull'', sqPeriod = period, sqBody = []\<rparr>"

text \<open>The server's reply to a pull. A handler that returns without a status answers 200 with an empty body.\<close>

definition dl_pull :: "(nat \<Rightarrow> nat) \<Rightarrow> int \<Rightarrow> int \<Rightarrow> download \<Rightarrow> download" where
  "dl_pull rnd t period d =
     (if \<not> hcRunning (dlC d) \<or> hcReader (dlC d) \<noteq> None \<or> dlCur d \<noteq> None then d
      else case HTTPInvoke rnd t True (dlNext d) (pull_req period (dlC d)) (dlTab d) of
          (Pulling _, tab) \<Rightarrow>
            d\<lparr>dlTab := tab, dlNext := Suc (dlNext d), dlEnded := False, dlWire := [],
              dlCur := (case tab (hcId (dlC d)) of Some c \<Rightarrow> Some (dlNext d, scAck c) | None \<Rightarrow> None)\<rparr>
        | (Unauthorized, tab) \<Rightarrow> d\<lparr>dlTab := tab, dlC := pull_round (Some (401, [])) [] (dlC d)\<rparr>
        | (_, tab) \<Rightarrow> d\<lparr>dlTab := tab, dlC := pull_round (Some (200, [])) [] (dlC d)\<rparr>)"

definition dl_answer :: "download \<Rightarrow> download" where
  "dl_answer d = (case dlCur d of None \<Rightarrow> d | Some (w, ack) \<Rightarrow> d\<lparr>dlC := pull_round (Some (200, ack)) [] (dlC d)\<rparr>)"

definition dl_arrive :: "download \<Rightarrow> download" where
  "dl_arrive d =
     (case (hcReader (dlC d), dlWire d) of
        (Some cs, b # bs) \<Rightarrow> d\<lparr>dlC := (dlC d)\<lparr>hcReader := Some (cs @ [b])\<rparr>, dlWire := bs\<rparr>
      | _ \<Rightarrow> d)"

definition on_conn :: "(sconn \<Rightarrow> sconn) \<Rightarrow> download \<Rightarrow> download" where
  "on_conn f d = (case dlTab d (hcId (dlC d)) of None \<Rightarrow> d | Some c \<Rightarrow> d\<lparr>dlTab := (dlTab d)(hcId (dlC d) \<mapsto> f c)\<rparr>)"

text \<open>What reaches the response of the current pull goes onto the wire; the response writer of a broken pull
  takes bytes that go nowhere. Of a failed write the first \<open>j\<close> bytes go out.\<close>

definition dl_write :: "int \<Rightarrow> bytes \<Rightarrow> (nat \<times> nat) option \<Rightarrow> download \<Rightarrow> download" where
  "dl_write t p res d =
     (case dlTab d (hcId (dlC d)) of None \<Rightarrow> d
      | Some c \<Rightarrow>
         (case sc_Write t (map_option fst res) p c of
            (Some (n, _), c') \<Rightarrow>
              (let out = (case res of None \<Rightarrow> p | Some (k, j) \<Rightarrow> take (min k j) p);
                   live = (scRunning c \<and> scWriter c \<noteq> None \<and> scWriter c = map_option fst (dlCur d))
               in d\<lparr>dlTab := (dlTab d)(hcId (dlC d) \<mapsto> c'), dlWritten := dlWritten d @ take n p,
                    dlWire := (if live \<and> out \<noteq> [] then dlWire d @ [out] else dlWire d)\<rparr>)
          | (None, _) \<Rightarrow> d))"

text \<open>A read waits at the end of what has arrived as long as the response is not over.\<close>

definition dl_over :: "download \<Rightarrow> bool" where
  "dl_over d \<longleftrightarrow> dlCur d = None \<or> dlEnded d \<and> dlWire d = []"

definition dl_read :: "nat \<Rightarrow> bool \<Rightarrow> download \<Rightarrow> download" where
  "dl_read n joined d =
     (if hcReader (dlC d) = Some [] \<and> \<not> dl_over d then d
      else case hc_Read n (joined \<and> dl_over d) (dlC d) of
          (Some (Inr b), h) \<Rightarrow>
            d\<lparr>dlC := h, dlRead := dlRead d @ b, dlCur := (if hcReader h = None then None else dlCur d)\<rparr>
        | (_, h) \<Rightarrow> d\<lparr>dlC := h\<rparr>)"

definition dl_break :: "download \<Rightarrow> download" where
  "dl_break d =
     (if dlCur d = None then d
      else d\<lparr>dlWire := [], dlCur := None, dlOld := dlOld d + (if dlEnded d then 0 else 1),
             dlC := (if hcReader (dlC d) = None then pull_round None [] (dlC d) else dlC d)\<rparr>)"

definition dl_period :: "download \<Rightarrow> download" where
  "dl_period d =
     (if dlCur d = None \<or> dlEnded d then d else (on_conn (end_pull PullTimeout) d)\<lparr>dlEnded := True\<rparr>)"

definition dl_stale :: "bool \<Rightarrow> download \<Rightarrow> download" where
  "dl_stale heard d =
     (if dlOld d = 0 then d
      else (on_conn (end_pull PullTimeout) d)\<lparr>dlOld := dlOld d - 1, dlEnded := dlEnded d \<or> heard\<rparr>)"

definition dl_step :: "(nat \<Rightarrow> nat) \<Rightarrow> int \<Rightarrow> int \<Rightarrow> download \<Rightarrow> dl_event \<Rightarrow> download" where
  "dl_step rnd t period d e =
     (case e of
        DlPull \<Rightarrow> dl_pull rnd t period d
      | DlPullFails \<Rightarrow> (if dlCur d = None then d\<lparr>dlC := pull_round None [] (dlC d)\<rparr> else d)
      | DlAnswer \<Rightarrow> dl_answer d
      | DlArrive \<Rightarrow> dl_arrive d
      | DlWrite p \<Rightarrow> dl_write t p None d
      | DlWriteFails p k j \<Rightarrow> dl_write t p (Some (k, j)) d
      | DlPeriod \<Rightarrow> dl_period d
      | DlStale heard \<Rightarrow> dl_stale heard d
      | DlRead n joined \<Rightarrow> dl_read n joined d
      | DlBreak \<Rightarrow> dl_break d)"

definition dl_new :: "string \<Rightarrow> download" where
  "dl_new i = \<lparr>dlC = fresh_client i, dlTab = Map.empty, dlCur = None, dlNext = 0, dlEnded = False, dlWire = [],
     dlOld = 0, dlWritten = [], dlRead = []\<rparr>"

text \<open>What is between the two ends.\<close>

definition body_left :: "hconn \<Rightarrow> bytes" where
  "body_left h = concat (case hcReader h of None \<Rightarrow> [] | Some cs \<Rightarrow> cs)"

definition buffered :: "download \<Rightarrow> bytes" where
  "buffered d = body_left (dlC d)"

definition in_transit :: "download \<Rightarrow> bytes" where
  "in_transit d = buffered d @ concat (dlWire d)"

section \<open>Order and identity of the bytes\<close>

lemma on_conn_frame [simp]:
  "dlC (on_conn f d) = dlC d" "dlCur (on_conn f d) = dlCur d" "dlWire (on_conn f d) = dlWire d" "dlEnded (on_conn f d) = dlEnded d"
  "dlWritten (on_conn f d) = dlWritten d" "dlRead (on_conn f d) = dlRead d" "dlOld (on_conn f d) = dlOld d" "dlNext (on_conn f d) = dlNext d"
  by (simp_all add: on_conn_def split: option.split)

lemma setAckId_reader [simp]: "hcReader (setAckId r h) = hcReader h" "hcId (setAckId r h) = hcId h"
  by (simp_all add: setAckId_def split: option.split)

lemma hc_Close_reader [simp]: "hcReader (hc_Close h) = hcReader h" "hcId (hc_Close h) = hcId h"
  by (simp_all add: hc_Close_def)

text \<open>A round of the pull loop gives an empty response or nothing.\<close>

lemma pull_round_body [simp]: "body_left (pull_round r [] h) = body_left h"
  by (auto simp: pull_round_def body_left_def split: option.splits)

text \<open>What is read and what is on its way is taken from what was written, in its order and never twice.\<close>

definition dl_sub :: "download \<Rightarrow> bool" where
  "dl_sub d \<longleftrightarrow> subseq (dlRead d @ in_transit d) (dlWritten d)"

lemma dl_sub_drop: "subseq (r @ b @ x) w \<Longrightarrow> subseq (r @ b) w"
  by (metis append.assoc append_Nil2 list_emb_append_mono subseq_order.order_trans subseq_order.refl list_emb_Nil)

lemma dl_write_sub:
  assumes "dl_sub d" shows "dl_sub (dl_write t p res d)"
proof (cases "dlTab d (hcId (dlC d))")
  case None
  with assms show ?thesis by (simp add: dl_write_def)
next
  case (Some c)
  let ?out = "case res of None \<Rightarrow> p | Some (k, j) \<Rightarrow> take (min k j) p"
  obtain o' c' where w: "sc_Write t (map_option fst res) p c = (o', c')" by force
  show ?thesis
  proof (cases o')
    case None
    with assms w \<open>dlTab d _ = Some c\<close> show ?thesis by (simp add: dl_write_def)
  next
    case (Some ne)
    obtain n e where ne: "ne = (n, e)" by force
    have out: "subseq ?out (take n p)" if "scRunning c"
    proof (cases res)
      case None
      with that w show ?thesis unfolding Some ne by (simp add: sc_Write_def split: option.splits)
    next
      case (Some kj)
      obtain k j where kj: "kj = (k, j)" by force
      have "n = min k (length p)" using that w \<open>o' = _\<close> unfolding Some ne kj by (simp add: sc_Write_def split: option.splits)
      then have "take n p = take k p" by (simp add: min_def)
      moreover have "take (min k j) p = take j (take k p)" by (simp add: min.commute)
      ultimately show ?thesis unfolding Some kj by (simp add: prefix_imp_subseq take_is_prefix del: take_take)
    qed
    let ?live = "scRunning c \<and> scWriter c \<noteq> None \<and> scWriter c = map_option fst (dlCur d)"
    let ?d = "dl_write t p res d"
    have d: "dlRead ?d = dlRead d" "dlWritten ?d = dlWritten d @ take n p" "buffered ?d = buffered d"
      "dlWire ?d = (if ?live \<and> ?out \<noteq> [] then dlWire d @ [?out] else dlWire d)"
      using w \<open>dlTab d _ = Some c\<close> unfolding Some ne by (auto simp: dl_write_def Let_def buffered_def)
    obtain added where added: "dlRead ?d @ in_transit ?d = (dlRead d @ in_transit d) @ added" "subseq added (take n p)"
    proof (cases "?live \<and> ?out \<noteq> []")
      case True
      from trans [OF d(4) if_P [OF True]] True out d show ?thesis by (intro that [of ?out]) (simp_all add: in_transit_def)
    next
      case False
      from trans [OF d(4) if_not_P [OF False]] d show ?thesis by (intro that [of "[]"]) (simp_all add: in_transit_def)
    qed
    with assms show ?thesis unfolding dl_sub_def d(2) by (simp only: list_emb_append_mono)
  qed
qed

lemma take_drop_append: "take n x @ drop n x @ y = x @ y"
  by (simp flip: append.assoc)

lemma dl_read_moves: "dlRead (dl_read n j d) @ in_transit (dl_read n j d) = dlRead d @ in_transit d \<and> dlWritten (dl_read n j d) = dlWritten d"
  by (auto simp: dl_read_def hc_Read_def Let_def in_transit_def buffered_def body_left_def take_drop_append split: option.split list.split)

lemma dl_arrive_moves: "in_transit (dl_arrive d) = in_transit d"
  by (auto simp: dl_arrive_def in_transit_def buffered_def body_left_def split: option.split list.split)

lemma dl_pull_moves:
  "dlRead (dl_pull rnd t period d) = dlRead d \<and> dlWritten (dl_pull rnd t period d) = dlWritten d \<and>
   buffered (dl_pull rnd t period d) = buffered d \<and> (dlWire (dl_pull rnd t period d) = dlWire d \<or> dlWire (dl_pull rnd t period d) = [])"
  by (simp add: dl_pull_def buffered_def split: prod.split sreply.split)

lemma dl_step_sub: "dl_sub d \<Longrightarrow> dl_sub (dl_step rnd t period d e)"
proof -
  assume s: "dl_sub d"
  show ?thesis
  proof (cases e)
    case DlPull
    from s dl_sub_drop have "subseq (dlRead d @ buffered d) (dlWritten d)" by (simp add: dl_sub_def in_transit_def)
    with s dl_pull_moves [of rnd t period d] show ?thesis unfolding DlPull dl_step_def dl_sub_def in_transit_def by auto
  next
    case DlBreak
    have "subseq (dlRead d @ buffered d) (dlWritten d)" using s dl_sub_drop by (simp add: dl_sub_def in_transit_def)
    then show ?thesis using s by (auto simp: DlBreak dl_step_def dl_break_def dl_sub_def in_transit_def buffered_def)
  next
    case (DlWrite p)
    then show ?thesis using dl_write_sub [OF s] by (simp add: dl_step_def)
  next
    case (DlWriteFails p k j)
    then show ?thesis using dl_write_sub [OF s] by (simp add: dl_step_def)
  next
    case (DlRead n j)
    then show ?thesis using s dl_read_moves [of n j d] by (simp add: dl_step_def dl_sub_def)
  next
    case DlArrive
    then show ?thesis using s dl_arrive_moves [of d]
      by (simp add: dl_step_def dl_sub_def) (auto simp: dl_arrive_def split: option.split list.split)
  qed (use s in \<open>auto simp: dl_step_def dl_answer_def dl_period_def dl_stale_def dl_sub_def in_transit_def buffered_def
         split: option.split\<close>)
qed

interpretation downloads: event_machine "dl_step rnd t period" dl_sub for rnd t period
  by unfold_locales (rule dl_step_sub)

section \<open>Runs in which no response breaks\<close>

definition unbroken :: "dl_event \<Rightarrow> bool" where
  "unbroken e = (case e of DlBreak \<Rightarrow> False | DlWriteFails _ _ _ \<Rightarrow> False | _ \<Rightarrow> True)"

definition dl_inv :: "download \<Rightarrow> bool" where
  "dl_inv d \<longleftrightarrow>
     hcRunning (dlC d) \<and> hcId (dlC d) \<noteq> [] \<and> dlOld d = 0 \<and> dlWritten d = dlRead d @ in_transit d \<and>
     (dlCur d = None \<longrightarrow> hcReader (dlC d) = None \<and> dlWire d = []) \<and>
     (case dlTab d (hcId (dlC d)) of
        None \<Rightarrow> dlCur d = None \<and> hcAck (dlC d) = []
      | Some c \<Rightarrow> scRunning c \<and> hcAck (dlC d) \<in> {[], scAck c} \<and>
          (case dlCur d of None \<Rightarrow> scWriter c = None
           | Some (w, a) \<Rightarrow> a = scAck c \<and> scWriter c = (if dlEnded d then None else Some w)))"

lemma dl_inv_new: "i \<noteq> [] \<Longrightarrow> dl_inv (dl_new i)"
  by (simp add: dl_inv_def dl_new_def fresh_client_def in_transit_def buffered_def body_left_def)

text \<open>A pull of the session is taken: the acknowledged identifier the client repeats is the one the server gave it.\<close>

lemma pull_taken:
  assumes "dl_inv d" "dlCur d = None"
  shows "\<exists>c ps. HTTPInvoke rnd t True w (pull_req period (dlC d)) (dlTab d) = (Pulling ps, (dlTab d)(hcId (dlC d) \<mapsto> c)) \<and>
    scRunning c \<and> scWriter c = Some w \<and> hcAck (dlC d) \<in> {[], scAck c}"
proof (cases "dlTab d (hcId (dlC d))")
  case None
  with assms show ?thesis
    by (auto simp: dl_inv_def HTTPInvoke_def getHttpDuplexServConnByID_def pull_req_def Let_def setWriter_def sc_touch_def sc_init_def
        HasSuffix_def suffix_to_prefix)
next
  case (Some c)
  with assms show ?thesis
    by (auto simp: dl_inv_def HTTPInvoke_def getHttpDuplexServConnByID_def pull_req_def Let_def setWriter_def sc_touch_def
        HasSuffix_def suffix_to_prefix)
qed

lemma dl_pull_inv:
  assumes "dl_inv d" "dlCur d = None"
  shows "\<exists>c a. dl_pull rnd t period d = d\<lparr>dlTab := (dlTab d)(hcId (dlC d) \<mapsto> c), dlNext := Suc (dlNext d), dlEnded := False, dlWire := [],
      dlCur := Some (dlNext d, a)\<rparr> \<and> scRunning c \<and> scWriter c = Some (dlNext d) \<and> a = scAck c \<and> hcAck (dlC d) \<in> {[], scAck c}"
proof -
  from pull_taken [OF assms, of rnd t "dlNext d" period] obtain c ps where
    c: "HTTPInvoke rnd t True (dlNext d) (pull_req period (dlC d)) (dlTab d) = (Pulling ps, (dlTab d)(hcId (dlC d) \<mapsto> c))"
    "scRunning c" "scWriter c = Some (dlNext d)" "hcAck (dlC d) \<in> {[], scAck c}" by blast
  have "hcRunning (dlC d)" "hcReader (dlC d) = None" using assms by (simp_all add: dl_inv_def)
  with assms(2) c show ?thesis by (intro exI [of _ c] exI [of _ "scAck c"]) (simp add: dl_pull_def)
qed

lemma dl_pull_keeps: "dl_inv d \<Longrightarrow> dl_inv (dl_pull rnd t period d)"
proof (cases "dlCur d = None")
  case True
  assume i: "dl_inv d"
  from dl_pull_inv [OF this True, of rnd t period] i show ?thesis
    by (force simp: dl_inv_def in_transit_def buffered_def True)
next
  case False
  assume "dl_inv d"
  with False show ?thesis by (simp add: dl_pull_def)
qed

lemma dl_answer_keeps: "dl_inv d \<Longrightarrow> dl_inv (dl_answer d)"
  by (auto simp: dl_answer_def dl_inv_def in_transit_def buffered_def body_left_def pull_round_def setAckId_def split: option.splits)

lemma dl_arrive_keeps: "dl_inv d \<Longrightarrow> dl_inv (dl_arrive d)"
  using dl_arrive_moves [of d] by (auto simp: dl_arrive_def dl_inv_def split: option.splits list.splits)

lemma dl_read_keeps: "dl_inv d \<Longrightarrow> dl_inv (dl_read n j d)"
  using dl_read_moves [of n j d]
  by (auto simp: dl_read_def dl_inv_def dl_over_def hc_Read_def Let_def split: option.splits list.splits if_splits)

lemma dl_write_keeps: "dl_inv d \<Longrightarrow> dl_inv (dl_write t p None d)"
  by (auto simp: dl_write_def dl_inv_def sc_Write_def Let_def sc_touch_def in_transit_def buffered_def split: option.splits if_splits)

lemma dl_period_keeps: "dl_inv d \<Longrightarrow> dl_inv (dl_period d)"
  by (auto simp: dl_period_def dl_inv_def on_conn_def end_pull_def closeWrite_def in_transit_def buffered_def split: option.splits)

lemma dl_stale_keeps: "dl_inv d \<Longrightarrow> dl_inv (dl_stale b d)"
  by (simp add: dl_stale_def dl_inv_def)

lemma failed_pull_keeps [simp]: "pull_round None [] h = h"
  by (simp add: pull_round_def)

lemma dl_step_keeps: "dl_inv d \<Longrightarrow> unbroken e \<Longrightarrow> dl_inv (dl_step rnd t period d e)"
  by (cases e)
     (simp_all add: dl_step_def unbroken_def dl_pull_keeps dl_answer_keeps dl_arrive_keeps dl_read_keeps dl_write_keeps dl_period_keeps
       dl_stale_keeps)

interpretation whole_downloads: event_machine "\<lambda>d e. if unbroken e then dl_step rnd t period d e else d" dl_inv for rnd t period
  by unfold_locales (simp add: dl_step_keeps)

lemma unbroken_run:
  assumes "dl_inv d" "list_all unbroken es" shows "dl_inv (foldl (dl_step rnd t period) d es)"
proof -
  have "foldl (dl_step rnd t period) d es = foldl (\<lambda>d e. if unbroken e then dl_step rnd t period d e else d) d es"
    using assms(2) by (induction es arbitrary: d) simp_all
  then show ?thesis using whole_downloads.run_inv [OF assms(1)] by simp
qed

section \<open>The client alone\<close>

definition of_client :: "dl_event \<Rightarrow> bool" where
  "of_client e = (case e of DlPull \<Rightarrow> True | DlAnswer \<Rightarrow> True | DlArrive \<Rightarrow> True | DlRead _ _ \<Rightarrow> True | _ \<Rightarrow> False)"

lemma of_client_unbroken: "of_client e \<Longrightarrow> unbroken e"
  by (cases e) (simp_all add: of_client_def unbroken_def)

lemma all_arrive:
  "hcReader (dlC d) = Some cs \<Longrightarrow> foldl (dl_step rnd t period) d (replicate (length (dlWire d)) DlArrive) =
     d\<lparr>dlC := (dlC d)\<lparr>hcReader := Some (cs @ dlWire d)\<rparr>, dlWire := []\<rparr>"
proof (induction "dlWire d" arbitrary: d cs)
  case Nil
  then show ?case by (metis append_Nil2 foldl_Nil list.size(3) replicate_0 hconn.surjective hconn.update_convs(11) download.surjective
        download.update_convs(1,6))
next
  case (Cons b bs)
  let ?d = "d\<lparr>dlC := (dlC d)\<lparr>hcReader := Some (cs @ [b])\<rparr>, dlWire := bs\<rparr>"
  from Cons.hyps(1) [of ?d "cs @ [b]"] Cons.prems Cons.hyps(2) [symmetric] show ?case by (simp add: dl_step_def dl_arrive_def)
qed

lemma all_read:
  "hcReader (dlC d) = Some cs \<Longrightarrow> foldl (dl_step rnd t period) d (map (\<lambda>c. DlRead (length c) False) cs) =
     d\<lparr>dlC := (dlC d)\<lparr>hcReader := Some []\<rparr>, dlRead := dlRead d @ concat cs\<rparr>"
proof (induction cs arbitrary: d)
  case Nil
  then show ?case by simp
next
  case (Cons c cs)
  let ?d = "d\<lparr>dlC := (dlC d)\<lparr>hcReader := Some cs\<rparr>, dlRead := dlRead d @ c\<rparr>"
  from Cons.IH [of ?d] Cons.prems show ?case by (simp add: dl_step_def dl_read_def hc_Read_def Let_def)
qed

text \<open>With a pull under way the client can receive and read everything that has been written.\<close>

lemma dl_answer_reader:
  assumes "dl_inv d" "dlCur d \<noteq> None" shows "\<exists>cs. hcReader (dlC (dl_answer d)) = Some cs"
  using assms by (cases "hcReader (dlC d)") (auto simp: dl_answer_def dl_inv_def pull_round_def)

lemma dl_answer_frame:
  "dlCur (dl_answer d) = dlCur d" "dlEnded (dl_answer d) = dlEnded d" "dlTab (dl_answer d) = dlTab d" "hcId (dlC (dl_answer d)) = hcId (dlC d)"
  "dlWritten (dl_answer d) = dlWritten d" "dlWire (dl_answer d) = dlWire d"
  by (auto simp: dl_answer_def pull_round_def split: option.split)

lemma read_to_end:
  assumes "dl_inv d" "dlCur d \<noteq> None"
  obtains fs where "list_all of_client fs" "hcReader (dlC (foldl (dl_step rnd t period) d fs)) = Some []"
    "dlWire (foldl (dl_step rnd t period) d fs) = []" "dlCur (foldl (dl_step rnd t period) d fs) = dlCur d"
    "dlEnded (foldl (dl_step rnd t period) d fs) = dlEnded d" "dlTab (foldl (dl_step rnd t period) d fs) = dlTab d"
    "hcId (dlC (foldl (dl_step rnd t period) d fs)) = hcId (dlC d)" "dlWritten (foldl (dl_step rnd t period) d fs) = dlWritten d"
proof -
  let ?run = "foldl (dl_step rnd t period)"
  from dl_answer_reader [OF assms] obtain cs where cs: "hcReader (dlC (dl_answer d)) = Some cs" by blast
  let ?all = "cs @ dlWire d"
  let ?fs = "DlAnswer # replicate (length (dlWire d)) DlArrive @ map (\<lambda>c. DlRead (length c) False) ?all"
  let ?d = "(dl_answer d)\<lparr>dlC := (dlC (dl_answer d))\<lparr>hcReader := Some ?all\<rparr>, dlWire := []\<rparr>"
  have "?run d ?fs = ?run ?d (map (\<lambda>c. DlRead (length c) False) ?all)"
    using all_arrive [OF cs, of rnd t period] by (simp add: dl_step_def dl_answer_frame)
  also have "\<dots> = ?d\<lparr>dlC := (dlC ?d)\<lparr>hcReader := Some []\<rparr>, dlRead := dlRead ?d @ concat ?all\<rparr>" by (rule all_read) simp
  finally have "?run d ?fs = \<dots>" .
  moreover have "list_all of_client ?fs" by (auto simp: list_all_iff of_client_def)
  ultimately show thesis by (intro that [of ?fs]) (simp_all add: dl_answer_frame)
qed

lemma drained_read: "dl_inv d \<Longrightarrow> in_transit d = [] \<Longrightarrow> dlRead d = dlWritten d"
  by (simp add: dl_inv_def)

lemma sc_Write_ready: "scRunning c \<Longrightarrow> scWriter c = Some w \<Longrightarrow> fst (sc_Write t None p c) = Some (length p, None)"
  by (simp add: sc_Write_def)

text \<open>Without a pull, or with one that has ended and is read, the loop sends the next, and the server has a writer again.\<close>

lemma pull_gives_writer:
  assumes "dl_inv d" "dlCur d = None"
  shows "dl_inv (dl_pull rnd t period d) \<and> in_transit (dl_pull rnd t period d) = [] \<and> dlWritten (dl_pull rnd t period d) = dlWritten d \<and>
    (\<exists>c. dlTab (dl_pull rnd t period d) (hcId (dlC d)) = Some c \<and> fst (sc_Write t' None p c) = Some (length p, None))"
proof -
  from dl_pull_inv [OF assms, of rnd t period] obtain c a where
    c: "dl_pull rnd t period d = d\<lparr>dlTab := (dlTab d)(hcId (dlC d) \<mapsto> c), dlNext := Suc (dlNext d), dlEnded := False, dlWire := [],
      dlCur := Some (dlNext d, a)\<rparr>" "scRunning c" "scWriter c = Some (dlNext d)" by blast
  have "hcReader (dlC d) = None" using assms by (simp add: dl_inv_def)
  then have "in_transit (dl_pull rnd t period d) = []" by (simp add: c(1) in_transit_def buffered_def body_left_def)
  with dl_pull_keeps [OF assms(1), of rnd t period] sc_Write_ready [OF c(2,3)] show ?thesis by (simp add: c(1))
qed

section \<open>Properties\<close>

text \<open>C9: while no response breaks, the client's multiplexer has read exactly the bytes the server's has written, in their order, but for
  those on their way, across the ends of all pulls, in every interleaving; and the session is never refused.\<close>

theorem http_download_exact:
  assumes "i \<noteq> []" "list_all unbroken es" "d = foldl (dl_step rnd t period) (dl_new i) es"
  shows "dlWritten d = dlRead d @ in_transit d \<and> hcRunning (dlC d)"
  using unbroken_run [OF dl_inv_new [OF assms(1)] assms(2), of rnd t period] unfolding assms(3) by (simp add: dl_inv_def)

lemma http_download_exact_witness:
  "dlWritten (foldl (dl_step (\<lambda>_. 0) 0 30) (dl_new ''s'')
      [DlPull, DlWrite [1, 2], DlAnswer, DlPeriod, DlArrive, DlRead 1 False, DlRead 9 True, DlPull, DlWrite [3]]) = [1, 2] @ [3]"
proof -
  let ?es = "[DlPull, DlWrite [1, 2], DlAnswer, DlPeriod, DlArrive, DlRead 1 False, DlRead 9 True, DlPull, DlWrite [3]]"
  from http_download_exact [of "''s''" ?es _ "\<lambda>_. 0" 0 30, OF _ _ refl]
  have "dlWritten (foldl (dl_step (\<lambda>_. 0) 0 30) (dl_new ''s'') ?es) =
    dlRead (foldl (dl_step (\<lambda>_. 0) 0 30) (dl_new ''s'') ?es) @ in_transit (foldl (dl_step (\<lambda>_. 0) 0 30) (dl_new ''s'') ?es)"
    by (simp add: unbroken_def)
  also have "\<dots> = [1, 2] @ [3]" by code_simp
  finally show ?thesis .
qed

text \<open>C11: whatever breaks, the bytes the client has read are some of the bytes written, in their order: none is repeated, reordered or
  made up.\<close>

theorem http_download_in_order:
  "subseq (dlRead (foldl (dl_step rnd t period) (dl_new i) es)) (dlWritten (foldl (dl_step rnd t period) (dl_new i) es))"
proof -
  have "dl_sub (dl_new i)" by (simp add: dl_sub_def dl_new_def in_transit_def buffered_def body_left_def fresh_client_def)
  from downloads.run_inv [OF this, of rnd t period es] show ?thesis
    unfolding dl_sub_def by (meson prefixI prefix_imp_subseq subseq_order.order_trans)
qed



text \<open>C12: when a response breaks, the server goes on writing into it and every \<open>Write\<close> reports success; the client pulls again and
  reads on behind a gap, and neither side is told.\<close>

theorem broken_response_gap:
  assumes "i \<noteq> []" "a \<noteq> []" "c \<noteq> []"
    and "d = foldl (dl_step rnd t period) (dl_new i)
      [DlPull, DlWrite a, DlAnswer, DlArrive, DlRead (length a) False, DlBreak, DlWrite b, DlRead 1 False,
       DlPull, DlWrite c, DlAnswer, DlArrive, DlRead (length c) False]"
  shows "dlWritten d = a @ b @ c \<and> dlRead d = a @ c \<and> in_transit d = [] \<and> hcRunning (dlC d) \<and>
    (\<exists>s. dlTab d (hcId (dlC d)) = Some s \<and> scRunning s \<and> scWriter s \<noteq> None)"
  using assms(1-3) unfolding assms(4)
  by (simp add: dl_step_def dl_new_def fresh_client_def dl_pull_def HTTPInvoke_def getHttpDuplexServConnByID_def pull_req_def Let_def
      setWriter_def sc_touch_def sc_init_def HasSuffix_def suffix_to_prefix dl_write_def sc_Write_def dl_answer_def pull_round_def setAckId_def
      dl_arrive_def dl_read_def hc_Read_def dl_over_def dl_break_def in_transit_def buffered_def body_left_def)

lemma broken_response_gap_witness:
  "dlRead (foldl (dl_step (\<lambda>_. 0) 0 30) (dl_new ''s'')
      [DlPull, DlWrite [1], DlAnswer, DlArrive, DlRead (length [1 :: byte]) False, DlBreak, DlWrite [2], DlRead 1 False,
       DlPull, DlWrite [3], DlAnswer, DlArrive, DlRead (length [3 :: byte]) False]) = [1] @ [3]"
  by (rule broken_response_gap [of "''s''" "[1]" "[3]", OF _ _ _ refl, THEN conjunct2, THEN conjunct1]) simp_all

end
