(* ===== verification/EndToEnd.thy ===== *)
theory EndToEnd
  imports LocalServer Relay
begin

text \<open>
  The components composed: a SOCKS5 client, the local proxy (\<open>local/local_server.go\<close>), the connect request on the
  stream (\<open>common/mux/mux.go\<close>), the servers it is passed on by (\<open>common/channel/remote.go\<close>), and the bytes that follow it
  through their relays. The codec of the requests (\<open>msgpack\<close>) is an argument.
\<close>

section \<open>Requests on the wire\<close>

text \<open>The bytes a connect request is written as.\<close>

definition sent_request :: "(ConnectRequest \<Rightarrow> bytes option) \<Rightarrow> string \<Rightarrow> string \<Rightarrow> StreamOptions \<Rightarrow> bytes option" where
  "sent_request enc network addr opt =
     (case Connect enc network addr opt \<lparr>s_in = [], s_end = EOF, s_out = [], s_ok = True, lastIO = 0, now = 0\<rparr> of
        (None, s) \<Rightarrow> Some (concat (s_out s)) | (Some _, _) \<Rightarrow> None)"

text \<open>What a server makes of the bytes of a stream, and the bytes it writes to the next server before it copies: the request with
  the hops that are left, in front of what has followed the request it has read.\<close>

definition serve_bytes :: "(ConnectRequest \<Rightarrow> bytes option) \<Rightarrow> (bytes \<Rightarrow> ConnectRequest \<Rightarrow> bool \<times> ConnectRequest) \<Rightarrow> ProxyLimitConfig \<Rightarrow> bytes \<Rightarrow> route \<times> bytes" where
  "serve_bytes enc dec limit bs =
     (case ReadConnectRequest dec \<lparr>s_in = bs, s_end = EOF, s_out = [], s_ok = True, lastIO = 0, now = 0\<rparr> of
        (req, s) \<Rightarrow>
          (case route_request limit req of
             NextHop hop net addr opt \<Rightarrow>
               (case sent_request enc net addr opt of None \<Rightarrow> (BadRequest, []) | Some m \<Rightarrow> (NextHop hop net addr opt, m @ s_in s))
           | r \<Rightarrow> (r, s_in s)))"

text \<open>The servers the bytes come to, what the last one does, and the bytes that are left for it to copy. The number bounds the
  servers.\<close>

fun through :: "nat \<Rightarrow> (ConnectRequest \<Rightarrow> bytes option) \<Rightarrow> (bytes \<Rightarrow> ConnectRequest \<Rightarrow> bool \<times> ConnectRequest) \<Rightarrow> (string \<Rightarrow> ProxyLimitConfig) \<Rightarrow>
    string \<Rightarrow> bytes \<Rightarrow> string list \<times> route \<times> bytes" where
  "through 0 enc dec limits here bs = ([here], BadRequest, [])"
| "through (Suc n) enc dec limits here bs =
     (case serve_bytes enc dec (limits here) bs of
        (NextHop hop net addr opt, bs') \<Rightarrow> (case through n enc dec limits hop bs' of (path, r) \<Rightarrow> (here # path, r))
      | (r, bs') \<Rightarrow> ([here], r, bs'))"

section \<open>Lemmas\<close>

text \<open>A request the codec brings over.\<close>

definition carries :: "(ConnectRequest \<Rightarrow> bytes option) \<Rightarrow> (bytes \<Rightarrow> ConnectRequest \<Rightarrow> bool \<times> ConnectRequest) \<Rightarrow> ConnectRequest \<Rightarrow> bool" where
  "carries enc dec r \<longleftrightarrow> (\<exists>p. enc r = Some p \<and> length p \<le> max_message \<and> dec p empty_connect = (True, r))"

definition asks :: "string \<Rightarrow> string \<Rightarrow> int \<Rightarrow> int \<Rightarrow> string list \<Rightarrow> ConnectRequest" where
  "asks network addr dial read hops = \<lparr>crNetwork = network, crAddr = addr, crDialTimeout = dial, crReadTimeout = read, crHops = hops\<rparr>"

lemma sent_request_frame:
  assumes "enc (asks network addr dial read hops) = Some p"
  shows "sent_request enc network addr \<lparr>soDialTimeout = dial, soReadTimeout = read, soHops = hops\<rparr> = Some (frame p)"
  using assms by (simp add: sent_request_def Connect_def WriteMessage_frame asks_def)

lemma request_read:
  assumes "carries enc dec (asks network addr dial read hops)"
    and "sent_request enc network addr \<lparr>soDialTimeout = dial, soReadTimeout = read, soHops = hops\<rparr> = Some m" "s_in s = m @ rest"
  shows "ReadConnectRequest dec s = ((None, asks network addr dial read hops), s\<lparr>s_in := rest, lastIO := now s\<rparr>)"
proof -
  from assms(1) obtain p where p: "enc (asks network addr dial read hops) = Some p" "length p \<le> max_message"
    "dec p empty_connect = (True, asks network addr dial read hops)" by (auto simp: carries_def)
  with assms(2) have "m = frame p" using sent_request_frame by fastforce
  with assms(3) p(2,3) show ?thesis by (simp add: ReadConnectRequest_def ReadMessage_frame)
qed

lemma carries_sent:
  "carries enc dec (asks network addr dial read hops) \<Longrightarrow>
   \<exists>m. sent_request enc network addr \<lparr>soDialTimeout = dial, soReadTimeout = read, soHops = hops\<rparr> = Some m"
  using sent_request_frame by (fastforce simp: carries_def)

text \<open>The request goes through its hops; what follows it stays behind it.\<close>

lemma through_hops:
  assumes "\<forall>hs. suffix hs hops \<longrightarrow> carries enc dec (asks network addr dial read hs)"
    and "\<forall>h \<in> set (here # hops). Allowed (limits h) addr"
    and "sent_request enc network addr \<lparr>soDialTimeout = dial, soReadTimeout = read, soHops = hops\<rparr> = Some m"
    and "length hops < n"
  shows "through n enc dec limits here (m @ rest) =
    (here # hops, DialHere network addr (if dial = 0 then 10000 else dial), rest)"
  using assms
proof (induction hops arbitrary: n here m)
  case Nil
  then have c: "carries enc dec (asks network addr dial read [])" by simp
  from Nil.prems(4) obtain k where n: "n = Suc k" by (cases n) auto
  have r: "ReadConnectRequest dec \<lparr>s_in = m @ rest, s_end = EOF, s_out = [], s_ok = True, lastIO = 0, now = 0\<rparr> =
      ((None, asks network addr dial read []), \<lparr>s_in = rest, s_end = EOF, s_out = [], s_ok = True, lastIO = 0, now = 0\<rparr>)"
    using request_read [OF c Nil.prems(3), of "\<lparr>s_in = m @ rest, s_end = EOF, s_out = [], s_ok = True, lastIO = 0, now = 0\<rparr>" rest] by simp
  from Nil.prems(2) show ?case by (simp add: n serve_bytes_def r route_request_def asks_def Let_def)
next
  case (Cons h hs)
  then have c: "carries enc dec (asks network addr dial read (h # hs))" by simp
  have cs: "\<forall>hs'. suffix hs' hs \<longrightarrow> carries enc dec (asks network addr dial read hs')" using Cons.prems(1) by (meson suffix_ConsI)
  then obtain m' where m': "sent_request enc network addr \<lparr>soDialTimeout = dial, soReadTimeout = read, soHops = hs\<rparr> = Some m'"
    using carries_sent by blast
  from Cons.prems(4) obtain k where n: "n = Suc k" "length hs < k" by (cases n) auto
  have r: "ReadConnectRequest dec \<lparr>s_in = m @ rest, s_end = EOF, s_out = [], s_ok = True, lastIO = 0, now = 0\<rparr> =
      ((None, asks network addr dial read (h # hs)), \<lparr>s_in = rest, s_end = EOF, s_out = [], s_ok = True, lastIO = 0, now = 0\<rparr>)"
    using request_read [OF c Cons.prems(3), of "\<lparr>s_in = m @ rest, s_end = EOF, s_out = [], s_ok = True, lastIO = 0, now = 0\<rparr>" rest] by simp
  have "serve_bytes enc dec (limits here) (m @ rest) =
      (NextHop h network addr \<lparr>soDialTimeout = dial, soReadTimeout = read, soHops = hs\<rparr>, m' @ rest)"
    using Cons.prems(2) by (simp add: serve_bytes_def r route_request_def asks_def Let_def m')
  then show ?case using Cons.IH [OF cs _ m' n(2), of h] Cons.prems(2) by (simp add: n(1))
qed

text \<open>Relays one behind the other: the target of each is the client of the next, which may not have got everything yet.\<close>

definition relay_run :: "int \<Rightarrow> relay_event list \<Rightarrow> relay" where
  "relay_run m evs = foldl (proxy_ev m) (relay_new ep_new ep_new) evs"

fun chained :: "int \<Rightarrow> relay_event list list \<Rightarrow> bool" where
  "chained m (e1 # e2 # es) =
     (prefix (client_sent e2) (epOut (rlTarget (relay_run m e1))) \<and> prefix (target_sent e1) (epOut (rlClient (relay_run m e2))) \<and>
      chained m (e2 # es))"
| "chained m _ = True"

lemma relay_run_prefix:
  "prefix (epOut (rlTarget (relay_run m evs))) (client_sent evs)" "prefix (epOut (rlClient (relay_run m evs))) (target_sent evs)"
proof -
  have "proxy_flows evs (client_sent evs) (target_sent evs) (relay_new ep_new ep_new)"
    by (simp add: proxy_flows_def flow_def relay_new_def ep_new_def)
  from proxy_run_flows [OF this, of m]
  show "prefix (epOut (rlTarget (relay_run m evs))) (client_sent evs)" "prefix (epOut (rlClient (relay_run m evs))) (target_sent evs)"
    by (auto simp: relay_run_def proxy_flows_def dest: flow_prefix)
qed

text \<open>In a room of two, whatever the order in which maps are iterated, a stream goes to a session of the other member.\<close>

lemma peer_loop_other:
  assumes "dom m \<subseteq> {c1, c2}" "c1 \<noteq> c2" "m c2 = Some n" "nSessions n \<noteq> {}" "nSessions n \<subseteq> set (sorder c2)" "\<forall>s. opens s" "c2 \<in> set order"
  shows "\<exists>s \<in> nSessions n. peer_loop opens sorder order c1 m = Some s"
  using assms(7)
proof (induction order)
  case (Cons c cs)
  show ?case
  proof (cases "c = c2")
    case True
    obtain s ss where f: "filter (\<lambda>s. s \<in> nSessions n) (sorder c2) = s # ss"
    proof (cases "filter (\<lambda>s. s \<in> nSessions n) (sorder c2)")
      case Nil
      then show ?thesis using assms(4,5) by (auto simp: filter_empty_conv)
    qed (use that in blast)
    then have "s \<in> nSessions n" by (metis filter_eq_ConsD)
    then show ?thesis using True assms(2,3,6) f by auto
  next
    case False
    then have "c = c1 \<or> m c = None" using assms(1) by blast
    with False Cons show ?thesis by (auto split: option.splits)
  qed
qed simp

section \<open>Properties\<close>


definition small_enc :: "ConnectRequest \<Rightarrow> bytes option" where
  "small_enc r = Some (bytes_of_str (crAddr r))"

definition small_dec :: "bytes \<Rightarrow> ConnectRequest \<Rightarrow> bool \<times> ConnectRequest" where
  "small_dec b r = (True, asks ''tcp'' (str_of_bytes b) 0 10000 [])"

lemma itoa_443: "itoa 443 = ''443''"
  by (simp add: itoa.simps [of 443] itoa.simps [of 44] itoa.simps [of 4] digit_char_def char_of_eq_iff)

lemma small_carries: "length addr \<le> 100 \<Longrightarrow> carries small_enc small_dec (asks ''tcp'' addr 0 10000 [])"
  by (simp add: carries_def small_enc_def small_dec_def asks_def max_message_def)




text \<open>C5: a request of one peer is dialled by the other: in a room that two peers have joined, however they and others have joined and left before
  and in whatever order the server iterates over its maps, a stream of the one is passed on to a session of the other, and
  when the bytes of its connect request have been relayed, the other peer dials exactly the address asked for and copies the
  beginning of what follows.\<close>

theorem peer_request_dialled:
  assumes "foldl p2p_step Map.empty joins tok = Some m" "m c1 \<noteq> None" "m c2 = Some n" "c1 \<noteq> c2"
    and "nSessions n \<noteq> {}" "nSessions n \<subseteq> set (sorder c2)" "\<forall>s. opens s" "c2 \<in> set order"
    and "handleP2PProxyStream (Some ep_new) ep_new evs = (ep, Some q)"
    and "sent_request enc network addr \<lparr>soDialTimeout = dial, soReadTimeout = read, soHops = []\<rparr> = Some req"
    and "carries enc dec (asks network addr dial read [])" "Allowed limit addr"
    and "client_sent evs = req @ rest" "length req \<le> length (epOut (rlTarget q))"
  shows "(\<exists>s \<in> nSessions n. openPeerStream opens sorder order tok c1 (foldl p2p_step Map.empty joins) = Some s) \<and>
    (\<exists>got. prefix got rest \<and> through 1 enc dec (\<lambda>_. limit) peer (epOut (rlTarget q)) =
      ([peer], DialHere network addr (if dial = 0 then 10000 else dial), got))"
proof
  have "rooms_inv (foldl p2p_step Map.empty joins)" by (rule p2p.run_inv) (simp add: rooms_inv_def)
  then have "room_ok m" using assms(1) by (auto simp: rooms_inv_def)
  then obtain d where "dom m \<subseteq> {c1, d}" using two_members assms(2) by blast
  then have "dom m \<subseteq> {c1, c2}" using assms(3,4) by auto
  from peer_loop_other [where sorder = sorder, OF this assms(4,3,5-8)]
  show "\<exists>s \<in> nSessions n. openPeerStream opens sorder order tok c1 (foldl p2p_step Map.empty joins) = Some s"
    by (simp add: openPeerStream_def assms(1))
  have "p2p_flows evs (client_sent evs) (target_sent evs) (relay_new ep_new ep_new)"
    by (simp add: p2p_flows_def flow_def relay_new_def ep_new_def)
  from p2p_run_flows [OF this] handleP2P_run [OF assms(9)] have "prefix (epOut (rlTarget q)) (req @ rest)"
    using assms(13) by (auto simp: p2p_flows_def dest: flow_prefix)
  then consider "prefix (epOut (rlTarget q)) req" | us where "epOut (rlTarget q) = req @ us" "prefix us rest" by (auto simp: prefix_append)
  then obtain got where got: "epOut (rlTarget q) = req @ got" "prefix got rest"
  proof cases
    case 1
    with assms(14) have "epOut (rlTarget q) = req @ []" by (auto simp: prefix_def)
    then show ?thesis by (rule that) simp
  qed (rule that)
  have "through 1 enc dec (\<lambda>_. limit) peer (req @ got) = (peer # [], DialHere network addr (if dial = 0 then 10000 else dial), got)"
    by (rule through_hops) (use assms(10-12) in simp_all)
  with got show "\<exists>got. prefix got rest \<and> through 1 enc dec (\<lambda>_. limit) peer (epOut (rlTarget q)) =
      ([peer], DialHere network addr (if dial = 0 then 10000 else dial), got)" by auto
qed

lemma peer_request_dialled_witness:
  "(\<exists>s \<in> {2}. openPeerStream (\<lambda>_. True) (\<lambda>_. [1, 2]) [''a'', ''b''] ''t'' ''a'' (foldl p2p_step Map.empty [Join (joiner ''a'') 1 [], Join (joiner ''b'') 2 []]) = Some s) \<and>
   (\<exists>got. prefix got [7] \<and> through 1 small_enc small_dec (\<lambda>_. no_limit) ''p''
      (epOut (rlTarget (foldl p2p_ev (relay_new ep_new ep_new) [ClientSends (frame (bytes_of_str ''h:1'') @ [7]), MainRuns]))) =
      ([''p''], DialHere ''tcp'' ''h:1'' 10000, got))"
proof -
  let ?evs = "[ClientSends (frame (bytes_of_str ''h:1'') @ [7]), MainRuns]"
  have 1: "foldl p2p_step Map.empty [Join (joiner ''a'') 1 [], Join (joiner ''b'') 2 []] ''t'' =
      Some [''a'' \<mapsto> new_node\<lparr>nSessions := {1}\<rparr>, ''b'' \<mapsto> new_node\<lparr>nSessions := {2}\<rparr>]"
    by (simp add: p2p_step_def addP2PSession_def joiner_def empty_auth_def Let_def room_size_def new_node_def)
  have 2: "sent_request small_enc ''tcp'' ''h:1'' \<lparr>soDialTimeout = 0, soReadTimeout = 10000, soHops = []\<rparr> = Some (frame (bytes_of_str ''h:1''))"
    by (rule sent_request_frame) (simp add: small_enc_def asks_def)
  have 3: "handleP2PProxyStream (Some ep_new) ep_new ?evs =
      (rlClient (foldl p2p_ev (relay_new ep_new ep_new) ?evs), Some (foldl p2p_ev (relay_new ep_new ep_new) ?evs))"
    by (simp add: handleP2PProxyStream_def Let_def)
  have 4: "carries small_enc small_dec (asks ''tcp'' ''h:1'' 0 10000 [])" by (rule small_carries) simp
  show ?thesis
    using peer_request_dialled [OF 1 _ _ _ _ _ _ _ 3 2 4, of "''a''" "''b''" "new_node\<lparr>nSessions := {2}\<rparr>" "\<lambda>_. [1, 2]" "\<lambda>_. True" "[''a'', ''b'']" no_limit "[7]" "''p''"]
    by (simp add: no_limit_def Allowed_def run_simps)
qed

end
