(* ===== verification/ClientDial.thy ===== *)
theory ClientDial
  imports LocalPac Protector
begin

text \<open>
  How the parts of a client come to their connections: the replaceable functions of \<open>common/netx/netx.go\<close>, the dial
  functions and HTTP clients a channel configuration gives (\<open>NewDialByConf\<close>, \<open>NewHTTPClient\<close> of
  \<open>common/channel/dial.go\<close>), and the settings \<open>Init\<close> of \<open>common/dns/dns.go\<close> gives to the DNS server.
\<close>

section \<open>The replaceable functions\<close>

text \<open>\<open>DialContext\<close> and its relatives call the function that is stored at the time of the call; \<open>DialTimeout\<close> gives it a deadline,
  in milliseconds, and \<open>Dial\<close> one of a minute.\<close>

definition netx_DialContext :: "int option \<Rightarrow> string \<Rightarrow> string \<Rightarrow> (int option \<Rightarrow> string \<Rightarrow> string \<Rightarrow> 'c, 'r, 'l, 'u) netx \<Rightarrow> 'c" where
  "netx_DialContext deadline network addr n = nxDial n deadline network addr"

definition netx_DialTimeout :: "string \<Rightarrow> string \<Rightarrow> int \<Rightarrow> (int option \<Rightarrow> string \<Rightarrow> string \<Rightarrow> 'c, 'r, 'l, 'u) netx \<Rightarrow> 'c" where
  "netx_DialTimeout network addr timeout n = netx_DialContext (Some timeout) network addr n"

definition netx_Dial :: "string \<Rightarrow> string \<Rightarrow> (int option \<Rightarrow> string \<Rightarrow> string \<Rightarrow> 'c, 'r, 'l, 'u) netx \<Rightarrow> 'c" where
  "netx_Dial network addr n = netx_DialTimeout network addr 60000 n"

definition netx_Resolve :: "string \<Rightarrow> string \<Rightarrow> ('d, string \<Rightarrow> string \<Rightarrow> 'a, 'l, 'u) netx \<Rightarrow> 'a" where
  "netx_Resolve network addr n = nxResolve n network addr"

definition netx_ListenUDP :: "string \<Rightarrow> bytes option \<Rightarrow> ('d, 'r, string \<Rightarrow> bytes option \<Rightarrow> 'p, 'u) netx \<Rightarrow> 'p" where
  "netx_ListenUDP network laddr n = nxListenUDP n network laddr"

definition netx_DialUDP :: "string \<Rightarrow> bytes option \<Rightarrow> bytes option \<Rightarrow> ('d, 'r, 'l, string \<Rightarrow> bytes option \<Rightarrow> bytes option \<Rightarrow> 'p) netx \<Rightarrow> 'p" where
  "netx_DialUDP network laddr raddr n = nxDialUDP n network laddr raddr"

section \<open>HTTP clients\<close>

definition NewDialByConf ::
    "(string \<Rightarrow> URL option) \<Rightarrow> (string \<Rightarrow> bool) \<Rightarrow> (string \<Rightarrow> string \<Rightarrow> string) \<Rightarrow> (string \<Rightarrow> string option) \<Rightarrow>
     (dial_plan \<Rightarrow> int \<Rightarrow> bool) \<Rightarrow> (string \<Rightarrow> bool) \<Rightarrow> ProxyChannelConfig \<Rightarrow> string \<Rightarrow> string \<Rightarrow>
     (server_dial_err \<times> bool) + string option" where
  "NewDialByConf parse inHosts getAddr dns dial handshake conf scheme addr =
     DialServerByConf parse inHosts getAddr dns dial handshake (scheme @ ''://'' @ addr) conf"

record http_client =
  hclConf :: ProxyChannelConfig
  hclScheme :: string
  hclMaxIdle :: int
  hclHeaderTimeout :: int

definition new_http_client :: "ProxyChannelConfig \<Rightarrow> string \<Rightarrow> http_client" where
  "new_http_client conf scheme =
     \<lparr>hclConf = conf, hclScheme = scheme, hclMaxIdle = 2 * ConnsPerServer conf, hclHeaderTimeout = HTTPReadTimeout conf\<rparr>"

text \<open>\<open>NewHTTPClient\<close> keeps one client for each configuration; \<open>p\<close> is the pointer to it, which is the key.\<close>

definition NewHTTPClient :: "nat \<Rightarrow> ProxyChannelConfig \<Rightarrow> string \<Rightarrow> (nat \<rightharpoonup> http_client) \<Rightarrow> http_client \<times> (nat \<rightharpoonup> http_client)" where
  "NewHTTPClient p conf scheme clients =
     (case clients p of Some c \<Rightarrow> (c, clients) | None \<Rightarrow> (new_http_client conf scheme, clients(p \<mapsto> new_http_client conf scheme)))"

text \<open>What a client dials for an address its transport gives, which always has a port.\<close>

definition client_dial ::
    "(string \<Rightarrow> URL option) \<Rightarrow> (string \<Rightarrow> bool) \<Rightarrow> (string \<Rightarrow> string \<Rightarrow> string) \<Rightarrow> (string \<Rightarrow> string option) \<Rightarrow>
     (dial_plan \<Rightarrow> int \<Rightarrow> bool) \<Rightarrow> (string \<Rightarrow> bool) \<Rightarrow> http_client \<Rightarrow> string \<Rightarrow> (server_dial_err \<times> bool) + string option" where
  "client_dial parse inHosts getAddr dns dial handshake c addr =
     NewDialByConf parse inHosts getAddr dns dial handshake (hclConf c) (hclScheme c) addr"

section \<open>The DNS server\<close>

record dns_server =
  dsServer :: string
  dsTimeout :: int
  dsMaxResponse :: int

record fdns_conf =
  fcListen :: string
  fcFast :: "dns_server list"
  fcTrusted :: "dns_server list"
  fcMinTTL :: int

record LocalDNSConfig =
  ldListen :: string
  ldTrusted :: "string list"
  ldFast :: "string list"
  ldCNIPSet :: string

definition fdns_conf_of :: "LocalDNSConfig \<Rightarrow> fdns_conf" where
  "fdns_conf_of c =
     \<lparr>fcListen = ldListen c,
      fcFast = map (\<lambda>s. \<lparr>dsServer = s, dsTimeout = 500, dsMaxResponse = 1\<rparr>) (ldFast c),
      fcTrusted = map (\<lambda>s. \<lparr>dsServer = s, dsTimeout = 1000, dsMaxResponse = 5\<rparr>) (ldTrusted c),
      fcMinTTL = 24 * 3600\<rparr>"

text \<open>\<open>Init\<close>: \<open>load\<close> reads the country database, \<open>make\<close> of the library makes the server (its error is not looked at). The
  state is the database and the server; the result is whether the server is started.\<close>

definition dns_Init ::
    "(string \<Rightarrow> 'i option) \<Rightarrow> (fdns_conf \<Rightarrow> 's option) \<Rightarrow> LocalDNSConfig \<Rightarrow> 'i option \<times> 's option \<Rightarrow> bool \<times> ('i option \<times> 's option)" where
  "dns_Init load newServer c st =
     (case st of (cnip, _) \<Rightarrow>
        (ldListen c \<noteq> [],
         (case load (ldCNIPSet c) of Some i \<Rightarrow> Some i | None \<Rightarrow> cnip), newServer (fdns_conf_of c)))"

definition dns_IsCNIP :: "('i \<Rightarrow> bytes \<Rightarrow> bool) \<Rightarrow> 'i option \<Rightarrow> bytes \<Rightarrow> bool" where
  "dns_IsCNIP inCountry cnip ip = (case cnip of None \<Rightarrow> False | Some i \<Rightarrow> inCountry i ip)"

section \<open>Lemmas\<close>

text \<open>The store of the clients is a table like the others.\<close>

lemma NewHTTPClient_store:
  "NewHTTPClient p conf scheme clients = prod.swap (go_map.load_or_create clients p (new_http_client conf scheme))"
  by (simp add: NewHTTPClient_def go_map.load_or_create_def split: option.split)

lemma http_client_kept:
  assumes "NewHTTPClient p conf scheme clients = (c, clients')"
  shows "NewHTTPClient p conf' scheme' clients' = (c, clients')"
  using assms go_map.load_or_create_twice [of clients p "new_http_client conf scheme" clients' c "new_http_client conf' scheme'"]
  by (simp add: NewHTTPClient_store prod.swap_def prod_eq_iff)

text \<open>A database that cannot be loaded again leaves the one before in use; without one no address counts as Chinese.\<close>

lemma failed_reload_keeps_database:
  "load (ldCNIPSet c) = None \<Longrightarrow> fst (snd (dns_Init load newServer c (cnip, s))) = cnip"
  by (simp add: dns_Init_def)

lemma no_database_no_chinese: "\<not> dns_IsCNIP inCountry None ip"
  by (simp add: dns_IsCNIP_def)

text \<open>the client of a channel is shared by its servers, whatever their schemes: as the address has a port, and neither \<open>http\<close> nor
  \<open>https\<close> makes the dial function speak TLS, it dials for each server as a client of its own would.\<close>

lemma shared_http_client:
  assumes "NewHTTPClient p conf s1 clients = (c1, clients1)" "clients p = None"
    and "NewHTTPClient p conf s2 clients1 = (c2, clients2)"
    and "s1 \<in> {''http'', ''https''}" "s2 \<in> {''http'', ''https''}" "SplitHostPort addr = Some (h, pt)"
    and "\<forall>s \<in> {s1, s2}. \<exists>u. parse (s @ ''://'' @ addr) = Some u \<and> Scheme u = s \<and> uHost u = addr"
  shows "c2 = c1 \<and> client_dial parse inHosts getAddr dns dial handshake c2 addr =
    client_dial parse inHosts getAddr dns dial handshake (new_http_client conf s2) addr"
proof -
  have c1: "c1 = new_http_client conf s1" using assms(1,2) by (simp add: NewHTTPClient_def)
  have same: "c2 = c1" using http_client_kept [OF assms(1), of conf s2] assms(3) by simp
  obtain u1 u2 where u: "parse (s1 @ ''://'' @ addr) = Some u1" "Scheme u1 = s1" "uHost u1 = addr"
    "parse (s2 @ ''://'' @ addr) = Some u2" "Scheme u2 = s2" "uHost u2 = addr" using assms(7) by auto
  have "server_hostport u1 = server_hostport u2" using u assms(6) by (simp add: server_hostport_def)
  then have "plan_dial inHosts getAddr dns conf u1 = plan_dial inHosts getAddr dns conf u2"
    using u assms(6) by (simp add: plan_dial_def server_hostport_def)
  then show ?thesis
    using same u assms(4,5)
    by (simp add: c1 client_dial_def NewDialByConf_def new_http_client_def DialServerByConf_def) (auto split: sum.splits)
qed

text \<open>the client made first is the one that is kept.\<close>

lemma first_client_kept:
  "fst (NewHTTPClient 0 zero_channel ''https'' (snd (NewHTTPClient 0 zero_channel ''http'' Map.empty))) = new_http_client zero_channel ''http''"
  by (simp add: NewHTTPClient_def)

text \<open>when the connections are protected, every dial of package \<open>netx\<close> goes through the protected function, and with
  \<open>Reset\<close> through the given one again.\<close>

lemma protected_after_start:
  "netx_Dial network addr (snd (ProtectConnections d r l u dns (c, n))) = d (Some 60000) network addr"
  "netx_Resolve network addr (snd (ProtectConnections d r l u dns (c, n))) = r network addr"
  "netx_Dial network addr (netx_Reset d0 r0 l0 u0 (snd (ProtectConnections d r l u dns (c, n)))) = d0 (Some 60000) network addr"
  by (simp_all add: netx_Dial_def netx_DialTimeout_def netx_DialContext_def netx_Resolve_def ProtectConnections_def netx_Reset_def
      OverrideDial_def OverrideResolve_def OverrideListenUDP_def OverrideDialUDP_def)

end
