(* ===== verification/MuxStreams.thy ===== *)
theory MuxStreams
  imports MuxMessage MuxSessions ChannelConfig
begin

text \<open>
  Streams over their sessions: the wrappers of the \<open>pmux\<close> multiplexer (\<open>ProxyMuxSession\<close> of \<open>common/mux/mux.go\<close>), how a stream
  tells its session of its end and remembers its last use (\<open>ProxyMuxStream\<close>), with the counting of QUIC streams, and the
  buffers of the copy loops (the \<open>init\<close> functions of \<open>local/local_server.go\<close> and \<open>common/channel/remote.go\<close>).
\<close>

section \<open>Streams\<close>

text \<open>A stream: the stream of the transport, whether it knows its session, whether the transport reports its input and output to
  it, and the time of the last use (0 before the first).\<close>

record mux_stream =
  msTransport :: nat
  msSession :: bool
  msCallback :: bool
  msLatest :: nat

text \<open>The streams of \<open>pmux\<close> do not know their session, and are told of the input and output of the transport; those of the other
  sessions know it when they were opened here, or by an HTTP/2 client.\<close>

definition pmux_stream :: "nat \<Rightarrow> mux_stream" where
  "pmux_stream t = \<lparr>msTransport = t, msSession = False, msCallback = True, msLatest = 0\<rparr>"

definition proxy_OpenStream :: "'e + nat \<Rightarrow> 'e + mux_stream" where
  "proxy_OpenStream r = (case r of Inl e \<Rightarrow> Inl e | Inr t \<Rightarrow> Inr (pmux_stream t))"

definition proxy_AcceptStream :: "'e + nat \<Rightarrow> 'e + mux_stream" where
  "proxy_AcceptStream r = (case r of Inl e \<Rightarrow> Inl e | Inr t \<Rightarrow> Inr (pmux_stream t))"

definition proxy_CloseStream :: "'s \<Rightarrow> 's" where
  "proxy_CloseStream q = q"

text \<open>The addresses of a session are those of its connection, if it was made with one.\<close>

definition proxy_RemoteAddr :: "('c \<Rightarrow> string) \<Rightarrow> 'c option \<Rightarrow> string option" where
  "proxy_RemoteAddr addr conn = map_option addr conn"

definition proxy_LocalAddr :: "('c \<Rightarrow> string) \<Rightarrow> 'c option \<Rightarrow> string option" where
  "proxy_LocalAddr addr conn = map_option addr conn"

definition OnIO :: "nat \<Rightarrow> mux_stream \<Rightarrow> mux_stream" where
  "OnIO tm s = s\<lparr>msLatest := tm\<rparr>"

definition LatestIOTime :: "mux_stream \<Rightarrow> nat" where
  "LatestIOTime s = msLatest s"

text \<open>\<open>Close\<close> tells the session and closes the stream of the transport, whose outcome it returns.\<close>

definition mux_stream_Close :: "('s \<Rightarrow> 's) \<Rightarrow> bool \<Rightarrow> mux_stream \<Rightarrow> 's \<Rightarrow> bool \<times> 's" where
  "mux_stream_Close closeStream ok s q = (ok, if msSession s then closeStream q else q)"

text \<open>A copy into or out of a stream at the time \<open>tm\<close>: a transport that copies by itself (\<open>own\<close>) is not seen by \<open>Read\<close> and \<open>Write\<close>, but
  reports to \<open>OnIO\<close> if it has been asked to.\<close>

definition copied_at :: "bool \<Rightarrow> nat \<Rightarrow> mux_stream \<Rightarrow> mux_stream" where
  "copied_at own tm s = (if \<not> own \<or> msCallback s then OnIO tm s else s)"

section \<open>QUIC streams\<close>

definition quic_opened :: "nat \<Rightarrow> mux_stream" where
  "quic_opened t = \<lparr>msTransport = t, msSession = True, msCallback = False, msLatest = 0\<rparr>"

definition quic_accepted :: "nat \<Rightarrow> mux_stream" where
  "quic_accepted t = \<lparr>msTransport = t, msSession = False, msCallback = False, msLatest = 0\<rparr>"

text \<open>A session with the streams that have not been closed.\<close>

datatype quic_event = QOpen bool nat | QAccept bool nat | QCloseStream nat | QClose

definition quic_ev :: "quic_sess \<times> mux_stream list \<Rightarrow> quic_event \<Rightarrow> quic_sess \<times> mux_stream list" where
  "quic_ev qs ev =
     (case qs of (q, ss) \<Rightarrow>
       (case ev of
          QOpen ok t \<Rightarrow> (case quic_OpenStream ok q of (Inl _, q) \<Rightarrow> (q, ss) | (Inr _, q) \<Rightarrow> (q, ss @ [quic_opened t]))
        | QAccept ok t \<Rightarrow> (case quic_AcceptStream ok q of (Inl _, q) \<Rightarrow> (q, ss) | (Inr _, q) \<Rightarrow> (q, ss @ [quic_accepted t]))
        | QCloseStream i \<Rightarrow>
            (if i < length ss then (snd (mux_stream_Close quic_CloseStream True (ss ! i) q), take i ss @ drop (Suc i) ss) else (q, ss))
        | QClose \<Rightarrow> (quic_Close q, ss)))"

definition quic_start :: "quic_sess \<times> mux_stream list" where
  "quic_start = (\<lparr>qCounter = 0, qclosed = False\<rparr>, [])"

definition counted :: "mux_stream list \<Rightarrow> int" where
  "counted ss = int (length (filter msSession ss))"

section \<open>Buffers\<close>

text \<open>The length of a buffer of a pool: the default for 0; None is the panic of \<open>make\<close> with a negative length.\<close>

definition pool_buffer :: "nat \<Rightarrow> int \<Rightarrow> nat option" where
  "pool_buffer dflt n = (if n = 0 then Some dflt else if n < 0 then None else Some (nat n))"

definition local_up_buffer :: "MuxConfig \<Rightarrow> nat option" where
  "local_up_buffer m = pool_buffer (16 * 1024) (UpBufferSize m)"

definition local_down_buffer :: "MuxConfig \<Rightarrow> nat option" where
  "local_down_buffer m = pool_buffer (64 * 1024) (DownBufferSize m)"

definition remote_up_buffer :: "MuxConfig \<Rightarrow> nat option" where
  "remote_up_buffer m = pool_buffer (16 * 1024) (UpBufferSize m)"

definition remote_down_buffer :: "MuxConfig \<Rightarrow> nat option" where
  "remote_down_buffer m = pool_buffer (128 * 1024) (DownBufferSize m)"

section \<open>Properties\<close>

lemma counted_append [simp]: "counted (ss @ ts) = counted ss + counted ts"
  by (simp add: counted_def)

lemma counted_remove: "i < length ss \<Longrightarrow> counted (take i ss @ drop (Suc i) ss) = counted ss - (if msSession (ss ! i) then 1 else 0)"
  using arg_cong [OF id_take_nth_drop [of i ss], of counted] by (simp add: counted_def)

lemma quic_ev_counts:
  assumes "ev \<noteq> QClose"
  shows "qCounter (fst (quic_ev (q, ss) ev)) - counted (snd (quic_ev (q, ss) ev)) = qCounter q - counted ss"
proof (cases ev)
  case (QCloseStream i)
  then show ?thesis using counted_remove [of i ss]
    by (cases "i < length ss") (auto simp: quic_ev_def mux_stream_Close_def quic_CloseStream_def)
qed (use assms in \<open>auto simp: quic_ev_def quic_OpenStream_def quic_AcceptStream_def quic_opened_def quic_accepted_def counted_def\<close>)

lemma quic_run_counts:
  "QClose \<notin> set evs \<Longrightarrow> qCounter (fst (foldl quic_ev qs evs)) - counted (snd (foldl quic_ev qs evs)) = qCounter (fst qs) - counted (snd qs)"
proof (induction evs arbitrary: qs)
  case (Cons ev evs)
  then have "ev \<noteq> QClose" "QClose \<notin> set evs" by auto
  with Cons.IH [of "quic_ev qs ev"] quic_ev_counts [of ev "fst qs" "snd qs"] show ?case by simp
qed simp

text \<open>until its session is closed, the count of a QUIC session is the number of the streams opened here that have not been closed,
  whatever the peer opens.\<close>

theorem quic_count_exact:
  assumes "QClose \<notin> set evs"
  shows "quic_NumStreams (fst (foldl quic_ev quic_start evs)) = int (length (filter msSession (snd (foldl quic_ev quic_start evs))))"
  using quic_run_counts [OF assms, of quic_start] by (simp add: quic_NumStreams_def quic_start_def counted_def)

lemma quic_count_exact_witness:
  "quic_NumStreams (fst (foldl quic_ev quic_start [QOpen True 1, QAccept True 2, QOpen True 3, QCloseStream 0])) = 1"
  using quic_count_exact [of "[QOpen True 1, QAccept True 2, QOpen True 3, QCloseStream 0]"]
  by (simp add: quic_ev_def quic_start_def quic_OpenStream_def quic_AcceptStream_def quic_opened_def quic_accepted_def mux_stream_Close_def)

text \<open>\<open>Close\<close> of a session sets the count to 0 and leaves the streams as they are: each of them that is closed afterwards takes the
  count below 0.\<close>

lemma quic_count_after_close:
  assumes "QClose \<notin> set evs"
  shows "quic_NumStreams (fst (foldl quic_ev (quic_ev (q, ss) QClose) evs)) = counted (snd (foldl quic_ev (quic_ev (q, ss) QClose) evs)) - counted ss"
  using quic_run_counts [OF assms, of "quic_ev (q, ss) QClose"] by (simp add: quic_NumStreams_def quic_ev_def quic_Close_def)

text \<open>closing a stream of \<open>pmux\<close>, or one that a peer has opened over QUIC, leaves its session as it is.\<close>

lemma close_keeps_session:
  "mux_stream_Close f ok (pmux_stream t) q = (ok, q)" "mux_stream_Close f ok (quic_accepted t) q = (ok, q)"
  by (simp_all add: mux_stream_Close_def pmux_stream_def quic_accepted_def)

text \<open>a stream of \<open>pmux\<close> that a copy uses is never older than its last use, also when the transport copies by itself.\<close>

lemma pmux_copy_seen: "LatestIOTime (foldl (\<lambda>s (own, tm). copied_at own tm s) (pmux_stream t) (xs @ [(own, tm)])) = tm"
proof -
  have "msCallback s \<Longrightarrow> msCallback (foldl (\<lambda>s (own, tm). copied_at own tm s) s xs)" for s
    by (induction xs arbitrary: s) (auto simp: copied_at_def OnIO_def)
  then have "msCallback (foldl (\<lambda>s (own, tm). copied_at own tm s) (pmux_stream t) xs)" by (simp add: pmux_stream_def)
  then show ?thesis by (simp add: copied_at_def OnIO_def LatestIOTime_def)
qed

text \<open>a negative size in a configuration ends the process when the first buffer is made.\<close>

lemma negative_buffer_panics: "UpBufferSize m < 0 \<Longrightarrow> local_up_buffer m = None \<and> remote_up_buffer m = None"
  by (simp add: local_up_buffer_def remote_up_buffer_def pool_buffer_def)

lemma buffer_never_empty: "pool_buffer d n = Some k \<Longrightarrow> 0 < d \<Longrightarrow> 0 < k"
  by (auto simp: pool_buffer_def split: if_splits)

end
