(* ===== verification/ByteQuantity.thy ===== *)
theory ByteQuantity
  imports HelperText
begin

text \<open>
  Printing byte quantities (\<open>ByteSize\<close> of \<open>common/helper/bytes.go\<close>), against their reading by \<open>ToBytes\<close>
  of \<open>HelperText\<close>. The value is a single float: \<open>rnd32\<close> is the rounding to one; \<open>Sprintf\<close> with
  one digit after the point rounds the exact value, halves to the even digit.
\<close>

section \<open>Printing\<close>

definition half_even :: "rat \<Rightarrow> nat" where
  "half_even x =
     (let f = nat \<lfloor>x\<rfloor>; r = x - of_nat f in
      if r < 1 / 2 then f else if r > 1 / 2 then f + 1 else if even f then f else f + 1)"

definition one_decimal :: "rat \<Rightarrow> string" where
  "one_decimal v = (let t = half_even (10 * v) in itoa (t div 10) @ [CHR ''.'', digit_char (t mod 10)])"

definition size_unit :: "nat \<Rightarrow> char" where
  "size_unit n =
     (if n \<ge> 1024 ^ 4 then CHR ''T'' else if n \<ge> 1024 ^ 3 then CHR ''G'' else if n \<ge> 1024 ^ 2 then CHR ''M''
      else if n \<ge> 1024 then CHR ''K'' else CHR ''B'')"

definition ByteSize :: "(rat \<Rightarrow> rat) \<Rightarrow> nat \<Rightarrow> string" where
  "ByteSize rnd32 n =
     (if n = 0 then ''0''
      else let v = rnd32 (of_nat n); u = size_unit n;
               value = (if u = CHR ''B'' then v else rnd32 (v / of_nat (unit_size u)))
           in TrimSuffix (one_decimal value) ''.0'' @ [u])"

section \<open>Rounding\<close>

text \<open>What is used of the rounding to a float: a relative error, on the values that occur.\<close>

definition near :: "rat \<Rightarrow> (rat \<Rightarrow> rat) \<Rightarrow> bool" where
  "near e rnd \<longleftrightarrow> (\<forall>x. 1 / 20 \<le> x \<and> x \<le> 2 ^ 66 \<longrightarrow> \<bar>rnd x - x\<bar> \<le> e * x)"

lemma half_even_near: "0 \<le> x \<Longrightarrow> \<bar>of_nat (half_even x) - x\<bar> \<le> 1 / 2"
proof -
  assume "0 \<le> x"
  then have "of_nat (nat \<lfloor>x\<rfloor>) = (of_int \<lfloor>x\<rfloor> :: rat)" by simp
  moreover have "of_int \<lfloor>x\<rfloor> \<le> x" "x < of_int \<lfloor>x\<rfloor> + 1" by linarith+
  ultimately have "of_nat (nat \<lfloor>x\<rfloor>) \<le> x" "x < of_nat (nat \<lfloor>x\<rfloor>) + 1" by simp_all
  then show ?thesis by (auto simp: half_even_def Let_def abs_le_iff)
qed

lemma half_even_nat [simp]: "half_even (of_nat n) = n"
  by (simp add: half_even_def)

lemma size_unit_unit: "size_unit n \<in> set ''KMGTB''"
  by (simp add: size_unit_def)

lemma size_unit_le: "0 < n \<Longrightarrow> unit_size (size_unit n) \<le> n \<and> 1 \<le> unit_size (size_unit n)"
  by (simp add: size_unit_def unit_size_def)

text \<open>What is printed is read as the printed tenths.\<close>

lemma one_decimal_trim:
  "TrimSuffix (one_decimal v) ''.0'' =
   (let t = half_even (10 * v); fp = (if t mod 10 = 0 then [] else [digit_char (t mod 10)]) in itoa (t div 10) @ (if fp = [] then [] else CHR ''.'' # fp))"
proof -
  define t where "t = half_even (10 * v)"
  have z: "digit_char (t mod 10) = CHR ''0'' \<longleftrightarrow> t mod 10 = 0" by (rule digit_char_0) simp
  have "HasSuffix (itoa (t div 10) @ [CHR ''.'', digit_char (t mod 10)]) ''.0'' \<longleftrightarrow> t mod 10 = 0"
    using z by (auto simp: HasSuffix_def suffix_def)
  then show ?thesis unfolding one_decimal_def t_def [symmetric] by (simp add: TrimSuffix_def Let_def)
qed

lemma read_printed:
  assumes "u \<in> set ''KMGTB''" "t = half_even (10 * v)"
  shows "ToBytes rnd (TrimSuffix (one_decimal v) ''.0'' @ [u]) =
    (let w = rnd (of_nat t / 10) in if w \<le> 0 \<or> double_range \<le> w then None else Some (nat \<lfloor>rnd (w * of_nat (unit_size u))\<rfloor>))"
proof -
  define fp where "fp = (if t mod 10 = 0 then [] else [digit_char (t mod 10)])"
  have fp: "list_all is_digit fp" by (simp add: fp_def)
  have sq: "split_quantity (TrimSpace (TrimSuffix (one_decimal v) ''.0'' @ [u])) = Some (False, itoa (t div 10), fp, u)"
    using split_quantity_print [OF assms(1) fp, of "t div 10"]
    by (cases "fp = []") (simp_all add: one_decimal_trim assms(2) [symmetric] Let_def fp_def [symmetric])
  have "of_nat (digits_val (itoa (t div 10) @ fp)) / 10 ^ length fp = (of_nat t / 10 :: rat)"
  proof (cases "t mod 10 = 0")
    case True
    then obtain q where "t = 10 * q" by (auto simp: mod_eq_0_iff_dvd)
    then show ?thesis by (simp add: fp_def)
  next
    case False
    then show ?thesis by (simp add: fp_def digits_val_snoc)
  qed
  from this [symmetric] show ?thesis by (simp only: ToBytes_def sq option.case prod.case if_False mult_1 Let_def)
qed

section \<open>Properties\<close>

lemma near_le: "near e rnd \<Longrightarrow> 1 / 20 \<le> x \<Longrightarrow> x \<le> 2 ^ 66 \<Longrightarrow> rnd x \<le> x + e * x \<and> x - e * x \<le> rnd x"
  by (auto simp: near_def abs_le_iff)

text \<open>The value that is printed: the number in units, up to two roundings.\<close>

lemma printed_value:
  assumes "near (1 / 2 ^ 24) rnd32" "0 < n" "n < 2 ^ 64" "u = size_unit n"
    and "value = (if u = CHR ''B'' then rnd32 (of_nat n) else rnd32 (rnd32 (of_nat n) / of_nat (unit_size u)))"
  shows "\<bar>value * of_nat (unit_size u) - of_nat n\<bar> \<le> of_nat n / 2 ^ 22 - of_nat n / 2 ^ 24"
proof -
  let ?n = "of_nat n :: rat" and ?U = "of_nat (unit_size u) :: rat" and ?a = "rnd32 (of_nat n)"
  have n1: "1 \<le> ?n" using assms(2) by simp
  have n2: "?n \<le> 2 ^ 64" using assms(3) by (metis less_imp_le of_nat_le_iff of_nat_numeral of_nat_power)
  have U: "1 \<le> ?U" "?U \<le> ?n" using size_unit_le [OF assms(2)] assms(4) by simp_all
  have a: "?a \<le> ?n + ?n / 2 ^ 24" "?n - ?n / 2 ^ 24 \<le> ?a" using near_le [OF assms(1), of ?n] n1 n2 by simp_all
  show ?thesis
  proof (cases "u = CHR ''B''")
    case True
    then have "value * ?U = ?a" using assms(5) by (simp add: unit_size_def)
    then show ?thesis unfolding abs_le_iff using a n1 by simp
  next
    case False
    have "1 / 20 \<le> ?a / ?U" "?a / ?U \<le> 2 ^ 66"
    proof -
      have "?U / 20 \<le> ?a" using a(2) U n1 by simp
      then show "1 / 20 \<le> ?a / ?U" using U by (simp add: field_simps)
      have "?a \<le> 2 ^ 66 * ?U" using a(1) n2 U by simp
      then show "?a / ?U \<le> 2 ^ 66" using U by (simp add: field_simps)
    qed
    from near_le [OF assms(1) this] have "value \<le> ?a / ?U + ?a / ?U / 2 ^ 24" "?a / ?U - ?a / ?U / 2 ^ 24 \<le> value"
      using False assms(5) by simp_all
    then have "value * ?U \<le> ?a + ?a / 2 ^ 24" "?a - ?a / 2 ^ 24 \<le> value * ?U"
      using U by (simp_all add: field_simps)
    then show ?thesis unfolding abs_le_iff using a n1 by simp
  qed
qed

text \<open>The errors of printing and reading, for a number \<open>n\<close> in units \<open>U\<close>: the printed value \<open>a\<close>, its tenths \<open>b\<close>, the value read \<open>c\<close> and the
  product \<open>q\<close>.\<close>

lemma errors_add:
  fixes n U a b c q :: rat
  assumes "1 \<le> U" "U \<le> n" "n \<le> 2 ^ 64"
    and "a \<le> n + (n / 2 ^ 22 - n / 2 ^ 24)" "n - (n / 2 ^ 22 - n / 2 ^ 24) \<le> a"
    and "b \<le> a + U / 20" "a - U / 20 \<le> b" "c \<le> b + b / 2 ^ 53" "b - b / 2 ^ 53 \<le> c"
  shows "1 / 20 \<le> c" "c \<le> 2 ^ 66"
    and "q \<le> c + c / 2 ^ 53 \<Longrightarrow> c - c / 2 ^ 53 \<le> q \<Longrightarrow> f \<le> q \<Longrightarrow> q - 1 \<le> f \<Longrightarrow>
      0 \<le> q \<and> f - n \<le> U / 20 + (n / 2 ^ 22 + 1) \<and> n - f \<le> U / 20 + (n / 2 ^ 22 + 1)"
  using assms by simp_all

text \<open>a printed quantity is read back with an error of at most a twentieth of its unit, besides the rounding of single floats.\<close>

theorem printed_quantity_close:
  assumes "near (1 / 2 ^ 24) rnd32" "near (1 / 2 ^ 53) rnd" "0 < n" "n < 2 ^ 64"
  shows "\<exists>m. ToBytes rnd (ByteSize rnd32 n) = Some m \<and>
    \<bar>of_nat m - of_nat n\<bar> \<le> of_nat (unit_size (size_unit n)) / 20 + (of_nat n / 2 ^ 22 + 1 :: rat)"
proof -
  define u where "u = size_unit n"
  define v where "v = (if u = CHR ''B'' then rnd32 (of_nat n) else rnd32 (rnd32 (of_nat n) / of_nat (unit_size u)))"
  define t where "t = half_even (10 * v)"
  let ?n = "of_nat n :: rat" and ?U = "of_nat (unit_size u) :: rat" and ?t = "of_nat t / 10 :: rat"
  have n1: "1 \<le> ?n" using assms(3) by simp
  have n2: "?n \<le> 2 ^ 64" using assms(4) by (metis less_imp_le of_nat_le_iff of_nat_numeral of_nat_power)
  have U: "1 \<le> ?U" "?U \<le> ?n" using size_unit_le [OF assms(3)] u_def by simp_all
  have v: "v * ?U \<le> ?n + (?n / 2 ^ 22 - ?n / 2 ^ 24)" "?n - (?n / 2 ^ 22 - ?n / 2 ^ 24) \<le> v * ?U"
    using printed_value [OF assms(1,3,4) u_def v_def] by linarith+
  have v0: "1 / 10 \<le> v"
  proof (rule ccontr)
    assume "\<not> 1 / 10 \<le> v"
    then have "v * ?U \<le> 1 / 10 * ?U" using U(1) by (intro mult_right_mono) simp_all
    with v(2) have "?n - (?n / 2 ^ 22 - ?n / 2 ^ 24) \<le> 1 / 10 * ?U" by (rule order_trans)
    then show False using U n1 by simp
  qed
  have "\<bar>of_nat t - 10 * v\<bar> \<le> 1 / 2" unfolding t_def by (rule half_even_near) (use v0 in simp)
  then have t: "?t \<le> v + 1 / 20" "v - 1 / 20 \<le> ?t" by linarith+
  have tU: "?t * ?U \<le> v * ?U + ?U / 20" "v * ?U - ?U / 20 \<le> ?t * ?U"
    using mult_right_mono [OF t(1), of ?U] mult_right_mono [OF t(2), of ?U] U(1) by (simp_all add: algebra_simps)
  have v1: "v \<le> 2 ^ 65"
  proof -
    have "v * 1 \<le> v * ?U" using v0 U(1) by (intro mult_left_mono) simp_all
    then show ?thesis using v(1) n2 by simp
  qed
  define w where "w = rnd ?t"
  have w: "w \<le> ?t + ?t / 2 ^ 53" "?t - ?t / 2 ^ 53 \<le> w"
    using near_le [OF assms(2), of ?t] t v0 v1 unfolding w_def by simp_all
  have w0: "0 < w" using w(2) t(2) v0 by simp
  have w1: "\<not> double_range \<le> w" by (rule in_double_range) (use w(1) t(1) v1 in simp)
  have wU: "w * ?U \<le> ?t * ?U + ?t * ?U / 2 ^ 53" "?t * ?U - ?t * ?U / 2 ^ 53 \<le> w * ?U"
    using mult_right_mono [OF w(1), of ?U] mult_right_mono [OF w(2), of ?U] U(1) by (simp_all add: algebra_simps)
  define q where "q = rnd (w * ?U)"
  note ea = errors_add [OF U n2 v tU wU]
  have q: "q \<le> w * ?U + w * ?U / 2 ^ 53" "w * ?U - w * ?U / 2 ^ 53 \<le> q"
    using near_le [OF assms(2) ea(1,2)] unfolding q_def by simp_all
  have "0 \<le> q" using ea(3) [OF q, of "q"] by simp
  then have m: "of_nat (nat \<lfloor>q\<rfloor>) = (of_int \<lfloor>q\<rfloor> :: rat)" by simp
  have fl: "of_int \<lfloor>q\<rfloor> \<le> q" "q - 1 \<le> of_int \<lfloor>q\<rfloor>" by linarith+
  have e: "of_nat (nat \<lfloor>q\<rfloor>) - ?n \<le> ?U / 20 + (?n / 2 ^ 22 + 1)" "?n - of_nat (nat \<lfloor>q\<rfloor>) \<le> ?U / 20 + (?n / 2 ^ 22 + 1)"
    unfolding m using ea(3) [OF q fl] by simp_all
  have "ByteSize rnd32 n = TrimSuffix (one_decimal v) ''.0'' @ [u]"
    using assms(3) by (simp add: ByteSize_def u_def v_def Let_def)
  then have "ToBytes rnd (ByteSize rnd32 n) = Some (nat \<lfloor>q\<rfloor>)"
    using read_printed [OF _ t_def, of u rnd] size_unit_unit [of n] w0 w1 by (simp add: u_def [symmetric] w_def [symmetric] q_def Let_def)
  then show ?thesis using e unfolding u_def [symmetric] abs_le_iff by auto
qed

lemma near_id: "0 \<le> e \<Longrightarrow> near e (\<lambda>x. x)"
  by (simp add: near_def)

lemma printed_quantity_close_witness:
  "\<exists>m. ToBytes (\<lambda>x. x) (ByteSize (\<lambda>x. x) 1500) = Some m \<and> \<bar>of_nat m - 1500\<bar> \<le> (1024 / 20 + 1500 / 2 ^ 22 + 1 :: rat)"
  using printed_quantity_close [OF near_id near_id, of 1500] by (simp add: size_unit_def unit_size_def)

text \<open>a whole number of units below the next unit is read back exactly.\<close>

theorem whole_units_roundtrip:
  assumes "\<And>m. m < 2 ^ 53 \<Longrightarrow> rnd (of_nat m) = of_nat m"
    and "\<And>m e. m < 2 ^ 24 \<Longrightarrow> e \<le> 40 \<Longrightarrow> rnd32 (of_nat (m * 2 ^ e)) = of_nat (m * 2 ^ e)"
    and "u \<in> set ''KMGTB''" "0 < k" "k < 1024"
  shows "ToBytes rnd (ByteSize rnd32 (k * unit_size u)) = Some (k * unit_size u)"
proof -
  have u: "u = CHR ''K'' \<or> u = CHR ''M'' \<or> u = CHR ''G'' \<or> u = CHR ''T'' \<or> u = CHR ''B''" using assms(3) by auto
  have k: "k < 2 ^ 24" using assms(5) by simp
  obtain e :: nat where e: "unit_size u = 2 ^ e" "e \<le> 40"
  proof -
    have "unit_size u \<in> {2 ^ 0, 2 ^ 10, 2 ^ 20, 2 ^ 30, 2 ^ 40}" by (simp add: unit_size_def)
    then show ?thesis using that by fastforce
  qed
  have su: "size_unit (k * unit_size u) = u" using u assms(4,5) by (elim disjE) (simp_all add: size_unit_def unit_size_def)
  have v: "rnd32 (of_nat (k * unit_size u)) = of_nat (k * unit_size u)" "rnd32 (of_nat k) = of_nat k"
    using assms(2) [OF k e(2)] assms(2) [OF k, of 0] e(1) by simp_all
  have t: "half_even (10 * of_nat k) = 10 * k" using half_even_nat [of "10 * k"] by simp
  have "TrimSuffix (one_decimal (of_nat k)) ''.0'' = itoa k" by (simp add: one_decimal_trim t)
  moreover have "(if u = CHR ''B'' then rnd32 (of_nat (k * unit_size u)) else rnd32 (rnd32 (of_nat (k * unit_size u)) / of_nat (unit_size u))) = of_nat k"
    using v e(1) by (auto simp: unit_size_def)
  ultimately have "ByteSize rnd32 (k * unit_size u) = itoa k @ [u]"
    using assms(4) e(1) unfolding ByteSize_def Let_def su by simp
  moreover have "k * unit_size u < 2 ^ 53" using u assms(5) by (elim disjE) (simp_all add: unit_size_def)
  ultimately show ?thesis using ToBytes_unit [OF assms(1) assms(4) assms(3)] by simp
qed

lemma whole_units_roundtrip_witness: "ToBytes (\<lambda>x. x) (ByteSize (\<lambda>x. x) (12 * unit_size CHR ''M'')) = Some 12582912"
  using whole_units_roundtrip [of "\<lambda>x. x" "\<lambda>x. x" "CHR ''M''" 12] by (simp add: unit_size_def)

text \<open>zero is printed without a unit, which is not read back; a number just below a unit is printed as 1024 of the smaller one.\<close>

lemma zero_not_read: "ToBytes rnd (ByteSize rnd32 0) = None"
proof -
  have "split_quantity (TrimSpace ''0'') = None" by code_simp
  then show ?thesis by (simp add: ByteSize_def ToBytes_def)
qed

lemma below_a_megabyte: "ByteSize (\<lambda>x. x) (1024 ^ 2 - 1) = ''1024K''"
proof -
  have "\<lfloor>10485750 / 1024 :: rat\<rfloor> = 10239" by (simp add: floor_eq_iff)
  then have t: "half_even (10 * (1048575 / 1024)) = 10240" by (simp add: half_even_def Let_def)
  have "itoa 1024 = ''1024''" by code_simp
  with t show ?thesis by (simp add: ByteSize_def size_unit_def unit_size_def one_decimal_trim)
qed

end
