(* ===== verification/Platforms.thy ===== *)
theory Platforms
  imports Logging Protector Transparent Certificates LocalServer
begin

text \<open>
  The files that are built on some systems only: the colours of the console
  (\<open>common/logger/color_console_windows.go\<close>, \<open>color_console_posix.go\<close>), the sockets of Windows
  (\<open>common/protector/protected_windows.go\<close>), the transparent proxy where there is none
  (\<open>local/transparent_other.go\<close>) against the one of Linux, the certificates of MIPS
  (\<open>common/helper/ca_others.go\<close>). The outcomes of the system calls are arguments.
\<close>

section \<open>The console of Windows\<close>

unbundle bit_operations_syntax

definition foregroundGreen :: u16 where "foregroundGreen = 2"
definition foregroundRed :: u16 where "foregroundRed = 4"
definition foregroundYellow :: u16 where "foregroundYellow = 6"
definition foregroundIntensity :: u16 where "foregroundIntensity = 8"
definition console_reset :: u16 where "console_reset = 7"

definition dash :: char where "dash = CHR ''-''"

text \<open>The two kinds of names begin with a backslash.\<close>

definition pty_kinds :: "string set" where
  "pty_kinds = {CHR 0x5C # ''msys'', CHR 0x5C # ''cygwin''}"

definition isCygwinPipeName :: "string \<Rightarrow> bool" where
  "isCygwinPipeName name =
     (let token = Split name dash in
      if length token < 5 then False
      else if token ! 0 \<notin> pty_kinds then False
      else if token ! 1 = [] then False
      else if \<not> HasPrefix (token ! 2) ''pty'' then False
      else if token ! 3 \<noteq> ''from'' \<and> token ! 3 \<noteq> ''to'' then False
      else if token ! 4 \<noteq> ''master'' then False
      else True)"

text \<open>The name in the answer of \<open>GetFileInformationByHandleEx\<close>: a length in bytes, then the name in
  UTF-16, of which \<open>decode\<close> is the decoder. None is the slice out of range of a length that is too
  large.\<close>

definition MAX_PATH :: nat where "MAX_PATH = 260"

definition pipe_name :: "(u16 list \<Rightarrow> string) \<Rightarrow> u16 list \<Rightarrow> string option" where
  "pipe_name decode buf =
     (let l = unat (buf ! 0) + 65536 * unat (buf ! 1) in
      if length buf < 2 + l div 2 then None else Some (decode (take (l div 2) (drop 2 buf))))"

text \<open>\<open>ft\<close> is the type and the error number of \<open>GetFileType\<close>, \<open>info\<close> the result and the error number
  of the other call, with the buffer it has filled.\<close>

definition IsCygwinTerminal :: "(u16 list \<Rightarrow> string) \<Rightarrow> bool \<Rightarrow> nat \<times> nat \<Rightarrow> nat \<times> nat \<times> u16 list \<Rightarrow> bool option" where
  "IsCygwinTerminal decode haveProc ft info =
     (if \<not> haveProc then Some False
      else if fst ft \<noteq> 3 \<or> snd ft \<noteq> 0 then Some False
      else case info of (r, e, buf) \<Rightarrow>
        if r = 0 \<or> e \<noteq> 0 then Some False
        else map_option isCygwinPipeName (pipe_name decode buf))"

text \<open>What a console gets: an escape sequence, or its attributes.\<close>

datatype console_act = ConEscape string | ConAttribute u16

definition win_attribute :: "level \<Rightarrow> u16" where
  "win_attribute lv =
     (case lv of Info \<Rightarrow> foregroundGreen OR foregroundIntensity
      | Notice \<Rightarrow> foregroundYellow
      | _ \<Rightarrow> foregroundRed OR foregroundIntensity)"

text \<open>The colour functions of the levels (\<open>Debug\<close> has none), on Windows and elsewhere.\<close>

definition win_setColor :: "bool \<Rightarrow> level \<Rightarrow> console_act" where
  "win_setColor cygwin lv = (if cygwin then ConEscape (fst (log_colour lv)) else ConAttribute (win_attribute lv))"

definition win_unsetColor :: "bool \<Rightarrow> level \<Rightarrow> console_act" where
  "win_unsetColor cygwin lv = (if cygwin then ConEscape (snd (log_colour lv)) else ConAttribute console_reset)"

definition posix_setColor :: "level \<Rightarrow> console_act" where
  "posix_setColor lv = ConEscape (fst (log_colour lv))"

definition posix_unsetColor :: "level \<Rightarrow> console_act" where
  "posix_unsetColor lv = ConEscape (snd (log_colour lv))"

text \<open>A coloured message: the colour, the message and its end.\<close>

definition console_message :: "(level \<Rightarrow> console_act) \<Rightarrow> (level \<Rightarrow> console_act) \<Rightarrow> level \<Rightarrow> string \<Rightarrow> console_act list" where
  "console_message setc unsetc lv msg =
     (if lv = Debug then [ConEscape msg] else [setc lv, ConEscape msg, unsetc lv])"

text \<open>The attributes of a console after some actions; an escape sequence does not touch them.\<close>

definition con_attribute :: "console_act list \<Rightarrow> u16 \<Rightarrow> u16" where
  "con_attribute acts a = foldl (\<lambda>a x. case x of ConAttribute b \<Rightarrow> b | ConEscape _ \<Rightarrow> a) a acts"

section \<open>The sockets of Windows\<close>

record win_options = NetOptions +
  DialTimeout :: int

definition win_SupportReusePort :: bool where "win_SupportReusePort = True"

text \<open>\<open>listen\<close> is \<open>net.ListenTCP\<close>; \<open>dial\<close> is a \<open>net.Dialer\<close> with its local address (None is the nil
  pointer, which the dialer takes as no local address) and its timeout.\<close>

definition win_ListenTCP :: "('a \<Rightarrow> 'l option) \<Rightarrow> 'a \<Rightarrow> win_options option \<Rightarrow> 'l option" where
  "win_ListenTCP listen laddr options = listen laddr"

definition win_DialContextOptions :: "(string \<Rightarrow> string \<Rightarrow> 'a option) \<Rightarrow> ('a option \<Rightarrow> int \<Rightarrow> string \<Rightarrow> string \<Rightarrow> 'c option) \<Rightarrow>
    bool \<Rightarrow> string \<Rightarrow> string \<Rightarrow> win_options option \<Rightarrow> 'c option" where
  "win_DialContextOptions resolve dial ctxDone network addr opt =
     (case opt of None \<Rightarrow> dial None 0 network addr
      | Some no \<Rightarrow> dial (resolve network (LocalAddr no)) (DialTimeout no) network addr)"

section \<open>The transparent proxy\<close>

definition supportTransparentProxy_unix :: bool where "supportTransparentProxy_unix = True"
definition supportTransparentProxy_other :: bool where "supportTransparentProxy_other = False"

definition getOrinalTCPRemoteAddr_other :: "od_end \<times> od_fds" where
  "getOrinalTCPRemoteAddr_other = (OdErr, \<lparr>odConnClosed = False, odFileClosed = False, odNewConn = False\<rparr>)"

definition startTransparentUDProxy_other :: "string \<Rightarrow> tl_end \<times> bool" where
  "startTransparentUDProxy_other addr = (TlFailed, False)"

text \<open>The mark of the sockets, and the functions of \<open>netx\<close>: \<open>d\<close>, \<open>l\<close> and \<open>u\<close> are the protected ones.\<close>

definition enableTransparentSocketMark :: "'d \<Rightarrow> 'l \<Rightarrow> 'u \<Rightarrow> int \<Rightarrow> int \<times> ('d, 'r, 'l, 'u) netx \<Rightarrow> int \<times> ('d, 'r, 'l, 'u) netx" where
  "enableTransparentSocketMark d l u v mn =
     (case mn of (m, n) \<Rightarrow> (v, OverrideDialUDP u (OverrideListenUDP l (OverrideDial d n))))"

definition enableTransparentSocketMark_other :: "int \<Rightarrow> int \<times> ('d, 'r, 'l, 'u) netx \<Rightarrow> int \<times> ('d, 'r, 'l, 'u) netx" where
  "enableTransparentSocketMark_other v mn = mn"

section \<open>Certificates on MIPS\<close>

definition CreateRootCA_mips :: "string \<Rightarrow> pki \<Rightarrow> bool \<times> pki" where
  "CreateRootCA_mips dir st = (False, st)"

definition TLSConfig_mips :: "string \<Rightarrow> pki \<Rightarrow> ca_res \<times> pki" where
  "TLSConfig_mips domain st = (CaErr, st)"

section \<open>Properties\<close>

text \<open>the names that are taken for a terminal are exactly those of the form the comment gives, with anything behind a
  further dash.\<close>

theorem pty_names_exact:
  "isCygwinPipeName name \<longleftrightarrow>
   (\<exists>kind id n dir rest. kind \<in> pty_kinds \<and> id \<noteq> [] \<and> dir \<in> {''from'', ''to''} \<and> (\<forall>w \<in> set (id # n # rest). dash \<notin> set w) \<and>
      name = Join ([kind, id, ''pty'' @ n, dir, ''master''] @ rest) [dash])"
proof
  assume a: "isCygwinPipeName name"
  then obtain t0 t1 t2 t3 t4 rest where s: "Split name dash = t0 # t1 # t2 # t3 # t4 # rest"
    by (auto simp: isCygwinPipeName_def Let_def numeral_eq_Suc Suc_le_length_iff linorder_not_less split: if_splits)
  from a obtain n where n: "t2 = ''pty'' @ n"
    by (auto simp: isCygwinPipeName_def s HasPrefix_def prefix_def split: if_splits)
  have w: "dash \<notin> set w" if "w \<in> set (t1 # t2 # rest)" for w
    using that s Split_words_no_sep [of w name dash] by auto
  have w': "\<forall>w \<in> set (t1 # n # rest). dash \<notin> set w" using w [of t1] w [of t2] w n by auto
  have "name = Join ([t0, t1, ''pty'' @ n, t3, t4] @ rest) [dash]"
    using Join_Split [of name dash] s n by simp
  moreover have "t0 \<in> pty_kinds" "t1 \<noteq> []" "t3 \<in> {''from'', ''to''}" "t4 = ''master''"
    using a by (auto simp: isCygwinPipeName_def s split: if_splits)
  ultimately show "\<exists>kind id n dir rest. kind \<in> pty_kinds \<and> id \<noteq> [] \<and> dir \<in> {''from'', ''to''} \<and> (\<forall>w \<in> set (id # n # rest). dash \<notin> set w) \<and>
      name = Join ([kind, id, ''pty'' @ n, dir, ''master''] @ rest) [dash]"
    using w' by blast
next
  assume "\<exists>kind id n dir rest. kind \<in> pty_kinds \<and> id \<noteq> [] \<and> dir \<in> {''from'', ''to''} \<and> (\<forall>w \<in> set (id # n # rest). dash \<notin> set w) \<and>
      name = Join ([kind, id, ''pty'' @ n, dir, ''master''] @ rest) [dash]"
  then obtain kind id n dir rest where a: "kind \<in> pty_kinds" "id \<noteq> []" "dir \<in> {''from'', ''to''}" "\<forall>w \<in> set (id # n # rest). dash \<notin> set w"
    and name: "name = Join ([kind, id, ''pty'' @ n, dir, ''master''] @ rest) [dash]" by blast
  let ?ws = "[kind, id, ''pty'' @ n, dir, ''master''] @ rest"
  have "\<forall>w \<in> set ?ws. dash \<notin> set w" using a by (auto simp: pty_kinds_def dash_def)
  then have "Split name dash = ?ws" using Split_Join [of ?ws dash] by (simp add: name)
  then show "isCygwinPipeName name" using a by (auto simp: isCygwinPipeName_def HasPrefix_def)
qed

lemma pipe_example: "isCygwinPipeName (CHR 0x5C # ''msys-1888ae32e00d56aa-pty0-to-master'')"
  by code_simp

text \<open>only a pipe whose name is such a name is a terminal; a length that fits the buffer never panics.\<close>

lemma terminal_is_named_pipe:
  "IsCygwinTerminal decode p ft info = Some True \<Longrightarrow>
   p \<and> fst ft = 3 \<and> (\<exists>name. pipe_name decode (snd (snd info)) = Some name \<and> isCygwinPipeName name)"
  by (auto simp: IsCygwinTerminal_def split: if_splits prod.splits)

lemma terminal_no_panic:
  "length buf = 2 + MAX_PATH \<Longrightarrow> unat (buf ! 0) \<le> 2 * MAX_PATH + 1 \<Longrightarrow> buf ! 1 = 0 \<Longrightarrow> IsCygwinTerminal decode p ft (r, e, buf) \<noteq> None"
  by (auto simp: IsCygwinTerminal_def pipe_name_def MAX_PATH_def Let_def)

text \<open>in a terminal of cygwin a message is the one of the other systems; on a console of Windows it leaves the attributes of a fresh
  console, whatever they were before.\<close>

lemma cygwin_message: "console_message (win_setColor True) (win_unsetColor True) = console_message posix_setColor posix_unsetColor"
  by (intro ext) (simp add: console_message_def win_setColor_def win_unsetColor_def posix_setColor_def posix_unsetColor_def)

lemma console_message_resets:
  "lv \<noteq> Debug \<Longrightarrow> con_attribute (console_message (win_setColor False) (win_unsetColor False) lv msg) a = console_reset"
  by (simp add: con_attribute_def console_message_def win_setColor_def win_unsetColor_def)

lemma console_attributes_distinct: "win_attribute Info = 10" "win_attribute Notice = 6" "win_attribute Error = 12"
  by (simp_all add: win_attribute_def foregroundGreen_def foregroundYellow_def foregroundRed_def foregroundIntensity_def)

text \<open>on Windows the ports are said to be shareable, and neither operation asks the system for it; a context that has ended and a
  local address that cannot be resolved stop no dialling, unlike on the other systems.\<close>

lemma win_reuse_not_requested:
  "win_SupportReusePort \<and> win_ListenTCP listen laddr (Some (opt\<lparr>ReusePort := b\<rparr>)) = win_ListenTCP listen laddr None \<and>
   win_DialContextOptions resolve dial ctxDone network addr (Some (opt\<lparr>ReusePort := b\<rparr>)) =
     win_DialContextOptions resolve dial ctxDone network addr (Some opt)"
  by (simp add: win_SupportReusePort_def win_ListenTCP_def win_DialContextOptions_def)

lemma win_bad_local_dials:
  assumes "resolve network (LocalAddr opt) = None"
  shows "win_DialContextOptions resolve dial ctxDone network addr (Some opt) = dial None (DialTimeout opt) network addr"
  by (simp add: win_DialContextOptions_def assms)

lemma linux_bad_local_fails:
  assumes "LocalAddr opt \<noteq> []" "ocLocal oc = None" "network \<notin> {''udp'', ''udp4'', ''udp6''}" "pSplitHostPort raddr = Some (host, port)" "ParseIP host = Some ip"
  shows "fst (DialContextOptions marked ctxDone network raddr (Some opt) oc w) = FdErr"
  using assms by (auto simp: DialContextOptions_def dialContext_def reuse_and_bind_def reuseTCPAddr_def Let_def split: prod.split)

text \<open>without the support of the system no connection counts as redirected, and the marks of the sockets stay as they are.\<close>

lemma other_never_transparent: "accept_target cfg supportTransparentProxy_other localIPs peer orig = Some ([], [])"
  by (simp add: accept_target_def supportTransparentProxy_other_def)

lemma mark_protects:
  "enableTransparentSocketMark d l u v (m, n) = (m', n') \<Longrightarrow> m' = v \<and> nxDial n' = d \<and> nxListenUDP n' = l \<and> nxDialUDP n' = u \<and> nxResolve n' = nxResolve n"
  by (auto simp: enableTransparentSocketMark_def OverrideDialUDP_def OverrideListenUDP_def OverrideDial_def)

end
