(* ===== verification/Heartbeats.thy ===== *)
theory Heartbeats
  imports LocalStart Transports
begin

text \<open>
  The heartbeats of the sessions (\<open>heartbeat\<close> of \<open>common/channel/mux.go\<close>) over the pings of the transports
  (\<open>common/mux/http2.go\<close>, \<open>common/mux/quic.go\<close>, \<open>common/channel/direct/local.go\<close>,
  \<open>common/channel/ssh/local.go\<close>): which transports notice a dead connection, and what the heartbeats of a
  holder do after its channel has been stopped. The multiplexer \<open>pmux\<close> is a parameter.
\<close>

section \<open>Pings\<close>

text \<open>The answer of a peer to a ping, or \<open>None\<close> when the connection is dead without a notice, so that none ever comes. The result
  of a ping is whether it succeeded, or \<open>None\<close> when it does not return.\<close>

definition direct_Ping :: "bool option \<Rightarrow> bool option" where
  "direct_Ping answer = Some True"

definition quic_Ping :: "bool option \<Rightarrow> bool option" where
  "quic_Ping answer = Some True"

text \<open>\<open>HTTP2MuxSession.Ping\<close> waits without a limit, and drops the error; a session of a server has no connection to ping.\<close>

definition http2_Ping :: "bool \<Rightarrow> bool option \<Rightarrow> bool option" where
  "http2_Ping conn answer = (if conn then (case answer of None \<Rightarrow> None | Some _ \<Rightarrow> Some True) else Some True)"

definition ssh_session_Ping :: "osess \<Rightarrow> bool option \<Rightarrow> bool option" where
  "ssh_session_Ping s answer = (if oClient s then map_option (\<lambda>ok. ssh_Ping ok s) answer else Some True)"

text \<open>The sessions of the types of \<open>Transports\<close>: all others are sessions of \<open>pmux\<close>.\<close>

definition session_Ping :: "(bool option \<Rightarrow> bool option) \<Rightarrow> string \<Rightarrow> bool option \<Rightarrow> bool option" where
  "session_Ping pmux t answer =
     (if t = ''DirectProxy'' then direct_Ping answer
      else if t = ''QUICProxy'' then quic_Ping answer
      else if t = ''HTTP2Proxy'' then http2_Ping True answer
      else if t = ''SSHProxy'' then ssh_session_Ping o_new answer
      else pmux answer)"

section \<open>The loop\<close>

text \<open>A round: the result, and whether the loop goes on. A ping that does not return ends it.\<close>

definition heartbeat_round :: "ProxyChannelConfig \<Rightarrow> env \<Rightarrow> bool option \<Rightarrow> holder \<times> world \<Rightarrow> (holder \<times> world) \<times> bool" where
  "heartbeat_round conf e ping hw =
     (case hw of (h, w) \<Rightarrow>
       (let h' = check (eNow e) h in
        if muxSession h' \<noteq> None \<and> ePingable e \<and> ping = None then ((h', w), False)
        else (heartbeat_tick conf e (ping = Some True) hw, True)))"

fun heartbeat_rounds :: "ProxyChannelConfig \<Rightarrow> (env \<times> bool option) list \<Rightarrow> holder \<times> world \<Rightarrow> holder \<times> world" where
  "heartbeat_rounds conf [] hw = hw"
| "heartbeat_rounds conf ((e, ping) # rs) hw =
     (case heartbeat_round conf e ping hw of (hw', go) \<Rightarrow> if go then heartbeat_rounds conf rs hw' else hw')"

text \<open>The loop runs for a holder once a session of a transport that can be pinged has been made; nothing ends it.\<close>

definition heartbeat :: "ProxyChannelConfig \<Rightarrow> (env \<times> bool option) list \<Rightarrow> holder \<times> world \<Rightarrow> holder \<times> world" where
  "heartbeat conf rs hw = (if heartbeating (fst hw) then heartbeat_rounds conf rs hw else hw)"

section \<open>Properties\<close>

lemma round_keeps:
  assumes "muxSession h = Some i" "\<And>x. expireTime h = Some x \<Longrightarrow> eNow e \<le> x" "ping = None \<or> ping = Some True \<or> \<not> ePingable e"
  shows "fst (heartbeat_round conf e ping (h, w)) = (h, w)"
proof -
  have "check (eNow e) h = h" using assms(1,2) by (auto simp: check_def split: option.split)
  then show ?thesis using assms(1,3) by (auto simp: heartbeat_round_def heartbeat_tick_def Let_def)
qed

text \<open>a session over HTTP/2, QUIC or of a direct channel is kept whatever becomes of its connection: no answer to a ping, nor its
  failure, makes the heartbeats replace it before it expires.\<close>

theorem unnoticed_dead_connection:
  assumes "t \<in> {''DirectProxy'', ''QUICProxy'', ''HTTP2Proxy''}" "muxSession h = Some i"
    and "\<forall>(e, ping) \<in> set rs. ping \<in> range (session_Ping pmux t) \<and> (\<forall>x. expireTime h = Some x \<longrightarrow> eNow e \<le> x)"
  shows "heartbeat conf rs (h, w) = (h, w)"
proof -
  have p: "ping = None \<or> ping = Some True" if "ping \<in> range (session_Ping pmux t)" for ping
    using that assms(1) by (auto simp: session_Ping_def direct_Ping_def quic_Ping_def http2_Ping_def split: option.splits)
  have "heartbeat_rounds conf rs (h, w) = (h, w)" using assms(3)
  proof (induction rs)
    case (Cons r rs)
    obtain e ping where r: "r = (e, ping)" by (rule prod.exhaust)
    have "fst (heartbeat_round conf e ping (h, w)) = (h, w)"
      by (rule round_keeps [OF assms(2)]) (use Cons.prems p [of ping] r in auto)
    then show ?case using Cons by (auto simp: r split: prod.split)
  qed simp
  then show ?thesis by (simp add: heartbeat_def)
qed

lemma unnoticed_dead_connection_witness:
  "heartbeat zero_channel [(good_env, session_Ping (\<lambda>x. x) ''HTTP2Proxy'' (Some False))] ((new_holder ''s'')\<lparr>muxSession := Some 0\<rparr>, w) =
   ((new_holder ''s'')\<lparr>muxSession := Some 0\<rparr>, w)"
  by (rule unnoticed_dead_connection [where t = "''HTTP2Proxy''" and pmux = "\<lambda>x. x" and i = 0]) (auto simp: new_holder_def)

text \<open>A failed ping of the other transports closes the session, and a holder without one makes one when it has not been used for long.\<close>

lemma failed_ping_closes:
  assumes "muxSession h = Some i" "\<And>x. expireTime h = Some x \<Longrightarrow> eNow e \<le> x" "ePingable e"
  shows "heartbeat_round conf e (Some False) (h, w) = ((h\<lparr>muxSession := None\<rparr>, sess_Close i w), True)"
proof -
  have "check (eNow e) h = h" using assms(1,2) by (auto simp: check_def split: option.split)
  then show ?thesis using assms(1,3) by (simp add: heartbeat_round_def heartbeat_tick_def holder_close_def)
qed

lemma idle_holder_reconnects:
  assumes "muxSession h = None" "eCreate e" "eAuth e" "eAutoExpire e \<longrightarrow> expire_after (ePick e) conf \<noteq> None"
    and "\<not> lazyConnect conf" "HibernateAfterSecs conf < eNow e - activeTime h"
  shows "\<exists>h' w'. heartbeat_round conf e ping (h, w) = ((h', w'), True) \<and> muxSession h' = Some (wnext w) \<and> wclosed w' = wclosed w"
proof -
  have "check (eNow e) h = h" using assms(1) by (simp add: check_def)
  then show ?thesis using assms by (auto simp: heartbeat_round_def heartbeat_tick_def holder_init_def Let_def)
qed

text \<open>C20: stopping a client does not stop the heartbeats of its holders: the ping of a closed session fails, and when the holder has not been
  used for \<open>HibernateAfterSecs\<close> it connects to its server again, although no channel is left.\<close>

theorem stopped_client_reconnects:
  assumes stop: "Stop gwOrd keys cl = (ok, cl')" "set keys = dom (clTable cl)"
    and holder: "clTable cl name = Some ch" "h \<in> set (sessions ch)" "muxSession h = Some i" "heartbeating h"
    and closed: "\<forall>j \<in> wclosed (clWorld cl'). j < wnext (clWorld cl')"
    and ping: "ePingable e1" "\<And>x. expireTime h = Some x \<Longrightarrow> eNow e1 \<le> x"
    and again: "eCreate e2" "eAuth e2" "eAutoExpire e2 \<longrightarrow> expire_after (ePick e2) conf \<noteq> None" "\<not> lazyConnect conf"
      "HibernateAfterSecs conf < eNow e2 - activeTime h"
  shows "clTable cl' = Map.empty \<and> i \<in> wclosed (clWorld cl') \<and>
    (case heartbeat conf [(e1, Some False), (e2, p)] (h, clWorld cl') of
       (h', w') \<Rightarrow> \<exists>j. muxSession h' = Some j \<and> j \<notin> wclosed w')"
proof -
  let ?w = "clWorld cl'"
  have "i \<in> current_sessions ch" using holder(2,3) by (force simp: current_sessions_def)
  moreover have "name \<in> set keys" using holder(1) stop(2) by auto
  ultimately have i: "i \<in> wclosed ?w" and t: "clTable cl' = Map.empty"
    using stop(1) holder(1) by (force simp: Stop_def StopLocalChannels_def)+
  note r1 = failed_ping_closes [OF holder(3) ping(2,1), where conf = conf and w = ?w]
  obtain h' w' where r2: "heartbeat_round conf e2 p (h\<lparr>muxSession := None\<rparr>, sess_Close i ?w) = ((h', w'), True)"
    "muxSession h' = Some (wnext (sess_Close i ?w))" "wclosed w' = wclosed (sess_Close i ?w)"
    using idle_holder_reconnects [OF _ again(1-4), of "h\<lparr>muxSession := None\<rparr>" p "sess_Close i ?w"] again(5) by auto
  have "wnext ?w \<notin> wclosed (sess_Close i ?w)" using closed i by (auto simp: sess_Close_def)
  then show ?thesis using t i r1 r2 holder(4) by (simp add: heartbeat_def sess_Close_def)
qed

definition beating_holder :: holder where
  "beating_holder = (new_holder ''s'')\<lparr>muxSession := Some 0, heartbeating := True\<rparr>"

definition beating_client :: "udpSessionId list client" where
  "beating_client = (fresh_client zero_conf)\<lparr>clTable := [''a'' \<mapsto> (NewProxyChannel zero_channel)\<lparr>sessions := [beating_holder]\<rparr>],
     clWorld := no_sessions\<lparr>wnext := 1\<rparr>\<rparr>"

lemma stopped_client_reconnects_witness:
  "\<exists>j. muxSession (fst (heartbeat (zero_channel\<lparr>HibernateAfterSecs := 1800\<rparr>)
     [(good_env\<lparr>ePingable := True\<rparr>, Some False), (good_env\<lparr>eNow := 2000\<rparr>, None)]
     (beating_holder, clWorld (snd (Stop [] [''a''] beating_client))))) = Some j"
proof -
  define r where "r = Stop [] [''a''] beating_client"
  have s: "Stop [] [''a''] beating_client = (fst r, snd r)" by (simp add: r_def)
  have t: "clTable beating_client ''a'' = Some ((NewProxyChannel zero_channel)\<lparr>sessions := [beating_holder]\<rparr>)" "set [''a''] = dom (clTable beating_client)"
    by (simp_all add: beating_client_def)
  have h: "muxSession beating_holder = Some 0" "heartbeating beating_holder" "expireTime beating_holder = None" "activeTime beating_holder = 0"
    by (simp_all add: beating_holder_def new_holder_def)
  have c: "\<forall>j \<in> wclosed (clWorld (snd r)). j < wnext (clWorld (snd r))"
    by (auto simp: r_def Stop_def StopLocalChannels_def beating_client_def current_sessions_def no_sessions_def beating_holder_def split: option.splits if_splits)
  show ?thesis
    using stopped_client_reconnects [OF s t(2) t(1) _ h(1,2) c, where conf = "zero_channel\<lparr>HibernateAfterSecs := 1800\<rparr>"
        and ?e1.0 = "good_env\<lparr>ePingable := True\<rparr>" and ?e2.0 = "good_env\<lparr>eNow := 2000\<rparr>" and p = None] h
    by (auto simp: r_def good_env_def zero_channel_def split: prod.splits)
qed

end
