(* ===== verification/ClientLife.thy ===== *)
theory ClientLife
  imports LocalStart Platforms Administration
begin

text \<open>
  The life of a client above \<open>LocalStart\<close>: the entry points of an app (\<open>local/gsnova/gsnova.go\<close>) with the
  dial functions they set and reset, and what a configuration that is written while the client runs
  does to the connections that come in (\<open>watchConf\<close> of \<open>local/proxy.go\<close> against the accept loop of
  \<open>local/local_server.go\<close>).
\<close>

section \<open>An app\<close>

record proxy_options = options +
  poHome :: string
  poHosts :: string
  poCNIP :: string

text \<open>The client of an app with the settings of the protector and the functions of \<open>netx\<close>; \<open>mbHome\<close> is \<open>proxyHome\<close>,
  \<open>mbCNIP\<close> the file \<open>dns.Init\<close> was given.\<close>

record ('t, 'd, 'r, 'l, 'u) mobile =
  mbClient :: "'t client"
  mbProtector :: pconf
  mbNet :: "('d, 'r, 'l, 'u) netx"
  mbHome :: string
  mbCNIP :: string

text \<open>What a start finds: whether a watcher can be made, the file of the configuration, the loading of the hosts
  table, and the outcomes of \<open>StartProxy\<close>.\<close>

record start_args =
  saWatcher :: bool
  saFile :: "string option"
  saHosts :: "string \<Rightarrow> hosts \<Rightarrow> bool \<times> hosts"
  saEnv :: start_env

text \<open>\<open>prot\<close> are the functions of the protector, which a mark of the configuration sets as well.\<close>

definition StartLocalProxy :: "cipher_names \<Rightarrow> string \<Rightarrow> (string \<Rightarrow> client_conf \<Rightarrow> client_conf) \<Rightarrow> ('d, 'r, 'l, 'u) netx \<Rightarrow> start_args \<Rightarrow>
    string \<Rightarrow> string \<Rightarrow> string \<Rightarrow> string \<Rightarrow> bool \<Rightarrow> ('t, 'd, 'r, 'l, 'u) mobile \<Rightarrow> (bool \<times> ('t, 'd, 'r, 'l, 'u) mobile) option" where
  "StartLocalProxy nm arch json prot a home conf hosts cnip wc mb =
     (let op = \<lparr>opConfig = conf, opWatch = wc, poHome = home, poHosts = hosts, poCNIP = cnip\<rparr>; mb = mb\<lparr>mbHome := poHome op\<rparr>
      in case Start nm arch json (saWatcher a) (saFile a) (saHosts a (poHosts op)) (saEnv a) (options.truncate op) (mbClient mb) of
           None \<Rightarrow> None
         | Some (ok, cl) \<Rightarrow>
             Some (ok, mb\<lparr>mbClient := cl, mbCNIP := (if ok then poCNIP op else mbCNIP mb),
               mbNet := (if ok \<and> ccMark (clConf cl) > 0
                         then snd ((if seMarkable (saEnv a) then enableTransparentSocketMark (nxDial prot) (nxListenUDP prot) (nxDialUDP prot)
                                    else enableTransparentSocketMark_other) (ccMark (clConf cl)) (clMark cl, mbNet mb))
                         else mbNet mb)\<rparr>))"

text \<open>\<open>dflt\<close> are the functions of package \<open>net\<close>.\<close>

definition StopLocalProxy :: "('d, 'r, 'l, 'u) netx \<Rightarrow> nat list \<Rightarrow> string list \<Rightarrow> ('t, 'd, 'r, 'l, 'u) mobile \<Rightarrow> bool \<times> ('t, 'd, 'r, 'l, 'u) mobile" where
  "StopLocalProxy dflt gwOrd keys mb =
     (let mb = mb\<lparr>mbNet := netx_Reset (nxDial dflt) (nxResolve dflt) (nxListenUDP dflt) (nxDialUDP dflt) (mbNet mb)\<rparr>
      in case Stop gwOrd keys (mbClient mb) of (ok, cl) \<Rightarrow> (ok, mb\<lparr>mbClient := cl\<rparr>))"

definition mobile_ProtectConnections :: "('d, 'r, 'l, 'u) netx \<Rightarrow> string \<Rightarrow> ('t, 'd, 'r, 'l, 'u) mobile \<Rightarrow> ('t, 'd, 'r, 'l, 'u) mobile" where
  "mobile_ProtectConnections prot dns mb =
     (case ProtectConnections (nxDial prot) (nxResolve prot) (nxListenUDP prot) (nxDialUDP prot) dns (mbProtector mb, mbNet mb) of
        (c, n) \<Rightarrow> mb\<lparr>mbProtector := c, mbNet := n\<rparr>)"

text \<open>The directory of the certificates is that of the start; \<open>haveRoot\<close> and \<open>signs\<close> are its state.\<close>

definition CreateMITMCA :: "(string \<Rightarrow> bool) \<Rightarrow> (string \<Rightarrow> bool) \<Rightarrow> string \<Rightarrow> pki \<Rightarrow> bool \<times> pki" where
  "CreateMITMCA haveRoot signs dir st = (let d = dir @ ''/MITM'' in CreateRootCA (haveRoot d) (signs d) st)"

definition mobile_SyncConfig :: "(string \<Rightarrow> remote) \<Rightarrow> (string \<Rightarrow> bool) \<Rightarrow> int \<Rightarrow> (string \<Rightarrow> string list option) \<Rightarrow> string \<Rightarrow> string \<Rightarrow> files \<Rightarrow> bool option \<times> files" where
  "mobile_SyncConfig rm writes tm confList addr localDir fs = SyncConfig (rm addr) writes tm localDir (confList addr) fs"

section \<open>The calls of an app\<close>

datatype app_call =
    CallProtect string
  | CallStart start_args string string string string bool
  | CallStop "nat list" "string list"

fun app_run :: "cipher_names \<Rightarrow> string \<Rightarrow> (string \<Rightarrow> client_conf \<Rightarrow> client_conf) \<Rightarrow> ('d, 'r, 'l, 'u) netx \<Rightarrow> ('d, 'r, 'l, 'u) netx \<Rightarrow>
    app_call list \<Rightarrow> ('t, 'd, 'r, 'l, 'u) mobile \<Rightarrow> ('t, 'd, 'r, 'l, 'u) mobile option" where
  "app_run nm arch json prot dflt [] mb = Some mb"
| "app_run nm arch json prot dflt (c # cs) mb =
     (case (case c of
              CallProtect dns \<Rightarrow> Some (mobile_ProtectConnections prot dns mb)
            | CallStart a home conf hosts cnip wc \<Rightarrow> map_option snd (StartLocalProxy nm arch json prot a home conf hosts cnip wc mb)
            | CallStop gwOrd keys \<Rightarrow> Some (snd (StopLocalProxy dflt gwOrd keys mb))) of
        None \<Rightarrow> None
      | Some mb \<Rightarrow> app_run nm arch json prot dflt cs mb)"

text \<open>Whether the app is protected, as a flag: set by \<open>ProtectConnections\<close>, cleared by every stop.\<close>

definition call_flag :: "bool \<Rightarrow> app_call \<Rightarrow> bool" where
  "call_flag b c = (case c of CallProtect dns \<Rightarrow> True | CallStop gwOrd keys \<Rightarrow> False | _ \<Rightarrow> b)"

definition unmarked :: "app_call \<Rightarrow> bool" where
  "unmarked c = (case c of CallStart a home conf hosts cnip wc \<Rightarrow> \<not> seMarkable (saEnv a) | _ \<Rightarrow> True)"

section \<open>A configuration that changes\<close>

text \<open>The expression \<open>&GConf.Proxy[proxyIdx]\<close> of the accept loop; None is the index out of range, which ends the process.\<close>

definition accepted_proxy :: "client_conf \<Rightarrow> nat \<Rightarrow> ProxyConfig option" where
  "accepted_proxy conf i = (if i < length (ccProxy conf) then Some (ccProxy conf ! i) else None)"

text \<open>What happens in a running client: an event of the watcher, or a connection at the listener of a proxy.\<close>

datatype live_event = Watched watch_event | Accepted nat

fun live :: "cipher_names \<Rightarrow> string \<Rightarrow> (string \<Rightarrow> client_conf \<Rightarrow> client_conf) \<Rightarrow> live_event list \<Rightarrow> client_conf \<Rightarrow> (ProxyConfig list \<times> client_conf) option" where
  "live nm arch json [] conf = Some ([], conf)"
| "live nm arch json (Watched w # es) conf = live nm arch json es (watchConf nm arch json conf w)"
| "live nm arch json (Accepted i # es) conf =
     (case accepted_proxy conf i of None \<Rightarrow> None
      | Some p \<Rightarrow> map_option (apfst ((#) p)) (live nm arch json es conf))"

text \<open>The configurations a client reads while it runs.\<close>

definition configs_read :: "cipher_names \<Rightarrow> string \<Rightarrow> (string \<Rightarrow> client_conf \<Rightarrow> client_conf) \<Rightarrow> live_event list \<Rightarrow> client_conf set" where
  "configs_read nm arch json es = {snd (loadClientConf nm arch json f) | f. Watched (WatchWrite f) \<in> set es}"

section \<open>Properties\<close>

lemma protect_net: "mbNet (mobile_ProtectConnections prot dns mb) = prot"
  by (cases prot) (simp add: mobile_ProtectConnections_def ProtectConnections_def OverrideDialUDP_def OverrideListenUDP_def
      OverrideResolve_def OverrideDial_def)

lemma stop_net: "mbNet (snd (StopLocalProxy dflt gwOrd keys mb)) = dflt"
  by (cases dflt) (simp add: StopLocalProxy_def netx_Reset_def OverrideDialUDP_def OverrideListenUDP_def OverrideResolve_def
      OverrideDial_def split: prod.split)

lemma start_net:
  "StartLocalProxy nm arch json prot a home conf hosts cnip wc mb = Some (ok, mb') \<Longrightarrow> \<not> seMarkable (saEnv a) \<Longrightarrow> mbNet mb' = mbNet mb"
  by (auto simp: StartLocalProxy_def enableTransparentSocketMark_other_def Let_def split: option.splits prod.splits if_splits)

text \<open>on a system without the transparent proxy, such as Android, all four functions of an app are the protected ones exactly if
  \<open>ProtectConnections\<close> has been called since the last stop: a client that is started again dials past the protection.\<close>

theorem app_protected_until_stop:
  assumes "app_run nm arch json prot dflt cs mb = Some mb'" "\<forall>c \<in> set cs. unmarked c" "mbNet mb = (if b then prot else dflt)"
  shows "mbNet mb' = (if foldl call_flag b cs then prot else dflt)"
  using assms
proof (induction cs arbitrary: mb b)
  case (Cons c cs)
  show ?case
  proof (cases c)
    case (CallProtect dns)
    then show ?thesis using Cons.IH [of "mobile_ProtectConnections prot dns mb" True] Cons.prems
      by (simp add: protect_net call_flag_def)
  next
    case (CallStart a home conf hosts cnip wc)
    with Cons.prems(1) obtain ok mb1 where s: "StartLocalProxy nm arch json prot a home conf hosts cnip wc mb = Some (ok, mb1)"
      "app_run nm arch json prot dflt cs mb1 = Some mb'" by (auto split: option.splits)
    have "mbNet mb1 = (if b then prot else dflt)"
      using start_net [OF s(1)] Cons.prems(2,3) CallStart by (simp add: unmarked_def)
    then show ?thesis using Cons.IH [OF s(2)] Cons.prems(2) CallStart by (simp add: call_flag_def)
  next
    case (CallStop gwOrd keys)
    then show ?thesis using Cons.IH [of "snd (StopLocalProxy dflt gwOrd keys mb)" False] Cons.prems
      by (simp add: stop_net call_flag_def)
  qed
qed simp

lemma live_append:
  "live nm arch json (es @ fs) conf =
   (case live nm arch json es conf of None \<Rightarrow> None | Some (ps, c) \<Rightarrow> map_option (apfst ((@) ps)) (live nm arch json fs c))"
proof (induction nm arch json es conf rule: live.induct)
  case (1 nm arch json conf)
  show ?case by (cases "live nm arch json fs conf") (auto simp: apfst_def map_prod_def)
next
  case (3 nm arch json i es conf)
  show ?case
  proof (cases "accepted_proxy conf i")
    case (Some p)
    have "apfst ((#) p) \<circ> apfst ((@) qs) = (apfst ((@) (p # qs)) :: _ \<times> client_conf \<Rightarrow> _)" for qs by (auto simp: fun_eq_iff)
    with 3 Some show ?thesis by (auto split: option.split simp: option.map_comp)
  qed simp
qed simp

text \<open>As long as every configuration that is read has the proxies the client was started with, every connection is served.\<close>

lemma live_serves:
  assumes "\<forall>c \<in> insert conf (configs_read nm arch json es). n \<le> length (ccProxy c)" "\<forall>i. Accepted i \<in> set es \<longrightarrow> i < n"
  shows "live nm arch json es conf \<noteq> None"
  using assms
proof (induction nm arch json es conf rule: live.induct)
  case (2 nm arch json w es conf)
  have "\<forall>c \<in> insert (watchConf nm arch json conf w) (configs_read nm arch json es). n \<le> length (ccProxy c)"
    using 2(2) by (cases w) (auto simp: configs_read_def watchConf_def)
  then show ?case using 2(1,3) by simp
next
  case (3 nm arch json i es conf)
  have i: "i < n" "n \<le> length (ccProxy conf)" using 3(2,3) by simp_all
  have "\<forall>c \<in> insert conf (configs_read nm arch json es). n \<le> length (ccProxy c)" using 3(2) by (auto simp: configs_read_def)
  then show ?case using 3(1) [of "ccProxy conf ! i"] 3(3) i by (simp add: accepted_proxy_def)
qed simp

text \<open>a write that is seen while the file cannot be read, or holds no proxies yet because it is being written, ends the process at the
  next connection, whatever the client has done before.\<close>

theorem reload_of_partial_file_ends_client:
  assumes "live nm arch json es conf = Some (ps, conf')" "\<forall>w \<in> set ws. w = WatchOther \<or> w = WatchError"
    and "case ReadWithoutComment file ''//'' of None \<Rightarrow> True | Some data \<Rightarrow> ccProxy (json data zero_conf) = []"
  shows "live nm arch json (es @ Watched (WatchWrite file) # map Watched ws @ Accepted i # fs) conf = None"
proof -
  have z: "ccProxy (LocalConfig_init nm arch c) = ccProxy c" for c :: client_conf by (simp add: LocalConfig_init_def Let_def)
  have e: "ccProxy (snd (loadClientConf nm arch json file)) = []"
    using assms(3) by (auto simp: loadClientConf_def z zero_conf_def split: option.splits)
  have "live nm arch json (map Watched ws @ Accepted i # fs) c = None" if "ccProxy c = []" for c
    using assms(2) that by (induction ws) (auto simp: watchConf_def accepted_proxy_def)
  from this [OF e] show ?thesis by (simp add: live_append assms(1) watchConf_def)
qed

end
