(* ===== verification/RandomIds.thy ===== *)
theory RandomIds
  imports HttpDuplex
begin

text \<open>
  The random generator of a process (\<open>common/helper/rand.go\<close>) as the state it is: \<open>RandBetween\<close>, which draws the
  life of a session, seeds it with the second of the clock, and the identifiers of the HTTP channel
  (\<open>common/channel/http/local.go\<close>) are drawn from the same generator. The generator itself (\<open>math/rand\<close>) is an
  argument: \<open>seed\<close> is \<open>rand.Seed\<close> and \<open>intn\<close> is \<open>rand.Intn\<close> on the state.
\<close>

section \<open>The generator\<close>

text \<open>None is the panic of an empty interval, which comes after the seeding.\<close>

definition rng_RandBetween :: "(int \<Rightarrow> 's) \<Rightarrow> (nat \<Rightarrow> 's \<Rightarrow> nat \<times> 's) \<Rightarrow> int \<Rightarrow> int \<Rightarrow> int \<Rightarrow> 's \<Rightarrow> int option \<times> 's" where
  "rng_RandBetween seed intn tm lo hi s =
     (let s = seed tm in
      if hi - lo \<le> 0 then (None, s) else case intn (nat (hi - lo)) s of (v, s) \<Rightarrow> (Some (int v + lo), s))"

fun rng_ascii :: "(nat \<Rightarrow> 's \<Rightarrow> nat \<times> 's) \<Rightarrow> nat \<Rightarrow> 's \<Rightarrow> string \<times> 's" where
  "rng_ascii intn 0 s = ([], s)"
| "rng_ascii intn (Suc n) s =
     (case intn (length letterRunes) s of (v, s) \<Rightarrow>
        (case rng_ascii intn n s of (cs, s) \<Rightarrow> (letterRunes ! (v mod length letterRunes) # cs, s)))"

text \<open>What draws from the generator of a process: the life of a session, an identifier, and any other number. The identifiers drawn,
  and the state.\<close>

datatype draw = DrawLife int int int | DrawId nat | DrawNumber nat

fun rng_run :: "(int \<Rightarrow> 's) \<Rightarrow> (nat \<Rightarrow> 's \<Rightarrow> nat \<times> 's) \<Rightarrow> draw list \<Rightarrow> 's \<Rightarrow> string list \<times> 's" where
  "rng_run seed intn [] s = ([], s)"
| "rng_run seed intn (DrawLife tm lo hi # ds) s = rng_run seed intn ds (snd (rng_RandBetween seed intn tm lo hi s))"
| "rng_run seed intn (DrawId n # ds) s =
     (case rng_ascii intn n s of (i, s) \<Rightarrow> (case rng_run seed intn ds s of (is, s) \<Rightarrow> (i # is, s)))"
| "rng_run seed intn (DrawNumber n # ds) s = rng_run seed intn ds (snd (intn n s))"

section \<open>Lemmas\<close>

text \<open>These are the operations of \<open>HelperText\<close>, with the numbers the generator gives.\<close>

lemma rng_ascii_random: "\<exists>pick. fst (rng_ascii intn n s) = RandAsciiString pick n"
proof (induction n arbitrary: s)
  case (Suc n)
  obtain v s1 where v: "intn (length letterRunes) s = (v, s1)" by (rule prod.exhaust)
  obtain cs s2 where cs: "rng_ascii intn n s1 = (cs, s2)" by (rule prod.exhaust)
  with Suc [of s1] obtain pick where "cs = RandAsciiString pick n" by auto
  then have "fst (rng_ascii intn (Suc n) s) = RandAsciiString (\<lambda>i. case i of 0 \<Rightarrow> v | Suc j \<Rightarrow> pick j) (Suc n)"
    by (simp add: RandAsciiString_def v cs map_upt_Suc del: upt_Suc)
  then show ?case by blast
qed (simp add: RandAsciiString_def)

lemma rng_RandBetween_random:
  "\<exists>pick. fst (rng_RandBetween seed intn tm lo hi s) = RandBetween pick lo hi"
  by (rule exI [of _ "\<lambda>n. fst (intn n (seed tm))"]) (simp add: rng_RandBetween_def RandBetween_def Let_def split: prod.split)

lemma rng_run_append:
  "rng_run seed intn (as @ bs) s =
   (case rng_run seed intn as s of (is, s') \<Rightarrow> (case rng_run seed intn bs s' of (js, s'') \<Rightarrow> (is @ js, s'')))"
  by (induction seed intn as s rule: rng_run.induct) (auto split: prod.split)

text \<open>What was drawn before is forgotten with the next life that is drawn.\<close>

lemma drawn_after_life:
  "rng_run seed intn (DrawLife tm lo hi # ds) s = rng_run seed intn (DrawLife tm lo hi # ds) s'"
  by (simp add: rng_RandBetween_def)

lemma rng_ascii_length: "rng_ascii intn n s = (i, s') \<Longrightarrow> length i = n"
  by (induction n arbitrary: s i s') (auto split: prod.splits)

lemma rng_run_ends_with_id:
  "\<exists>js i s'. rng_run seed intn (ds @ [DrawId n]) s = (js @ [i], s') \<and> length i = n"
  by (auto simp: rng_run_append rng_ascii_length split: prod.split)

section \<open>Properties\<close>

text \<open>C13: two clients that draw the life of a session in the same second, with the same limits, and then the same numbers up to an
  identifier of the HTTP channel, draw the same identifier, whatever they have drawn before. The server takes the first push of the
  second client into the connection of the first, without a session of its own, and its pull takes the answers meant for the first.\<close>

theorem same_second_clients_share_connection:
  assumes a: "rng_run seed intn (hA @ DrawLife tm lo hi # ds @ [DrawId 64]) sA = (isA @ [idA], sA')"
    and b: "rng_run seed intn (hB @ DrawLife tm lo hi # ds @ [DrawId 64]) sB = (isB @ [idB], sB')"
    and conn: "tab idA = Some c" "scRunning c"
    and push: "sqId p = idB" "sqAck p = []" "\<not> HasSuffix (sqPath p) ''pull''"
    and pull: "sqId q = idB" "sqAck q = []" "HasSuffix (sqPath q) ''pull''"
  shows "idB = idA \<and>
    (\<exists>c'. HTTPInvoke rnd t ok w p tab = (Pushed (scShutdown c), tab(idA \<mapsto> c')) \<and> scRecv c' = scRecv c @ concat (sqBody p)) \<and>
    (\<exists>period c'. HTTPInvoke rnd t ok w q tab = (Pulling period, tab(idA \<mapsto> c')) \<and> scWriter c' = Some w)"
proof -
  let ?ds = "DrawLife tm lo hi # ds @ [DrawId 64]"
  obtain js i s'' where i: "rng_run seed intn ?ds sA = (js @ [i], s'')" "length i = 64"
    using rng_run_ends_with_id [of seed intn "DrawLife tm lo hi # ds" 64 sA] by auto
  have "rng_run seed intn ?ds s = (js @ [i], s'')" for s
    using drawn_after_life [of seed intn tm lo hi "ds @ [DrawId 64]" s sA] i(1) by simp
  then have id: "idA = i" "idB = i" using a b by (auto simp: rng_run_append simp del: rng_run.simps split: prod.splits)
  then have ne: "sqId p \<noteq> []" "sqId q \<noteq> []" using push(1) pull(1) i(2) by auto
  have g: "getHttpDuplexServConnByID rnd t idB True tab = (Some c, False, tab)" using conn(1) id by (simp add: getHttpDuplexServConnByID_def)
  have "HTTPInvoke rnd t ok w p tab = (Pushed (scShutdown c), tab(idA \<mapsto> setReader t (sqBody p) c))"
    using ne(1) g push id by (simp add: HTTPInvoke_def Let_def)
  moreover have "HTTPInvoke rnd t ok w q tab =
      (Pulling (if sqPeriod q \<le> 0 then 30 else sqPeriod q), tab(idA \<mapsto> setWriter t w c))"
    using ne(2) g pull id conn(2) by (simp add: HTTPInvoke_def setWriter_def sc_touch_def Let_def)
  ultimately show ?thesis using id by (auto simp: setWriter_def sc_touch_def)
qed

text \<open>A generator that counts.\<close>

definition counting :: "nat \<Rightarrow> nat \<Rightarrow> nat \<times> nat" where
  "counting n s = (s mod n, Suc s)"

definition example_id :: string where
  "example_id = fst (rng_ascii counting 64 101)"

definition example_request :: "string \<Rightarrow> sreq" where
  "example_request path = \<lparr>sqId = example_id, sqAck = [], sqPath = path, sqPeriod = 0, sqBody = [[1]]\<rparr>"

lemma same_second_clients_share_connection_witness:
  "\<exists>c'. HTTPInvoke (\<lambda>_. 0) 5 True 7 (example_request ''/http/push'') [example_id \<mapsto> (sc_init (\<lambda>_. 0) 0)\<lparr>scRecv := [9]\<rparr>] =
     (Pushed False, [example_id \<mapsto> c']) \<and> scRecv c' = [9, 1]"
proof -
  have life: "snd (rng_RandBetween nat counting 100 0 10 s) = 101" for s by (simp add: rng_RandBetween_def counting_def)
  have r: "rng_run nat counting (h @ DrawLife 100 0 10 # [] @ [DrawId 64]) s = ([] @ [example_id], snd (rng_ascii counting 64 101))"
    if "h = [] \<or> h = [DrawNumber 5]" for h s
    using that by (auto simp: life example_id_def split: prod.split)
  let ?tab = "[example_id \<mapsto> (sc_init (\<lambda>_. 0) 0)\<lparr>scRecv := [9]\<rparr>]" and ?p = "example_request ''/http/push''" and ?q = "example_request ''/http/pull''"
  have path: "\<not> HasSuffix (sqPath ?p) ''pull''" "HasSuffix (sqPath ?q) ''pull''"
    by (simp_all add: example_request_def HasSuffix_def suffix_to_prefix)
  have req: "sqId ?p = example_id" "sqAck ?p = []" "sqId ?q = example_id" "sqAck ?q = []"
    by (simp_all add: example_request_def)
  have c: "?tab example_id = Some ((sc_init (\<lambda>_. 0) 0)\<lparr>scRecv := [9]\<rparr>)" "scRunning ((sc_init (\<lambda>_. 0) 0)\<lparr>scRecv := [9]\<rparr>)"
    by (simp_all add: sc_init_def)
  have "\<exists>c'. HTTPInvoke (\<lambda>_. 0) 5 True 7 ?p ?tab = (Pushed (scShutdown ((sc_init (\<lambda>_. 0) 0)\<lparr>scRecv := [9]\<rparr>)), ?tab(example_id \<mapsto> c')) \<and>
      scRecv c' = scRecv ((sc_init (\<lambda>_. 0) 0)\<lparr>scRecv := [9]\<rparr>) @ concat (sqBody ?p)"
    by (rule same_second_clients_share_connection
        [where hA = "[DrawNumber 5]" and hB = "[]" and ds = "[]" and isA = "[]" and isB = "[]" and tm = 100 and lo = 0 and hi = 10
          and tab = ?tab and idA = example_id,
         OF r [of "[DrawNumber 5]" 3] r [of "[]" 8] c req(1,2) path(1) req(3,4) path(2), THEN conjunct2, THEN conjunct1]) simp_all
  then show ?thesis by (auto simp: example_request_def sc_init_def)
qed

end
