(* ===== verification/Spec2Isabelle.thy ===== *)
theory Spec2Isabelle
  imports SocksArgs Socks Socks5Client GoGlob Interfaces MuxMessage MuxSessions TlsSni HelperText HelperIO
    ChannelConfig MuxHolder ChannelTable P2PRooms ServerSession GfwList Hosts LocalPac DirectSsh HttpDuplex Protector
    UdpPacket UdpGw LocalServer P2PClient Transparent
    LocalStart Startup Transports Dump Certificates Administration Logging Relay HttpChunk HttpDownload EndToEnd ClientDial MuxStreams
    ByteQuantity Platforms Heartbeats ClientLife RandomIds
begin

text \<open>
  \<^bold>\<open>gsnova: a verification development\<close>

  \<open>gsnova\<close> is a proxy: a local process accepts SOCKS, HTTP and transparently redirected connections,
  selects a channel for each, and sends it as a stream of a multiplexed session to a remote process,
  which dials the destination or passes the stream on to the next server. The sources are the Go
  packages under \<open>src/\<close>.

  \<^bold>\<open>How the parts work together.\<close> A connection to \<open>local/local_server.go\<close> is first read as SOCKS
  (\<open>common/socks\<close>); its destination may be replaced by the server name of a TLS ClientHello
  (\<open>common/helper/sni.go\<close>). The PAC entries of \<open>local/config.go\<close> select a channel, with the GFW list
  (\<open>common/gfwlist\<close>), the hosts table (\<open>common/hosts\<close>) and the DNS (\<open>common/dns\<close>). The channel
  (\<open>common/channel/mux.go\<close>) keeps holders of sessions and gives a stream; the transports under
  \<open>common/channel/*\<close> make the sessions, with the stream types of \<open>common/mux\<close>. The client
  authenticates each session (\<open>common/channel/local.go\<close>), and each stream starts with a connect
  request (\<open>common/mux/mux.go\<close>). The server (\<open>common/channel/remote.go\<close>) authenticates the
  session, puts peers into rooms (\<open>remote_p2p.go\<close>) and routes the streams. Sockets are made
  through \<open>common/netx\<close>, which \<open>common/protector\<close> can replace. \<open>main.go\<close> turns flags or configuration
  files into the settings of a client (\<open>local/proxy.go\<close>, which starts channels and listeners) or of a
  server (\<open>remote/proxy.go\<close>, which starts the listeners of the transports). Packets of UDP gateways
  (\<open>local/udpgw.go\<close>) and of redirected connections (\<open>local/transparent_unix.go\<close>) become streams like
  the connections do, and two clients in one room become each other's server
  (\<open>common/channel/local_p2p.go\<close>).

  \<^bold>\<open>Theories.\<close>
  \<^item> \<open>Prelude\<close>: bytes, strings, endianness, rules on lists and maps, the \<open>named_theorems\<close>
    collections. \<open>Interfaces\<close>: the locales (self-delimiting codec, normaliser, machine with an
    invariant, machine driven by events, keyed store); each is interpreted on definitions of the
    model in the theory that provides them.
  \<^item> \<open>GoStrings\<close>, \<open>GoNet\<close>, \<open>GoGlob\<close>, \<open>GoBufio\<close>: what the program uses of Go's library: package
    \<open>strings\<close> and \<open>strconv\<close>, host-port pairs, IP addresses and URLs of \<open>net\<close>, \<open>filepath.Match\<close>,
    and \<open>bufio.Reader\<close> over a connection that delivers its bytes in arbitrary segments.
  \<^item> \<open>SocksArgs\<close>, \<open>Socks\<close>: \<open>common/socks/args.go\<close> and \<open>socks.go\<close>, the parameters in user names and
    the server side of SOCKS4a and SOCKS5. \<open>Socks5Client\<close>: the client side, \<open>ProxyDial\<close> and the IPv4
    helpers of \<open>common/helper/net.go\<close>.
  \<^item> \<open>HelperText\<close>, \<open>ByteQuantity\<close>, \<open>HelperIO\<close>, \<open>TlsSni\<close>: \<open>bytes.go\<close>, \<open>str.go\<close>, \<open>rand.go\<close>; \<open>io.go\<close>, \<open>chan.go\<close>,
    \<open>conn.go\<close>; \<open>sni.go\<close> of \<open>common/helper\<close>.
  \<^item> \<open>MuxMessage\<close>, \<open>MuxSessions\<close>: the messages and streams of \<open>common/mux/mux.go\<close>, and the HTTP/2,
    QUIC and WebSocket sessions of \<open>http2.go\<close>, \<open>quic.go\<close>, \<open>ws.go\<close>. \<open>MuxStreams\<close>: how a stream tells its session of its
    end, the wrappers of \<open>pmux\<close>, and the buffers of the copy loops.
  \<^item> \<open>ChannelConfig\<close>: \<open>config.go\<close>, \<open>local.go\<close> and \<open>dial.go\<close> of \<open>common/channel\<close>. \<open>MuxHolder\<close> and
    \<open>ChannelTable\<close>: its \<open>mux.go\<close>. \<open>P2PRooms\<close>: \<open>remote_p2p.go\<close>. \<open>ServerSession\<close>: \<open>remote.go\<close>.
    \<open>Relay\<close>: the copying handlers of both. \<open>EndToEnd\<close>: the local proxy, the connect request and the servers composed.
  \<^item> \<open>DirectSsh\<close>: the direct and SSH channels. \<open>HttpDuplex\<close>, \<open>HttpChunk\<close>, \<open>HttpDownload\<close>: both ends of the
    channel over HTTP requests, its chunked push, and the way back through the pulls. \<open>RandomIds\<close>: its identifiers and the generator of \<open>rand.go\<close>. \<open>Protector\<close>: \<open>common/protector\<close> and \<open>common/netx\<close>.
  \<^item> \<open>GfwList\<close>, \<open>Hosts\<close>, \<open>LocalPac\<close>: \<open>common/gfwlist\<close>, \<open>common/hosts\<close>, \<open>local/config.go\<close> with
    \<open>common/dns\<close>. \<open>common/gfwlist\<close> is a fork the program does not import: the list of \<open>local/config.go\<close>
    is that of \<open>gotoolkit\<close>, an argument of \<open>LocalPac\<close>.
  \<^item> \<open>LocalServer\<close>: \<open>serveProxyConn\<close> and the listeners of \<open>local/local_server.go\<close>. \<open>UdpPacket\<close>, \<open>UdpGw\<close>: the
    packets and the sessions of \<open>local/udpgw.go\<close>. \<open>Transparent\<close>: \<open>local/transparent_unix.go\<close>.
  \<^item> \<open>P2PClient\<close>: \<open>common/channel/local_p2p.go\<close>. \<open>Transports\<close>: the local and remote sides of the TCP,
    KCP, QUIC, HTTP/2 and WebSocket channels, and \<open>remote/web.go\<close>.
    \<open>Heartbeats\<close>: the pings of the transports and the loop of \<open>common/channel/mux.go\<close> that makes them.
  \<^item> \<open>Platforms\<close>: the files for Windows, MIPS and systems without the transparent proxy. \<open>ClientLife\<close>: the entry points
    for apps (\<open>local/gsnova\<close>) and the client whose configuration is written while it runs.
  \<^item> \<open>LocalStart\<close>: \<open>local/proxy.go\<close>. \<open>Startup\<close>: \<open>main.go\<close>, \<open>remote/config.go\<close>, \<open>remote/proxy.go\<close>.
  \<^item> \<open>Dump\<close>: \<open>common/dump/http.go\<close>. \<open>Certificates\<close>: \<open>common/helper/ca.go\<close> and \<open>common/fakecert\<close>.
    \<open>Administration\<close>: \<open>local/admin.go\<close>. \<open>Logging\<close>: \<open>common/logger\<close>. \<open>ClientDial\<close>: the dial functions of
    \<open>common/netx\<close>, the HTTP clients of \<open>common/channel/dial.go\<close> and the settings of \<open>common/dns\<close>.

  \<^bold>\<open>Conventions.\<close> A Go string is a list of characters, a byte slice a list of 8-bit words. An operation
  that may fail returns a sum, an operation on shared state the new state. A Go panic is a value of
  its own (a constructor, or \<open>None\<close> where the text says so). The order in which Go ranges over a map
  is an argument. Goroutines that interleave are step relations or event lists. Code outside
  \<open>src/\<close> is an argument: \<open>msgpack\<close>, \<open>snappy\<close>, \<open>pmux\<close>, regular expressions, JSON, the
  country database, the outcomes of system calls and of the network.

  \<^bold>\<open>What the lemmas show.\<close> The SOCKS theories: for every segmentation of the input the handshakes give
  exact replies and requests, and client and server understand each other; the escape syntax
  round-trips. \<open>MuxMessage\<close>: frames form a prefix codec, the authentication exchange delivers both
  messages and fails closed. \<open>MuxSessions\<close>, \<open>MuxStreams\<close>: counting invariants and the byte stream over messages.
  \<open>MuxHolder\<close>, \<open>ChannelTable\<close>: the sessions kept are open, retired ones are closed exactly when idle, a
  channel finds a stream when one of its holders has one. \<open>ServerSession\<close>, \<open>P2PRooms\<close>: nothing is
  served before authentication, rooms have one or two members, hops are followed. \<open>Relay\<close>: bytes are
  relayed exactly in every interleaving, and which end closes the other. \<open>EndToEnd\<close>: the last server dials
  what the client asked for, and the bytes pass through all relays. \<open>HttpDuplex\<close>:
  what the server reads is a prefix of what the client wrote, with a refinement from the push loop
  to the byte stream. \<open>HttpDownload\<close>: the way back is exact while no response breaks, and in order always.
  \<open>RandomIds\<close>: clients whose identifiers coincide share a connection of the server.
  \<open>LocalServer\<close>: a connection is served with the destination its client asked for
  and cleaned up on every path. \<open>UdpPacket\<close>, \<open>UdpGw\<close>, \<open>Transparent\<close>: packets are read back from any
  segmentation, idle sessions and only they expire, replies go to the session of the packet.
  \<open>P2PClient\<close>: two peers take opposite roles, a turn dials the addresses of one peer. \<open>LocalStart\<close>,
  \<open>Startup\<close>, \<open>Transports\<close>: the settings that flags and files give reach the code that uses them, or
  do not; what has been started is stopped; the two ends of a transport agree. \<open>Heartbeats\<close>: which dead connections are noticed,
  and that a stopped client connects again. \<open>ClientLife\<close>: when an app is protected, and what a half-written configuration does.
  \<open>ByteQuantity\<close>: the error of a printed quantity that is read back. \<open>Dump\<close>: when the
  dump keeps a connection waiting. \<open>Certificates\<close>, \<open>Administration\<close>, \<open>Logging\<close>: names that match,
  synchronisation that settles, files that stay bounded. \<open>Protector\<close>: descriptors are accounted for on every path. \<open>Hosts\<close>, \<open>GfwList\<close>,
  \<open>LocalPac\<close>: rotation, termination, and which rule decides. Several theorems state faults of the
  code as they are: the model follows the source.

  \<^bold>\<open>Fuel.\<close> \<open>getHost\<close> recurses on aliases without a bound in the source, so it has fuel; fuel above
  the rank of a name is enough for acyclic aliases, and for a cycle none is. \<open>v6_groups\<close> has the eight
  groups of an IPv6 address as its bound. \<open>follow\<close> (a chain of servers) needs one step more than the
  number of hops. All other recursions are structural or have a proved measure.

  \<^bold>\<open>Not modelled.\<close> The output of statistics, profiles and log lines (formatting only); the pages of
  the HTTP server; the contents of certificates and keys, which are those of package \<open>crypto\<close>; the
  accessors that return a constant (\<open>StreamID\<close>, \<open>LocalAddr\<close> and \<open>RemoteAddr\<close> of the sessions without addresses); the logo.
\<close>

end
